(* ===== verification/Prelude.thy ===== *)
theory Prelude
  imports Main "HOL-Library.Word" "HOL-Library.Code_Target_Numeral"
begin

text \<open>
  Shared vocabulary of the development: machine integers, results with Rust's two ways of
  failing (an \<open>Err\<close> value and a panic), the \<open>?\<close> operator, slice access, little-endian
  integer codecs and the facts about them that every parser and serializer proof uses.

  Conventions.
  \<^item> A byte is an \<open>8 word\<close>; \<open>u16\<close>, \<open>u32\<close> and \<open>u64\<close> are words of their width.
  \<^item> \<open>usize\<close> is a natural number at most \<open>usize_max\<close> (a 64-bit target); every checked
    addition of the code is \<open>checked_add\<close>, every unchecked one is \<open>uadd\<close>, which panics.
  \<^item> \<open>[u8; N]\<close> and \<open>Vec<u8>\<close> are byte lists; a fixed length is part of the
    well-formedness predicate of the record that holds the array.
  \<^item> \<open>isize_max\<close> bounds the length of every Rust allocation, so a slice of the program is
    a byte list no longer than that.
\<close>

unbundle bit_operations_syntax

named_theorems codec \<open>round trips and lengths of the byte codecs\<close>
named_theorems slices \<open>slice access on concatenations\<close>
named_theorems result_elims \<open>case analysis on results\<close>

declare add_2_eq_Suc [simp del] add_2_eq_Suc' [simp del]

subsection \<open>Machine integers\<close>

type_synonym byte = "8 word"
type_synonym u16 = "16 word"
type_synonym u32 = "32 word"
type_synonym u64 = "64 word"

definition usize_max :: nat where
  "usize_max = 18446744073709551615"

definition isize_max :: nat where
  "isize_max = 9223372036854775807"

definition u32_max :: nat where
  "u32_max = 4294967295"

definition u16_max :: nat where
  "u16_max = 65535"

definition checked_add :: "nat \<Rightarrow> nat \<Rightarrow> nat option" where
  "checked_add a b = (if a + b \<le> usize_max then Some (a + b) else None)"

definition checked_sub :: "nat \<Rightarrow> nat \<Rightarrow> nat option" where
  "checked_sub a b = (if b \<le> a then Some (a - b) else None)"

definition checked_mul :: "nat \<Rightarrow> nat \<Rightarrow> nat option" where
  "checked_mul a b = (if a * b \<le> usize_max then Some (a * b) else None)"

lemma checked_add_Some [simp]: "checked_add a b = Some c \<longleftrightarrow> c = a + b \<and> a + b \<le> usize_max"
  by (auto simp: checked_add_def)

lemma checked_add_fits [simp]: "a + b \<le> usize_max \<Longrightarrow> checked_add a b = Some (a + b)"
  by (simp add: checked_add_def)

lemma checked_mul_Some [simp]: "checked_mul a b = Some c \<longleftrightarrow> c = a * b \<and> a * b \<le> usize_max"
  by (auto simp: checked_mul_def)

lemma checked_sub_Some [simp]: "checked_sub a b = Some c \<longleftrightarrow> c = a - b \<and> b \<le> a"
  by (auto simp: checked_sub_def)

lemma unat_u16_bound: "unat (x :: u16) \<le> u16_max"
  using unsigned_less [of x, where ?'a = nat] by (simp add: u16_max_def)

lemma unat_u32_bound: "unat (x :: u32) \<le> u32_max"
  using unsigned_less [of x, where ?'a = nat] by (simp add: u32_max_def)

lemma unat_u64_bound: "unat (x :: u64) \<le> usize_max"
  using unsigned_less [of x, where ?'a = nat] by (simp add: usize_max_def)

lemma unat_u16_lt: "unat (x :: u16) < 65536"
  using unsigned_less [of x, where ?'a = nat] by simp

lemma unat_u32_lt: "unat (x :: u32) < 4294967296"
  using unsigned_less [of x, where ?'a = nat] by simp

lemma unat_u64_lt: "unat (x :: u64) < 18446744073709551616"
  using unsigned_less [of x, where ?'a = nat] by simp

lemma unat_byte_lt: "unat (x :: byte) < 256"
  using unsigned_less [of x, where ?'a = nat] by simp

lemma unat_inj: "unat a = unat b \<longleftrightarrow> a = b"
  by (simp add: word_unat_eq_iff)

subsection \<open>Results, errors and panics\<close>

text \<open>
  A fallible Rust function returns \<open>Ok\<close>, returns \<open>Err\<close> or panics (an out-of-range index,
  an arithmetic overflow). \<open>Inr\<close> is \<open>Ok\<close>; the two failures are told apart so that the
  absence of panics is a statement of its own.
\<close>

datatype 'e fault = Err 'e | Panic

type_synonym ('e, 'a) rs = "'e fault + 'a"

abbreviation ok :: "'a \<Rightarrow> ('e, 'a) rs" where
  "ok \<equiv> Inr"

abbreviation err :: "'e \<Rightarrow> ('e, 'a) rs" where
  "err e \<equiv> Inl (Err e)"

abbreviation panic :: "('e, 'a) rs" where
  "panic \<equiv> Inl Panic"

text \<open>\<open>and_then\<close> is the \<open>?\<close> operator followed by the rest of the function.\<close>

definition and_then :: "('e, 'a) rs \<Rightarrow> ('a \<Rightarrow> ('e, 'b) rs) \<Rightarrow> ('e, 'b) rs" where
  "and_then r f = (case r of Inl e \<Rightarrow> Inl e | Inr x \<Rightarrow> f x)"

lemma and_then_simps [simp]:
  "and_then (Inr x) f = f x"
  "and_then (Inl e) f = Inl e"
  by (simp_all add: and_then_def)

lemma and_then_Inr [simp]: "and_then r f = Inr y \<longleftrightarrow> (\<exists>x. r = Inr x \<and> f x = Inr y)"
  by (cases r) simp_all

lemma and_then_Inl: "and_then r f = Inl e \<longleftrightarrow> r = Inl e \<or> (\<exists>x. r = Inr x \<and> f x = Inl e)"
  by (cases r) simp_all

lemma and_then_cong [fundef_cong]:
  "r = r' \<Longrightarrow> (\<And>x. r' = Inr x \<Longrightarrow> f x = f' x) \<Longrightarrow> and_then r f = and_then r' f'"
  by (cases r') simp_all

lemma and_then_assoc: "and_then (and_then r f) g = and_then r (\<lambda>x. and_then (f x) g)"
  by (cases r) simp_all

definition ok_or :: "'a option \<Rightarrow> 'e \<Rightarrow> ('e, 'a) rs" where
  "ok_or x e = (case x of None \<Rightarrow> err e | Some y \<Rightarrow> Inr y)"

lemma ok_or_simps [simp]:
  "ok_or (Some y) e = Inr y"
  "ok_or None e = err e"
  by (simp_all add: ok_or_def)

lemma ok_or_Inr [simp]: "ok_or x e = Inr y \<longleftrightarrow> x = Some y"
  by (cases x) simp_all

definition map_err :: "('e, 'a) rs \<Rightarrow> 'f \<Rightarrow> ('f, 'a) rs" where
  "map_err r f = (case r of Inr x \<Rightarrow> Inr x | Inl (Err _) \<Rightarrow> err f | Inl Panic \<Rightarrow> panic)"

lemma map_err_simps [simp]:
  "map_err (Inr x) f = Inr x"
  "map_err (err e) f = err f"
  "map_err panic f = panic"
  by (simp_all add: map_err_def)

lemma map_err_Inr [simp]: "map_err r f = Inr x \<longleftrightarrow> r = Inr x"
  by (auto simp: map_err_def split: sum.splits fault.splits)

definition is_ok :: "('e, 'a) rs \<Rightarrow> bool" where
  "is_ok r = (case r of Inl _ \<Rightarrow> False | Inr _ \<Rightarrow> True)"

lemma is_ok_simps [simp]: "is_ok (Inr x)" "\<not> is_ok (Inl e)"
  by (simp_all add: is_ok_def)

lemma is_ok_iff: "is_ok r \<longleftrightarrow> (\<exists>x. r = Inr x)"
  by (cases r) simp_all

subsection \<open>Absence of panics\<close>

definition no_panic :: "('e, 'a) rs \<Rightarrow> bool" where
  "no_panic r \<longleftrightarrow> r \<noteq> panic"

lemma no_panic_simps [simp]: "no_panic (Inr x)" "no_panic (err e)" "\<not> no_panic panic"
  by (simp_all add: no_panic_def)

lemma no_panic_and_then:
  "no_panic r \<Longrightarrow> (\<And>x. r = Inr x \<Longrightarrow> no_panic (f x)) \<Longrightarrow> no_panic (and_then r f)"
  by (cases r) (auto simp: no_panic_def)

lemma no_panic_ok_or [simp]: "no_panic (ok_or x e)"
  by (cases x) simp_all

lemma no_panic_map_err [simp]: "no_panic (map_err r f) \<longleftrightarrow> no_panic r"
  by (auto simp: map_err_def no_panic_def split: sum.splits fault.splits)

lemma no_panic_if:
  "(b \<Longrightarrow> no_panic x) \<Longrightarrow> (\<not> b \<Longrightarrow> no_panic y) \<Longrightarrow> no_panic (if b then x else y)"
  by simp

lemma no_panic_split: "(\<And>x y. p = (x, y) \<Longrightarrow> no_panic (f x y)) \<Longrightarrow> no_panic (case p of (x, y) \<Rightarrow> f x y)"
  by (cases p) simp

lemma no_panic_option:
  "(x = None \<Longrightarrow> no_panic a) \<Longrightarrow> (\<And>y. x = Some y \<Longrightarrow> no_panic (b y)) \<Longrightarrow>
    no_panic (case x of None \<Rightarrow> a | Some y \<Rightarrow> b y)"
  by (cases x) simp_all

lemmas no_panic_intros = no_panic_if no_panic_and_then no_panic_split no_panic_option

text \<open>Unchecked arithmetic on \<open>usize\<close>: an overflow panics.\<close>

definition uadd :: "nat \<Rightarrow> nat \<Rightarrow> ('e, nat) rs" where
  "uadd a b = (if a + b \<le> usize_max then Inr (a + b) else panic)"

definition usub :: "nat \<Rightarrow> nat \<Rightarrow> ('e, nat) rs" where
  "usub a b = (if b \<le> a then Inr (a - b) else panic)"

lemma uadd_Inr [simp]: "uadd a b = Inr c \<longleftrightarrow> c = a + b \<and> a + b \<le> usize_max"
  by (auto simp: uadd_def)

lemma uadd_fits [simp]: "a + b \<le> usize_max \<Longrightarrow> uadd a b = Inr (a + b)"
  by (simp add: uadd_def)

lemma usub_Inr [simp]: "usub a b = Inr c \<longleftrightarrow> c = a - b \<and> b \<le> a"
  by (auto simp: usub_def)

lemma usub_fits [simp]: "b \<le> a \<Longrightarrow> usub a b = Inr (a - b)"
  by (simp add: usub_def)

lemma no_panic_uadd [simp]: "no_panic (uadd a b) \<longleftrightarrow> a + b \<le> usize_max"
  by (simp add: uadd_def)

lemma no_panic_usub [simp]: "no_panic (usub a b) \<longleftrightarrow> b \<le> a"
  by (simp add: usub_def)

text \<open>Conversions between integer types (\<open>try_from\<close>), with the caller's error.\<close>

definition to_u32 :: "nat \<Rightarrow> 'e \<Rightarrow> ('e, u32) rs" where
  "to_u32 n e = (if n \<le> u32_max then Inr (of_nat n) else err e)"

definition to_u16 :: "nat \<Rightarrow> 'e \<Rightarrow> ('e, u16) rs" where
  "to_u16 n e = (if n \<le> u16_max then Inr (of_nat n) else err e)"

definition to_u64 :: "nat \<Rightarrow> 'e \<Rightarrow> ('e, u64) rs" where
  "to_u64 n e = (if n \<le> usize_max then Inr (of_nat n) else err e)"

definition to_usize :: "nat \<Rightarrow> 'e \<Rightarrow> ('e, nat) rs" where
  "to_usize n e = (if n \<le> usize_max then Inr n else err e)"

lemma to_usize_u32 [simp]: "to_usize (unat (x :: u32)) e = Inr (unat x)"
  using unat_u32_lt [of x] by (simp add: to_usize_def usize_max_def)

lemma to_usize_u64 [simp]: "to_usize (unat (x :: u64)) e = Inr (unat x)"
  by (simp add: to_usize_def unat_u64_bound)

lemma to_u32_Inr [simp]: "to_u32 n e = Inr x \<longleftrightarrow> n \<le> u32_max \<and> x = of_nat n"
  by (auto simp: to_u32_def)

lemma to_u16_Inr [simp]: "to_u16 n e = Inr x \<longleftrightarrow> n \<le> u16_max \<and> x = of_nat n"
  by (auto simp: to_u16_def)

lemma to_u64_Inr [simp]: "to_u64 n e = Inr x \<longleftrightarrow> n \<le> usize_max \<and> x = of_nat n"
  by (auto simp: to_u64_def)

lemma no_panic_to [simp]:
  "no_panic (to_u16 n e)" "no_panic (to_u32 n e)" "no_panic (to_u64 n e)" "no_panic (to_usize n e)"
  by (simp_all add: to_u16_def to_u32_def to_u64_def to_usize_def)

lemma unat_of_nat_u16 [simp]: "n \<le> u16_max \<Longrightarrow> unat (of_nat n :: u16) = n"
  by (simp add: unat_of_nat u16_max_def)

lemma unat_of_nat_u32 [simp]: "n \<le> u32_max \<Longrightarrow> unat (of_nat n :: u32) = n"
  by (simp add: unat_of_nat u32_max_def)

lemma unat_of_nat_u64 [simp]: "n \<le> usize_max \<Longrightarrow> unat (of_nat n :: u64) = n"
  by (simp add: unat_of_nat usize_max_def)

subsection \<open>Slices\<close>

text \<open>\<open>get_range xs a b\<close> is \<open>xs.get(a..b)\<close>; \<open>index_range\<close> is \<open>xs[a..b]\<close>, which panics.\<close>

definition get_range :: "'a list \<Rightarrow> nat \<Rightarrow> nat \<Rightarrow> 'a list option" where
  "get_range xs a b = (if a \<le> b \<and> b \<le> length xs then Some (take (b - a) (drop a xs)) else None)"

definition get_from :: "'a list \<Rightarrow> nat \<Rightarrow> 'a list option" where
  "get_from xs a = (if a \<le> length xs then Some (drop a xs) else None)"

definition index_range :: "'a list \<Rightarrow> nat \<Rightarrow> nat \<Rightarrow> ('e, 'a list) rs" where
  "index_range xs a b =
     (if a \<le> b \<and> b \<le> length xs then Inr (take (b - a) (drop a xs)) else panic)"

definition index_at :: "'a list \<Rightarrow> nat \<Rightarrow> ('e, 'a) rs" where
  "index_at xs i = (if i < length xs then Inr (xs ! i) else panic)"

lemma get_range_Some:
  "get_range xs a b = Some ys \<longleftrightarrow> a \<le> b \<and> b \<le> length xs \<and> ys = take (b - a) (drop a xs)"
  by (auto simp: get_range_def)

lemma get_range_length: "get_range xs a b = Some ys \<Longrightarrow> length ys = b - a"
  by (auto simp: get_range_Some)

lemma get_range_split:
  "get_range xs a b = Some ys \<Longrightarrow> drop a xs = ys @ drop b xs"
  by (auto simp: get_range_Some)
     (metis add.commute append_take_drop_id drop_drop le_add_diff_inverse2)

lemma get_range_app_right [slices]:
  "length xs \<le> a \<Longrightarrow> length xs \<le> b \<Longrightarrow>
    get_range (xs @ ys) a b = get_range ys (a - length xs) (b - length xs)"
  by (auto simp: get_range_def)

lemma get_range_app_head [slices]: "n = length xs \<Longrightarrow> get_range (xs @ ys) 0 n = Some xs"
  by (simp add: get_range_def)

lemma get_range_all [slices]: "n = length xs \<Longrightarrow> get_range xs 0 n = Some xs"
  by (simp add: get_range_def)

lemma get_range_take:
  "b \<le> n \<Longrightarrow> n \<le> length xs \<Longrightarrow> get_range (take n xs) a b = get_range xs a b"
  by (auto simp: get_range_def drop_take min_def)

lemma index_range_get: "index_range xs a b = (case get_range xs a b of None \<Rightarrow> panic | Some ys \<Rightarrow> Inr ys)"
  by (simp add: index_range_def get_range_def)

lemma index_range_Inr [simp]: "index_range xs a b = Inr ys \<longleftrightarrow> get_range xs a b = Some ys"
  by (auto simp: index_range_get split: option.splits)

lemma no_panic_index_range [simp]: "no_panic (index_range xs a b) \<longleftrightarrow> a \<le> b \<and> b \<le> length xs"
  by (simp add: index_range_def)

lemma no_panic_index_at [simp]: "no_panic (index_at xs i) \<longleftrightarrow> i < length xs"
  by (simp add: index_at_def)

lemma index_at_Inr [simp]: "index_at xs i = Inr x \<longleftrightarrow> i < length xs \<and> x = xs ! i"
  by (auto simp: index_at_def)

text \<open>
  \<open>holds_at xs off ys\<close>: the slice of \<open>xs\<close> at \<open>off\<close> is \<open>ys\<close>. Serializers establish it for
  every field by splitting the appends; parsers consume it field by field.
\<close>

definition holds_at :: "'a list \<Rightarrow> nat \<Rightarrow> 'a list \<Rightarrow> bool" where
  "holds_at xs off ys \<longleftrightarrow> off + length ys \<le> length xs \<and> take (length ys) (drop off xs) = ys"

lemma holds_at_self [simp]: "holds_at xs 0 xs"
  by (simp add: holds_at_def)

lemma holds_at_Nil [simp]: "holds_at xs off [] \<longleftrightarrow> off \<le> length xs"
  by (simp add: holds_at_def)

lemma holds_at_append:
  "holds_at xs off (ys @ zs) \<longleftrightarrow> holds_at xs off ys \<and> holds_at xs (off + length ys) zs"
  by (auto simp: holds_at_def take_add add.commute)

lemma holds_at_Cons: "holds_at xs off (y # zs) \<longleftrightarrow> off < length xs \<and> xs ! off = y \<and> holds_at xs (off + 1) zs"
  using holds_at_append [of xs off "[y]" zs]
  by (auto simp: holds_at_def take_Suc_conv_app_nth hd_drop_conv_nth Suc_le_eq take_Suc)

lemma holds_at_bound: "holds_at xs off ys \<Longrightarrow> off + length ys \<le> length xs"
  by (simp add: holds_at_def)

lemma holds_at_in_append:
  "off = length xs \<Longrightarrow> holds_at (xs @ ys @ zs) off ys"
  by (simp add: holds_at_def)

lemma get_range_holds_at:
  "get_range xs a b = Some ys \<longleftrightarrow> holds_at xs a ys \<and> b = a + length ys"
  by (auto simp: get_range_def holds_at_def min_def split: if_splits)

lemma holds_at_whole: "holds_at xs 0 ys \<Longrightarrow> length xs = length ys \<Longrightarrow> xs = ys"
  by (simp add: holds_at_def)

lemma holds_at_take_drop:
  "a + n \<le> length xs \<Longrightarrow> holds_at xs a (take n (drop a xs))"
  by (simp add: holds_at_def min_def)

subsection \<open>Little-endian integers\<close>

primrec le_enc :: "nat \<Rightarrow> nat \<Rightarrow> byte list" where
  "le_enc 0 x = []"
| "le_enc (Suc n) x = of_nat (x mod 256) # le_enc n (x div 256)"

primrec le_dec :: "byte list \<Rightarrow> nat" where
  "le_dec [] = 0"
| "le_dec (b # bs) = unat b + 256 * le_dec bs"

lemma le_enc_numeral: "le_enc (numeral k) x = of_nat (x mod 256) # le_enc (pred_numeral k) (x div 256)"
  by (simp only: numeral_eq_Suc le_enc.simps)

lemma length_le_enc [simp, codec]: "length (le_enc n x) = n"
  by (induction n arbitrary: x) simp_all

lemma le_dec_bound: "le_dec bs < 256 ^ length bs"
proof (induction bs)
  case Nil
  then show ?case by simp
next
  case (Cons b bs)
  then have "Suc (le_dec bs) \<le> 256 ^ length bs" by simp
  then have "256 * Suc (le_dec bs) \<le> 256 * 256 ^ length bs" by (rule mult_le_mono2)
  then show ?case using unat_byte_lt [of b] by simp
qed

lemma le_dec_enc [codec]: "le_dec (le_enc n x) = x mod 256 ^ n"
proof (induction n arbitrary: x)
  case 0
  then show ?case by simp
next
  case (Suc n)
  have "unat (of_nat (x mod 256) :: byte) = x mod 256"
    by (simp add: unat_of_nat)
  moreover have "x mod 256 + 256 * (x div 256 mod 256 ^ n) = x mod (256 * 256 ^ n)"
    by (simp add: mod_mult2_eq add.commute)
  ultimately show ?case using Suc by simp
qed

lemma le_enc_dec: "n = length bs \<Longrightarrow> le_enc n (le_dec bs) = bs"
proof (induction bs arbitrary: n)
  case Nil
  then show ?case by simp
next
  case (Cons b bs)
  have "(unat b + 256 * le_dec bs) mod 256 = unat b" "(unat b + 256 * le_dec bs) div 256 = le_dec bs"
    using unat_byte_lt [of b] by simp_all
  then show ?case using Cons by simp
qed

definition u16_le :: "u16 \<Rightarrow> byte list" where
  "u16_le x = le_enc 2 (unat x)"

definition u32_le :: "u32 \<Rightarrow> byte list" where
  "u32_le x = le_enc 4 (unat x)"

definition u64_le :: "u64 \<Rightarrow> byte list" where
  "u64_le x = le_enc 8 (unat x)"

definition u16_from_le :: "byte list \<Rightarrow> u16" where
  "u16_from_le bs = of_nat (le_dec bs)"

definition u32_from_le :: "byte list \<Rightarrow> u32" where
  "u32_from_le bs = of_nat (le_dec bs)"

definition u64_from_le :: "byte list \<Rightarrow> u64" where
  "u64_from_le bs = of_nat (le_dec bs)"

lemma length_u_le [simp, codec]:
  "length (u16_le x) = 2" "length (u32_le y) = 4" "length (u64_le z) = 8"
  by (simp_all add: u16_le_def u32_le_def u64_le_def)

lemma of_nat_unat_mod:
  "unat (x :: 'a::len word) < m \<Longrightarrow> (of_nat (unat x mod m) :: 'a word) = x"
  by simp

lemma u16_roundtrip [simp, codec]: "u16_from_le (u16_le x) = x"
  unfolding u16_from_le_def u16_le_def le_dec_enc
  by (rule of_nat_unat_mod) (use unat_u16_lt [of x] in simp)

lemma u32_roundtrip [simp, codec]: "u32_from_le (u32_le x) = x"
  unfolding u32_from_le_def u32_le_def le_dec_enc
  by (rule of_nat_unat_mod) (use unat_u32_lt [of x] in simp)

lemma u64_roundtrip [simp, codec]: "u64_from_le (u64_le x) = x"
  unfolding u64_from_le_def u64_le_def le_dec_enc
  by (rule of_nat_unat_mod) (use unat_u64_lt [of x] in simp)

lemma le_dec_fits: "length bs = n \<Longrightarrow> 256 ^ n = (m::nat) \<Longrightarrow> le_dec bs < m"
  using le_dec_bound [of bs] by simp

lemma u16_le_from [simp]: "length bs = 2 \<Longrightarrow> u16_le (u16_from_le bs) = bs"
proof -
  assume len: "length bs = 2"
  then have "le_dec bs \<le> u16_max"
    using le_dec_fits [of bs 2 65536] by (simp add: u16_max_def)
  then show ?thesis
    unfolding u16_le_def u16_from_le_def using len by (simp only: unat_of_nat_u16 le_enc_dec)
qed

lemma u32_le_from [simp]: "length bs = 4 \<Longrightarrow> u32_le (u32_from_le bs) = bs"
proof -
  assume len: "length bs = 4"
  then have "le_dec bs \<le> u32_max"
    using le_dec_fits [of bs 4 4294967296] by (simp add: u32_max_def)
  then show ?thesis
    unfolding u32_le_def u32_from_le_def using len by (simp only: unat_of_nat_u32 le_enc_dec)
qed

lemma u64_le_from [simp]: "length bs = 8 \<Longrightarrow> u64_le (u64_from_le bs) = bs"
proof -
  assume len: "length bs = 8"
  then have "le_dec bs \<le> usize_max"
    using le_dec_fits [of bs 8 18446744073709551616] by (simp add: usize_max_def)
  then show ?thesis
    unfolding u64_le_def u64_from_le_def using len by (simp only: unat_of_nat_u64 le_enc_dec)
qed

lemma u16_le_inj [simp]: "u16_le x = u16_le y \<longleftrightarrow> x = y"
  by (metis u16_roundtrip)

lemma u32_le_inj [simp]: "u32_le x = u32_le y \<longleftrightarrow> x = y"
  by (metis u32_roundtrip)

lemma u64_le_inj [simp]: "u64_le x = u64_le y \<longleftrightarrow> x = y"
  by (metis u64_roundtrip)

subsection \<open>Byte strings\<close>

text \<open>The bytes of a string literal \<open>b"..."\<close>.\<close>

definition bytes_of :: "string \<Rightarrow> byte list" where
  "bytes_of s = map of_char s"

lemma length_bytes_of [simp]: "length (bytes_of s) = length s"
  by (simp add: bytes_of_def)

definition zeros :: "nat \<Rightarrow> byte list" where
  "zeros n = replicate n 0"

lemma length_zeros [simp]: "length (zeros n) = n"
  by (simp add: zeros_def)

lemma append_eq_append_len:
  "length xs = length ys \<Longrightarrow> xs @ us = ys @ vs \<longleftrightarrow> xs = ys \<and> us = vs"
  by simp

end
