(* ===== verification/Core_Error.thy ===== *)
theory Core_Error
  imports Prelude
begin

text \<open>
  The error type of meissnerseal-core (src/crates/meissnerseal-core/src/error.rs), the
  fixed-width readers its parsers share (vault/format.rs) and the \<open>codec\<close> interface: what a
  serializer and a parser of one wire format promise each other.
\<close>

subsection \<open>Errors\<close>

text \<open>\<open>std::io::Error\<close>, as far as the code tells errors apart.\<close>

datatype io_error = IoNotFound | IoAlreadyExists | IoOther

datatype core_error =
    Format string
  | Auth
  | NotFound string
  | InvalidState string
  | Crypto
  | Io io_error
  | PartialImport

type_synonym 'a res = "(core_error, 'a) rs"

definition format_error :: "string \<Rightarrow> core_error" where
  "format_error message = Format message"

subsection \<open>Fixed-width readers of format.rs\<close>

definition len_to_u32 :: "nat \<Rightarrow> string \<Rightarrow> u32 res" where
  "len_to_u32 n e = to_u32 n (format_error e)"

definition len_to_u64 :: "nat \<Rightarrow> string \<Rightarrow> u64 res" where
  "len_to_u64 n e = to_u64 n (format_error e)"

definition read_array :: "nat \<Rightarrow> byte list \<Rightarrow> string \<Rightarrow> byte list res" where
  "read_array n bytes e = (if length bytes = n then ok bytes else err (format_error e))"

definition read_array_at :: "nat \<Rightarrow> byte list \<Rightarrow> nat \<Rightarrow> byte list res" where
  "read_array_at n bytes offset =
     and_then (ok_or (checked_add offset n) (format_error ''array read overflow'')) (\<lambda>end_at.
     and_then (ok_or (get_range bytes offset end_at)
                 (format_error ''truncated fixed-width field'')) (\<lambda>v.
     read_array n v ''truncated fixed-width field''))"

definition read_u16_le :: "byte list \<Rightarrow> nat \<Rightarrow> u16 res" where
  "read_u16_le bytes offset = and_then (read_array_at 2 bytes offset) (\<lambda>a. ok (u16_from_le a))"

definition read_u32_le :: "byte list \<Rightarrow> nat \<Rightarrow> u32 res" where
  "read_u32_le bytes offset = and_then (read_array_at 4 bytes offset) (\<lambda>a. ok (u32_from_le a))"

definition read_u64_le :: "byte list \<Rightarrow> nat \<Rightarrow> u64 res" where
  "read_u64_le bytes offset = and_then (read_array_at 8 bytes offset) (\<lambda>a. ok (u64_from_le a))"

definition read_tlv_u16 :: "byte list \<Rightarrow> string \<Rightarrow> u16 res" where
  "read_tlv_u16 v e =
     (if length v \<noteq> 2 then err (format_error e)
      else and_then (read_array 2 v e) (\<lambda>a. ok (u16_from_le a)))"

definition read_kdf_u16 :: "byte list \<Rightarrow> string \<Rightarrow> u16 res" where
  "read_kdf_u16 v e = read_tlv_u16 v e"

definition read_kdf_u32 :: "byte list \<Rightarrow> string \<Rightarrow> u32 res" where
  "read_kdf_u32 v e =
     (if length v \<noteq> 4 then err (format_error e)
      else and_then (read_array 4 v e) (\<lambda>a. ok (u32_from_le a)))"

definition read_tlv_u64 :: "byte list \<Rightarrow> string \<Rightarrow> u64 res" where
  "read_tlv_u64 v e =
     (if length v \<noteq> 8 then err (format_error e)
      else and_then (read_array 8 v e) (\<lambda>a. ok (u64_from_le a)))"

definition reject_duplicate :: "bool \<Rightarrow> string \<Rightarrow> unit res" where
  "reject_duplicate is_duplicate e = (if is_duplicate then err (format_error e) else ok ())"

lemma len_to_u32_Inr [simp]: "len_to_u32 n e = Inr x \<longleftrightarrow> n \<le> u32_max \<and> x = of_nat n"
  by (simp add: len_to_u32_def)

lemma len_to_u64_Inr [simp]: "len_to_u64 n e = Inr x \<longleftrightarrow> n \<le> usize_max \<and> x = of_nat n"
  by (simp add: len_to_u64_def)

lemma len_to_u32_fits: "n \<le> u32_max \<Longrightarrow> len_to_u32 n e = Inr (of_nat n)"
  by simp

lemma len_to_u64_fits: "n \<le> usize_max \<Longrightarrow> len_to_u64 n e = Inr (of_nat n)"
  by simp

lemma read_array_Inr [simp]: "read_array n bs e = Inr x \<longleftrightarrow> length bs = n \<and> x = bs"
  by (auto simp: read_array_def)

lemma read_array_at_Inr:
  "read_array_at n bs off = Inr x \<longleftrightarrow> holds_at bs off x \<and> length x = n \<and> off + n \<le> usize_max"
  by (auto simp: read_array_at_def get_range_holds_at)

lemma read_u16_le_Inr:
  "read_u16_le bs off = Inr x \<longleftrightarrow> holds_at bs off (u16_le x) \<and> off + 2 \<le> usize_max"
  by (fastforce simp: read_u16_le_def read_array_at_Inr)

lemma read_u32_le_Inr:
  "read_u32_le bs off = Inr x \<longleftrightarrow> holds_at bs off (u32_le x) \<and> off + 4 \<le> usize_max"
  by (fastforce simp: read_u32_le_def read_array_at_Inr)

lemma read_u64_le_Inr:
  "read_u64_le bs off = Inr x \<longleftrightarrow> holds_at bs off (u64_le x) \<and> off + 8 \<le> usize_max"
  by (fastforce simp: read_u64_le_def read_array_at_Inr)

lemmas reads_Inr = read_array_at_Inr read_u16_le_Inr read_u32_le_Inr read_u64_le_Inr

lemma read_tlv_u16_Inr [simp]: "read_tlv_u16 v e = Inr x \<longleftrightarrow> v = u16_le x"
  by (auto simp: read_tlv_u16_def)

lemma read_kdf_u16_Inr [simp]: "read_kdf_u16 v e = Inr x \<longleftrightarrow> v = u16_le x"
  by (simp add: read_kdf_u16_def)

lemma read_kdf_u32_Inr [simp]: "read_kdf_u32 v e = Inr x \<longleftrightarrow> v = u32_le x"
  by (auto simp: read_kdf_u32_def)

lemma read_tlv_u64_Inr [simp]: "read_tlv_u64 v e = Inr x \<longleftrightarrow> v = u64_le x"
  by (auto simp: read_tlv_u64_def)

lemma reject_duplicate_Inr [simp]: "reject_duplicate b e = Inr u \<longleftrightarrow> \<not> b"
  by (simp add: reject_duplicate_def)

lemma no_panic_read_array [simp]: "no_panic (read_array n bs e)"
  by (simp add: read_array_def)

lemma no_panic_read_array_at [simp]: "no_panic (read_array_at n bs off)"
  unfolding read_array_at_def by (intro no_panic_intros) simp_all

lemma no_panic_reads [simp]:
  "no_panic (read_u16_le bs off)" "no_panic (read_u32_le bs off)" "no_panic (read_u64_le bs off)"
  "no_panic (read_tlv_u16 v e)" "no_panic (read_kdf_u16 v e)"
  "no_panic (read_kdf_u32 v e)" "no_panic (read_tlv_u64 v e)"
  by (auto simp: read_u16_le_def read_u32_le_def read_u64_le_def read_tlv_u16_def
      read_kdf_u16_def read_kdf_u32_def read_tlv_u64_def intro!: no_panic_intros)

lemma no_panic_len [simp]:
  "no_panic (len_to_u32 n e)" "no_panic (len_to_u64 n e)" "no_panic (reject_duplicate b e)"
  by (simp_all add: len_to_u32_def len_to_u64_def reject_duplicate_def)

subsection \<open>The interface of a wire format\<close>

text \<open>
  A wire format is a serializer and a parser. \<open>codec\<close> asks that what is written for a
  well-formed value is read back; \<open>canonical_codec\<close> also that a parser accepts one encoding
  only, so that equal values have equal bytes. Both are interpreted in the theories of the
  formats, on the code's own serializers and parsers.
\<close>

locale codec =
  fixes ser :: "'a \<Rightarrow> ('e, byte list) rs"
    and par :: "byte list \<Rightarrow> ('f, 'a) rs"
    and wf :: "'a \<Rightarrow> bool"
  assumes par_ser: "wf x \<Longrightarrow> ser x = Inr bs \<Longrightarrow> par bs = Inr x"
begin

lemma ser_inj: "wf x \<Longrightarrow> wf y \<Longrightarrow> ser x = Inr bs \<Longrightarrow> ser y = Inr bs \<Longrightarrow> x = y"
  using par_ser [of x bs] par_ser [of y bs] by simp

lemma par_ser_unique: "wf x \<Longrightarrow> ser x = Inr bs \<Longrightarrow> par bs = Inr y \<Longrightarrow> y = x"
  using par_ser [of x bs] by simp

end

locale canonical_codec = codec +
  assumes ser_par: "par bs = Inr x \<Longrightarrow> wf x \<and> ser x = Inr bs"
begin

lemma par_inj: "par as = Inr x \<Longrightarrow> par bs = Inr x \<Longrightarrow> as = bs"
  using ser_par [of as x] ser_par [of bs x] by simp

lemma par_iff: "par bs = Inr x \<longleftrightarrow> wf x \<and> ser x = Inr bs"
  using ser_par par_ser by blast

lemma par_rejects: "(\<And>x. wf x \<Longrightarrow> ser x \<noteq> Inr bs) \<Longrightarrow> \<exists>e. par bs = Inl e"
  using ser_par [of bs] by (cases "par bs") auto

end

end
