(* ===== verification/Runtime.thy ===== *)
theory Runtime
  imports Core_Error
begin

text \<open>
  The outside world of the program: the random stream of the operating system, the wall clock
  and the file system, threaded as an explicit state through every operation that has an
  effect. The standard library's part in it (std::fs, SystemTime, Path::with_extension,
  String::from_utf8) is written out here; what the operating system decides (which system call
  fails, and after how many bytes) is data of the initial world, so that a property of an
  operation covers every pattern of I/O failures.
\<close>

subsection \<open>Worlds and actions\<close>

text \<open>
  A path is a parent directory and the name of a file in it. \<open>faults n\<close> makes the n-th system
  call fail with an error; a failing write has stored the given number of bytes before.
  \<open>history\<close> records the contents of the file system after every system call, newest first:
  it is what a crash can leave behind.
\<close>

record path =
  p_dir :: string
  p_name :: string

type_synonym fs_state = "path \<Rightarrow> byte list option"

record world =
  entropy :: "nat \<Rightarrow> byte"
  drawn :: nat
  clock_ms :: int
  files :: fs_state
  faults :: "nat \<Rightarrow> (io_error \<times> nat) option"
  calls :: nat
  history :: "fs_state list"

type_synonym ('e, 'a) act = "world \<Rightarrow> ('e, 'a) rs \<times> world"

type_synonym 'a io = "(core_error, 'a) act"

definition lift_rs :: "('e, 'a) rs \<Rightarrow> ('e, 'a) act" where
  "lift_rs r = (\<lambda>w. (r, w))"

abbreviation ret :: "'a \<Rightarrow> ('e, 'a) act" where
  "ret x \<equiv> lift_rs (Inr x)"

abbreviation fail :: "'e \<Rightarrow> ('e, 'a) act" where
  "fail e \<equiv> lift_rs (err e)"

text \<open>\<open>?\<close> on an action: a failure or a panic skips the rest.\<close>

definition bind_act :: "('e, 'a) act \<Rightarrow> ('a \<Rightarrow> ('e, 'b) act) \<Rightarrow> ('e, 'b) act" where
  "bind_act m f = (\<lambda>w. case m w of (Inl e, w') \<Rightarrow> (Inl e, w') | (Inr x, w') \<Rightarrow> f x w')"

text \<open>An error value turned into another one (\<open>map_err\<close>), and a result looked at (\<open>let r = ...\<close>).\<close>

definition map_err_act :: "('e, 'a) act \<Rightarrow> 'f \<Rightarrow> ('f, 'a) act" where
  "map_err_act m f = (\<lambda>w. case m w of (r, w') \<Rightarrow> (map_err r f, w'))"

definition catch_act :: "('e, 'a) act \<Rightarrow> (('e, 'a) rs \<Rightarrow> ('e, 'b) act) \<Rightarrow> ('e, 'b) act" where
  "catch_act m h = (\<lambda>w. case m w of (r, w') \<Rightarrow> h r w')"

lemma lift_rs_apply [simp]: "lift_rs r w = (r, w)"
  by (simp add: lift_rs_def)

lemma bind_act_Inr: "m w = (Inr x, w') \<Longrightarrow> bind_act m f w = f x w'"
  by (simp add: bind_act_def)

lemma bind_act_Inl: "m w = (Inl e, w') \<Longrightarrow> bind_act m f w = (Inl e, w')"
  by (simp add: bind_act_def)

lemma bind_act_ret [simp]: "bind_act (ret x) f = f x"
  by (simp add: bind_act_def fun_eq_iff)

lemma bind_act_lift [simp]: "bind_act (lift_rs (Inl e)) f w = (Inl e, w)"
  by (simp add: bind_act_def)

lemma bind_act_eq_Inr:
  "bind_act m f w = (Inr y, w'') \<longleftrightarrow> (\<exists>x w'. m w = (Inr x, w') \<and> f x w' = (Inr y, w''))"
  by (auto simp: bind_act_def split: prod.splits sum.splits)

lemma bind_act_cong [fundef_cong]:
  "m w = m' w' \<Longrightarrow> (\<And>x v. m' w' = (Inr x, v) \<Longrightarrow> f x v = f' x v) \<Longrightarrow>
    bind_act m f w = bind_act m' f' w'"
  by (auto simp: bind_act_def split: prod.splits sum.splits)

lemma bind_act_split:
  "P (bind_act m f w) \<longleftrightarrow>
    (\<forall>e w'. m w = (Inl e, w') \<longrightarrow> P (Inl e, w')) \<and> (\<forall>x w'. m w = (Inr x, w') \<longrightarrow> P (f x w'))"
  by (cases "m w"; cases "fst (m w)") (auto simp: bind_act_def)

lemma map_err_act_Inr [simp]: "map_err_act m f w = (Inr x, w') \<longleftrightarrow> m w = (Inr x, w')"
  by (auto simp: map_err_act_def split: prod.splits)

subsection \<open>Randomness and time\<close>

definition draw :: "nat \<Rightarrow> ('e, byte list) act" where
  "draw n = (\<lambda>w. (Inr (map (\<lambda>i. entropy w (drawn w + i)) [0..<n]), w\<lparr>drawn := drawn w + n\<rparr>))"

text \<open>The bytes the next \<open>draw\<close> returns.\<close>

definition next_random :: "world \<Rightarrow> nat \<Rightarrow> byte list" where
  "next_random w n = map (\<lambda>i. entropy w (drawn w + i)) [0..<n]"

lemma draw_apply [simp]: "draw n w = (Inr (next_random w n), w\<lparr>drawn := drawn w + n\<rparr>)"
  by (simp add: draw_def next_random_def)

lemma length_next_random [simp]: "length (next_random w n) = n"
  by (simp add: next_random_def)

subsection \<open>File system calls\<close>

definition snapshot :: "world \<Rightarrow> world" where
  "snapshot w = w\<lparr>calls := calls w + 1, history := files w # history w\<rparr>"

text \<open>A call without effect on the contents: it succeeds unless it is a faulty one.\<close>

definition plain_call :: "unit io" where
  "plain_call = (\<lambda>w. case faults w (calls w) of
     Some (e, _) \<Rightarrow> (err (Io e), snapshot w) | None \<Rightarrow> (Inr (), snapshot w))"

definition fs_read :: "path \<Rightarrow> byte list io" where
  "fs_read p = (\<lambda>w. case faults w (calls w) of
     Some (e, _) \<Rightarrow> (err (Io e), snapshot w)
   | None \<Rightarrow> (case files w p of
       None \<Rightarrow> (err (Io IoNotFound), snapshot w) | Some bs \<Rightarrow> (Inr bs, snapshot w)))"

definition fs_create_new :: "path \<Rightarrow> unit io" where
  "fs_create_new p = (\<lambda>w. case faults w (calls w) of
     Some (e, _) \<Rightarrow> (err (Io e), snapshot w)
   | None \<Rightarrow> (case files w p of
       Some _ \<Rightarrow> (err (Io IoAlreadyExists), snapshot w)
     | None \<Rightarrow> (Inr (), snapshot (w\<lparr>files := (files w)(p := Some [])\<rparr>))))"

text \<open>\<open>write_all\<close> through the handle of a file just created; a failing one leaves a prefix.\<close>

definition fs_write_all :: "path \<Rightarrow> byte list \<Rightarrow> unit io" where
  "fs_write_all p bs = (\<lambda>w.
     let put = (\<lambda>xs. case files w p of None \<Rightarrow> w
       | Some old \<Rightarrow> w\<lparr>files := (files w)(p := Some (old @ xs))\<rparr>) in
     case faults w (calls w) of
       Some (e, k) \<Rightarrow> (err (Io e), snapshot (put (take k bs)))
     | None \<Rightarrow> (Inr (), snapshot (put bs)))"

definition fs_sync_all :: "path \<Rightarrow> unit io" where
  "fs_sync_all p = plain_call"

definition fs_rename :: "path \<Rightarrow> path \<Rightarrow> unit io" where
  "fs_rename p q = (\<lambda>w. case faults w (calls w) of
     Some (e, _) \<Rightarrow> (err (Io e), snapshot w)
   | None \<Rightarrow> (case files w p of
       None \<Rightarrow> (err (Io IoNotFound), snapshot w)
     | Some bs \<Rightarrow> (Inr (), snapshot (w\<lparr>files := (files w)(p := None, q := Some bs)\<rparr>))))"

definition fs_remove_file :: "path \<Rightarrow> unit io" where
  "fs_remove_file p = (\<lambda>w. case faults w (calls w) of
     Some (e, _) \<Rightarrow> (err (Io e), snapshot w)
   | None \<Rightarrow> (case files w p of
       None \<Rightarrow> (err (Io IoNotFound), snapshot w)
     | Some _ \<Rightarrow> (Inr (), snapshot (w\<lparr>files := (files w)(p := None)\<rparr>))))"

text \<open>Opening a directory and syncing it.\<close>

definition fs_sync_dir :: "string \<Rightarrow> unit io" where
  "fs_sync_dir d = bind_act plain_call (\<lambda>_. plain_call)"

definition no_faults :: "world \<Rightarrow> bool" where
  "no_faults w \<longleftrightarrow> faults w = (\<lambda>_. None)"

text \<open>A quiet world, for closed instances: an empty disk and a counting random stream.\<close>

definition sample_world :: world where
  "sample_world = \<lparr>entropy = of_nat, drawn = 0, clock_ms = 1700000000000,
     files = (\<lambda>_. None), faults = (\<lambda>_. None), calls = 0, history = []\<rparr>"

subsection \<open>Formatting\<close>

definition hex_digit :: "nat \<Rightarrow> char" where
  "hex_digit d = ''0123456789abcdef'' ! d"

text \<open>\<open>{byte:02x}\<close>\<close>

definition hex_byte :: "byte \<Rightarrow> string" where
  "hex_byte b = [hex_digit (unat b div 16), hex_digit (unat b mod 16)]"

definition hex_of :: "byte list \<Rightarrow> string" where
  "hex_of bs = concat (map hex_byte bs)"

text \<open>\<open>{n}\<close> for an unsigned integer\<close>

function dec_of :: "nat \<Rightarrow> string" where
  "dec_of n =
     (if n < 10 then [''0123456789'' ! n] else dec_of (n div 10) @ [''0123456789'' ! (n mod 10)])"
  by pat_completeness auto
termination by (relation "measure id") auto

declare dec_of.simps [simp del]

lemma all_less_Suc_split: "(\<forall>i < Suc n. P i) \<longleftrightarrow> P n \<and> (\<forall>i < n. P i)"
  using less_Suc_eq by auto

lemma hex_digit_inj:
  assumes "a < 16" "b < 16" "hex_digit a = hex_digit b"
  shows "a = b"
proof -
  have "distinct ''0123456789abcdef''" by simp
  then show ?thesis using assms nth_eq_iff_index_eq [of "''0123456789abcdef''" a b]
    by (simp add: hex_digit_def)
qed

lemma hex_byte_inj: "hex_byte a = hex_byte b \<longleftrightarrow> a = b"
proof
  assume h: "hex_byte a = hex_byte b"
  have lt: "unat a div 16 < 16" "unat b div 16 < 16" "unat a mod 16 < 16" "unat b mod 16 < 16"
    using unat_byte_lt [of a] unat_byte_lt [of b] by auto
  have "unat a div 16 = unat b div 16" "unat a mod 16 = unat b mod 16"
    using h lt by (auto simp: hex_byte_def intro: hex_digit_inj)
  then have "unat a = unat b" by (metis div_mod_decomp)
  then show "a = b" by (simp add: word_unat_eq_iff)
qed simp

lemma length_hex_byte [simp]: "length (hex_byte b) = 2"
  by (simp add: hex_byte_def)

lemma length_hex_of [simp]: "length (hex_of bs) = 2 * length bs"
  by (induction bs) (simp_all add: hex_of_def)

lemma hex_of_inj: "hex_of as = hex_of bs \<longleftrightarrow> as = bs"
proof (induction as arbitrary: bs)
  case Nil
  have "hex_byte b \<noteq> []" for b by (simp add: hex_byte_def)
  then show ?case by (cases bs) (auto simp: hex_of_def)
next
  case (Cons a as)
  have "hex_byte a \<noteq> []" by (simp add: hex_byte_def)
  with Cons show ?case
    by (cases bs) (simp_all add: hex_of_def hex_byte_inj)
qed

subsection \<open>Paths\<close>

text \<open>
  \<open>Path::with_extension\<close> of std: the file stem is the name up to its last dot, unless that dot
  is the first character (or the name is \<open>..\<close>), and the new extension follows a dot.
\<close>

definition before_last_dot :: "string \<Rightarrow> string option" where
  "before_last_dot s =
     (if CHR ''.'' \<in> set s
      then Some (rev (tl (dropWhile (\<lambda>c. c \<noteq> CHR ''.'') (rev s)))) else None)"

definition file_stem :: "string \<Rightarrow> string" where
  "file_stem s = (if s = ''..'' then s else
     case before_last_dot s of None \<Rightarrow> s | Some [] \<Rightarrow> s | Some stem \<Rightarrow> stem)"

definition with_extension :: "path \<Rightarrow> string \<Rightarrow> path" where
  "with_extension p ext =
     p\<lparr>p_name := file_stem (p_name p) @ (if ext = [] then [] else CHR ''.'' # ext)\<rparr>"

lemma before_last_dot_split:
  assumes "before_last_dot s = Some stem"
  shows "\<exists>ext. s = stem @ CHR ''.'' # ext \<and> CHR ''.'' \<notin> set ext"
proof -
  let ?r = "rev s"
  have dot: "CHR ''.'' \<in> set s" using assms by (auto simp: before_last_dot_def split: if_splits)
  have st: "stem = rev (tl (dropWhile (\<lambda>c. c \<noteq> CHR ''.'') ?r))"
    using assms dot by (simp add: before_last_dot_def)
  have ne: "dropWhile (\<lambda>c. c \<noteq> CHR ''.'') ?r \<noteq> []" using dot by auto
  then have hd: "hd (dropWhile (\<lambda>c. c \<noteq> CHR ''.'') ?r) = CHR ''.''"
    using hd_dropWhile [OF ne] by blast
  let ?e = "rev (takeWhile (\<lambda>c. c \<noteq> CHR ''.'') ?r)"
  have "?r = takeWhile (\<lambda>c. c \<noteq> CHR ''.'') ?r @ CHR ''.'' # tl (dropWhile (\<lambda>c. c \<noteq> CHR ''.'') ?r)"
    using ne hd by (metis list.collapse takeWhile_dropWhile_id)
  then have "s = stem @ CHR ''.'' # ?e"
    unfolding st by (metis append.assoc append_Cons append_Nil rev.simps(2) rev_append rev_rev_ident)
  moreover have "CHR ''.'' \<notin> set ?e" by (auto dest: set_takeWhileD)
  ultimately show ?thesis by blast
qed

text \<open>A temporary name made from an extension with a dot in it is never the name itself.\<close>

lemma with_extension_differs:
  assumes "CHR ''.'' \<in> set ext"
  shows "with_extension p ext \<noteq> p"
proof
  assume "with_extension p ext = p"
  then have n: "p_name p = file_stem (p_name p) @ CHR ''.'' # ext"
    using assms by (cases p) (auto simp: with_extension_def split: if_splits)
  show False
  proof (cases "file_stem (p_name p) = p_name p")
    case True
    then show False using n by simp
  next
    case False
    then have bl: "before_last_dot (p_name p) = Some (file_stem (p_name p))"
      by (auto simp: file_stem_def split: if_splits option.splits list.splits)
    obtain e where "p_name p = file_stem (p_name p) @ CHR ''.'' # e" "CHR ''.'' \<notin> set e"
      using before_last_dot_split [OF bl] by blast
    then have "e = ext" using n by (metis list.inject same_append_eq)
    then show False using assms \<open>CHR ''.'' \<notin> set e\<close> by simp
  qed
qed

subsection \<open>UTF-8\<close>

text \<open>
  A Rust \<open>String\<close> is a byte list that is well-formed UTF-8; \<open>String::from_utf8\<close> accepts
  exactly those.
\<close>

definition in_rng :: "nat \<Rightarrow> nat \<Rightarrow> byte \<Rightarrow> bool" where
  "in_rng lo hi b \<longleftrightarrow> lo \<le> unat b \<and> unat b \<le> hi"

fun utf8_valid :: "byte list \<Rightarrow> bool" where
  "utf8_valid [] = True"
| "utf8_valid (a # bs) =
     (if in_rng 0 0x7F a then utf8_valid bs
      else if in_rng 0xC2 0xDF a then
        (case bs of b # r \<Rightarrow> in_rng 0x80 0xBF b \<and> utf8_valid r | _ \<Rightarrow> False)
      else if in_rng 0xE0 0xEF a then
        (case bs of b # c # r \<Rightarrow>
           in_rng (if unat a = 0xE0 then 0xA0 else 0x80) (if unat a = 0xED then 0x9F else 0xBF) b \<and>
           in_rng 0x80 0xBF c \<and> utf8_valid r | _ \<Rightarrow> False)
      else if in_rng 0xF0 0xF4 a then
        (case bs of b # c # d # r \<Rightarrow>
           in_rng (if unat a = 0xF0 then 0x90 else 0x80) (if unat a = 0xF4 then 0x8F else 0xBF) b \<and>
           in_rng 0x80 0xBF c \<and> in_rng 0x80 0xBF d \<and> utf8_valid r | _ \<Rightarrow> False)
      else False)"

definition from_utf8 :: "byte list \<Rightarrow> 'e \<Rightarrow> ('e, byte list) rs" where
  "from_utf8 bs e = (if utf8_valid bs then Inr bs else err e)"

lemma from_utf8_Inr [simp]: "from_utf8 bs e = Inr s \<longleftrightarrow> utf8_valid bs \<and> s = bs"
  by (auto simp: from_utf8_def)

lemma no_panic_from_utf8 [simp]: "no_panic (from_utf8 bs e)"
  by (simp add: from_utf8_def)

lemma utf8_valid_ascii: "list_all (\<lambda>b. unat b < 128) bs \<Longrightarrow> utf8_valid bs"
  by (induction bs) (simp_all add: in_rng_def)

end
