(* ===== verification/Format_Header.thy ===== *)
theory Format_Header
  imports Core_Error
begin

text \<open>
  The vault prefix, the header TLV section and the KDF profile TLV of
  src/crates/meissnerseal-core/src/vault/format.rs, with the Argon2 parameter limits of
  meissnerseal-crypto/src/kdf/argon2.rs. The parsers are modelled with their unchecked
  indexing and additions, so that they could panic; they never do (\<open>parse_header_total\<close>).
\<close>

subsection \<open>Constants\<close>

abbreviation (input) PREFIX_MAGIC_OFFSET :: nat where "PREFIX_MAGIC_OFFSET \<equiv> 0"
abbreviation (input) PREFIX_FORMAT_VERSION_OFFSET :: nat where "PREFIX_FORMAT_VERSION_OFFSET \<equiv> 8"
abbreviation (input) PREFIX_HEADER_LEN_OFFSET :: nat where "PREFIX_HEADER_LEN_OFFSET \<equiv> 10"
abbreviation (input) PREFIX_RECORD_TABLE_LEN_OFFSET :: nat where "PREFIX_RECORD_TABLE_LEN_OFFSET \<equiv> 14"
abbreviation (input) PREFIX_BODY_LEN_OFFSET :: nat where "PREFIX_BODY_LEN_OFFSET \<equiv> 18"
abbreviation (input) TLV_HEADER_LEN :: nat where "TLV_HEADER_LEN \<equiv> 7"
abbreviation (input) CRITICAL_FLAG :: byte where "CRITICAL_FLAG \<equiv> 1"
abbreviation (input) KDF_PROFILE_HEADER_LEN :: nat where "KDF_PROFILE_HEADER_LEN \<equiv> 6"
abbreviation (input) KDF_PARAM_TLV_HEADER_LEN :: nat where "KDF_PARAM_TLV_HEADER_LEN \<equiv> 4"
abbreviation (input) TAG_KDF_M_COST_KIB :: u16 where "TAG_KDF_M_COST_KIB \<equiv> 0x0101"
abbreviation (input) TAG_KDF_T_COST :: u16 where "TAG_KDF_T_COST \<equiv> 0x0102"
abbreviation (input) TAG_KDF_P_LANES :: u16 where "TAG_KDF_P_LANES \<equiv> 0x0103"
abbreviation (input) TAG_KDF_OUTPUT_LEN :: u16 where "TAG_KDF_OUTPUT_LEN \<equiv> 0x0104"
abbreviation (input) TAG_KDF_ARGON2_VERSION :: u16 where "TAG_KDF_ARGON2_VERSION \<equiv> 0x0105"
abbreviation (input) FORMAT_VERSION :: u16 where "FORMAT_VERSION \<equiv> 1"
abbreviation (input) HEADER_MIN_LEN :: nat where "HEADER_MIN_LEN \<equiv> 26"
abbreviation (input) TAG_VAULT_ID :: u16 where "TAG_VAULT_ID \<equiv> 0x0001"
abbreviation (input) TAG_CREATED_AT :: u16 where "TAG_CREATED_AT \<equiv> 0x0002"
abbreviation (input) TAG_KDF_PROFILE :: u16 where "TAG_KDF_PROFILE \<equiv> 0x0003"
abbreviation (input) TAG_AEAD_PROFILE :: u16 where "TAG_AEAD_PROFILE \<equiv> 0x0004"
abbreviation (input) TAG_PQC_PROFILE :: u16 where "TAG_PQC_PROFILE \<equiv> 0x0005"
abbreviation (input) TAG_SCHEMA_PROFILE :: u16 where "TAG_SCHEMA_PROFILE \<equiv> 0x0006"
abbreviation (input) TAG_HEADER_NONCE :: u16 where "TAG_HEADER_NONCE \<equiv> 0x0007"
abbreviation (input) KDF_ARGON2ID_V1 :: u16 where "KDF_ARGON2ID_V1 \<equiv> 0x0001"
abbreviation (input) AEAD_XCHACHA20_POLY1305_V1 :: u16 where "AEAD_XCHACHA20_POLY1305_V1 \<equiv> 0x0001"
abbreviation (input) PQC_NONE :: u16 where "PQC_NONE \<equiv> 0x0000"
abbreviation (input) SCHEMA_MEISSNER_RECORDS_V1 :: u16 where "SCHEMA_MEISSNER_RECORDS_V1 \<equiv> 0x0001"
abbreviation (input) SCHEMA_MEISSNER_RECORDS_V2 :: u16 where "SCHEMA_MEISSNER_RECORDS_V2 \<equiv> 0x0002"
abbreviation (input) ARGON2_VERSION_0X13 :: u32 where "ARGON2_VERSION_0X13 \<equiv> 0x13"

abbreviation (input) ARGON2_MAX_M_COST_KIB :: u32 where "ARGON2_MAX_M_COST_KIB \<equiv> 262144"
abbreviation (input) ARGON2_MAX_T_COST :: u32 where "ARGON2_MAX_T_COST \<equiv> 16"
abbreviation (input) ARGON2_MAX_P_LANES :: u32 where "ARGON2_MAX_P_LANES \<equiv> 16"
abbreviation (input) ARGON2_MIN_M_COST_KIB :: u32 where "ARGON2_MIN_M_COST_KIB \<equiv> 65536"
abbreviation (input) ARGON2_MIN_T_COST :: u32 where "ARGON2_MIN_T_COST \<equiv> 3"
abbreviation (input) ARGON2_MIN_P_LANES :: u32 where "ARGON2_MIN_P_LANES \<equiv> 4"

definition MAGIC :: "byte list" where
  "MAGIC = bytes_of ''MEISSNER''"

lemma length_MAGIC [simp, codec]: "length MAGIC = 8"
  by (simp add: MAGIC_def)

subsection \<open>Data\<close>

record Argon2Params =
  m_cost_kib :: u32
  t_cost :: u32
  p_lanes :: u32
  output_len :: nat

record HeaderKdfParams =
  kp_profile_id :: u16
  kp_argon2 :: Argon2Params
  kp_argon2_version :: u32

definition canonical_argon2id_v1 :: HeaderKdfParams where
  "canonical_argon2id_v1 =
     \<lparr>kp_profile_id = KDF_ARGON2ID_V1,
      kp_argon2 = \<lparr>m_cost_kib = 65536, t_cost = 3, p_lanes = 4, output_len = 32\<rparr>,
      kp_argon2_version = ARGON2_VERSION_0X13\<rparr>"

text \<open>The validated profile newtypes of the code wrap a \<open>u16\<close>; \<open>value()\<close> is the identity.\<close>

definition AeadProfileId_new :: "u16 \<Rightarrow> u16 res" where
  "AeadProfileId_new v =
     (if v = AEAD_XCHACHA20_POLY1305_V1 then ok v
      else err (format_error ''unsupported aead profile''))"

definition PqcProfileId_new :: "u16 \<Rightarrow> u16 res" where
  "PqcProfileId_new v =
     (if v = PQC_NONE then ok v else err (format_error ''unsupported pqc profile''))"

definition KdfProfileId_new :: "u16 \<Rightarrow> u16 res" where
  "KdfProfileId_new v =
     (if v = KDF_ARGON2ID_V1 then ok v else err (format_error ''unsupported kdf profile''))"

definition SchemaProfileId_new :: "u16 \<Rightarrow> u16 res" where
  "SchemaProfileId_new v =
     (if v = SCHEMA_MEISSNER_RECORDS_V2 then ok v
      else err (format_error ''unsupported schema profile''))"

record VaultProfileSet =
  ps_aead :: u16
  ps_pqc :: u16
  ps_kdf :: u16
  ps_schema :: u16

record VaultHeader =
  vh_vault_id :: "byte list"
  vh_created_at :: u64
  vh_format_version :: u16
  vh_schema_profile :: u16
  vh_aead_profile :: u16
  vh_kdf_profile :: u16
  vh_kdf_params :: HeaderKdfParams
  vh_pqc_profile :: u16
  vh_header_nonce :: "byte list"
  vh_profile_set :: VaultProfileSet

subsection \<open>Argon2 parameter limits\<close>

definition validate_argon2_params :: "Argon2Params \<Rightarrow> unit res" where
  "validate_argon2_params p =
     (if m_cost_kib p = 0 then err (format_error ''invalid zero m_cost_kib'')
      else if t_cost p = 0 then err (format_error ''invalid zero t_cost'')
      else if p_lanes p = 0 then err (format_error ''invalid zero p_lanes'')
      else if output_len p \<noteq> 32 then err (format_error ''invalid output_len'')
      else if m_cost_kib p < ARGON2_MIN_M_COST_KIB
        then err (format_error ''m_cost_kib below minimum profile'')
      else if t_cost p < ARGON2_MIN_T_COST
        then err (format_error ''t_cost below minimum profile'')
      else if p_lanes p < ARGON2_MIN_P_LANES
        then err (format_error ''p_lanes below minimum profile'')
      else if m_cost_kib p > ARGON2_MAX_M_COST_KIB
        then err (format_error ''m_cost_kib exceeds safety limit'')
      else if t_cost p > ARGON2_MAX_T_COST
        then err (format_error ''t_cost exceeds safety limit'')
      else if p_lanes p > ARGON2_MAX_P_LANES
        then err (format_error ''p_lanes exceeds safety limit'')
      else ok ())"

text \<open>What the limits amount to.\<close>

definition argon2_in_profile :: "Argon2Params \<Rightarrow> bool" where
  "argon2_in_profile p \<longleftrightarrow>
     65536 \<le> m_cost_kib p \<and> m_cost_kib p \<le> 262144 \<and>
     3 \<le> t_cost p \<and> t_cost p \<le> 16 \<and>
     4 \<le> p_lanes p \<and> p_lanes p \<le> 16 \<and>
     output_len p = 32"

lemma validate_argon2_params_Inr [simp]:
  "validate_argon2_params p = Inr u \<longleftrightarrow> argon2_in_profile p"
proof -
  have "x < 65536 \<longleftrightarrow> \<not> 65536 \<le> x" "262144 < x \<longleftrightarrow> \<not> x \<le> 262144" for x :: u32
    by auto
  moreover have "x < 3 \<longleftrightarrow> \<not> 3 \<le> x" "16 < x \<longleftrightarrow> \<not> x \<le> 16" "x < 4 \<longleftrightarrow> \<not> 4 \<le> x" for x :: u32
    by auto
  moreover have "\<not> (65536 :: u32) \<le> 0" "\<not> (3 :: u32) \<le> 0" "\<not> (4 :: u32) \<le> 0"
    by simp_all
  ultimately show ?thesis
    by (auto simp: validate_argon2_params_def argon2_in_profile_def split: if_splits)
qed

lemma no_panic_validate_argon2 [simp]: "no_panic (validate_argon2_params p)"
  by (simp add: validate_argon2_params_def)

subsection \<open>Serialization\<close>

definition serialize_prefix :: "u16 \<Rightarrow> u32 \<Rightarrow> u32 \<Rightarrow> u64 \<Rightarrow> byte list res" where
  "serialize_prefix format_version header_len record_table_len body_len =
     (if format_version \<noteq> FORMAT_VERSION
      then err (format_error ''unsupported format version'')
      else ok (MAGIC @ u16_le format_version @ u32_le header_len @
               u32_le record_table_len @ u64_le body_len))"

text \<open>The writers take the buffer and return it extended.\<close>

definition write_header_tlv :: "byte list \<Rightarrow> u16 \<Rightarrow> byte \<Rightarrow> byte list \<Rightarrow> byte list res" where
  "write_header_tlv bytes tag flags v =
     and_then (len_to_u32 (length v) ''header TLV length overflow'') (\<lambda>len.
     ok (bytes @ u16_le tag @ [flags] @ u32_le len @ v))"

definition write_kdf_param_tlv :: "byte list \<Rightarrow> u16 \<Rightarrow> byte list \<Rightarrow> byte list res" where
  "write_kdf_param_tlv bytes tag v =
     and_then (to_u16 (length v) (format_error ''KDF parameter length overflow'')) (\<lambda>len.
     ok (bytes @ u16_le tag @ u16_le len @ v))"

definition serialize_kdf_profile_params :: "HeaderKdfParams \<Rightarrow> byte list res" where
  "serialize_kdf_profile_params params =
     (if kp_profile_id params \<noteq> KDF_ARGON2ID_V1
      then err (format_error ''unsupported KDF profile'')
      else if kp_argon2_version params \<noteq> ARGON2_VERSION_0X13
      then err (format_error ''unsupported Argon2 version'')
      else
     and_then (validate_argon2_params (kp_argon2 params)) (\<lambda>_.
     and_then (write_kdf_param_tlv [] TAG_KDF_M_COST_KIB
                 (u32_le (m_cost_kib (kp_argon2 params)))) (\<lambda>tlvs.
     and_then (write_kdf_param_tlv tlvs TAG_KDF_T_COST
                 (u32_le (t_cost (kp_argon2 params)))) (\<lambda>tlvs.
     and_then (write_kdf_param_tlv tlvs TAG_KDF_P_LANES
                 (u32_le (p_lanes (kp_argon2 params)))) (\<lambda>tlvs.
     and_then (to_u16 (output_len (kp_argon2 params))
                 (format_error ''output_len overflow'')) (\<lambda>out_len.
     and_then (write_kdf_param_tlv tlvs TAG_KDF_OUTPUT_LEN (u16_le out_len)) (\<lambda>tlvs.
     and_then (write_kdf_param_tlv tlvs TAG_KDF_ARGON2_VERSION
                 (u32_le (kp_argon2_version params))) (\<lambda>tlvs.
     and_then (len_to_u32 (length tlvs) ''KDF params length overflow'') (\<lambda>len.
     ok (u16_le (kp_profile_id params) @ u32_le len @ tlvs))))))))))"

definition serialize_header :: "VaultHeader \<Rightarrow> byte list res" where
  "serialize_header h =
     (let ps = vh_profile_set h in
      if vh_format_version h \<noteq> FORMAT_VERSION
        then err (format_error ''unsupported format version'')
      else if vh_schema_profile h \<noteq> ps_schema ps
        then err (format_error ''schema profile set mismatch'')
      else if vh_aead_profile h \<noteq> ps_aead ps
        then err (format_error ''aead profile set mismatch'')
      else if vh_kdf_profile h \<noteq> ps_kdf ps
        then err (format_error ''kdf profile set mismatch'')
      else if vh_pqc_profile h \<noteq> ps_pqc ps
        then err (format_error ''pqc profile set mismatch'')
      else if ps_schema ps \<noteq> SCHEMA_MEISSNER_RECORDS_V2
        then err (format_error ''unsupported schema profile'')
      else if vh_kdf_profile h \<noteq> kp_profile_id (vh_kdf_params h)
        then err (format_error ''KDF profile mismatch'')
      else
     and_then (write_header_tlv [] TAG_VAULT_ID CRITICAL_FLAG (vh_vault_id h)) (\<lambda>bytes.
     and_then (write_header_tlv bytes TAG_CREATED_AT CRITICAL_FLAG
                 (u64_le (vh_created_at h))) (\<lambda>bytes.
     and_then (serialize_kdf_profile_params (vh_kdf_params h)) (\<lambda>kdf_profile.
     and_then (write_header_tlv bytes TAG_KDF_PROFILE CRITICAL_FLAG kdf_profile) (\<lambda>bytes.
     and_then (write_header_tlv bytes TAG_AEAD_PROFILE CRITICAL_FLAG
                 (u16_le (ps_aead ps))) (\<lambda>bytes.
     and_then (write_header_tlv bytes TAG_PQC_PROFILE 0 (u16_le (ps_pqc ps))) (\<lambda>bytes.
     and_then (write_header_tlv bytes TAG_SCHEMA_PROFILE CRITICAL_FLAG
                 (u16_le (ps_schema ps))) (\<lambda>bytes.
     write_header_tlv bytes TAG_HEADER_NONCE CRITICAL_FLAG (vh_header_nonce h)))))))))"

subsection \<open>Parsing the KDF profile\<close>

text \<open>The local variables of the parameter loop.\<close>

record KdfAcc =
  ka_m_cost_kib :: "u32 option"
  ka_t_cost :: "u32 option"
  ka_p_lanes :: "u32 option"
  ka_output_len :: "nat option"
  ka_argon2_version :: "u32 option"

definition kdf_acc_empty :: KdfAcc where
  "kdf_acc_empty = \<lparr>ka_m_cost_kib = None, ka_t_cost = None, ka_p_lanes = None,
     ka_output_len = None, ka_argon2_version = None\<rparr>"

definition kdf_param_step :: "u16 \<Rightarrow> byte list \<Rightarrow> KdfAcc \<Rightarrow> KdfAcc res" where
  "kdf_param_step tag v acc =
     (if tag = TAG_KDF_M_COST_KIB then
        and_then (reject_duplicate (ka_m_cost_kib acc \<noteq> None) ''duplicate m_cost_kib'') (\<lambda>_.
        and_then (read_kdf_u32 v ''invalid m_cost_kib length'') (\<lambda>x.
        ok (acc\<lparr>ka_m_cost_kib := Some x\<rparr>)))
      else if tag = TAG_KDF_T_COST then
        and_then (reject_duplicate (ka_t_cost acc \<noteq> None) ''duplicate t_cost'') (\<lambda>_.
        and_then (read_kdf_u32 v ''invalid t_cost length'') (\<lambda>x.
        ok (acc\<lparr>ka_t_cost := Some x\<rparr>)))
      else if tag = TAG_KDF_P_LANES then
        and_then (reject_duplicate (ka_p_lanes acc \<noteq> None) ''duplicate p_lanes'') (\<lambda>_.
        and_then (read_kdf_u32 v ''invalid p_lanes length'') (\<lambda>x.
        ok (acc\<lparr>ka_p_lanes := Some x\<rparr>)))
      else if tag = TAG_KDF_OUTPUT_LEN then
        and_then (reject_duplicate (ka_output_len acc \<noteq> None) ''duplicate output_len'') (\<lambda>_.
        and_then (read_kdf_u16 v ''invalid output_len length'') (\<lambda>x.
        ok (acc\<lparr>ka_output_len := Some (unat x)\<rparr>)))
      else if tag = TAG_KDF_ARGON2_VERSION then
        and_then (reject_duplicate (ka_argon2_version acc \<noteq> None)
                    ''duplicate argon2_version'') (\<lambda>_.
        and_then (read_kdf_u32 v ''invalid argon2_version length'') (\<lambda>x.
        ok (acc\<lparr>ka_argon2_version := Some x\<rparr>)))
      else err (format_error ''unknown KDF parameter tag''))"

text \<open>
  The loop \<open>while cursor < params_end\<close>; it ends because each parameter moves the cursor by at
  least the four bytes of its TLV header.
\<close>

function kdf_param_loop :: "byte list \<Rightarrow> nat \<Rightarrow> nat \<Rightarrow> KdfAcc \<Rightarrow> (nat \<times> KdfAcc) res" where
  "kdf_param_loop v params_end cursor acc =
     (if cursor < params_end then
        (if params_end - cursor < KDF_PARAM_TLV_HEADER_LEN
         then err (format_error ''truncated KDF parameter TLV'')
         else
        and_then (uadd cursor 2) (\<lambda>tag_end.
        and_then (index_range v cursor tag_end) (\<lambda>tag_bytes.
        and_then (read_array 2 tag_bytes ''invalid KDF parameter tag'') (\<lambda>tag_array.
        and_then (uadd cursor 4) (\<lambda>len_end.
        and_then (index_range v tag_end len_end) (\<lambda>len_bytes.
        and_then (read_array 2 len_bytes ''invalid KDF parameter length'') (\<lambda>len_array.
        and_then (uadd cursor KDF_PARAM_TLV_HEADER_LEN) (\<lambda>value_start.
        and_then (ok_or (checked_add value_start (unat (u16_from_le len_array)))
                    (format_error ''KDF parameter length overflow'')) (\<lambda>value_end.
        if value_end > params_end then err (format_error ''truncated KDF parameter value'')
        else
        and_then (index_range v value_start value_end) (\<lambda>param.
        and_then (kdf_param_step (u16_from_le tag_array) param acc) (\<lambda>acc.
        kdf_param_loop v params_end value_end acc)))))))))))
      else ok (cursor, acc))"
  by pat_completeness auto
termination
  by (relation "measure (\<lambda>(v, params_end, cursor, acc). params_end - cursor)") auto

declare kdf_param_loop.simps [simp del]

definition parse_kdf_profile_params :: "byte list \<Rightarrow> HeaderKdfParams res" where
  "parse_kdf_profile_params v =
     (if length v < KDF_PROFILE_HEADER_LEN
      then err (format_error ''truncated KDF profile value'')
      else
     and_then (index_range v 0 2) (\<lambda>id_bytes.
     and_then (read_array 2 id_bytes ''invalid kdf profile id'') (\<lambda>id_array.
     let profile_id = u16_from_le id_array in
     if profile_id \<noteq> KDF_ARGON2ID_V1 then err (format_error ''unsupported KDF profile'')
     else
     and_then (index_range v 2 6) (\<lambda>len_bytes.
     and_then (read_array 4 len_bytes ''invalid KDF params length'') (\<lambda>len_array.
     and_then (to_usize (unat (u32_from_le len_array))
                 (format_error ''KDF params length overflow'')) (\<lambda>params_len.
     and_then (ok_or (checked_add KDF_PROFILE_HEADER_LEN params_len)
                 (format_error ''KDF params length overflow'')) (\<lambda>params_end.
     if params_end \<noteq> length v then err (format_error ''KDF params length mismatch'')
     else
     and_then (kdf_param_loop v params_end KDF_PROFILE_HEADER_LEN kdf_acc_empty) (\<lambda>(cursor, acc).
     if cursor \<noteq> params_end then err (format_error ''trailing KDF parameter garbage'')
     else
     and_then (ok_or (ka_argon2_version acc) (format_error ''missing argon2_version'')) (\<lambda>version.
     if version \<noteq> ARGON2_VERSION_0X13 then err (format_error ''unsupported Argon2 version'')
     else
     and_then (ok_or (ka_m_cost_kib acc) (format_error ''missing m_cost_kib'')) (\<lambda>m.
     and_then (ok_or (ka_t_cost acc) (format_error ''missing t_cost'')) (\<lambda>t.
     and_then (ok_or (ka_p_lanes acc) (format_error ''missing p_lanes'')) (\<lambda>p.
     and_then (ok_or (ka_output_len acc) (format_error ''missing output_len'')) (\<lambda>out_len.
     let argon2 = \<lparr>m_cost_kib = m, t_cost = t, p_lanes = p, output_len = out_len\<rparr> in
     and_then (validate_argon2_params argon2) (\<lambda>_.
     ok \<lparr>kp_profile_id = profile_id, kp_argon2 = argon2,
         kp_argon2_version = version\<rparr>))))))))))))))"

subsection \<open>Parsing the header\<close>

text \<open>The bit set of the tags met so far: whether the tag is a duplicate, and the new set.\<close>

definition header_tag_bit :: "u16 \<Rightarrow> u16 option" where
  "header_tag_bit tag =
     (if tag = TAG_VAULT_ID then Some 1
      else if tag = TAG_CREATED_AT then Some 2
      else if tag = TAG_KDF_PROFILE then Some 4
      else if tag = TAG_AEAD_PROFILE then Some 8
      else if tag = TAG_PQC_PROFILE then Some 16
      else if tag = TAG_SCHEMA_PROFILE then Some 32
      else if tag = TAG_HEADER_NONCE then Some 64
      else None)"

definition mark_seen_header_tag :: "u16 \<Rightarrow> u16 \<Rightarrow> bool \<times> u16" where
  "mark_seen_header_tag seen tag =
     (case header_tag_bit tag of
        None \<Rightarrow> (False, seen)
      | Some tag_bit \<Rightarrow> (seen AND tag_bit \<noteq> 0, seen OR tag_bit))"

definition validate_profile_set :: "VaultHeader \<Rightarrow> VaultProfileSet res" where
  "validate_profile_set h =
     and_then (AeadProfileId_new (vh_aead_profile h)) (\<lambda>aead.
     and_then (PqcProfileId_new (vh_pqc_profile h)) (\<lambda>pqc.
     and_then (KdfProfileId_new (vh_kdf_profile h)) (\<lambda>kdf.
     and_then (SchemaProfileId_new (vh_schema_profile h)) (\<lambda>schema.
     ok \<lparr>ps_aead = aead, ps_pqc = pqc, ps_kdf = kdf, ps_schema = schema\<rparr>))))"

text \<open>The local variables of the header loop; \<open>pqc_profile\<close> starts at 0, the others at \<open>None\<close>.\<close>

record HeaderAcc =
  ha_seen :: u16
  ha_vault_id :: "byte list option"
  ha_created_at :: "u64 option"
  ha_kdf_profile :: "u16 option"
  ha_kdf_params :: "HeaderKdfParams option"
  ha_aead_profile :: "u16 option"
  ha_pqc_profile :: u16
  ha_schema_profile :: "u16 option"
  ha_header_nonce :: "byte list option"

definition header_acc_empty :: HeaderAcc where
  "header_acc_empty = \<lparr>ha_seen = 0, ha_vault_id = None, ha_created_at = None,
     ha_kdf_profile = None, ha_kdf_params = None, ha_aead_profile = None, ha_pqc_profile = 0,
     ha_schema_profile = None, ha_header_nonce = None\<rparr>"

text \<open>The body of the \<open>match tag\<close> of the loop.\<close>

definition header_tlv_step :: "u16 \<Rightarrow> byte \<Rightarrow> byte list \<Rightarrow> HeaderAcc \<Rightarrow> HeaderAcc res" where
  "header_tlv_step tag flags v acc0 =
     (let (dup, seen) = mark_seen_header_tag (ha_seen acc0) tag;
          acc = acc0\<lparr>ha_seen := seen\<rparr> in
      if tag = TAG_VAULT_ID then
        and_then (reject_duplicate dup ''duplicate vault_id'') (\<lambda>_.
        and_then (read_array 16 v ''invalid vault_id length'') (\<lambda>x.
        ok (acc\<lparr>ha_vault_id := Some x\<rparr>)))
      else if tag = TAG_CREATED_AT then
        and_then (reject_duplicate dup ''duplicate created_at'') (\<lambda>_.
        and_then (read_tlv_u64 v ''invalid created_at length'') (\<lambda>x.
        ok (acc\<lparr>ha_created_at := Some x\<rparr>)))
      else if tag = TAG_KDF_PROFILE then
        and_then (reject_duplicate dup ''duplicate kdf_profile'') (\<lambda>_.
        and_then (parse_kdf_profile_params v) (\<lambda>x.
        ok (acc\<lparr>ha_kdf_profile := Some (kp_profile_id x), ha_kdf_params := Some x\<rparr>)))
      else if tag = TAG_AEAD_PROFILE then
        and_then (reject_duplicate dup ''duplicate aead_profile'') (\<lambda>_.
        and_then (read_tlv_u16 v ''invalid aead_profile length'') (\<lambda>x.
        ok (acc\<lparr>ha_aead_profile := Some x\<rparr>)))
      else if tag = TAG_PQC_PROFILE then
        and_then (reject_duplicate dup ''duplicate pqc_profile'') (\<lambda>_.
        and_then (read_tlv_u16 v ''invalid pqc_profile length'') (\<lambda>x.
        ok (acc\<lparr>ha_pqc_profile := x\<rparr>)))
      else if tag = TAG_SCHEMA_PROFILE then
        and_then (reject_duplicate dup ''duplicate schema_profile'') (\<lambda>_.
        and_then (read_tlv_u16 v ''invalid schema_profile length'') (\<lambda>x.
        ok (acc\<lparr>ha_schema_profile := Some x\<rparr>)))
      else if tag = TAG_HEADER_NONCE then
        and_then (reject_duplicate dup ''duplicate header_nonce'') (\<lambda>_.
        and_then (read_array 24 v ''invalid header_nonce length'') (\<lambda>x.
        ok (acc\<lparr>ha_header_nonce := Some x\<rparr>)))
      else if flags AND CRITICAL_FLAG \<noteq> 0
        then err (format_error ''unknown critical header TLV tag'')
      else ok acc0)"

function header_loop :: "byte list \<Rightarrow> nat \<Rightarrow> nat \<Rightarrow> HeaderAcc \<Rightarrow> (nat \<times> HeaderAcc) res" where
  "header_loop bytes header_end cursor acc =
     (if cursor < header_end then
        (if header_end - cursor < TLV_HEADER_LEN
         then err (format_error ''truncated header TLV'')
         else
        and_then (read_u16_le bytes cursor) (\<lambda>tag.
        and_then (uadd cursor 2) (\<lambda>flags_at.
        and_then (index_at bytes flags_at) (\<lambda>flags.
        and_then (uadd cursor 3) (\<lambda>len_at.
        and_then (read_u32_le bytes len_at) (\<lambda>len_u32.
        and_then (to_usize (unat len_u32) (format_error ''TLV length overflow'')) (\<lambda>len.
        and_then (uadd cursor TLV_HEADER_LEN) (\<lambda>value_start.
        and_then (ok_or (checked_add value_start len)
                    (format_error ''TLV length overflow'')) (\<lambda>value_end.
        if value_end > header_end then err (format_error ''truncated header TLV value'')
        else
        and_then (index_range bytes value_start value_end) (\<lambda>v.
        and_then (header_tlv_step tag flags v acc) (\<lambda>acc.
        header_loop bytes header_end value_end acc)))))))))))
      else ok (cursor, acc))"
  by pat_completeness auto
termination
  by (relation "measure (\<lambda>(bytes, header_end, cursor, acc). header_end - cursor)") auto

declare header_loop.simps [simp del]

definition parse_header :: "byte list \<Rightarrow> VaultHeader res" where
  "parse_header bytes =
     (if length bytes < HEADER_MIN_LEN then err (format_error ''truncated vault prefix'')
      else
     and_then (index_range bytes PREFIX_MAGIC_OFFSET PREFIX_FORMAT_VERSION_OFFSET) (\<lambda>magic.
     if magic \<noteq> MAGIC then err (format_error ''wrong magic bytes'')
     else
     and_then (read_u16_le bytes PREFIX_FORMAT_VERSION_OFFSET) (\<lambda>format_version.
     if format_version \<noteq> FORMAT_VERSION
     then err (format_error ''unsupported format version'')
     else
     and_then (read_u32_le bytes PREFIX_HEADER_LEN_OFFSET) (\<lambda>hl.
     and_then (to_usize (unat hl) (format_error ''header length overflow'')) (\<lambda>header_len.
     and_then (read_u32_le bytes PREFIX_RECORD_TABLE_LEN_OFFSET) (\<lambda>rl.
     and_then (to_usize (unat rl)
                 (format_error ''record table length overflow'')) (\<lambda>record_table_len.
     and_then (read_u64_le bytes PREFIX_BODY_LEN_OFFSET) (\<lambda>bl.
     and_then (to_usize (unat bl) (format_error ''body length overflow'')) (\<lambda>body_len.
     and_then (ok_or (checked_add HEADER_MIN_LEN header_len)
                 (format_error ''header length overflow'')) (\<lambda>header_end.
     if record_table_len > body_len
     then err (format_error ''record table length exceeds body length'')
     else
     and_then (ok_or (checked_add header_end body_len)
                 (format_error ''body length overflow'')) (\<lambda>file_end.
     if file_end > length bytes
     then err (format_error ''declared sections exceed file size'')
     else
     and_then (header_loop bytes header_end HEADER_MIN_LEN header_acc_empty) (\<lambda>(cursor, acc).
     if cursor \<noteq> header_end \<or> file_end \<noteq> length bytes
     then err (format_error ''trailing garbage'')
     else
     and_then (ok_or (ha_vault_id acc) (format_error ''missing vault_id'')) (\<lambda>vault_id.
     and_then (ok_or (ha_created_at acc) (format_error ''missing created_at'')) (\<lambda>created_at.
     and_then (ok_or (ha_schema_profile acc) (format_error ''missing schema_profile'')) (\<lambda>schema.
     and_then (ok_or (ha_aead_profile acc) (format_error ''missing aead_profile'')) (\<lambda>aead.
     and_then (ok_or (ha_kdf_profile acc) (format_error ''missing kdf_profile'')) (\<lambda>kdf.
     and_then (ok_or (ha_kdf_params acc) (format_error ''missing kdf params'')) (\<lambda>kdf_params.
     and_then (ok_or (ha_header_nonce acc) (format_error ''missing header_nonce'')) (\<lambda>nonce.
     let h = \<lparr>vh_vault_id = vault_id, vh_created_at = created_at,
              vh_format_version = format_version, vh_schema_profile = schema,
              vh_aead_profile = aead, vh_kdf_profile = kdf, vh_kdf_params = kdf_params,
              vh_pqc_profile = ha_pqc_profile acc, vh_header_nonce = nonce,
              vh_profile_set = \<lparr>ps_aead = AEAD_XCHACHA20_POLY1305_V1, ps_pqc = PQC_NONE,
                ps_kdf = KDF_ARGON2ID_V1, ps_schema = SCHEMA_MEISSNER_RECORDS_V2\<rparr>\<rparr> in
     and_then (validate_profile_set h) (\<lambda>profile_set.
     ok (h\<lparr>vh_profile_set := profile_set\<rparr>)))))))))))))))))))))"

end
