(* ===== verification/Header_Laws.thy ===== *)
theory Header_Laws
  imports Format_Header
begin

text \<open>
  What makes the header codec of Format_Header correct: no input makes the parsers panic, the
  KDF profile and the header are read back as they were written, and a parsed header carries
  the one supported suite with Argon2 parameters inside the registered profile.
\<close>

subsection \<open>No panics\<close>

lemma isize_fits_usize [simp]: "n \<le> isize_max \<Longrightarrow> n \<le> usize_max"
  by (simp add: isize_max_def usize_max_def)

lemma isize_slack: "n \<le> isize_max \<Longrightarrow> k \<le> 4294967295 \<Longrightarrow> n + k \<le> usize_max"
  by (simp add: isize_max_def usize_max_def)

lemma no_panic_kdf_param_step [simp]: "no_panic (kdf_param_step tag v acc)"
  unfolding kdf_param_step_def by (auto intro!: no_panic_intros)

lemma no_panic_kdf_param_loop:
  "params_end \<le> length v \<Longrightarrow> length v \<le> isize_max \<Longrightarrow>
    no_panic (kdf_param_loop v params_end cursor acc)"
proof (induction v params_end cursor acc rule: kdf_param_loop.induct)
  case (1 v params_end cursor acc)
  show ?case
    apply (subst kdf_param_loop.simps)
    apply (intro no_panic_intros; (simp; fail)?)
    using 1 isize_slack [of "length v" 4]
    by (auto simp: not_less)
qed

lemma no_panic_parse_kdf [simp]:
  "length v \<le> isize_max \<Longrightarrow> no_panic (parse_kdf_profile_params v)"
  unfolding parse_kdf_profile_params_def Let_def
  by (auto intro!: no_panic_intros no_panic_kdf_param_loop)

lemma no_panic_header_tlv_step [simp]:
  "length v \<le> isize_max \<Longrightarrow> no_panic (header_tlv_step tag flags v acc)"
  unfolding header_tlv_step_def Let_def by (auto intro!: no_panic_intros)

lemma get_range_isize: "get_range bs a b = Some v \<Longrightarrow> length bs \<le> isize_max \<Longrightarrow> length v \<le> isize_max"
  by (auto simp: get_range_Some)

lemma no_panic_header_loop:
  "header_end \<le> length bs \<Longrightarrow> length bs \<le> isize_max \<Longrightarrow>
    no_panic (header_loop bs header_end cursor acc)"
proof (induction bs header_end cursor acc rule: header_loop.induct)
  case (1 bs header_end cursor acc)
  show ?case
    apply (subst header_loop.simps)
    apply (intro no_panic_intros; (simp; fail)?)
    using 1 isize_slack [of "length bs" 7]
    by (auto simp: not_less dest: get_range_isize)
qed

lemma no_panic_profile_ids [simp]:
  "no_panic (AeadProfileId_new v)" "no_panic (PqcProfileId_new v)"
  "no_panic (KdfProfileId_new v)" "no_panic (SchemaProfileId_new v)"
  by (simp_all add: AeadProfileId_new_def PqcProfileId_new_def KdfProfileId_new_def
      SchemaProfileId_new_def)

lemma no_panic_validate_profile_set [simp]: "no_panic (validate_profile_set h)"
  unfolding validate_profile_set_def by (intro no_panic_intros) simp_all

lemma no_panic_parse_header: "length bs \<le> isize_max \<Longrightarrow> no_panic (parse_header bs)"
  unfolding parse_header_def Let_def
  by (intro no_panic_intros; (simp; fail)?) (auto intro!: no_panic_header_loop)

subsection \<open>The KDF profile is read back\<close>

lemma kdf_param_loop_tlv:
  assumes "holds_at v cursor (u16_le tag @ u16_le (of_nat (length p)) @ p)"
    and "length p \<le> u16_max" "cursor + 4 + length p \<le> params_end" "params_end \<le> usize_max"
  shows "kdf_param_loop v params_end cursor acc =
    and_then (kdf_param_step tag p acc) (kdf_param_loop v params_end (cursor + 4 + length p))"
proof -
  have tag: "get_range v cursor (cursor + 2) = Some (u16_le tag)"
    and len: "get_range v (cursor + 2) (cursor + 4) = Some (u16_le (of_nat (length p)))"
    and par: "get_range v (cursor + 4) (cursor + 4 + length p) = Some p"
    using assms(1) by (simp_all add: get_range_holds_at holds_at_append add.assoc)
  show ?thesis
    using assms(2-4)
    by (subst kdf_param_loop.simps) (auto simp: index_range_get tag len par read_array_def)
qed

lemma kdf_param_loop_end: "kdf_param_loop v e e acc = Inr (e, acc)"
  by (subst kdf_param_loop.simps) simp

definition kdf_tlv :: "u16 \<Rightarrow> byte list \<Rightarrow> byte list" where
  "kdf_tlv tag p = u16_le tag @ u16_le (of_nat (length p)) @ p"

lemma write_kdf_param_tlv_Inr [simp]:
  "write_kdf_param_tlv bs tag p = Inr out \<longleftrightarrow> length p \<le> u16_max \<and> out = bs @ kdf_tlv tag p"
  by (auto simp: write_kdf_param_tlv_def kdf_tlv_def)

lemma length_kdf_tlv [simp]: "length (kdf_tlv tag p) = 4 + length p"
  by (simp add: kdf_tlv_def)

definition kdf_tlvs :: "HeaderKdfParams \<Rightarrow> byte list" where
  "kdf_tlvs p =
     kdf_tlv TAG_KDF_M_COST_KIB (u32_le (m_cost_kib (kp_argon2 p))) @
     kdf_tlv TAG_KDF_T_COST (u32_le (t_cost (kp_argon2 p))) @
     kdf_tlv TAG_KDF_P_LANES (u32_le (p_lanes (kp_argon2 p))) @
     kdf_tlv TAG_KDF_OUTPUT_LEN (u16_le 32) @
     kdf_tlv TAG_KDF_ARGON2_VERSION (u32_le ARGON2_VERSION_0X13)"

definition kdf_params_wf :: "HeaderKdfParams \<Rightarrow> bool" where
  "kdf_params_wf p \<longleftrightarrow> kp_profile_id p = KDF_ARGON2ID_V1 \<and>
     kp_argon2_version p = ARGON2_VERSION_0X13 \<and> argon2_in_profile (kp_argon2 p)"

lemma length_kdf_tlvs [simp]: "length (kdf_tlvs p) = 38"
  by (simp add: kdf_tlvs_def)

lemma serialize_kdf_profile_params_Inr:
  "serialize_kdf_profile_params p = Inr bs \<longleftrightarrow>
     kdf_params_wf p \<and> bs = u16_le KDF_ARGON2ID_V1 @ u32_le 38 @ kdf_tlvs p"
proof (cases "kdf_params_wf p")
  case True
  then have "output_len (kp_argon2 p) = 32" by (simp add: kdf_params_wf_def argon2_in_profile_def)
  with True show ?thesis
    by (auto simp: serialize_kdf_profile_params_def kdf_params_wf_def kdf_tlvs_def u16_max_def
        u32_max_def)
next
  case False
  then show ?thesis
    by (auto simp: serialize_kdf_profile_params_def kdf_params_wf_def)
qed

lemma kdf_param_loop_kdf_tlvs:
  assumes "holds_at v cursor (kdf_tlvs p)" "argon2_in_profile (kp_argon2 p)"
    and "params_end = cursor + 38" "params_end \<le> usize_max"
  shows "kdf_param_loop v params_end cursor kdf_acc_empty =
    Inr (params_end, \<lparr>ka_m_cost_kib = Some (m_cost_kib (kp_argon2 p)),
      ka_t_cost = Some (t_cost (kp_argon2 p)), ka_p_lanes = Some (p_lanes (kp_argon2 p)),
      ka_output_len = Some (output_len (kp_argon2 p)),
      ka_argon2_version = Some ARGON2_VERSION_0X13\<rparr>)"
proof -
  have "output_len (kp_argon2 p) = 32" using assms(2) by (simp add: argon2_in_profile_def)
  moreover have "holds_at v cursor (kdf_tlv TAG_KDF_M_COST_KIB (u32_le (m_cost_kib (kp_argon2 p))))"
    "holds_at v (cursor + 8) (kdf_tlv TAG_KDF_T_COST (u32_le (t_cost (kp_argon2 p))))"
    "holds_at v (cursor + 16) (kdf_tlv TAG_KDF_P_LANES (u32_le (p_lanes (kp_argon2 p))))"
    "holds_at v (cursor + 24) (kdf_tlv TAG_KDF_OUTPUT_LEN (u16_le 32))"
    "holds_at v (cursor + 30) (kdf_tlv TAG_KDF_ARGON2_VERSION (u32_le ARGON2_VERSION_0X13))"
    using assms(1) unfolding kdf_tlvs_def holds_at_append
    by (simp_all add: add.assoc)
  ultimately show ?thesis
    using assms(3,4)
    by (simp add: kdf_tlv_def kdf_param_loop_tlv [where p = "u32_le x" for x]
        kdf_param_loop_tlv [where p = "u16_le x" for x] kdf_param_loop_end u16_max_def
        kdf_param_step_def kdf_acc_empty_def add.assoc
        reject_duplicate_def read_kdf_u32_def read_kdf_u16_def read_tlv_u16_def read_array_def)
qed

lemma parse_kdf_serialized:
  assumes "kdf_params_wf p"
  shows "parse_kdf_profile_params (u16_le KDF_ARGON2ID_V1 @ u32_le 38 @ kdf_tlvs p) = Inr p"
proof -
  let ?v = "u16_le KDF_ARGON2ID_V1 @ u32_le 38 @ kdf_tlvs p"
  have "holds_at ?v 6 (kdf_tlvs p)"
    using holds_at_self [of ?v] by (simp only: holds_at_append length_u_le) simp
  then have loop: "kdf_param_loop ?v 44 6 kdf_acc_empty = Inr (44, \<lparr>ka_m_cost_kib = Some (m_cost_kib (kp_argon2 p)),
      ka_t_cost = Some (t_cost (kp_argon2 p)), ka_p_lanes = Some (p_lanes (kp_argon2 p)),
      ka_output_len = Some (output_len (kp_argon2 p)),
      ka_argon2_version = Some ARGON2_VERSION_0X13\<rparr>)"
    using assms kdf_param_loop_kdf_tlvs [of ?v 6 p 44] by (simp add: kdf_params_wf_def usize_max_def)
  have id: "index_range ?v 0 2 = Inr (u16_le KDF_ARGON2ID_V1)"
    and len: "index_range ?v 2 6 = Inr (u32_le 38)"
    by (simp_all add: index_range_def)
  show ?thesis
    unfolding parse_kdf_profile_params_def id len
    using assms loop
    by (simp add: read_array_def kdf_params_wf_def usize_max_def Let_def
        validate_argon2_params_Inr [THEN iffD2] argon2_in_profile_def)
qed

subsection \<open>The header is read back\<close>

definition hdr_tlv :: "u16 \<Rightarrow> byte \<Rightarrow> byte list \<Rightarrow> byte list" where
  "hdr_tlv tag flags v = u16_le tag @ [flags] @ u32_le (of_nat (length v)) @ v"

lemma length_hdr_tlv [simp]: "length (hdr_tlv tag flags v) = 7 + length v"
  by (simp add: hdr_tlv_def)

lemma write_header_tlv_Inr [simp]:
  "write_header_tlv bs tag flags v = Inr out \<longleftrightarrow> length v \<le> u32_max \<and> out = bs @ hdr_tlv tag flags v"
  by (auto simp: write_header_tlv_def hdr_tlv_def)

lemma header_loop_tlv:
  assumes "holds_at bs cursor (hdr_tlv tag flags v)"
    and "length v \<le> u32_max" "cursor + 7 + length v \<le> he" "he \<le> usize_max"
  shows "header_loop bs he cursor acc =
    and_then (header_tlv_step tag flags v acc) (header_loop bs he (cursor + 7 + length v))"
proof -
  have at: "holds_at bs cursor (u16_le tag)" "holds_at bs (cursor + 2) [flags]"
    "holds_at bs (cursor + 3) (u32_le (of_nat (length v)))" "holds_at bs (cursor + 7) v"
    using assms(1) by (simp_all add: hdr_tlv_def holds_at_append holds_at_Cons ac_simps)
  then have tag: "read_u16_le bs cursor = Inr tag"
    and len: "read_u32_le bs (cursor + 3) = Inr (of_nat (length v))"
    using assms(3,4) by (simp_all add: read_u16_le_Inr read_u32_le_Inr)
  have flag: "index_at bs (cursor + 2) = Inr flags"
    using at(2) by (simp add: holds_at_Cons)
  have val: "index_range bs (cursor + 7) (cursor + 7 + length v) = Inr v"
    using at(4) by (simp add: get_range_holds_at)
  show ?thesis
    using assms(2-4)
    by (subst header_loop.simps)
       (auto simp: tag len flag val to_usize_def)
qed

lemma header_loop_end: "header_loop bs e e acc = Inr (e, acc)"
  by (subst header_loop.simps) simp

definition header_tlvs :: "VaultHeader \<Rightarrow> byte list" where
  "header_tlvs h =
     hdr_tlv TAG_VAULT_ID CRITICAL_FLAG (vh_vault_id h) @
     hdr_tlv TAG_CREATED_AT CRITICAL_FLAG (u64_le (vh_created_at h)) @
     hdr_tlv TAG_KDF_PROFILE CRITICAL_FLAG
       (u16_le KDF_ARGON2ID_V1 @ u32_le 38 @ kdf_tlvs (vh_kdf_params h)) @
     hdr_tlv TAG_AEAD_PROFILE CRITICAL_FLAG (u16_le AEAD_XCHACHA20_POLY1305_V1) @
     hdr_tlv TAG_PQC_PROFILE 0 (u16_le PQC_NONE) @
     hdr_tlv TAG_SCHEMA_PROFILE CRITICAL_FLAG (u16_le SCHEMA_MEISSNER_RECORDS_V2) @
     hdr_tlv TAG_HEADER_NONCE CRITICAL_FLAG (vh_header_nonce h)"

text \<open>The one suite the code accepts: what the profile newtypes and the parser guarantee.\<close>

definition suite_pinned :: "VaultHeader \<Rightarrow> bool" where
  "suite_pinned h \<longleftrightarrow>
     vh_format_version h = FORMAT_VERSION \<and>
     vh_aead_profile h = AEAD_XCHACHA20_POLY1305_V1 \<and> vh_pqc_profile h = PQC_NONE \<and>
     vh_kdf_profile h = KDF_ARGON2ID_V1 \<and>
     vh_schema_profile h = SCHEMA_MEISSNER_RECORDS_V2 \<and>
     vh_profile_set h = \<lparr>ps_aead = AEAD_XCHACHA20_POLY1305_V1, ps_pqc = PQC_NONE,
       ps_kdf = KDF_ARGON2ID_V1, ps_schema = SCHEMA_MEISSNER_RECORDS_V2\<rparr>"

definition header_wf :: "VaultHeader \<Rightarrow> bool" where
  "header_wf h \<longleftrightarrow> suite_pinned h \<and> kdf_params_wf (vh_kdf_params h) \<and>
     length (vh_vault_id h) = 16 \<and> length (vh_header_nonce h) = 24"

lemma length_header_tlvs: "header_wf h \<Longrightarrow> length (header_tlvs h) = 147"
  by (simp add: header_tlvs_def header_wf_def)

lemma serialize_header_Inr:
  assumes "header_wf h"
  shows "serialize_header h = Inr (header_tlvs h)"
proof -
  have "serialize_kdf_profile_params (vh_kdf_params h) =
    Inr (u16_le KDF_ARGON2ID_V1 @ u32_le 38 @ kdf_tlvs (vh_kdf_params h))"
    using assms by (simp add: serialize_kdf_profile_params_Inr header_wf_def)
  moreover have "kp_profile_id (vh_kdf_params h) = 1"
    using assms by (simp add: header_wf_def kdf_params_wf_def)
  ultimately show ?thesis
    using assms
    by (simp add: serialize_header_def header_wf_def suite_pinned_def header_tlvs_def Let_def
        u32_max_def)
qed

lemma header_loop_header_tlvs:
  assumes "holds_at bs 26 (header_tlvs h)" "header_wf h" "173 \<le> length bs" "length bs \<le> usize_max"
  shows "header_loop bs 173 26 header_acc_empty =
    Inr (173, \<lparr>ha_seen = 127, ha_vault_id = Some (vh_vault_id h),
      ha_created_at = Some (vh_created_at h), ha_kdf_profile = Some KDF_ARGON2ID_V1,
      ha_kdf_params = Some (vh_kdf_params h), ha_aead_profile = Some AEAD_XCHACHA20_POLY1305_V1,
      ha_pqc_profile = PQC_NONE, ha_schema_profile = Some SCHEMA_MEISSNER_RECORDS_V2,
      ha_header_nonce = Some (vh_header_nonce h)\<rparr>)"
proof -
  let ?kdf = "u16_le KDF_ARGON2ID_V1 @ u32_le 38 @ kdf_tlvs (vh_kdf_params h)"
  have len: "length (vh_vault_id h) = 16" "length (vh_header_nonce h) = 24"
    and kdf: "parse_kdf_profile_params ?kdf = Inr (vh_kdf_params h)"
      "kp_profile_id (vh_kdf_params h) = KDF_ARGON2ID_V1" "length ?kdf = 44"
    using assms(2) parse_kdf_serialized [of "vh_kdf_params h"]
    by (simp_all add: header_wf_def kdf_params_wf_def)
  have at: "holds_at bs 26 (hdr_tlv TAG_VAULT_ID 1 (vh_vault_id h))"
    "holds_at bs 49 (hdr_tlv TAG_CREATED_AT 1 (u64_le (vh_created_at h)))"
    "holds_at bs 64 (hdr_tlv TAG_KDF_PROFILE 1 ?kdf)"
    "holds_at bs 115 (hdr_tlv TAG_AEAD_PROFILE 1 (u16_le AEAD_XCHACHA20_POLY1305_V1))"
    "holds_at bs 124 (hdr_tlv TAG_PQC_PROFILE 0 (u16_le PQC_NONE))"
    "holds_at bs 133 (hdr_tlv TAG_SCHEMA_PROFILE 1 (u16_le SCHEMA_MEISSNER_RECORDS_V2))"
    "holds_at bs 142 (hdr_tlv TAG_HEADER_NONCE 1 (vh_header_nonce h))"
    using assms(1) unfolding header_tlvs_def holds_at_append by (simp_all add: len)
  have hm: "(173 :: nat) \<le> usize_max" using assms(3,4) by simp
  note loops = header_loop_tlv [OF at(1), of 173] header_loop_tlv [OF at(2), of 173]
    header_loop_tlv [OF at(3), of 173] header_loop_tlv [OF at(4), of 173]
    header_loop_tlv [OF at(5), of 173] header_loop_tlv [OF at(6), of 173]
    header_loop_tlv [OF at(7), of 173]
  show ?thesis
    using hm
    by (simp add: loops kdf len header_loop_end u32_max_def header_tlv_step_def mark_seen_header_tag_def
        header_tag_bit_def header_acc_empty_def reject_duplicate_def read_array_def
        read_tlv_u16_def read_tlv_u64_def del: append.simps append_assoc)
qed

lemma serialize_prefix_Inr [simp]:
  "serialize_prefix v hl rl bl = Inr bs \<longleftrightarrow>
    v = FORMAT_VERSION \<and> bs = MAGIC @ u16_le v @ u32_le hl @ u32_le rl @ u64_le bl"
  by (auto simp: serialize_prefix_def)

lemma validate_profile_set_pinned:
  "suite_pinned h \<Longrightarrow> validate_profile_set h = Inr (vh_profile_set h)"
  by (simp add: suite_pinned_def validate_profile_set_def AeadProfileId_new_def
      PqcProfileId_new_def KdfProfileId_new_def SchemaProfileId_new_def)

lemma parse_header_serialized:
  assumes wf: "header_wf h" and hdr: "serialize_header h = Inr hdr"
    and pre: "serialize_prefix FORMAT_VERSION (of_nat (length hdr)) rl bl = Inr pre"
    and rl: "unat rl \<le> unat bl" and rest: "length rest = unat bl" "173 + unat bl \<le> usize_max"
  shows "parse_header (pre @ hdr @ rest) = Inr h"
proof -
  let ?bs = "pre @ hdr @ rest"
  have hdr_eq: "hdr = header_tlvs h" and hl: "length hdr = 147"
    using hdr serialize_header_Inr [OF wf] length_header_tlvs [OF wf] by auto
  have pre_eq: "pre = MAGIC @ u16_le 1 @ u32_le 147 @ u32_le rl @ u64_le bl"
    using pre hl by simp
  then have pl: "length pre = 26" by simp
  have self: "holds_at ?bs 0 ?bs" by simp
  have at: "holds_at ?bs 0 MAGIC" "holds_at ?bs 8 (u16_le 1)" "holds_at ?bs 10 (u32_le 147)"
    "holds_at ?bs 14 (u32_le rl)" "holds_at ?bs 18 (u64_le bl)" "holds_at ?bs 26 (header_tlvs h)"
    using self pl unfolding hdr_eq pre_eq
    by (simp_all only: append_assoc holds_at_append length_u_le length_MAGIC) simp_all
  have bsl: "length ?bs = 173 + unat bl" using pl hl rest by simp
  have magic: "index_range ?bs 0 8 = Inr MAGIC"
    using at(1) by (simp add: get_range_holds_at)
  have reads: "read_u16_le ?bs 8 = Inr 1" "read_u32_le ?bs 10 = Inr 147"
    "read_u32_le ?bs 14 = Inr rl" "read_u64_le ?bs 18 = Inr bl"
    using at by (simp_all add: reads_Inr usize_max_def)
  have u: "(173 :: nat) \<le> usize_max" "(147 :: nat) \<le> usize_max" by (simp_all add: usize_max_def)
  have loop: "header_loop ?bs 173 26 header_acc_empty =
    Inr (173, \<lparr>ha_seen = 127, ha_vault_id = Some (vh_vault_id h),
      ha_created_at = Some (vh_created_at h), ha_kdf_profile = Some KDF_ARGON2ID_V1,
      ha_kdf_params = Some (vh_kdf_params h), ha_aead_profile = Some AEAD_XCHACHA20_POLY1305_V1,
      ha_pqc_profile = PQC_NONE, ha_schema_profile = Some SCHEMA_MEISSNER_RECORDS_V2,
      ha_header_nonce = Some (vh_header_nonce h)\<rparr>)"
    using at(6) wf bsl rest by (intro header_loop_header_tlvs) simp_all
  have pin: "suite_pinned h" using wf by (simp add: header_wf_def)
  let ?h = "\<lparr>vh_vault_id = vh_vault_id h, vh_created_at = vh_created_at h,
    vh_format_version = 1, vh_schema_profile = 2, vh_aead_profile = 1, vh_kdf_profile = 1,
    vh_kdf_params = vh_kdf_params h, vh_pqc_profile = 0, vh_header_nonce = vh_header_nonce h,
    vh_profile_set = \<lparr>ps_aead = 1, ps_pqc = 0, ps_kdf = 1, ps_schema = 2\<rparr>\<rparr>"
  have h: "?h = h" using pin by (cases h) (simp add: suite_pinned_def)
  have h2: "\<lparr>vh_vault_id = vh_vault_id h, vh_created_at = vh_created_at h,
    vh_format_version = 1, vh_schema_profile = 2, vh_aead_profile = 1, vh_kdf_profile = 1,
    vh_kdf_params = vh_kdf_params h, vh_pqc_profile = 0, vh_header_nonce = vh_header_nonce h,
    vh_profile_set = vh_profile_set h\<rparr> = h"
    using pin by (cases h) (simp add: suite_pinned_def)
  note val = validate_profile_set_pinned [OF pin]
  show ?thesis
    unfolding parse_header_def Let_def
    by (simp add: bsl magic reads u loop rl rest val h h2 not_less pl hl del: append_assoc)
qed

subsection \<open>What a parsed header guarantees\<close>

lemma parse_kdf_wf: "parse_kdf_profile_params v = Inr p \<Longrightarrow> kdf_params_wf p"
  by (auto simp: parse_kdf_profile_params_def Let_def kdf_params_wf_def split: if_splits)

definition header_acc_inv :: "HeaderAcc \<Rightarrow> bool" where
  "header_acc_inv acc \<longleftrightarrow>
     (case ha_vault_id acc of None \<Rightarrow> True | Some x \<Rightarrow> length x = 16) \<and>
     (case ha_header_nonce acc of None \<Rightarrow> True | Some x \<Rightarrow> length x = 24) \<and>
     (case ha_kdf_params acc of None \<Rightarrow> True | Some p \<Rightarrow> kdf_params_wf p)"

lemma header_tlv_step_inv:
  "header_tlv_step tag flags v acc = Inr acc' \<Longrightarrow> header_acc_inv acc \<Longrightarrow> header_acc_inv acc'"
  by (auto simp: header_tlv_step_def header_acc_inv_def Let_def split: if_splits prod.splits
      dest: parse_kdf_wf)

lemma header_loop_inv:
  "header_loop bs he cursor acc = Inr (c, acc') \<Longrightarrow> header_acc_inv acc \<Longrightarrow> header_acc_inv acc'"
proof (induction bs he cursor acc rule: header_loop.induct)
  case (1 bs he cursor acc)
  show ?case
    using 1(2,3)
    by (subst (asm) header_loop.simps)
       (auto split: if_splits intro: 1(1) header_tlv_step_inv)
qed

lemma validate_profile_set_Inr:
  "validate_profile_set h = Inr ps \<longleftrightarrow>
    vh_aead_profile h = AEAD_XCHACHA20_POLY1305_V1 \<and> vh_pqc_profile h = PQC_NONE \<and>
    vh_kdf_profile h = KDF_ARGON2ID_V1 \<and> vh_schema_profile h = SCHEMA_MEISSNER_RECORDS_V2 \<and>
    ps = \<lparr>ps_aead = AEAD_XCHACHA20_POLY1305_V1, ps_pqc = PQC_NONE, ps_kdf = KDF_ARGON2ID_V1,
      ps_schema = SCHEMA_MEISSNER_RECORDS_V2\<rparr>"
  by (auto simp: validate_profile_set_def AeadProfileId_new_def PqcProfileId_new_def
      KdfProfileId_new_def SchemaProfileId_new_def split: if_splits)

lemma parse_header_wf:
  assumes "parse_header bs = Inr h"
  shows "header_wf h"
proof -
  obtain he c acc where loop: "header_loop bs he 26 header_acc_empty = Inr (c, acc)"
    and acc: "ha_vault_id acc = Some (vh_vault_id h)" "ha_header_nonce acc = Some (vh_header_nonce h)"
      "ha_kdf_params acc = Some (vh_kdf_params h)"
    and pin: "suite_pinned h"
    using assms
    by (auto simp: parse_header_def Let_def suite_pinned_def validate_profile_set_Inr
        split: if_splits)
  have "header_acc_inv acc"
    by (rule header_loop_inv [OF loop]) (simp add: header_acc_inv_def header_acc_empty_def)
  then show ?thesis
    using acc pin by (simp add: header_acc_inv_def header_wf_def)
qed

subsection \<open>Wire format interfaces\<close>

text \<open>
  The header is a section of a file: its codec is the section between a prefix and the rest,
  here with the empty body and table of a file that holds a header only.
\<close>

definition header_only_file :: "VaultHeader \<Rightarrow> byte list res" where
  "header_only_file h =
     and_then (serialize_header h) (\<lambda>hdr.
     and_then (serialize_prefix FORMAT_VERSION (of_nat (length hdr)) 0 0) (\<lambda>pre.
     ok (pre @ hdr)))"

interpretation kdf_fmt: codec serialize_kdf_profile_params parse_kdf_profile_params "\<lambda>_. True"
  by unfold_locales (auto simp: serialize_kdf_profile_params_Inr parse_kdf_serialized)

interpretation header_fmt: codec header_only_file parse_header header_wf
proof unfold_locales
  fix h bs
  assume "header_wf h" "header_only_file h = Inr bs"
  then show "parse_header bs = Inr h"
    using parse_header_serialized [of h _ 0 0 _ "[]"]
    by (auto simp: header_only_file_def usize_max_def)
qed

subsection \<open>Properties\<close>

text \<open>No file content makes the header parser panic: the unchecked indexing and the
  unchecked additions of \<open>parse_header\<close> and \<open>parse_kdf_profile_params\<close> are always in range
  for a byte slice (at most \<open>isize_max\<close> bytes long).\<close>

theorem parse_header_total:
  assumes "length bs \<le> isize_max"
  shows "no_panic (parse_header bs)"
  using assms by (rule no_panic_parse_header)

theorem parse_header_total_witness:
  "no_panic (parse_header (MAGIC @ u16_le 1 @ u32_le 9 @ u32_le 0 @ u64_le 0 @ zeros 9))"
  by (rule parse_header_total) (simp add: isize_max_def)

text \<open>The header round trip: a file made of the prefix that \<open>serialize_prefix\<close> writes, the
  section that \<open>serialize_header\<close> writes and any body of the declared length parses to exactly
  the header that was serialized, with all the profile fields and KDF parameters.\<close>

theorem header_roundtrip:
  assumes "header_wf h" "serialize_header h = Inr hdr"
    and "serialize_prefix FORMAT_VERSION (of_nat (length hdr)) rl bl = Inr pre"
    and "unat rl \<le> unat bl" "length rest = unat bl" "length (pre @ hdr @ rest) \<le> usize_max"
  shows "parse_header (pre @ hdr @ rest) = Inr h"
  using assms serialize_header_Inr [OF assms(1)] length_header_tlvs [OF assms(1)]
  by (intro parse_header_serialized) auto

definition sample_header :: VaultHeader where
  "sample_header = \<lparr>vh_vault_id = replicate 16 7, vh_created_at = 1700000000,
     vh_format_version = 1, vh_schema_profile = 2, vh_aead_profile = 1, vh_kdf_profile = 1,
     vh_kdf_params = canonical_argon2id_v1, vh_pqc_profile = 0,
     vh_header_nonce = replicate 24 9,
     vh_profile_set = \<lparr>ps_aead = 1, ps_pqc = 0, ps_kdf = 1, ps_schema = 2\<rparr>\<rparr>"

lemma canonical_in_profile [simp]: "argon2_in_profile (kp_argon2 canonical_argon2id_v1)"
  by (simp add: argon2_in_profile_def canonical_argon2id_v1_def)

lemma canonical_kdf_wf [simp]: "kdf_params_wf canonical_argon2id_v1"
  by (simp add: kdf_params_wf_def) (simp add: canonical_argon2id_v1_def)

lemma sample_header_wf: "header_wf sample_header"
  by (simp add: sample_header_def header_wf_def suite_pinned_def)

theorem header_roundtrip_witness:
  "parse_header ((MAGIC @ u16_le 1 @ u32_le 147 @ u32_le 2 @ u64_le 3) @
     header_tlvs sample_header @ [1, 2, 3]) = Inr sample_header"
  by (rule header_roundtrip [where rl = 2 and bl = 3])
     (simp_all add: sample_header_wf serialize_header_Inr length_header_tlvs usize_max_def)

text \<open>C29. The parse boundary is fail-closed: a header that parses carries the single
  supported suite (format 1, XChaCha20-Poly1305, no PQC, Argon2id v1, records schema V2), in
  its fields and in its validated profile set, Argon2 parameters inside the registered profile
  and identifiers of the right length. No vault file can lower the KDF cost or choose another
  suite.\<close>

theorem parse_header_fail_closed:
  assumes "parse_header bs = Inr h"
  shows "suite_pinned h \<and> kdf_params_wf (vh_kdf_params h) \<and>
    argon2_in_profile (kp_argon2 (vh_kdf_params h)) \<and>
    length (vh_vault_id h) = 16 \<and> length (vh_header_nonce h) = 24"
  using parse_header_wf [OF assms] by (simp add: header_wf_def kdf_params_wf_def)

theorem parse_header_fail_closed_witness:
  "suite_pinned sample_header \<and> kdf_params_wf (vh_kdf_params sample_header) \<and>
    argon2_in_profile (kp_argon2 (vh_kdf_params sample_header)) \<and>
    length (vh_vault_id sample_header) = 16 \<and> length (vh_header_nonce sample_header) = 24"
proof (rule parse_header_fail_closed)
  show "parse_header ((MAGIC @ u16_le 1 @ u32_le 147 @ u32_le 0 @ u64_le 0) @
      header_tlvs sample_header @ []) = Inr sample_header"
    by (rule parse_header_serialized [where rl = 0 and bl = 0])
       (simp_all add: sample_header_wf serialize_header_Inr length_header_tlvs usize_max_def)
qed

text \<open>The KDF profile round trip: \<open>parse_kdf_profile_params\<close> reads back every value
  \<open>serialize_kdf_profile_params\<close> accepts, and it accepts exactly the parameters of the
  registered Argon2id profile.\<close>

theorem kdf_profile_roundtrip:
  assumes "serialize_kdf_profile_params p = Inr bs"
  shows "parse_kdf_profile_params bs = Inr p \<and> kdf_params_wf p"
  using kdf_fmt.par_ser [of p bs] assms serialize_kdf_profile_params_Inr [of p bs] by simp

theorem kdf_profile_roundtrip_witness:
  "parse_kdf_profile_params (u16_le 1 @ u32_le 38 @ kdf_tlvs canonical_argon2id_v1) =
      Inr canonical_argon2id_v1 \<and> kdf_params_wf canonical_argon2id_v1"
  by (rule kdf_profile_roundtrip) (simp add: serialize_kdf_profile_params_Inr)

end
