(* ===== verification/Crypto_Api.thy ===== *)
theory Crypto_Api
  imports Runtime Header_Laws
begin

text \<open>
  The meissnerseal-crypto crate: AEAD (src/aead.rs), key derivation (src/kdf/argon2.rs,
  src/kdf/hkdf.rs), hashing (src/hash.rs) and randomness (src/rng.rs). The primitives come from
  packages that are not part of the repository (chacha20poly1305, argon2, hkdf, sha2, blake2);
  they are the fields of a record \<open>prims\<close> that every definition takes as its argument. What the
  code relies on is stated by \<open>aead_correct\<close>, \<open>aead_tight\<close> and \<open>kdf_total\<close> below; \<open>toy_prims\<close>
  satisfies all of them and lets closed instances be evaluated.
\<close>

subsection \<open>Primitives of other packages\<close>

type_synonym key = "byte list"

record prims =
  xchacha_seal :: "key \<Rightarrow> byte list \<Rightarrow> byte list \<Rightarrow> byte list \<Rightarrow> byte list option"
  xchacha_open :: "key \<Rightarrow> byte list \<Rightarrow> byte list \<Rightarrow> byte list \<Rightarrow> byte list option"
  argon2_params_ok :: "u32 \<Rightarrow> u32 \<Rightarrow> u32 \<Rightarrow> nat \<Rightarrow> bool"
  argon2id_hash :: "u32 \<Rightarrow> u32 \<Rightarrow> u32 \<Rightarrow> nat \<Rightarrow> byte list \<Rightarrow> byte list \<Rightarrow> byte list option"
  hkdf_sha256_extract :: "byte list \<Rightarrow> byte list \<Rightarrow> byte list"
  hkdf_sha256_expand :: "byte list \<Rightarrow> byte list \<Rightarrow> nat \<Rightarrow> byte list option"
  sha256_digest :: "byte list \<Rightarrow> byte list"
  blake2b_256_digest :: "byte list \<Rightarrow> byte list"

text \<open>
  Documented behaviour of XChaCha20-Poly1305: sealing appends a 16-byte tag and opening under
  the same key, nonce and associated data returns the message; the tag and the ciphertext are
  functions of the message, so that what opens is what sealing would have produced.
\<close>

definition aead_correct :: "prims \<Rightarrow> bool" where
  "aead_correct P \<longleftrightarrow> (\<forall>k n a m c. length k = 32 \<and> length n = 24 \<and> xchacha_seal P k n a m = Some c \<longrightarrow>
     length c = length m + 16 \<and> xchacha_open P k n a c = Some m)"

definition aead_tight :: "prims \<Rightarrow> bool" where
  "aead_tight P \<longleftrightarrow> (\<forall>k n a m c. length k = 32 \<and> length n = 24 \<and> xchacha_open P k n a c = Some m \<longrightarrow>
     xchacha_seal P k n a m = Some c)"

text \<open>Messages up to 2 GiB are always sealed (the cipher's limit is about 256 GiB).\<close>

definition aead_total :: "prims \<Rightarrow> bool" where
  "aead_total P \<longleftrightarrow> (\<forall>k n a m. length k = 32 \<and> length n = 24 \<and> length m \<le> 2147483648 \<longrightarrow>
     xchacha_seal P k n a m \<noteq> None)"

text \<open>Key derivation never fails on the sizes the code uses and has outputs of the size asked for.\<close>

definition kdf_total :: "prims \<Rightarrow> bool" where
  "kdf_total P \<longleftrightarrow>
     (\<forall>m t p. argon2_params_ok P m t p 32) \<and>
     (\<forall>m t p pw salt. \<exists>h. argon2id_hash P m t p 32 pw salt = Some h \<and> length h = 32) \<and>
     (\<forall>salt ikm. length (hkdf_sha256_extract P salt ikm) = 32) \<and>
     (\<forall>prk info. length prk = 32 \<longrightarrow>
        (\<exists>k. hkdf_sha256_expand P prk info 32 = Some k \<and> length k = 32))"

lemma aead_correctD:
  "aead_correct P \<Longrightarrow> length k = 32 \<Longrightarrow> length n = 24 \<Longrightarrow> xchacha_seal P k n a m = Some c \<Longrightarrow>
    length c = length m + 16 \<and> xchacha_open P k n a c = Some m"
  unfolding aead_correct_def by blast

lemma aead_tightD:
  "aead_tight P \<Longrightarrow> length k = 32 \<Longrightarrow> length n = 24 \<Longrightarrow> xchacha_open P k n a c = Some m \<Longrightarrow>
    xchacha_seal P k n a m = Some c"
  unfolding aead_tight_def by blast

lemma aead_totalD:
  "aead_total P \<Longrightarrow> length k = 32 \<Longrightarrow> length n = 24 \<Longrightarrow> length m \<le> 2147483648 \<Longrightarrow>
    \<exists>c. xchacha_seal P k n a m = Some c"
  unfolding aead_total_def by blast

lemma kdf_argon2D:
  "kdf_total P \<Longrightarrow> \<exists>h. argon2id_hash P m t p 32 pw salt = Some h \<and> length h = 32"
  unfolding kdf_total_def by blast

lemma kdf_paramsD [simp]: "kdf_total P \<Longrightarrow> argon2_params_ok P m t p 32"
  unfolding kdf_total_def by blast

lemma kdf_expandD:
  "kdf_total P \<Longrightarrow> length prk = 32 \<Longrightarrow> \<exists>k. hkdf_sha256_expand P prk info 32 = Some k \<and> length k = 32"
  unfolding kdf_total_def by blast

lemma kdf_extractD [simp]: "kdf_total P \<Longrightarrow> length (hkdf_sha256_extract P salt ikm) = 32"
  unfolding kdf_total_def by blast

subsection \<open>rng.rs\<close>

abbreviation (input) RANDOM_BYTES_MAX_LEN :: nat where "RANDOM_BYTES_MAX_LEN \<equiv> 4096"

definition random_bytes :: "nat \<Rightarrow> ('e, byte list) act" where
  "random_bytes len = (if len \<le> RANDOM_BYTES_MAX_LEN then draw len else lift_rs panic)"

definition random_key :: "('e, byte list) act" where
  "random_key = draw 32"

definition random_nonce_xchacha20 :: "('e, byte list) act" where
  "random_nonce_xchacha20 = draw 24"

subsection \<open>aead.rs\<close>

abbreviation (input) TAG_LEN :: nat where "TAG_LEN \<equiv> 16"

datatype aead_error = AeadEncrypt | AeadDecrypt | AeadNonce

definition generate_nonce :: "('e, byte list) act" where
  "generate_nonce = random_nonce_xchacha20"

definition encrypt_with_generated_nonce ::
    "prims \<Rightarrow> key \<Rightarrow> byte list \<Rightarrow> byte list \<Rightarrow> byte list \<Rightarrow> (aead_error, byte list) rs" where
  "encrypt_with_generated_nonce P k nonce plaintext aad =
     ok_or (xchacha_seal P k nonce aad plaintext) AeadEncrypt"

definition encrypt ::
    "prims \<Rightarrow> key \<Rightarrow> byte list \<Rightarrow> byte list \<Rightarrow> (aead_error, byte list \<times> byte list) act" where
  "encrypt P k plaintext aad =
     bind_act generate_nonce (\<lambda>nonce.
     bind_act (lift_rs (encrypt_with_generated_nonce P k nonce plaintext aad)) (\<lambda>ciphertext.
     ret (ciphertext, nonce)))"

definition decrypt ::
    "prims \<Rightarrow> key \<Rightarrow> byte list \<Rightarrow> byte list \<Rightarrow> byte list \<Rightarrow> (aead_error, byte list) rs" where
  "decrypt P k nonce ciphertext aad =
     (if length ciphertext < TAG_LEN then err AeadDecrypt
      else ok_or (xchacha_open P k nonce aad ciphertext) AeadDecrypt)"

lemma no_panic_decrypt [simp]: "no_panic (decrypt P k n c a)"
  by (simp add: decrypt_def)

text \<open>What an encryption draws and returns.\<close>

lemma encrypt_apply:
  "encrypt P k m a w =
    (case xchacha_seal P k (next_random w 24) a m of
       None \<Rightarrow> (err AeadEncrypt, w\<lparr>drawn := drawn w + 24\<rparr>)
     | Some c \<Rightarrow> (Inr (c, next_random w 24), w\<lparr>drawn := drawn w + 24\<rparr>))"
  by (simp add: encrypt_def generate_nonce_def random_nonce_xchacha20_def bind_act_def
      encrypt_with_generated_nonce_def split: option.splits)

lemma encrypt_Inr:
  "encrypt P k m a w = (Inr (c, n), w') \<longleftrightarrow>
    n = next_random w 24 \<and> xchacha_seal P k n a m = Some c \<and> w' = w\<lparr>drawn := drawn w + 24\<rparr>"
  by (auto simp: encrypt_apply split: option.splits)

lemma decrypt_sealed:
  "aead_correct P \<Longrightarrow> length k = 32 \<Longrightarrow> length n = 24 \<Longrightarrow> xchacha_seal P k n a m = Some c \<Longrightarrow>
    decrypt P k n c a = Inr m"
  using aead_correctD [of P k n a m c] by (simp add: decrypt_def)

lemma decrypt_tight:
  "aead_tight P \<Longrightarrow> length k = 32 \<Longrightarrow> length n = 24 \<Longrightarrow> decrypt P k n c a = Inr m \<Longrightarrow>
    xchacha_seal P k n a m = Some c"
  by (auto simp: decrypt_def split: if_splits intro: aead_tightD)

subsection \<open>kdf/hkdf.rs\<close>

datatype kdf_error = KdfInvalidInput | KdfBackend

datatype SubkeyPurpose =
    ItemKeyWrappingKey
  | MetadataEncryptionKey
  | LocalAuditEventKey
  | SyncEnvelopeKey
  | DeviceEnrollmentKey
  | RecoveryWrappingKey
  | ExportBundleKey

primrec info_label :: "SubkeyPurpose \<Rightarrow> string" where
  "info_label ItemKeyWrappingKey = ''item-wrap''"
| "info_label MetadataEncryptionKey = ''metadata''"
| "info_label LocalAuditEventKey = ''audit''"
| "info_label SyncEnvelopeKey = ''sync-envelope''"
| "info_label DeviceEnrollmentKey = ''device-enroll''"
| "info_label RecoveryWrappingKey = ''recovery-wrap''"
| "info_label ExportBundleKey = ''export-bundle''"

definition needs_aead :: "SubkeyPurpose \<Rightarrow> bool" where
  "needs_aead p \<longleftrightarrow> p = ItemKeyWrappingKey \<or> p = MetadataEncryptionKey"

definition hkdf_extract :: "prims \<Rightarrow> byte list \<Rightarrow> byte list \<Rightarrow> byte list" where
  "hkdf_extract P salt ikm = hkdf_sha256_extract P salt ikm"

definition hkdf_expand :: "prims \<Rightarrow> nat \<Rightarrow> byte list \<Rightarrow> byte list \<Rightarrow> (kdf_error, byte list) rs" where
  "hkdf_expand P n prk info = ok_or (hkdf_sha256_expand P prk info n) KdfInvalidInput"

definition build_subkey_info ::
    "SubkeyPurpose \<Rightarrow> byte list \<Rightarrow> u16 option \<Rightarrow> (kdf_error, string) rs" where
  "build_subkey_info purpose vault_id aead_id =
     (let info = ''meissnerseal:'' @ info_label purpose @ '':v1:vault:'' @ hex_of vault_id in
      case (needs_aead purpose, aead_id) of
        (True, Some i) \<Rightarrow> Inr (info @ '':aead:'' @ dec_of (unat i))
      | (True, None) \<Rightarrow> err KdfInvalidInput
      | (False, None) \<Rightarrow> Inr info
      | (False, Some _) \<Rightarrow> err KdfInvalidInput)"

definition derive_subkey ::
    "prims \<Rightarrow> byte list \<Rightarrow> SubkeyPurpose \<Rightarrow> byte list \<Rightarrow> u16 option \<Rightarrow> (kdf_error, key) rs" where
  "derive_subkey P root_prk purpose vault_id aead_id =
     and_then (build_subkey_info purpose vault_id aead_id) (\<lambda>info.
     hkdf_expand P 32 root_prk (bytes_of info))"

definition ROOT_SALT_DOMAIN_V1 :: "byte list" where
  "ROOT_SALT_DOMAIN_V1 = bytes_of ''meissnerseal-root-salt-v1''"

definition derive_root_prk :: "prims \<Rightarrow> key \<Rightarrow> byte list \<Rightarrow> byte list \<Rightarrow> byte list" where
  "derive_root_prk P vault_root_key vault_id header_nonce =
     hkdf_extract P (sha256_digest P (ROOT_SALT_DOMAIN_V1 @ vault_id @ header_nonce)) vault_root_key"

subsection \<open>kdf/argon2.rs\<close>

definition construct_argon2id_salt :: "byte list \<Rightarrow> byte list" where
  "construct_argon2id_salt vault_id = bytes_of ''meissnerseal-argon2id-salt-v1'' @ vault_id"

text \<open>The guard \<open>derive\<close> and \<open>derive_device_keypair_key\<close> share.\<close>

definition argon2_rejected :: "Argon2Params \<Rightarrow> bool" where
  "argon2_rejected p \<longleftrightarrow>
     m_cost_kib p = 0 \<or> t_cost p = 0 \<or> p_lanes p = 0 \<or> output_len p \<noteq> 32 \<or>
     m_cost_kib p < ARGON2_MIN_M_COST_KIB \<or> t_cost p < ARGON2_MIN_T_COST \<or>
     p_lanes p < ARGON2_MIN_P_LANES \<or> m_cost_kib p > ARGON2_MAX_M_COST_KIB \<or>
     t_cost p > ARGON2_MAX_T_COST \<or> p_lanes p > ARGON2_MAX_P_LANES"

definition derive :: "prims \<Rightarrow> byte list \<Rightarrow> byte list \<Rightarrow> Argon2Params \<Rightarrow> (kdf_error, key) rs" where
  "derive P password vault_id p =
     (if argon2_rejected p then err KdfInvalidInput
      else if \<not> argon2_params_ok P (m_cost_kib p) (t_cost p) (p_lanes p) (output_len p)
      then err KdfInvalidInput
      else ok_or (argon2id_hash P (m_cost_kib p) (t_cost p) (p_lanes p) (output_len p)
             password (construct_argon2id_salt vault_id)) KdfBackend)"

definition derive_vkek :: "prims \<Rightarrow> key \<Rightarrow> byte list \<Rightarrow> (kdf_error, key) rs" where
  "derive_vkek P master_unlock_key vault_id =
     (let salt = bytes_of ''meissnerseal-vkek-salt-v1'' @ vault_id;
          prk = hkdf_extract P salt master_unlock_key in
      hkdf_expand P 32 prk (bytes_of ''meissnerseal:vault-kek:v1''))"

definition derive_export_bundle_key ::
    "prims \<Rightarrow> byte list \<Rightarrow> byte list \<Rightarrow> Argon2Params \<Rightarrow> (kdf_error, key) rs" where
  "derive_export_bundle_key P passphrase source_vault_id p =
     and_then (derive P passphrase source_vault_id p) (\<lambda>muk.
     hkdf_expand P 32 muk (bytes_of ''meissnerseal:export-bundle:v1''))"

definition derive_device_keypair_key ::
    "prims \<Rightarrow> byte list \<Rightarrow> byte list \<Rightarrow> Argon2Params \<Rightarrow> (kdf_error, key) rs" where
  "derive_device_keypair_key P passphrase random_salt p =
     (if argon2_rejected p then err KdfInvalidInput
      else if \<not> argon2_params_ok P (m_cost_kib p) (t_cost p) (p_lanes p) 32
      then err KdfInvalidInput
      else ok_or (argon2id_hash P (m_cost_kib p) (t_cost p) (p_lanes p) 32 passphrase
             (bytes_of ''meissnerseal-device-keypair-v1'' @ [0] @ random_salt)) KdfBackend)"

subsection \<open>Lemmas: key derivation\<close>

lemma argon2_rejected_iff: "argon2_rejected p \<longleftrightarrow> \<not> argon2_in_profile p"
proof -
  have "x < 65536 \<longleftrightarrow> \<not> 65536 \<le> x" "262144 < x \<longleftrightarrow> \<not> x \<le> 262144" for x :: u32
    by auto
  moreover have "x < 3 \<longleftrightarrow> \<not> 3 \<le> x" "16 < x \<longleftrightarrow> \<not> x \<le> 16" "x < 4 \<longleftrightarrow> \<not> 4 \<le> x" for x :: u32
    by auto
  moreover have "\<not> (65536 :: u32) \<le> 0" "\<not> (3 :: u32) \<le> 0" "\<not> (4 :: u32) \<le> 0"
    by simp_all
  ultimately show ?thesis by (auto simp: argon2_rejected_def argon2_in_profile_def)
qed

lemma derive_ok:
  assumes "kdf_total P" "argon2_in_profile p"
  shows "\<exists>k. derive P pw v p = Inr k \<and> length k = 32"
proof -
  have "output_len p = 32" using assms(2) by (simp add: argon2_in_profile_def)
  then show ?thesis
    using kdf_argon2D [OF assms(1)] assms
    by (fastforce simp: derive_def argon2_rejected_iff)
qed

lemma derive_vkek_ok:
  assumes "kdf_total P"
  shows "\<exists>k. derive_vkek P muk v = Inr k \<and> length k = 32"
  using kdf_expandD [OF assms kdf_extractD [OF assms]]
  by (fastforce simp: derive_vkek_def Let_def hkdf_extract_def hkdf_expand_def)

lemma length_derive_root_prk [simp]: "kdf_total P \<Longrightarrow> length (derive_root_prk P k v n) = 32"
  by (simp add: derive_root_prk_def hkdf_extract_def)

lemma derive_subkey_ok:
  assumes "kdf_total P" "length prk = 32" "needs_aead u \<longleftrightarrow> a \<noteq> None"
  shows "\<exists>k. derive_subkey P prk u v a = Inr k \<and> length k = 32"
proof -
  obtain info where "build_subkey_info u v a = Inr info"
    using assms(3) by (cases a) (auto simp: build_subkey_info_def Let_def)
  then show ?thesis
    using kdf_expandD [OF assms(1,2)] by (fastforce simp: derive_subkey_def hkdf_expand_def)
qed

text \<open>Decimal numerals are injective.\<close>

lemma dec_of_last: "\<exists>xs. dec_of n = xs @ [''0123456789'' ! (n mod 10)] \<and>
    (n < 10 \<and> xs = [] \<or> 10 \<le> n \<and> xs = dec_of (n div 10))"
  by (subst dec_of.simps) auto

lemma dec_of_not_Nil [simp]: "dec_of n \<noteq> []"
  using dec_of_last [of n] by auto

lemma dec_digit_inj: "a < 10 \<Longrightarrow> b < 10 \<Longrightarrow> ''0123456789'' ! a = ''0123456789'' ! b \<Longrightarrow> a = b"
  using nth_eq_iff_index_eq [of "''0123456789''" a b] by simp

lemma dec_of_inj: "dec_of m = dec_of n \<longleftrightarrow> m = n"
proof (induction m arbitrary: n rule: less_induct)
  case (less m)
  show ?case
  proof
    assume eq: "dec_of m = dec_of n"
    obtain xs where xs: "dec_of m = xs @ [''0123456789'' ! (m mod 10)]"
      "m < 10 \<and> xs = [] \<or> 10 \<le> m \<and> xs = dec_of (m div 10)" using dec_of_last [of m] by blast
    obtain ys where ys: "dec_of n = ys @ [''0123456789'' ! (n mod 10)]"
      "n < 10 \<and> ys = [] \<or> 10 \<le> n \<and> ys = dec_of (n div 10)" using dec_of_last [of n] by blast
    have "xs = ys" and last: "''0123456789'' ! (m mod 10) = ''0123456789'' ! (n mod 10)"
      using eq xs(1) ys(1) by simp_all
    then have "m mod 10 = n mod 10" using dec_digit_inj [of "m mod 10" "n mod 10"] by simp
    moreover have "m div 10 = n div 10"
      using xs(2) ys(2) \<open>xs = ys\<close> less.IH [of "m div 10" "n div 10"]
        dec_of_not_Nil [THEN not_sym] by auto
    ultimately show "m = n" by (metis div_mod_decomp)
  qed simp
qed

lemma info_label_no_colon: "CHR '':'' \<notin> set (info_label p)"
  by (cases p) simp_all

lemma info_label_inj: "info_label p = info_label q \<longleftrightarrow> p = q"
  by (cases p; cases q) simp_all

lemma split_at_colon:
  "CHR '':'' \<notin> set xs \<Longrightarrow> CHR '':'' \<notin> set ys \<Longrightarrow>
    xs @ CHR '':'' # us = ys @ CHR '':'' # vs \<longleftrightarrow> xs = ys \<and> us = vs"
  by (induction xs arbitrary: ys) (case_tac ys; auto)+

lemma subkey_info_inj:
  assumes "build_subkey_info p v a = Inr s" "build_subkey_info q u b = Inr s"
    and "length v = length u"
  shows "p = q \<and> v = u \<and> a = b"
proof -
  have form: "\<exists>t. s = ''meissnerseal:'' @ info_label p @ CHR '':'' # ''v1:vault:'' @ hex_of v @ t \<and>
    (needs_aead p \<and> (\<exists>i. a = Some i \<and> t = '':aead:'' @ dec_of (unat i)) \<or> \<not> needs_aead p \<and> a = None \<and> t = [])"
    if "build_subkey_info p v a = Inr s" for p v a
    using that by (auto simp: build_subkey_info_def Let_def split: bool.splits option.splits)
  obtain t where t: "s = ''meissnerseal:'' @ info_label p @ CHR '':'' # ''v1:vault:'' @ hex_of v @ t"
    "needs_aead p \<and> (\<exists>i. a = Some i \<and> t = '':aead:'' @ dec_of (unat i)) \<or> \<not> needs_aead p \<and> a = None \<and> t = []"
    using form [OF assms(1)] by blast
  obtain r where r: "s = ''meissnerseal:'' @ info_label q @ CHR '':'' # ''v1:vault:'' @ hex_of u @ r"
    "needs_aead q \<and> (\<exists>i. b = Some i \<and> r = '':aead:'' @ dec_of (unat i)) \<or> \<not> needs_aead q \<and> b = None \<and> r = []"
    using form [OF assms(2)] by blast
  have "info_label p @ CHR '':'' # ''v1:vault:'' @ hex_of v @ t =
    info_label q @ CHR '':'' # ''v1:vault:'' @ hex_of u @ r"
    using t(1) r(1) by (simp only: same_append_eq)
  then have "p = q" "hex_of v @ t = hex_of u @ r"
    by (simp_all add: split_at_colon info_label_no_colon info_label_inj)
  then have "hex_of v = hex_of u" "t = r" using assms(3) by simp_all
  then have "v = u" by (simp add: hex_of_inj)
  moreover have "a = b"
    using t(2) r(2) \<open>t = r\<close> \<open>p = q\<close> by (auto simp: dec_of_inj unat_inj)
  ultimately show ?thesis using \<open>p = q\<close> by simp
qed

subsection \<open>An instance of the primitives\<close>

definition toy_tag :: "byte list \<Rightarrow> byte list \<Rightarrow> byte list \<Rightarrow> byte list \<Rightarrow> byte list" where
  "toy_tag k n a m = replicate 16 (sum_list k + sum_list n + sum_list a + sum_list m)"

definition toy_seal :: "byte list \<Rightarrow> byte list \<Rightarrow> byte list \<Rightarrow> byte list \<Rightarrow> byte list option" where
  "toy_seal k n a m = Some (m @ toy_tag k n a m)"

definition toy_open :: "byte list \<Rightarrow> byte list \<Rightarrow> byte list \<Rightarrow> byte list \<Rightarrow> byte list option" where
  "toy_open k n a c =
     (let m = take (length c - 16) c in if c = m @ toy_tag k n a m then Some m else None)"

definition toy_prims :: prims where
  "toy_prims = \<lparr>
     xchacha_seal = toy_seal, xchacha_open = toy_open,
     argon2_params_ok = (\<lambda>_ _ _ _. True),
     argon2id_hash = (\<lambda>m t p n pw salt. Some (take n (pw @ salt @ zeros n))),
     hkdf_sha256_extract = (\<lambda>salt ikm. take 32 (ikm @ salt @ zeros 32)),
     hkdf_sha256_expand = (\<lambda>prk info n. Some (take n (prk @ info @ zeros n))),
     sha256_digest = (\<lambda>x. take 32 (x @ zeros 32)),
     blake2b_256_digest = (\<lambda>x. take 32 (rev x @ zeros 32))\<rparr>"

lemma toy_prims_seal [simp]: "xchacha_seal toy_prims = toy_seal"
  by (simp add: toy_prims_def)

lemma length_toy_tag [simp]: "length (toy_tag k n a m) = 16"
  by (simp add: toy_tag_def)

lemma toy_prims_aead: "aead_correct toy_prims" "aead_tight toy_prims" "aead_total toy_prims"
  unfolding aead_correct_def aead_tight_def aead_total_def
  by (simp_all add: toy_prims_def toy_seal_def toy_open_def toy_tag_def Let_def split: if_splits)

lemma toy_prims_kdf: "kdf_total toy_prims"
  unfolding kdf_total_def by (simp add: toy_prims_def del: take_append)

subsection \<open>Properties\<close>

text \<open>Domain separation of the seven subkeys: the HKDF info strings of
  \<open>build_subkey_info\<close> differ whenever the purpose, the vault or the AEAD profile differs, so no
  two subkeys of any two vaults are derived from the same input.\<close>

theorem subkey_info_separates:
  assumes "build_subkey_info p v a = Inr s" "build_subkey_info q u b = Inr t"
    and "length v = 16" "length u = 16" "(p, v, a) \<noteq> (q, u, b)"
  shows "s \<noteq> t"
  using subkey_info_inj [of p v a s q u b] assms by auto

theorem subkey_info_separates_witness:
  "''meissnerseal:audit:v1:vault:00000000000000000000000000000000'' \<noteq>
   ''meissnerseal:export-bundle:v1:vault:00000000000000000000000000000000''"
  by (rule subkey_info_separates [where p = LocalAuditEventKey and q = ExportBundleKey
        and v = "zeros 16" and u = "zeros 16" and a = None and b = None])
     (simp_all, code_simp+)

end
