(* ===== verification/Pqc.thy ===== *)
theory Pqc
  imports Crypto_Api
begin

text \<open>
  The meissnerseal-pqc crate: algorithm-tagged signatures (src/mldsa.rs), the ML-KEM-768
  boundary (src/mlkem.rs) and the hybrid transfer key (src/hybrid.rs). Ed25519, X25519 and
  ML-KEM come from packages outside the repository: they are the fields of \<open>pqc_prims\<close>, with
  the documented laws \<open>sig_correct\<close>, \<open>dh_correct\<close> and \<open>kem_correct\<close>; \<open>toy_pqc\<close> satisfies them.
\<close>

subsection \<open>Primitives of other packages\<close>

text \<open>
  ed25519-dalek: public key of a seed, signing, \<open>VerifyingKey::from_bytes\<close> accepting a key,
  \<open>verify_strict\<close>. x25519-dalek: public key, Diffie-Hellman, \<open>was_contributory\<close>. ml-kem: key
  generation from 64 random bytes, encapsulation with 32 random bytes (None when the public
  key is rejected) and decapsulation (None when the private key is rejected).
\<close>

record pqc_prims =
  ed25519_public :: "byte list \<Rightarrow> byte list"
  ed25519_sign :: "byte list \<Rightarrow> byte list \<Rightarrow> byte list"
  ed25519_key_ok :: "byte list \<Rightarrow> bool"
  ed25519_verify_strict :: "byte list \<Rightarrow> byte list \<Rightarrow> byte list \<Rightarrow> bool"
  x25519_public :: "byte list \<Rightarrow> byte list"
  x25519_dh :: "byte list \<Rightarrow> byte list \<Rightarrow> byte list"
  x25519_contributory :: "byte list \<Rightarrow> bool"
  mlkem_generate :: "byte list \<Rightarrow> byte list \<times> byte list"
  mlkem_key_ok :: "byte list \<Rightarrow> bool"
  mlkem_encapsulate :: "byte list \<Rightarrow> byte list \<Rightarrow> byte list \<times> byte list"
  mlkem_decapsulate :: "byte list \<Rightarrow> byte list \<Rightarrow> byte list option"

definition sig_correct :: "pqc_prims \<Rightarrow> bool" where
  "sig_correct Q \<longleftrightarrow> (\<forall>seed m. length seed = 32 \<longrightarrow>
     length (ed25519_public Q seed) = 32 \<and> ed25519_key_ok Q (ed25519_public Q seed) \<and>
     length (ed25519_sign Q seed m) = 64 \<and>
     ed25519_verify_strict Q (ed25519_public Q seed) m (ed25519_sign Q seed m))"

definition dh_correct :: "pqc_prims \<Rightarrow> bool" where
  "dh_correct Q \<longleftrightarrow> (\<forall>a b. length a = 32 \<and> length b = 32 \<longrightarrow> length (x25519_public Q a) = 32 \<and>
     x25519_dh Q a (x25519_public Q b) = x25519_dh Q b (x25519_public Q a))"

definition kem_correct :: "pqc_prims \<Rightarrow> bool" where
  "kem_correct Q \<longleftrightarrow> (\<forall>seed m pk sk. length seed = 64 \<and> length m = 32 \<and> mlkem_generate Q seed = (pk, sk) \<longrightarrow>
     length pk = 1184 \<and> length sk = 2400 \<and>
     mlkem_key_ok Q pk \<and> (\<exists>ct ss. mlkem_encapsulate Q pk m = (ct, ss) \<and> length ct = 1088 \<and> length ss = 32 \<and>
        mlkem_decapsulate Q sk ct = Some ss))"

lemma sig_correctD:
  "sig_correct Q \<Longrightarrow> length seed = 32 \<Longrightarrow> length (ed25519_public Q seed) = 32 \<and>
    ed25519_key_ok Q (ed25519_public Q seed) \<and> length (ed25519_sign Q seed m) = 64 \<and>
    ed25519_verify_strict Q (ed25519_public Q seed) m (ed25519_sign Q seed m)"
  unfolding sig_correct_def by blast

lemma dh_correctD:
  "dh_correct Q \<Longrightarrow> length a = 32 \<Longrightarrow> length b = 32 \<Longrightarrow>
    x25519_dh Q a (x25519_public Q b) = x25519_dh Q b (x25519_public Q a)"
  unfolding dh_correct_def by blast

lemma dh_publicD [simp]: "dh_correct Q \<Longrightarrow> length a = 32 \<Longrightarrow> length (x25519_public Q a) = 32"
  unfolding dh_correct_def by blast

lemma kem_correctD:
  "kem_correct Q \<Longrightarrow> length seed = 64 \<Longrightarrow> length m = 32 \<Longrightarrow> mlkem_generate Q seed = (pk, sk) \<Longrightarrow>
    length pk = 1184 \<and> length sk = 2400 \<and> mlkem_key_ok Q pk \<and>
    (\<exists>ct ss. mlkem_encapsulate Q pk m = (ct, ss) \<and> length ct = 1088 \<and> length ss = 32 \<and> mlkem_decapsulate Q sk ct = Some ss)"
  unfolding kem_correct_def by blast

subsection \<open>mldsa.rs\<close>

datatype SigningAlgorithmId = Ed25519V1 | Ed25519MlDsa87HybridV1

datatype SigningError =
    UnknownAlgorithm
  | SigUnimplemented
  | SigAlgorithmMismatch
  | InvalidKey
  | MalformedSignature
  | SigVerificationFailed

primrec alg_to_u16 :: "SigningAlgorithmId \<Rightarrow> u16" where
  "alg_to_u16 Ed25519V1 = 0x0001"
| "alg_to_u16 Ed25519MlDsa87HybridV1 = 0x0002"

definition alg_from_u16 :: "u16 \<Rightarrow> (SigningError, SigningAlgorithmId) rs" where
  "alg_from_u16 v =
     (if v = 0x0001 then ok Ed25519V1
      else if v = 0x0002 then ok Ed25519MlDsa87HybridV1
      else err UnknownAlgorithm)"

definition alg_to_le_bytes :: "SigningAlgorithmId \<Rightarrow> byte list" where
  "alg_to_le_bytes a = u16_le (alg_to_u16 a)"

definition alg_from_le_bytes :: "byte list \<Rightarrow> (SigningError, SigningAlgorithmId) rs" where
  "alg_from_le_bytes bytes = alg_from_u16 (u16_from_le bytes)"

record SigningPublicKey =
  spk_algorithm :: SigningAlgorithmId
  spk_bytes :: "byte list"

record SigningPrivateKey =
  ssk_algorithm :: SigningAlgorithmId
  ssk_bytes :: "byte list"

record Signature =
  sg_algorithm :: SigningAlgorithmId
  sg_bytes :: "byte list"

definition ed25519_keypair :: "pqc_prims \<Rightarrow> ('e, SigningPublicKey \<times> SigningPrivateKey) act" where
  "ed25519_keypair Q =
     bind_act random_key (\<lambda>seed.
     ret (\<lparr>spk_algorithm = Ed25519V1, spk_bytes = ed25519_public Q seed\<rparr>,
          \<lparr>ssk_algorithm = Ed25519V1, ssk_bytes = seed\<rparr>))"

definition sign :: "pqc_prims \<Rightarrow> SigningPrivateKey \<Rightarrow> byte list \<Rightarrow> (SigningError, Signature) rs" where
  "sign Q private_key message =
     (case ssk_algorithm private_key of
        Ed25519V1 \<Rightarrow>
          and_then (if length (ssk_bytes private_key) = 32 then ok (ssk_bytes private_key)
                    else err InvalidKey) (\<lambda>seed.
          ok \<lparr>sg_algorithm = Ed25519V1, sg_bytes = ed25519_sign Q seed message\<rparr>)
      | Ed25519MlDsa87HybridV1 \<Rightarrow> err SigUnimplemented)"

definition verify ::
    "pqc_prims \<Rightarrow> SigningPublicKey \<Rightarrow> byte list \<Rightarrow> Signature \<Rightarrow> (SigningError, unit) rs" where
  "verify Q public_key message signature =
     (if spk_algorithm public_key \<noteq> sg_algorithm signature then err SigAlgorithmMismatch
      else
      case spk_algorithm public_key of
        Ed25519V1 \<Rightarrow>
          and_then (if length (spk_bytes public_key) = 32 then ok (spk_bytes public_key)
                    else err InvalidKey) (\<lambda>public_bytes.
          and_then (if length (sg_bytes signature) = 64 then ok (sg_bytes signature)
                    else err MalformedSignature) (\<lambda>signature_bytes.
          and_then (if ed25519_key_ok Q public_bytes then ok public_bytes else err InvalidKey) (\<lambda>verifying_key.
          if ed25519_verify_strict Q verifying_key message signature_bytes then ok ()
          else err SigVerificationFailed)))
      | Ed25519MlDsa87HybridV1 \<Rightarrow> err SigUnimplemented)"

definition sign_with_domain ::
    "pqc_prims \<Rightarrow> SigningPrivateKey \<Rightarrow> byte list \<Rightarrow> byte list \<Rightarrow> (SigningError, Signature) rs" where
  "sign_with_domain Q private_key dom_sep payload = sign Q private_key (dom_sep @ payload)"

definition verify_with_domain ::
    "pqc_prims \<Rightarrow> SigningPublicKey \<Rightarrow> byte list \<Rightarrow> byte list \<Rightarrow> Signature \<Rightarrow> (SigningError, unit) rs" where
  "verify_with_domain Q public_key dom_sep payload signature = verify Q public_key (dom_sep @ payload) signature"

subsection \<open>mlkem.rs\<close>

datatype MlKemError = BackendUnavailable | DecapsulationFailed

definition key_from_slice :: "nat \<Rightarrow> byte list \<Rightarrow> (MlKemError, byte list) rs" where
  "key_from_slice n bytes = (if length bytes = n then ok bytes else err BackendUnavailable)"

definition array_ref_from_slice :: "nat \<Rightarrow> byte list \<Rightarrow> (MlKemError, byte list) rs" where
  "array_ref_from_slice n bytes = (if length bytes = n then ok bytes else err BackendUnavailable)"

definition mlkem_keypair :: "pqc_prims \<Rightarrow> (MlKemError, byte list \<times> byte list) act" where
  "mlkem_keypair Q =
     bind_act (draw 64) (\<lambda>seed.
     case mlkem_generate Q seed of (pk, sk) \<Rightarrow>
     bind_act (lift_rs (key_from_slice 1184 pk)) (\<lambda>public_key.
     bind_act (lift_rs (key_from_slice 2400 sk)) (\<lambda>private_key.
     ret (public_key, private_key))))"

definition encapsulate :: "pqc_prims \<Rightarrow> byte list \<Rightarrow> (MlKemError, byte list \<times> byte list) act" where
  "encapsulate Q public_key =
     bind_act (lift_rs (array_ref_from_slice 1184 public_key)) (\<lambda>pk.
     bind_act (lift_rs (if mlkem_key_ok Q pk then ok () else err BackendUnavailable)) (\<lambda>_.
     bind_act (draw 32) (\<lambda>m.
     case mlkem_encapsulate Q pk m of (ct, ss) \<Rightarrow>
     bind_act (lift_rs (key_from_slice 1088 ct)) (\<lambda>ciphertext.
     bind_act (lift_rs (key_from_slice 32 ss)) (\<lambda>shared_secret.
     ret (ciphertext, shared_secret))))))"

definition decapsulate :: "pqc_prims \<Rightarrow> byte list \<Rightarrow> byte list \<Rightarrow> (MlKemError, byte list) rs" where
  "decapsulate Q private_key ciphertext =
     and_then (array_ref_from_slice 2400 private_key) (\<lambda>sk.
     and_then (array_ref_from_slice 1088 ciphertext) (\<lambda>ct.
     and_then (ok_or (mlkem_decapsulate Q sk ct) BackendUnavailable) (\<lambda>shared_secret.
     key_from_slice 32 shared_secret)))"

subsection \<open>hybrid.rs\<close>

datatype HybridError = X25519Invalid | MlKemFailed | HkdfExpand

definition x25519_keypair :: "pqc_prims \<Rightarrow> ('e, byte list \<times> byte list) act" where
  "x25519_keypair Q =
     bind_act random_key (\<lambda>private_bytes. ret (private_bytes, x25519_public Q private_bytes))"

definition x25519_public_from_private :: "pqc_prims \<Rightarrow> byte list \<Rightarrow> byte list" where
  "x25519_public_from_private Q private_key = x25519_public Q private_key"

definition x25519_shared_secret ::
    "pqc_prims \<Rightarrow> byte list \<Rightarrow> byte list \<Rightarrow> (HybridError, byte list) rs" where
  "x25519_shared_secret Q private_key peer_public_key =
     (if list_all (\<lambda>b. b = 0xff) peer_public_key then err X25519Invalid
      else
      let shared_secret = x25519_dh Q private_key peer_public_key in
      if \<not> x25519_contributory Q shared_secret then err X25519Invalid
      else ok shared_secret)"

definition derive_transfer_key_from_shared_parts ::
    "prims \<Rightarrow> byte list \<Rightarrow> byte list \<Rightarrow> byte list \<Rightarrow> byte list \<Rightarrow> byte list \<Rightarrow> byte list \<Rightarrow>
     (HybridError, key) rs" where
  "derive_transfer_key_from_shared_parts P pqc_shared_secret ss_x25519 sender_ephemeral_public
       recipient_classical_public pqc_ciphertext transcript_hash =
     (let ikm = pqc_shared_secret @ ss_x25519 @ sender_ephemeral_public @
            recipient_classical_public @ pqc_ciphertext;
          hk = hkdf_sha256_extract P transcript_hash ikm in
      ok_or (hkdf_sha256_expand P hk (bytes_of ''meissnerseal-transfer-v1'') 32) HkdfExpand)"

definition derive_transfer_key ::
    "prims \<Rightarrow> pqc_prims \<Rightarrow> byte list \<Rightarrow> byte list \<Rightarrow> byte list \<Rightarrow> byte list \<Rightarrow> byte list \<Rightarrow> byte list \<Rightarrow>
     (HybridError, key) rs" where
  "derive_transfer_key P Q sender_ephemeral_private sender_ephemeral_public
       recipient_classical_public pqc_ciphertext pqc_shared_secret transcript_hash =
     and_then (x25519_shared_secret Q sender_ephemeral_private recipient_classical_public) (\<lambda>ss_x25519.
     derive_transfer_key_from_shared_parts P pqc_shared_secret ss_x25519 sender_ephemeral_public
       recipient_classical_public pqc_ciphertext transcript_hash)"

definition receive_transfer_key ::
    "prims \<Rightarrow> pqc_prims \<Rightarrow> byte list \<Rightarrow> byte list \<Rightarrow> byte list \<Rightarrow> byte list \<Rightarrow> byte list \<Rightarrow> byte list \<Rightarrow>
     (HybridError, key) rs" where
  "receive_transfer_key P Q recipient_classical_private recipient_classical_public
       sender_ephemeral_public pqc_ciphertext pqc_private_key transcript_hash =
     and_then (x25519_shared_secret Q recipient_classical_private sender_ephemeral_public) (\<lambda>ss_x25519.
     and_then (map_err (decapsulate Q pqc_private_key pqc_ciphertext) MlKemFailed) (\<lambda>pqc_shared_secret.
     derive_transfer_key_from_shared_parts P pqc_shared_secret ss_x25519 sender_ephemeral_public
       recipient_classical_public pqc_ciphertext transcript_hash))"

subsection \<open>Lemmas\<close>

lemma alg_roundtrip [simp]: "alg_from_u16 (alg_to_u16 a) = Inr a"
  by (cases a) (simp_all add: alg_from_u16_def)

lemma alg_from_u16_Inr: "alg_from_u16 v = Inr a \<longleftrightarrow> v = alg_to_u16 a"
  by (cases a) (auto simp: alg_from_u16_def split: if_splits)

lemma alg_bytes_roundtrip [simp]: "alg_from_le_bytes (alg_to_le_bytes a) = Inr a"
  by (simp add: alg_from_le_bytes_def alg_to_le_bytes_def)

lemma length_alg_bytes [simp]: "length (alg_to_le_bytes a) = 2"
  by (simp add: alg_to_le_bytes_def)

lemma alg_from_le_bytes_Inr: "length bs = 2 \<Longrightarrow> alg_from_le_bytes bs = Inr a \<longleftrightarrow> bs = alg_to_le_bytes a"
  unfolding alg_from_le_bytes_def alg_from_u16_Inr alg_to_le_bytes_def by (metis u16_le_from u16_roundtrip)

lemma alg_to_u16_inj [simp]: "alg_to_u16 a = alg_to_u16 b \<longleftrightarrow> a = b"
  by (cases a; cases b) simp_all

text \<open>The key pair of a seed.\<close>

definition ed25519_pair :: "pqc_prims \<Rightarrow> SigningPublicKey \<Rightarrow> SigningPrivateKey \<Rightarrow> bool" where
  "ed25519_pair Q pk sk \<longleftrightarrow> spk_algorithm pk = Ed25519V1 \<and> ssk_algorithm sk = Ed25519V1 \<and>
     length (ssk_bytes sk) = 32 \<and> spk_bytes pk = ed25519_public Q (ssk_bytes sk)"

lemma sign_ok:
  "ed25519_pair Q pk sk \<Longrightarrow> sign Q sk m = Inr \<lparr>sg_algorithm = Ed25519V1, sg_bytes = ed25519_sign Q (ssk_bytes sk) m\<rparr>"
  by (simp add: sign_def ed25519_pair_def)

lemma verify_signed:
  assumes "sig_correct Q" "ed25519_pair Q pk sk" "sign_with_domain Q sk d m = Inr s"
  shows "verify_with_domain Q pk d m s = Inr ()"
  using assms sig_correctD [OF assms(1), of "ssk_bytes sk" "d @ m"]
  by (auto simp: sign_with_domain_def sign_ok verify_with_domain_def verify_def ed25519_pair_def)

lemma verify_Inr: "verify Q pk m s = Inr () \<longleftrightarrow> spk_algorithm pk = Ed25519V1 \<and> sg_algorithm s = Ed25519V1 \<and>
    length (spk_bytes pk) = 32 \<and> length (sg_bytes s) = 64 \<and> ed25519_key_ok Q (spk_bytes pk) \<and>
    ed25519_verify_strict Q (spk_bytes pk) m (sg_bytes s)"
  by (cases "spk_algorithm pk") (auto simp: verify_def split: if_splits)

lemma sign_Inr: "sign Q sk m = Inr s \<longleftrightarrow> ssk_algorithm sk = Ed25519V1 \<and> length (ssk_bytes sk) = 32 \<and>
    s = \<lparr>sg_algorithm = Ed25519V1, sg_bytes = ed25519_sign Q (ssk_bytes sk) m\<rparr>"
  by (cases "ssk_algorithm sk") (auto simp: sign_def)

lemma no_panic_sign [simp]: "no_panic (sign Q sk m)" "no_panic (sign_with_domain Q sk d m)"
proof -
  show "no_panic (sign Q sk m)" for m
    by (cases "ssk_algorithm sk") (simp_all add: sign_def)
  then show "no_panic (sign_with_domain Q sk d m)" by (simp add: sign_with_domain_def)
qed

lemma no_panic_verify [simp]: "no_panic (verify Q pk m s)" "no_panic (verify_with_domain Q pk d m s)"
proof -
  show "no_panic (verify Q pk m s)" for m
    by (cases "spk_algorithm pk") (simp_all add: verify_def)
  then show "no_panic (verify_with_domain Q pk d m s)" by (simp add: verify_with_domain_def)
qed

text \<open>Keys of a recipient: what sender and receiver derive.\<close>

definition mlkem_pair :: "pqc_prims \<Rightarrow> byte list \<Rightarrow> byte list \<Rightarrow> bool" where
  "mlkem_pair Q pk sk \<longleftrightarrow> (\<exists>seed. length seed = 64 \<and> mlkem_generate Q seed = (pk, sk))"

lemma encapsulate_pair:
  assumes "kem_correct Q" "mlkem_pair Q pk sk"
  shows "\<exists>ct ss. encapsulate Q pk w = (Inr (ct, ss), w\<lparr>drawn := drawn w + 32\<rparr>) \<and> length ct = 1088 \<and>
    length ss = 32 \<and> decapsulate Q sk ct = Inr ss"
proof -
  obtain seed where s: "length seed = 64" "mlkem_generate Q seed = (pk, sk)"
    using assms(2) unfolding mlkem_pair_def by blast
  obtain ct ss where "mlkem_encapsulate Q pk (next_random w 32) = (ct, ss)" "length ct = 1088" "length ss = 32"
    "mlkem_decapsulate Q sk ct = Some ss"
    using kem_correctD [OF assms(1) s(1) _ s(2), of "next_random w 32"] by auto
  then show ?thesis
    using kem_correctD [OF assms(1) s(1) _ s(2), of "next_random w 32"]
    by (simp add: encapsulate_def bind_act_def array_ref_from_slice_def key_from_slice_def decapsulate_def)
qed

text \<open>The two sides derive the same transfer key.\<close>

lemma transfer_keys_agree:
  assumes "dh_correct Q" "length eph = 32" "length rsk = 32" "rpk = x25519_public Q rsk"
    and "derive_transfer_key P Q eph (x25519_public Q eph) rpk ct ss th = Inr k" "decapsulate Q psk ct = Inr ss"
    and "\<not> list_all (\<lambda>b. b = 0xff) (x25519_public Q eph)"
  shows "receive_transfer_key P Q rsk rpk (x25519_public Q eph) ct psk th = Inr k"
  using assms dh_correctD [OF assms(1-3)]
  by (auto simp: derive_transfer_key_def receive_transfer_key_def x25519_shared_secret_def Let_def split: if_splits)

lemma hkdf_out_length:
  "kdf_total P \<Longrightarrow> hkdf_sha256_expand P (hkdf_sha256_extract P salt ikm) info 32 = Some k \<Longrightarrow> length k = 32"
  using kdf_expandD [of P "hkdf_sha256_extract P salt ikm" info] by simp

lemma derive_transfer_key_length:
  "kdf_total P \<Longrightarrow> derive_transfer_key P Q e ep rp ct ss th = Inr k \<Longrightarrow> length k = 32"
  by (auto simp: derive_transfer_key_def derive_transfer_key_from_shared_parts_def Let_def intro: hkdf_out_length)

lemma receive_transfer_key_length:
  "kdf_total P \<Longrightarrow> receive_transfer_key P Q r rp ep ct ps th = Inr k \<Longrightarrow> length k = 32"
  by (auto simp: receive_transfer_key_def derive_transfer_key_from_shared_parts_def Let_def intro: hkdf_out_length)

lemma no_panic_receive [simp]: "no_panic (receive_transfer_key P Q r rp ep ct ps th)"
proof -
  have "no_panic (x25519_shared_secret Q r ep)" by (simp add: x25519_shared_secret_def Let_def)
  moreover have "no_panic (decapsulate Q ps ct)"
    unfolding decapsulate_def array_ref_from_slice_def key_from_slice_def by (intro no_panic_intros; simp)
  ultimately show ?thesis
    unfolding receive_transfer_key_def derive_transfer_key_from_shared_parts_def Let_def
    by (intro no_panic_intros; simp)
qed

subsection \<open>An instance of the primitives\<close>

definition toy_pqc :: pqc_prims where
  "toy_pqc = \<lparr>
     ed25519_public = (\<lambda>seed. seed),
     ed25519_sign = (\<lambda>seed m. take 64 (seed @ m @ zeros 64)),
     ed25519_key_ok = (\<lambda>pk. True),
     ed25519_verify_strict = (\<lambda>pk m s. s = take 64 (pk @ m @ zeros 64)),
     x25519_public = (\<lambda>sk. sk),
     x25519_dh = (\<lambda>a b. map2 (+) a b),
     x25519_contributory = (\<lambda>s. True),
     mlkem_generate = (\<lambda>seed. (take 1184 (seed @ zeros 1184), take 2400 (seed @ zeros 2400))),
     mlkem_key_ok = (\<lambda>pk. True),
     mlkem_encapsulate = (\<lambda>pk m. (take 1088 (m @ zeros 1088), m)),
     mlkem_decapsulate = (\<lambda>sk ct. Some (take 32 ct))\<rparr>"

lemma map2_add_commute: "map2 (+) a b = map2 (+) b (a :: byte list)"
  by (induction a b rule: list_induct2') (simp_all add: add.commute)

lemma toy_pqc_correct: "sig_correct toy_pqc" "dh_correct toy_pqc" "kem_correct toy_pqc"
  unfolding sig_correct_def dh_correct_def kem_correct_def
  by (auto simp: toy_pqc_def map2_add_commute)

end
