(* ===== verification/Byte_Parser.thy ===== *)
theory Byte_Parser
  imports Runtime
begin

text \<open>
  The cursor parser that three files of the core repeat with their own error value: \<open>ByteParser\<close>
  (keys/device.rs), \<open>EnvelopeByteParser\<close> (transfer/envelope.rs) and \<open>ReplayByteParser\<close>
  (transfer/replay.rs). The error is the first argument; the methods take the offset and return
  the advanced one. A serializer and a parser meet in \<open>holds_at\<close>.
\<close>

definition bp_take :: "'e \<Rightarrow> byte list \<Rightarrow> nat \<Rightarrow> nat \<Rightarrow> ('e, byte list \<times> nat) rs" where
  "bp_take e bytes offset len =
     and_then (ok_or (checked_add offset len) e) (\<lambda>end_at.
     and_then (ok_or (get_range bytes offset end_at) e) (\<lambda>slice.
     ok (slice, end_at)))"

definition bp_take_array :: "'e \<Rightarrow> nat \<Rightarrow> byte list \<Rightarrow> nat \<Rightarrow> ('e, byte list \<times> nat) rs" where
  "bp_take_array e n bytes offset =
     and_then (bp_take e bytes offset n) (\<lambda>(slice, offset).
     if length slice = n then ok (slice, offset) else err e)"

definition bp_take_u8 :: "'e \<Rightarrow> byte list \<Rightarrow> nat \<Rightarrow> ('e, byte \<times> nat) rs" where
  "bp_take_u8 e bytes offset =
     and_then (bp_take e bytes offset 1) (\<lambda>(slice, offset).
     and_then (ok_or (case slice of [] \<Rightarrow> None | b # _ \<Rightarrow> Some b) e) (\<lambda>b. ok (b, offset)))"

definition bp_take_u16_le :: "'e \<Rightarrow> byte list \<Rightarrow> nat \<Rightarrow> ('e, u16 \<times> nat) rs" where
  "bp_take_u16_le e bytes offset =
     and_then (bp_take_array e 2 bytes offset) (\<lambda>(a, offset). ok (u16_from_le a, offset))"

definition bp_take_u32_le :: "'e \<Rightarrow> byte list \<Rightarrow> nat \<Rightarrow> ('e, u32 \<times> nat) rs" where
  "bp_take_u32_le e bytes offset =
     and_then (bp_take_array e 4 bytes offset) (\<lambda>(a, offset). ok (u32_from_le a, offset))"

definition bp_take_u64_le :: "'e \<Rightarrow> byte list \<Rightarrow> nat \<Rightarrow> ('e, u64 \<times> nat) rs" where
  "bp_take_u64_le e bytes offset =
     and_then (bp_take_array e 8 bytes offset) (\<lambda>(a, offset). ok (u64_from_le a, offset))"

lemma bp_take_Inr:
  "bp_take e bs c n = Inr (x, c') \<longleftrightarrow> holds_at bs c x \<and> length x = n \<and> c' = c + n \<and> c + n \<le> usize_max"
  by (auto simp: bp_take_def get_range_holds_at)

lemma bp_take_array_Inr:
  "bp_take_array e n bs c = Inr (x, c') \<longleftrightarrow> holds_at bs c x \<and> length x = n \<and> c' = c + n \<and> c + n \<le> usize_max"
  by (auto simp: bp_take_array_def bp_take_Inr)

lemma bp_take_u8_Inr:
  "bp_take_u8 e bs c = Inr (b, c') \<longleftrightarrow> holds_at bs c [b] \<and> c' = c + 1 \<and> c + 1 \<le> usize_max"
proof -
  have "length x = Suc 0 \<longleftrightarrow> (\<exists>a. x = [a])" for x :: "byte list"
    by (cases x) auto
  then show ?thesis by (auto simp: bp_take_u8_def bp_take_Inr)
qed

lemma bp_take_u16_Inr:
  "bp_take_u16_le e bs c = Inr (x, c') \<longleftrightarrow> holds_at bs c (u16_le x) \<and> c' = c + 2 \<and> c + 2 \<le> usize_max"
  by (fastforce simp: bp_take_u16_le_def bp_take_array_Inr)

lemma bp_take_u32_Inr:
  "bp_take_u32_le e bs c = Inr (x, c') \<longleftrightarrow> holds_at bs c (u32_le x) \<and> c' = c + 4 \<and> c + 4 \<le> usize_max"
  by (fastforce simp: bp_take_u32_le_def bp_take_array_Inr)

lemma bp_take_u64_Inr:
  "bp_take_u64_le e bs c = Inr (x, c') \<longleftrightarrow> holds_at bs c (u64_le x) \<and> c' = c + 8 \<and> c + 8 \<le> usize_max"
  by (fastforce simp: bp_take_u64_le_def bp_take_array_Inr)

lemmas bp_Inr = bp_take_Inr bp_take_array_Inr bp_take_u8_Inr bp_take_u16_Inr bp_take_u32_Inr bp_take_u64_Inr

lemma no_panic_bp [simp]:
  "no_panic (bp_take e bs c n)" "no_panic (bp_take_array e n bs c)" "no_panic (bp_take_u8 e bs c)"
  "no_panic (bp_take_u16_le e bs c)" "no_panic (bp_take_u32_le e bs c)" "no_panic (bp_take_u64_le e bs c)"
proof -
  show 1: "no_panic (bp_take e bs c n)" for n
    unfolding bp_take_def by (intro no_panic_intros; simp)
  show 2: "no_panic (bp_take_array e n bs c)" for n
    unfolding bp_take_array_def by (intro no_panic_intros; simp add: 1)
  show "no_panic (bp_take_u8 e bs c)"
    unfolding bp_take_u8_def by (intro no_panic_intros; simp add: 1)
  show "no_panic (bp_take_u16_le e bs c)" "no_panic (bp_take_u32_le e bs c)" "no_panic (bp_take_u64_le e bs c)"
    unfolding bp_take_u16_le_def bp_take_u32_le_def bp_take_u64_le_def
    by (intro no_panic_intros; simp add: 2)+
qed

lemma u_le_not_Nil [simp]: "u16_le x \<noteq> []" "u32_le y \<noteq> []" "u64_le z \<noteq> []"
  using length_u_le(1) [of x] length_u_le(2) [of y] length_u_le(3) [of z] by fastforce+

lemma holds_at_byte: "xs \<noteq> [] \<Longrightarrow> holds_at bs c (b # xs) \<longleftrightarrow> holds_at bs c [b] \<and> holds_at bs (c + 1) xs"
  using holds_at_append [of bs c "[b]" xs] by simp

lemma holds_at_length_u: "length bs \<le> usize_max \<Longrightarrow> holds_at bs c x \<Longrightarrow> c + length x \<le> usize_max"
  by (simp add: holds_at_def)

end
