(* ===== verification/Device_Identity.thy ===== *)
theory Device_Identity
  imports Pqc Byte_Parser
begin

text \<open>
  src/crates/meissnerseal-core/src/keys/device.rs: device identities and their key pairs, the
  sealed key file and the textual identity. (The two transfer wrappers of that file are in the
  theory Transfer_Envelope.) A display name is the bytes of its UTF-8 text; a text file is its bytes.
\<close>

abbreviation (input) DEVICE_ID_LEN :: nat where "DEVICE_ID_LEN \<equiv> 16"

definition DEVICE_ENROLLMENT_SIGNING_DOMAIN :: "byte list" where
  "DEVICE_ENROLLMENT_SIGNING_DOMAIN = bytes_of ''meissnerseal.device.enrollment.v1'' @ [0]"

definition SEALED_DEVICE_KEY_FILE_MAGIC :: "byte list" where
  "SEALED_DEVICE_KEY_FILE_MAGIC = bytes_of ''MSDKP'' @ [1]"

abbreviation (input) SEALED_DEVICE_KEY_FILE_VERSION :: byte where "SEALED_DEVICE_KEY_FILE_VERSION \<equiv> 1"

definition SEALED_DEVICE_KEY_FILE_AAD_DOMAIN :: "byte list" where
  "SEALED_DEVICE_KEY_FILE_AAD_DOMAIN = bytes_of ''meissnerseal.device.keyfile.v1''"

subsection \<open>Types\<close>

datatype DeviceTrustState =
    Untrusted
  | PendingInbound
  | PendingOutbound
  | Verified
  | Approved
  | Revoked
  | Expired

datatype DeviceIdentityError =
    DevUnimplemented
  | InvalidFileFormat
  | EmptyDisplayName
  | MissingSigningKey
  | InvalidSigningPublicKeyLength
  | RandomBytesLength
  | KeyGenerationFailed
  | TimestampOverflow
  | DevSigningFailed
  | SealingFailed
  | OpenFailed
  | IdentityFingerprintMismatch

type_synonym 'a dev = "(DeviceIdentityError, 'a) rs"

record DeviceIdentity =
  di_device_id :: "byte list"
  di_display_name :: "byte list"
  di_classical_public_key :: "byte list"
  di_pqc_public_key :: "byte list"
  di_signing_public_key :: "SigningPublicKey option"
  di_created_at :: u64
  di_trust_state :: DeviceTrustState

record DeviceKeypair =
  dk_classical_private_key :: "byte list"
  dk_pqc_private_key :: "byte list"
  dk_signing_private_key :: SigningPrivateKey

definition requires_signing_key :: "DeviceTrustState \<Rightarrow> bool" where
  "requires_signing_key s \<longleftrightarrow> s = Verified \<or> s = Approved"

definition identity_validate :: "DeviceIdentity \<Rightarrow> unit dev" where
  "identity_validate d =
     (if di_display_name d = [] then err EmptyDisplayName
      else if requires_signing_key (di_trust_state d) \<and> di_signing_public_key d = None
      then err MissingSigningKey
      else ok ())"

subsection \<open>Generation and signing\<close>

definition dev_unix_time_millis :: "(DeviceIdentityError, u64) act" where
  "dev_unix_time_millis = (\<lambda>w.
     let millis = (if clock_ms w < 0 then 0 else nat (clock_ms w)) in
     (to_u64 millis TimestampOverflow, w))"

definition generate ::
    "pqc_prims \<Rightarrow> byte list \<Rightarrow> (DeviceIdentityError, DeviceIdentity \<times> DeviceKeypair) act" where
  "generate Q display_name =
     (if display_name = [] then fail EmptyDisplayName
      else
      bind_act (random_bytes DEVICE_ID_LEN) (\<lambda>id_bytes.
      bind_act (lift_rs (if length id_bytes = 16 then ok id_bytes else err RandomBytesLength)) (\<lambda>device_id.
      bind_act (x25519_keypair Q) (\<lambda>(classical_private, classical_public).
      bind_act (map_err_act (mlkem_keypair Q) KeyGenerationFailed) (\<lambda>(pqc_public, pqc_private).
      bind_act (ed25519_keypair Q) (\<lambda>(signing_public, signing_private).
      bind_act dev_unix_time_millis (\<lambda>created_at.
      ret (\<lparr>di_device_id = device_id, di_display_name = display_name,
            di_classical_public_key = classical_public, di_pqc_public_key = pqc_public,
            di_signing_public_key = Some signing_public, di_created_at = created_at,
            di_trust_state = Untrusted\<rparr>,
           \<lparr>dk_classical_private_key = classical_private, dk_pqc_private_key = pqc_private,
            dk_signing_private_key = signing_private\<rparr>))))))))"

definition try_new_ed25519_signing_public_key :: "byte list \<Rightarrow> SigningPublicKey dev" where
  "try_new_ed25519_signing_public_key bytes = ok \<lparr>spk_algorithm = Ed25519V1, spk_bytes = bytes\<rparr>"

definition try_new_signing_public_key :: "SigningAlgorithmId \<Rightarrow> byte list \<Rightarrow> SigningPublicKey dev" where
  "try_new_signing_public_key algorithm bytes =
     (case algorithm of
        Ed25519V1 \<Rightarrow>
          and_then (if length bytes = 32 then ok bytes else err InvalidSigningPublicKeyLength) (\<lambda>key_bytes.
          try_new_ed25519_signing_public_key key_bytes)
      | Ed25519MlDsa87HybridV1 \<Rightarrow> err DevUnimplemented)"

definition enrollment_signing_message :: "byte list \<Rightarrow> byte list" where
  "enrollment_signing_message message = DEVICE_ENROLLMENT_SIGNING_DOMAIN @ message"

definition sign_enrollment_message :: "pqc_prims \<Rightarrow> SigningPrivateKey \<Rightarrow> byte list \<Rightarrow> Signature dev" where
  "sign_enrollment_message Q private_key message =
     map_err (sign_with_domain Q private_key DEVICE_ENROLLMENT_SIGNING_DOMAIN message) DevSigningFailed"

subsection \<open>Key pair bytes\<close>

definition u32_len_or_max :: "nat \<Rightarrow> u32" where
  "u32_len_or_max n = (if n \<le> u32_max then of_nat n else of_nat u32_max)"

definition serialize_keypair_bytes :: "DeviceIdentity \<Rightarrow> DeviceKeypair \<Rightarrow> byte list" where
  "serialize_keypair_bytes d kp =
     [1] @ di_device_id d @ di_classical_public_key d @ dk_classical_private_key kp @
     dk_pqc_private_key kp @ alg_to_le_bytes (ssk_algorithm (dk_signing_private_key kp)) @
     u32_le (u32_len_or_max (length (ssk_bytes (dk_signing_private_key kp)))) @
     ssk_bytes (dk_signing_private_key kp)"

definition deserialize_keypair_bytes ::
    "pqc_prims \<Rightarrow> byte list \<Rightarrow> (byte list \<times> byte list \<times> DeviceKeypair) dev" where
  "deserialize_keypair_bytes Q bytes =
     and_then (bp_take_u8 InvalidFileFormat bytes 0) (\<lambda>(tag, c).
     if tag \<noteq> 1 then err InvalidFileFormat
     else
     and_then (bp_take_array InvalidFileFormat 16 bytes c) (\<lambda>(device_id, c).
     and_then (bp_take_array InvalidFileFormat 32 bytes c) (\<lambda>(classical_public_key, c).
     and_then (bp_take_array InvalidFileFormat 32 bytes c) (\<lambda>(classical_private_key, c).
     and_then (bp_take_array InvalidFileFormat 2400 bytes c) (\<lambda>(pqc_private_key, c).
     and_then (bp_take_u16_le InvalidFileFormat bytes c) (\<lambda>(alg_raw, c).
     and_then (map_err (alg_from_u16 alg_raw) InvalidFileFormat) (\<lambda>signing_algorithm.
     and_then (bp_take_u32_le InvalidFileFormat bytes c) (\<lambda>(len_raw, c).
     let signing_len = unat len_raw in
     if signing_algorithm = Ed25519V1 \<and> signing_len \<noteq> 32 then err InvalidFileFormat
     else
     and_then (bp_take InvalidFileFormat bytes c signing_len) (\<lambda>(signing_bytes, c).
     if c \<noteq> length bytes then err InvalidFileFormat
     else if classical_public_key \<noteq> x25519_public_from_private Q classical_private_key
     then err InvalidFileFormat
     else ok (device_id, classical_public_key,
       \<lparr>dk_classical_private_key = classical_private_key, dk_pqc_private_key = pqc_private_key,
        dk_signing_private_key = \<lparr>ssk_algorithm = signing_algorithm, ssk_bytes = signing_bytes\<rparr>\<rparr>))))))))))"

subsection \<open>Identity bytes\<close>

primrec device_trust_state_to_u8 :: "DeviceTrustState \<Rightarrow> byte" where
  "device_trust_state_to_u8 Untrusted = 0"
| "device_trust_state_to_u8 PendingInbound = 1"
| "device_trust_state_to_u8 PendingOutbound = 2"
| "device_trust_state_to_u8 Verified = 3"
| "device_trust_state_to_u8 Approved = 4"
| "device_trust_state_to_u8 Revoked = 5"
| "device_trust_state_to_u8 Expired = 6"

definition device_trust_state_from_u8 :: "byte \<Rightarrow> DeviceTrustState dev" where
  "device_trust_state_from_u8 v =
     (if v = 0 then ok Untrusted
      else if v = 1 then ok PendingInbound
      else if v = 2 then ok PendingOutbound
      else if v = 3 then ok Verified
      else if v = 4 then ok Approved
      else if v = 5 then ok Revoked
      else if v = 6 then ok Expired
      else err InvalidFileFormat)"

definition serialize_identity_bytes :: "DeviceIdentity \<Rightarrow> byte list dev" where
  "serialize_identity_bytes d =
     and_then (to_u32 (length (di_display_name d)) InvalidFileFormat) (\<lambda>name_len.
     and_then (case di_signing_public_key d of
         Some spk \<Rightarrow>
           and_then (to_u32 (length (spk_bytes spk)) InvalidFileFormat) (\<lambda>key_len.
           ok ([1] @ alg_to_le_bytes (spk_algorithm spk) @ u32_le key_len @ spk_bytes spk))
       | None \<Rightarrow> ok [0]) (\<lambda>signing_section.
     ok ([1] @ di_device_id d @ u32_le name_len @ di_display_name d @ di_classical_public_key d @
         di_pqc_public_key d @ signing_section @ u64_le (di_created_at d) @
         [device_trust_state_to_u8 (di_trust_state d)])))"

definition deserialize_identity_bytes :: "byte list \<Rightarrow> DeviceIdentity dev" where
  "deserialize_identity_bytes bytes =
     and_then (bp_take_u8 InvalidFileFormat bytes 0) (\<lambda>(tag, c).
     if tag \<noteq> 1 then err InvalidFileFormat
     else
     and_then (bp_take_array InvalidFileFormat 16 bytes c) (\<lambda>(device_id, c).
     and_then (bp_take_u32_le InvalidFileFormat bytes c) (\<lambda>(display_name_len, c).
     and_then (bp_take InvalidFileFormat bytes c (unat display_name_len)) (\<lambda>(name_raw, c).
     and_then (from_utf8 name_raw InvalidFileFormat) (\<lambda>display_name.
     and_then (bp_take_array InvalidFileFormat 32 bytes c) (\<lambda>(classical_public_key, c).
     and_then (bp_take_array InvalidFileFormat 1184 bytes c) (\<lambda>(pqc_public_key, c).
     and_then (bp_take_u8 InvalidFileFormat bytes c) (\<lambda>(key_tag, c).
     and_then (if key_tag = 0 then ok (None, c)
       else if key_tag = 1 then
         and_then (bp_take_u16_le InvalidFileFormat bytes c) (\<lambda>(alg_raw, c).
         and_then (map_err (alg_from_u16 alg_raw) InvalidFileFormat) (\<lambda>algorithm.
         and_then (bp_take_u32_le InvalidFileFormat bytes c) (\<lambda>(len, c).
         and_then (bp_take InvalidFileFormat bytes c (unat len)) (\<lambda>(key_bytes, c).
         and_then (try_new_signing_public_key algorithm key_bytes) (\<lambda>spk. ok (Some spk, c))))))
       else err InvalidFileFormat) (\<lambda>(signing_public_key, c).
     and_then (bp_take_u64_le InvalidFileFormat bytes c) (\<lambda>(created_at, c).
     and_then (bp_take_u8 InvalidFileFormat bytes c) (\<lambda>(state_raw, c).
     and_then (device_trust_state_from_u8 state_raw) (\<lambda>trust_state.
     if c \<noteq> length bytes then err InvalidFileFormat
     else
     let d = \<lparr>di_device_id = device_id, di_display_name = display_name,
              di_classical_public_key = classical_public_key, di_pqc_public_key = pqc_public_key,
              di_signing_public_key = signing_public_key, di_created_at = created_at,
              di_trust_state = trust_state\<rparr> in
     and_then (identity_validate d) (\<lambda>_. ok d)))))))))))))"

definition identity_fingerprint :: "prims \<Rightarrow> DeviceIdentity \<Rightarrow> byte list" where
  "identity_fingerprint P d =
     blake2b_256_digest P (di_device_id d @ u32_le (u32_len_or_max (length (di_display_name d))) @
       di_display_name d @ di_classical_public_key d @ di_pqc_public_key d @
       (case di_signing_public_key d of
          Some spk \<Rightarrow> [1] @ alg_to_le_bytes (spk_algorithm spk) @
            u32_le (u32_len_or_max (length (spk_bytes spk))) @ spk_bytes spk
        | None \<Rightarrow> [0]) @
       u64_le (di_created_at d) @ [device_trust_state_to_u8 (di_trust_state d)])"

subsection \<open>The sealed key file\<close>

record ParsedSealedDeviceKeyFile =
  ps_identity_bytes :: "byte list"
  ps_fingerprint :: "byte list"
  ps_nonce :: "byte list"
  ps_ciphertext :: "byte list"

definition sealed_device_key_file_aad :: "byte list \<Rightarrow> byte list \<Rightarrow> byte list dev" where
  "sealed_device_key_file_aad identity_bytes fingerprint =
     and_then (to_u32 (length identity_bytes) InvalidFileFormat) (\<lambda>n.
     ok (SEALED_DEVICE_KEY_FILE_AAD_DOMAIN @ u32_le n @ identity_bytes @ fingerprint))"

definition serialize_sealed_device_key_file ::
    "byte list \<Rightarrow> byte list \<Rightarrow> byte list \<Rightarrow> byte list \<Rightarrow> byte list dev" where
  "serialize_sealed_device_key_file identity_bytes fingerprint nonce ciphertext =
     and_then (to_u32 (length identity_bytes) InvalidFileFormat) (\<lambda>identity_len.
     and_then (to_u32 (length ciphertext) InvalidFileFormat) (\<lambda>ciphertext_len.
     ok (SEALED_DEVICE_KEY_FILE_MAGIC @ [SEALED_DEVICE_KEY_FILE_VERSION] @ u32_le identity_len @
         identity_bytes @ fingerprint @ nonce @ u32_le ciphertext_len @ ciphertext)))"

definition parse_sealed_device_key_file :: "byte list \<Rightarrow> ParsedSealedDeviceKeyFile dev" where
  "parse_sealed_device_key_file bytes =
     and_then (bp_take InvalidFileFormat bytes 0 6) (\<lambda>(magic, c).
     if magic \<noteq> SEALED_DEVICE_KEY_FILE_MAGIC then err InvalidFileFormat
     else
     and_then (bp_take_u8 InvalidFileFormat bytes c) (\<lambda>(version, c).
     if version \<noteq> SEALED_DEVICE_KEY_FILE_VERSION then err InvalidFileFormat
     else
     and_then (bp_take_u32_le InvalidFileFormat bytes c) (\<lambda>(identity_len, c).
     and_then (bp_take InvalidFileFormat bytes c (unat identity_len)) (\<lambda>(identity_bytes, c).
     and_then (bp_take_array InvalidFileFormat 32 bytes c) (\<lambda>(fingerprint, c).
     and_then (bp_take_array InvalidFileFormat 24 bytes c) (\<lambda>(nonce, c).
     and_then (bp_take_u32_le InvalidFileFormat bytes c) (\<lambda>(ciphertext_len, c).
     and_then (bp_take InvalidFileFormat bytes c (unat ciphertext_len)) (\<lambda>(ciphertext, c).
     if c \<noteq> length bytes then err InvalidFileFormat
     else ok \<lparr>ps_identity_bytes = identity_bytes, ps_fingerprint = fingerprint, ps_nonce = nonce,
              ps_ciphertext = ciphertext\<rparr>))))))))"

definition validate_signing_key_matches_public ::
    "pqc_prims \<Rightarrow> SigningPrivateKey \<Rightarrow> SigningPublicKey \<Rightarrow> unit dev" where
  "validate_signing_key_matches_public Q private_key public_key =
     (let message = bytes_of ''meissnerseal.device.keyfile.check.v1'' in
     and_then (map_err (sign_with_domain Q private_key DEVICE_ENROLLMENT_SIGNING_DOMAIN message)
                 IdentityFingerprintMismatch) (\<lambda>signature.
     map_err (verify_with_domain Q public_key DEVICE_ENROLLMENT_SIGNING_DOMAIN message signature)
       IdentityFingerprintMismatch))"

definition rebuild_identity_from_keypair ::
    "pqc_prims \<Rightarrow> DeviceIdentity \<Rightarrow> DeviceKeypair \<Rightarrow> DeviceIdentity dev" where
  "rebuild_identity_from_keypair Q d kp =
     (let classical_public_key = x25519_public_from_private Q (dk_classical_private_key kp) in
     and_then (ok_or (di_signing_public_key d) MissingSigningKey) (\<lambda>signing_public_key.
     and_then (validate_signing_key_matches_public Q (dk_signing_private_key kp) signing_public_key) (\<lambda>_.
     ok \<lparr>di_device_id = di_device_id d, di_display_name = di_display_name d,
         di_classical_public_key = classical_public_key, di_pqc_public_key = di_pqc_public_key d,
         di_signing_public_key = Some signing_public_key, di_created_at = di_created_at d,
         di_trust_state = di_trust_state d\<rparr>)))"

definition seal_keyfile ::
    "prims \<Rightarrow> DeviceIdentity \<Rightarrow> DeviceKeypair \<Rightarrow> key \<Rightarrow> (DeviceIdentityError, byte list) act" where
  "seal_keyfile P d kp dkek =
     (let raw_keypair = serialize_keypair_bytes d kp in
     bind_act (lift_rs (serialize_identity_bytes d)) (\<lambda>identity_bytes.
     let fingerprint = identity_fingerprint P d in
     bind_act (lift_rs (sealed_device_key_file_aad identity_bytes fingerprint)) (\<lambda>aad.
     bind_act (map_err_act (encrypt P dkek raw_keypair aad) SealingFailed) (\<lambda>(ciphertext, nonce).
     lift_rs (serialize_sealed_device_key_file identity_bytes fingerprint nonce ciphertext)))))"

definition open_keyfile ::
    "prims \<Rightarrow> pqc_prims \<Rightarrow> byte list \<Rightarrow> key \<Rightarrow> (DeviceIdentity \<times> DeviceKeypair) dev" where
  "open_keyfile P Q bytes dkek =
     and_then (parse_sealed_device_key_file bytes) (\<lambda>parsed.
     and_then (sealed_device_key_file_aad (ps_identity_bytes parsed) (ps_fingerprint parsed)) (\<lambda>aad.
     and_then (map_err (decrypt P dkek (ps_nonce parsed) (ps_ciphertext parsed) aad) OpenFailed) (\<lambda>plaintext.
     and_then (deserialize_identity_bytes (ps_identity_bytes parsed)) (\<lambda>d.
     and_then (deserialize_keypair_bytes Q plaintext) (\<lambda>(device_id, classical_public_key, kp).
     if di_device_id d \<noteq> device_id \<or> di_classical_public_key d \<noteq> classical_public_key
     then err IdentityFingerprintMismatch
     else
     and_then (rebuild_identity_from_keypair Q d kp) (\<lambda>derived_identity.
     if ps_fingerprint parsed \<noteq> identity_fingerprint P derived_identity
     then err IdentityFingerprintMismatch
     else ok (derived_identity, kp)))))))"

end
