(* ===== verification/Device_Laws.thy ===== *)
theory Device_Laws
  imports Device_Identity
begin

text \<open>
  The byte formats of keys/device.rs are canonical (locale \<open>canonical_codec\<close>), and the sealed key
  file returns the sealed identity and keys, or refuses.
\<close>

subsection \<open>Identity bytes\<close>

lemma trust_u8_roundtrip [simp]: "device_trust_state_from_u8 (device_trust_state_to_u8 s) = Inr s"
  by (cases s) (simp_all add: device_trust_state_from_u8_def)

lemma trust_from_u8_Inr: "device_trust_state_from_u8 v = Inr s \<longleftrightarrow> v = device_trust_state_to_u8 s"
  by (cases s) (auto simp: device_trust_state_from_u8_def split: if_splits)

definition signing_key_ok :: "SigningPublicKey option \<Rightarrow> bool" where
  "signing_key_ok k \<longleftrightarrow> (\<forall>spk. k = Some spk \<longrightarrow> spk_algorithm spk = Ed25519V1 \<and> length (spk_bytes spk) = 32)"

definition identity_wf :: "DeviceIdentity \<Rightarrow> bool" where
  "identity_wf d \<longleftrightarrow> length (di_device_id d) = 16 \<and> length (di_display_name d) \<le> u32_max \<and>
     utf8_valid (di_display_name d) \<and> length (di_classical_public_key d) = 32 \<and>
     length (di_pqc_public_key d) = 1184 \<and> signing_key_ok (di_signing_public_key d) \<and>
     identity_validate d = ok ()"

lemma try_new_Inr: "try_new_signing_public_key a bs = Inr spk \<longleftrightarrow>
    a = Ed25519V1 \<and> length bs = 32 \<and> spk = \<lparr>spk_algorithm = Ed25519V1, spk_bytes = bs\<rparr>"
  by (cases a) (auto simp: try_new_signing_public_key_def try_new_ed25519_signing_public_key_def)

definition key_section :: "SigningPublicKey option \<Rightarrow> byte list" where
  "key_section k = (case k of None \<Rightarrow> [0] | Some spk \<Rightarrow>
     [1] @ u16_le (alg_to_u16 (spk_algorithm spk)) @ u32_le (of_nat (length (spk_bytes spk))) @ spk_bytes spk)"

definition identity_bytes :: "DeviceIdentity \<Rightarrow> byte list" where
  "identity_bytes d = [1] @ di_device_id d @ u32_le (of_nat (length (di_display_name d))) @ di_display_name d @
     di_classical_public_key d @ di_pqc_public_key d @ key_section (di_signing_public_key d) @
     u64_le (di_created_at d) @ [device_trust_state_to_u8 (di_trust_state d)]"

lemma serialize_identity_Inr: "serialize_identity_bytes d = Inr bs \<longleftrightarrow>
    length (di_display_name d) \<le> u32_max \<and>
    (\<forall>spk. di_signing_public_key d = Some spk \<longrightarrow> length (spk_bytes spk) \<le> u32_max) \<and> bs = identity_bytes d"
  by (auto simp: serialize_identity_bytes_def identity_bytes_def key_section_def alg_to_le_bytes_def split: option.splits)

text \<open>Reading the optional key, as a lemma on the field of the parser.\<close>

definition read_key_section :: "byte list \<Rightarrow> nat \<Rightarrow> (SigningPublicKey option \<times> nat) dev" where
  "read_key_section bytes c =
     and_then (bp_take_u8 InvalidFileFormat bytes c) (\<lambda>(key_tag, c).
     if key_tag = 0 then ok (None, c)
       else if key_tag = 1 then
         and_then (bp_take_u16_le InvalidFileFormat bytes c) (\<lambda>(alg_raw, c).
         and_then (map_err (alg_from_u16 alg_raw) InvalidFileFormat) (\<lambda>algorithm.
         and_then (bp_take_u32_le InvalidFileFormat bytes c) (\<lambda>(len, c).
         and_then (bp_take InvalidFileFormat bytes c (unat len)) (\<lambda>(key_bytes, c).
         and_then (try_new_signing_public_key algorithm key_bytes) (\<lambda>spk. ok (Some spk, c))))))
       else err InvalidFileFormat)"

lemma read_key_section_sound:
  assumes "read_key_section bs c = Inr (k, c')"
  shows "signing_key_ok k \<and> holds_at bs c (key_section k) \<and> c' = c + length (key_section k) \<and> c' \<le> usize_max"
proof (cases k)
  case None
  then show ?thesis using assms
    by (auto simp: read_key_section_def bp_Inr key_section_def signing_key_ok_def split: if_splits prod.splits)
next
  case (Some spk)
  then obtain n where h: "holds_at bs c [1]" "holds_at bs (c + 1) (u16_le (alg_to_u16 Ed25519V1))"
    "holds_at bs (c + 1 + 2) (u32_le n)" "unat n = 32" "length (spk_bytes spk) = 32"
    "holds_at bs (c + 1 + 2 + 4) (spk_bytes spk)" "spk_algorithm spk = Ed25519V1" "c' = c + 39" "c' \<le> usize_max"
    using assms
    by (auto simp: read_key_section_def bp_Inr try_new_Inr alg_from_u16_Inr ac_simps
        split: if_splits prod.splits)
  have "of_nat (length (spk_bytes spk)) = n" unfolding h(5) h(4) [symmetric] by simp
  then show ?thesis
    using h by (simp add: Some key_section_def signing_key_ok_def holds_at_append holds_at_byte ac_simps)
qed

lemma read_key_section_complete:
  assumes ok: "signing_key_ok k" and h: "holds_at bs c (key_section k)" and b: "length bs \<le> usize_max"
  shows "read_key_section bs c = Inr (k, c + length (key_section k))"
proof (cases k)
  case None
  then show ?thesis using h holds_at_bound [OF h] b
    using bp_take_u8_Inr [of InvalidFileFormat bs c 0 "c + 1"]
    by (simp add: read_key_section_def key_section_def)
next
  case (Some spk)
  then have k: "spk_algorithm spk = Ed25519V1" "length (spk_bytes spk) = 32"
    using ok by (simp_all add: signing_key_ok_def)
  have f: "holds_at bs c [1]" "holds_at bs (c + 1) (u16_le 1)" "holds_at bs (c + 3) (u32_le 32)"
    "holds_at bs (c + 7) (spk_bytes spk)"
    using h k by (simp_all add: Some key_section_def holds_at_append holds_at_byte ac_simps)
  have l: "c + 39 \<le> usize_max" using holds_at_bound [OF f(4)] k b by simp
  have "bp_take_u8 InvalidFileFormat bs c = Inr (1, c + 1)"
    "bp_take_u16_le InvalidFileFormat bs (c + 1) = Inr (1, c + 3)"
    "bp_take_u32_le InvalidFileFormat bs (c + 3) = Inr (32, c + 7)"
    "bp_take InvalidFileFormat bs (c + 7) 32 = Inr (spk_bytes spk, c + 39)"
    using f k l by (simp_all add: bp_Inr)
  moreover have "alg_from_u16 1 = Inr Ed25519V1" by (simp add: alg_from_u16_def)
  moreover have "try_new_signing_public_key Ed25519V1 (spk_bytes spk) = Inr spk"
    using k by (cases spk) (simp add: try_new_Inr)
  ultimately show ?thesis
    using k by (simp add: read_key_section_def Some key_section_def)
qed

lemma deserialize_identity_alt:
  "deserialize_identity_bytes bytes =
     and_then (bp_take_u8 InvalidFileFormat bytes 0) (\<lambda>(tag, c).
     if tag \<noteq> 1 then err InvalidFileFormat
     else
     and_then (bp_take_array InvalidFileFormat 16 bytes c) (\<lambda>(device_id, c).
     and_then (bp_take_u32_le InvalidFileFormat bytes c) (\<lambda>(display_name_len, c).
     and_then (bp_take InvalidFileFormat bytes c (unat display_name_len)) (\<lambda>(name_raw, c).
     and_then (from_utf8 name_raw InvalidFileFormat) (\<lambda>display_name.
     and_then (bp_take_array InvalidFileFormat 32 bytes c) (\<lambda>(classical_public_key, c).
     and_then (bp_take_array InvalidFileFormat 1184 bytes c) (\<lambda>(pqc_public_key, c).
     and_then (read_key_section bytes c) (\<lambda>(signing_public_key, c).
     and_then (bp_take_u64_le InvalidFileFormat bytes c) (\<lambda>(created_at, c).
     and_then (bp_take_u8 InvalidFileFormat bytes c) (\<lambda>(state_raw, c).
     and_then (device_trust_state_from_u8 state_raw) (\<lambda>trust_state.
     if c \<noteq> length bytes then err InvalidFileFormat
     else
     let d = \<lparr>di_device_id = device_id, di_display_name = display_name,
              di_classical_public_key = classical_public_key, di_pqc_public_key = pqc_public_key,
              di_signing_public_key = signing_public_key, di_created_at = created_at,
              di_trust_state = trust_state\<rparr> in
     and_then (identity_validate d) (\<lambda>_. ok d))))))))))))"
  unfolding deserialize_identity_bytes_def read_key_section_def and_then_assoc
  by (simp only: split_def and_then_assoc)

lemma identity_validate_unit: "identity_validate d = Inr u \<longleftrightarrow> identity_validate d = ok ()"
  by simp

lemma deserialize_identity_sound:
  assumes "deserialize_identity_bytes bs = Inr d"
  shows "identity_wf d \<and> bs = identity_bytes d \<and> length bs \<le> usize_max"
proof -
  obtain n c where f: "holds_at bs 0 [1]" "holds_at bs 1 (di_device_id d)" "length (di_device_id d) = 16"
    "holds_at bs 17 (u32_le n)" "unat n = length (di_display_name d)" "holds_at bs 21 (di_display_name d)"
    "utf8_valid (di_display_name d)" "holds_at bs (21 + length (di_display_name d)) (di_classical_public_key d)"
    "length (di_classical_public_key d) = 32"
    "holds_at bs (53 + length (di_display_name d)) (di_pqc_public_key d)" "length (di_pqc_public_key d) = 1184"
    and k: "read_key_section bs (1237 + length (di_display_name d)) = Inr (di_signing_public_key d, c)"
    and g: "holds_at bs c (u64_le (di_created_at d))" "holds_at bs (c + 8) [device_trust_state_to_u8 (di_trust_state d)]"
    "c + 9 = length bs" "length bs \<le> usize_max" "identity_validate d = ok ()"
    using assms unfolding deserialize_identity_alt
    by (clarsimp simp: bp_Inr trust_from_u8_Inr Let_def split: if_splits prod.splits)
  note k = read_key_section_sound [OF k]
  have n: "of_nat (length (di_display_name d)) = n" "length (di_display_name d) \<le> u32_max"
    using f(5) unat_u32_bound [of n] by (simp_all flip: f(5))
  have "holds_at bs 0 (identity_bytes d)"
    unfolding identity_bytes_def holds_at_append n
    using f k g by (simp add: add.assoc)
  then have "bs = identity_bytes d"
    using g(3) k f by (intro holds_at_whole) (simp_all add: identity_bytes_def)
  then show ?thesis using f k g n by (simp add: identity_wf_def)
qed

lemma key_section_not_Nil [simp]: "key_section k \<noteq> []"
  by (simp add: key_section_def split: option.splits)

lemma deserialize_identity_complete:
  assumes wf: "identity_wf d" and b: "length (identity_bytes d) \<le> usize_max"
  shows "deserialize_identity_bytes (identity_bytes d) = Inr d"
proof -
  let ?b = "identity_bytes d" and ?n = "length (di_display_name d)" and ?k = "length (key_section (di_signing_public_key d))"
  have w: "length (di_device_id d) = 16" "?n \<le> u32_max" "utf8_valid (di_display_name d)"
    "length (di_classical_public_key d) = 32" "length (di_pqc_public_key d) = 1184"
    "signing_key_ok (di_signing_public_key d)" "identity_validate d = ok ()"
    using wf by (simp_all add: identity_wf_def)
  have len: "length ?b = 1246 + ?n + ?k" using w by (simp add: identity_bytes_def)
  have f: "holds_at ?b 0 [1]" "holds_at ?b 1 (di_device_id d)" "holds_at ?b 17 (u32_le (of_nat ?n))"
    "holds_at ?b 21 (di_display_name d)" "holds_at ?b (21 + ?n) (di_classical_public_key d)"
    "holds_at ?b (53 + ?n) (di_pqc_public_key d)" "holds_at ?b (1237 + ?n) (key_section (di_signing_public_key d))"
    "holds_at ?b (1237 + ?n + ?k) (u64_le (di_created_at d))"
    "holds_at ?b (1245 + ?n + ?k) [device_trust_state_to_u8 (di_trust_state d)]"
    using holds_at_self [of ?b] unfolding identity_bytes_def [of d] holds_at_append
    using w by (simp_all add: ac_simps)
  have r: "bp_take_u8 InvalidFileFormat ?b 0 = Inr (1, 1)"
    "bp_take_array InvalidFileFormat 16 ?b (Suc 0) = Inr (di_device_id d, 17)"
    "bp_take_u32_le InvalidFileFormat ?b 17 = Inr (of_nat ?n, 21)"
    "bp_take InvalidFileFormat ?b 21 ?n = Inr (di_display_name d, 21 + ?n)"
    "bp_take_array InvalidFileFormat 32 ?b (21 + ?n) = Inr (di_classical_public_key d, 53 + ?n)"
    "bp_take_array InvalidFileFormat 1184 ?b (53 + ?n) = Inr (di_pqc_public_key d, 1237 + ?n)"
    "bp_take_u64_le InvalidFileFormat ?b (1237 + ?n + ?k) = Inr (di_created_at d, 1245 + ?n + ?k)"
    "bp_take_u8 InvalidFileFormat ?b (1245 + ?n + ?k) = Inr (device_trust_state_to_u8 (di_trust_state d), 1246 + ?n + ?k)"
    using f w b len by (simp_all add: bp_Inr)
  have s: "read_key_section ?b (1237 + ?n) = Inr (di_signing_public_key d, 1237 + ?n + ?k)"
    by (rule read_key_section_complete [OF w(6) f(7) b])
  have rec: "\<lparr>di_device_id = di_device_id d, di_display_name = di_display_name d,
      di_classical_public_key = di_classical_public_key d, di_pqc_public_key = di_pqc_public_key d,
      di_signing_public_key = di_signing_public_key d, di_created_at = di_created_at d,
      di_trust_state = di_trust_state d\<rparr> = d" by simp
  show ?thesis
    unfolding deserialize_identity_alt
    using w by (simp add: r s len Let_def from_utf8_def rec)
qed

lemma identity_bytes_small: "identity_wf d \<Longrightarrow> length (identity_bytes d) \<le> u32_max + 1300"
  by (auto simp: identity_bytes_def identity_wf_def key_section_def signing_key_ok_def split: option.splits)

interpretation identity_fmt: canonical_codec serialize_identity_bytes deserialize_identity_bytes identity_wf
proof
  fix d bs assume "identity_wf d" "serialize_identity_bytes d = Inr bs"
  then show "deserialize_identity_bytes bs = Inr d"
    using deserialize_identity_complete [of d] identity_bytes_small [of d]
    by (simp add: serialize_identity_Inr u32_max_def usize_max_def)
next
  fix bs d assume "deserialize_identity_bytes bs = Inr d"
  then show "identity_wf d \<and> serialize_identity_bytes d = Inr bs"
    using deserialize_identity_sound [of bs d]
    by (auto simp: serialize_identity_Inr identity_wf_def signing_key_ok_def u32_max_def)
qed

subsection \<open>Key pair bytes\<close>

definition keypair_wf :: "pqc_prims \<Rightarrow> byte list \<times> byte list \<times> DeviceKeypair \<Rightarrow> bool" where
  "keypair_wf Q x \<longleftrightarrow> (case x of (i, pub, kp) \<Rightarrow> length i = 16 \<and> length pub = 32 \<and>
     length (dk_classical_private_key kp) = 32 \<and> length (dk_pqc_private_key kp) = 2400 \<and>
     (ssk_algorithm (dk_signing_private_key kp) = Ed25519V1 \<longrightarrow> length (ssk_bytes (dk_signing_private_key kp)) = 32) \<and>
     length (ssk_bytes (dk_signing_private_key kp)) \<le> u32_max \<and>
     pub = x25519_public Q (dk_classical_private_key kp))"

definition keypair_bytes :: "byte list \<times> byte list \<times> DeviceKeypair \<Rightarrow> byte list" where
  "keypair_bytes x = (case x of (i, pub, kp) \<Rightarrow>
     [1] @ i @ pub @ dk_classical_private_key kp @ dk_pqc_private_key kp @
     alg_to_le_bytes (ssk_algorithm (dk_signing_private_key kp)) @
     u32_le (u32_len_or_max (length (ssk_bytes (dk_signing_private_key kp)))) @ ssk_bytes (dk_signing_private_key kp))"

lemma serialize_keypair_form:
  "serialize_keypair_bytes d kp = keypair_bytes (di_device_id d, di_classical_public_key d, kp)"
  by (simp add: serialize_keypair_bytes_def keypair_bytes_def)

lemma deserialize_keypair_sound:
  assumes "deserialize_keypair_bytes Q bs = Inr x"
  shows "keypair_wf Q x \<and> bs = keypair_bytes x"
proof -
  obtain i pub kp where x: "x = (i, pub, kp)" by (cases x)
  let ?s = "dk_signing_private_key kp"
  obtain cs ps a sb n where raw: "holds_at bs 0 [1]" "length i = 16" "holds_at bs (Suc 0) i" "length pub = 32"
    "holds_at bs 17 pub" "length cs = 32" "holds_at bs 49 cs" "length ps = 2400" "holds_at bs 81 ps"
    "holds_at bs 2481 (u16_le (alg_to_u16 a))" "a = Ed25519V1 \<longrightarrow> unat n = 32"
    "holds_at bs 2483 (u32_le n)" "2487 + unat n = length bs" "length sb = unat n" "holds_at bs 2487 sb"
    "x25519_public Q cs = pub"
    and kp: "\<lparr>dk_classical_private_key = cs, dk_pqc_private_key = ps,
       dk_signing_private_key = \<lparr>ssk_algorithm = a, ssk_bytes = sb\<rparr>\<rparr> = kp"
    using assms unfolding deserialize_keypair_bytes_def x
    by (simp add: bp_Inr alg_from_u16_Inr Let_def x25519_public_from_private_def split_def split: if_splits) blast
  have s: "dk_classical_private_key kp = cs" "dk_pqc_private_key kp = ps" "ssk_algorithm ?s = a" "ssk_bytes ?s = sb"
    by (simp_all flip: kp)
  note f = raw
  have n: "of_nat (length sb) = n" "length sb \<le> u32_max"
    using unat_u32_bound [of n] by (simp_all add: f(14))
  have "holds_at bs 0 (keypair_bytes x)"
    using f(1-15) n by (simp add: x keypair_bytes_def holds_at_append holds_at_byte alg_to_le_bytes_def
        u32_len_or_max_def s)
  moreover have "length bs = length (keypair_bytes x)"
    using f(2,4,6,8,13,14) by (simp add: x keypair_bytes_def s)
  ultimately have "bs = keypair_bytes x" by (rule holds_at_whole)
  then show ?thesis using f n unfolding x keypair_wf_def prod.case s by simp
qed

lemma deserialize_keypair_complete:
  assumes wf: "keypair_wf Q (i, pub, kp)"
  shows "deserialize_keypair_bytes Q (keypair_bytes (i, pub, kp)) = Inr (i, pub, kp)"
proof -
  let ?b = "keypair_bytes (i, pub, kp)" and ?s = "dk_signing_private_key kp"
  let ?n = "length (ssk_bytes ?s)"
  have w: "length i = 16" "length pub = 32" "length (dk_classical_private_key kp) = 32"
    "length (dk_pqc_private_key kp) = 2400" "?n \<le> u32_max" "pub = x25519_public Q (dk_classical_private_key kp)"
    "ssk_algorithm ?s = Ed25519V1 \<longrightarrow> ?n = 32"
    using wf unfolding keypair_wf_def prod.case by blast+
  have len: "length ?b = 2487 + ?n" "length ?b \<le> usize_max"
    using w(1-5) by (simp_all add: keypair_bytes_def u32_max_def usize_max_def)
  have f: "holds_at ?b 0 [1]" "holds_at ?b 1 i" "holds_at ?b 17 pub" "holds_at ?b 49 (dk_classical_private_key kp)"
    "holds_at ?b 81 (dk_pqc_private_key kp)" "holds_at ?b 2481 (u16_le (alg_to_u16 (ssk_algorithm ?s)))"
    "holds_at ?b 2483 (u32_le (of_nat ?n))" "holds_at ?b 2487 (ssk_bytes ?s)"
    using holds_at_self [of ?b] w(1-5) unfolding keypair_bytes_def [of "(i, pub, kp)"] prod.case holds_at_append
    by (simp_all add: alg_to_le_bytes_def u32_len_or_max_def)
  have r: "bp_take_u8 InvalidFileFormat ?b 0 = Inr (1, 1)"
    "bp_take_array InvalidFileFormat 16 ?b (Suc 0) = Inr (i, 17)"
    "bp_take_array InvalidFileFormat 32 ?b 17 = Inr (pub, 49)"
    "bp_take_array InvalidFileFormat 32 ?b 49 = Inr (dk_classical_private_key kp, 81)"
    "bp_take_array InvalidFileFormat 2400 ?b 81 = Inr (dk_pqc_private_key kp, 2481)"
    "bp_take_u16_le InvalidFileFormat ?b 2481 = Inr (alg_to_u16 (ssk_algorithm ?s), 2483)"
    "bp_take_u32_le InvalidFileFormat ?b 2483 = Inr (of_nat ?n, 2487)"
    "bp_take InvalidFileFormat ?b 2487 ?n = Inr (ssk_bytes ?s, 2487 + ?n)"
    using f w(1-5) len by (simp_all add: bp_Inr)
  show ?thesis
    unfolding deserialize_keypair_bytes_def
    using w(5,7) by (simp add: r len(1) Let_def x25519_public_from_private_def w(6) [symmetric])
qed

subsection \<open>The sealed key file\<close>

definition sealed_wf :: "ParsedSealedDeviceKeyFile \<Rightarrow> bool" where
  "sealed_wf x \<longleftrightarrow> length (ps_fingerprint x) = 32 \<and> length (ps_nonce x) = 24"

definition serialize_parsed_keyfile :: "ParsedSealedDeviceKeyFile \<Rightarrow> byte list dev" where
  "serialize_parsed_keyfile x = serialize_sealed_device_key_file (ps_identity_bytes x) (ps_fingerprint x)
     (ps_nonce x) (ps_ciphertext x)"

definition keyfile_bytes :: "ParsedSealedDeviceKeyFile \<Rightarrow> byte list" where
  "keyfile_bytes x = SEALED_DEVICE_KEY_FILE_MAGIC @ [1] @ u32_le (of_nat (length (ps_identity_bytes x))) @
     ps_identity_bytes x @ ps_fingerprint x @ ps_nonce x @ u32_le (of_nat (length (ps_ciphertext x))) @
     ps_ciphertext x"

lemma length_keyfile_magic [simp]: "length SEALED_DEVICE_KEY_FILE_MAGIC = 6"
  by (simp add: SEALED_DEVICE_KEY_FILE_MAGIC_def)

lemma serialize_keyfile_Inr: "serialize_parsed_keyfile x = Inr bs \<longleftrightarrow>
    length (ps_identity_bytes x) \<le> u32_max \<and> length (ps_ciphertext x) \<le> u32_max \<and> bs = keyfile_bytes x"
  by (auto simp: serialize_parsed_keyfile_def serialize_sealed_device_key_file_def keyfile_bytes_def)

lemma parse_keyfile_sound:
  assumes "parse_sealed_device_key_file bs = Inr x"
  shows "sealed_wf x \<and> bs = keyfile_bytes x \<and> length (ps_identity_bytes x) \<le> u32_max \<and>
    length (ps_ciphertext x) \<le> u32_max"
proof -
  obtain n m ib fp nn ct where raw: "holds_at bs 0 SEALED_DEVICE_KEY_FILE_MAGIC" "holds_at bs 6 [1]"
    "holds_at bs 7 (u32_le n)" "length ib = unat n" "holds_at bs 11 ib" "length fp = 32" "holds_at bs (11 + unat n) fp"
    "length nn = 24" "holds_at bs (43 + unat n) nn" "holds_at bs (67 + unat n) (u32_le m)" "length ct = unat m"
    "holds_at bs (71 + unat n) ct" "71 + unat n + unat m = length bs"
    and x: "\<lparr>ps_identity_bytes = ib, ps_fingerprint = fp, ps_nonce = nn, ps_ciphertext = ct\<rparr> = x"
    using assms unfolding parse_sealed_device_key_file_def
    by (simp add: bp_Inr split_def split: if_splits) metis
  have s: "ps_identity_bytes x = ib" "ps_fingerprint x = fp" "ps_nonce x = nn" "ps_ciphertext x = ct"
    by (simp_all flip: x)
  have n: "of_nat (length ib) = n" "of_nat (length ct) = m" "length ib \<le> u32_max" "length ct \<le> u32_max"
    using unat_u32_bound [of n] unat_u32_bound [of m] by (simp_all add: raw)
  have "holds_at bs 0 (keyfile_bytes x)"
    using raw n by (simp add: keyfile_bytes_def s holds_at_append holds_at_byte)
  moreover have "length bs = length (keyfile_bytes x)" using raw by (simp add: keyfile_bytes_def s)
  ultimately have "bs = keyfile_bytes x" by (rule holds_at_whole)
  then show ?thesis using raw n by (simp add: sealed_wf_def s)
qed

lemma parse_keyfile_complete:
  assumes wf: "sealed_wf x" and l: "length (ps_identity_bytes x) \<le> u32_max" "length (ps_ciphertext x) \<le> u32_max"
  shows "parse_sealed_device_key_file (keyfile_bytes x) = Inr x"
proof -
  let ?b = "keyfile_bytes x" and ?n = "length (ps_identity_bytes x)" and ?m = "length (ps_ciphertext x)"
  have w: "length (ps_fingerprint x) = 32" "length (ps_nonce x) = 24" using wf by (simp_all add: sealed_wf_def)
  have len: "length ?b = 71 + ?n + ?m" "length ?b \<le> usize_max"
    using w l by (simp_all add: keyfile_bytes_def u32_max_def usize_max_def)
  have f: "holds_at ?b 0 SEALED_DEVICE_KEY_FILE_MAGIC" "holds_at ?b 6 [1]" "holds_at ?b 7 (u32_le (of_nat ?n))"
    "holds_at ?b 11 (ps_identity_bytes x)" "holds_at ?b (11 + ?n) (ps_fingerprint x)"
    "holds_at ?b (43 + ?n) (ps_nonce x)" "holds_at ?b (67 + ?n) (u32_le (of_nat ?m))"
    "holds_at ?b (71 + ?n) (ps_ciphertext x)"
    using holds_at_self [of ?b] w unfolding keyfile_bytes_def [of x] holds_at_append by (simp_all add: ac_simps)
  have r: "bp_take InvalidFileFormat ?b 0 6 = Inr (SEALED_DEVICE_KEY_FILE_MAGIC, 6)"
    "bp_take_u8 InvalidFileFormat ?b 6 = Inr (1, 7)" "bp_take_u32_le InvalidFileFormat ?b 7 = Inr (of_nat ?n, 11)"
    "bp_take InvalidFileFormat ?b 11 ?n = Inr (ps_identity_bytes x, 11 + ?n)"
    "bp_take_array InvalidFileFormat 32 ?b (11 + ?n) = Inr (ps_fingerprint x, 43 + ?n)"
    "bp_take_array InvalidFileFormat 24 ?b (43 + ?n) = Inr (ps_nonce x, 67 + ?n)"
    "bp_take_u32_le InvalidFileFormat ?b (67 + ?n) = Inr (of_nat ?m, 71 + ?n)"
    "bp_take InvalidFileFormat ?b (71 + ?n) ?m = Inr (ps_ciphertext x, 71 + ?n + ?m)"
    using f w len by (simp_all add: bp_Inr)
  show ?thesis unfolding parse_sealed_device_key_file_def using l by (simp add: r len(1))
qed

interpretation keyfile_fmt: canonical_codec serialize_parsed_keyfile parse_sealed_device_key_file sealed_wf
proof
  fix x bs assume "sealed_wf x" "serialize_parsed_keyfile x = Inr bs"
  then show "parse_sealed_device_key_file bs = Inr x" using parse_keyfile_complete by (simp add: serialize_keyfile_Inr)
next
  fix bs x assume "parse_sealed_device_key_file bs = Inr x"
  then show "sealed_wf x \<and> serialize_parsed_keyfile x = Inr bs"
    using parse_keyfile_sound [of bs x] by (simp add: serialize_keyfile_Inr)
qed

subsection \<open>Sealing and opening\<close>

text \<open>The keys of an identity: what \<open>generate\<close> returns satisfies it.\<close>

definition owns :: "pqc_prims \<Rightarrow> DeviceIdentity \<Rightarrow> DeviceKeypair \<Rightarrow> bool" where
  "owns Q d kp \<longleftrightarrow> length (dk_classical_private_key kp) = 32 \<and> length (dk_pqc_private_key kp) = 2400 \<and>
     di_classical_public_key d = x25519_public Q (dk_classical_private_key kp) \<and>
     (\<exists>spk. di_signing_public_key d = Some spk \<and> ed25519_pair Q spk (dk_signing_private_key kp))"

definition blake_sized :: "prims \<Rightarrow> bool" where
  "blake_sized P \<longleftrightarrow> (\<forall>x. length (blake2b_256_digest P x) = 32)"

lemma validate_signing_ok:
  assumes "sig_correct Q" "ed25519_pair Q pk sk"
  shows "validate_signing_key_matches_public Q sk pk = Inr ()"
proof -
  let ?m = "bytes_of ''meissnerseal.device.keyfile.check.v1''"
  obtain s where s: "sign_with_domain Q sk DEVICE_ENROLLMENT_SIGNING_DOMAIN ?m = Inr s"
    using assms(2) by (simp add: sign_with_domain_def sign_ok)
  then show ?thesis
    using verify_signed [OF assms s] by (simp add: validate_signing_key_matches_public_def Let_def)
qed

lemma rebuild_owned:
  assumes "sig_correct Q" "owns Q d kp"
  shows "rebuild_identity_from_keypair Q d kp = Inr d"
proof -
  obtain spk where s: "di_signing_public_key d = Some spk" "ed25519_pair Q spk (dk_signing_private_key kp)"
    and c: "x25519_public Q (dk_classical_private_key kp) = di_classical_public_key d"
    using assms(2) unfolding owns_def by metis
  show ?thesis
    using validate_signing_ok [OF assms(1) s(2)]
    by (cases d) (use s(1) c in \<open>simp add: rebuild_identity_from_keypair_def Let_def x25519_public_from_private_def\<close>)
qed

lemma open_sealed:
  assumes P: "aead_correct P" "blake_sized P" and Q: "sig_correct Q" and wf: "identity_wf d" and own: "owns Q d kp"
    and k: "length dkek = 32" and r: "seal_keyfile P d kp dkek w = (Inr bs, w')"
  shows "open_keyfile P Q bs dkek = Inr (d, kp)"
proof -
  let ?fp = "identity_fingerprint P d"
  obtain ib aad ct n where ib: "serialize_identity_bytes d = Inr ib" and aad: "sealed_device_key_file_aad ib ?fp = Inr aad"
    and e: "n = next_random w 24" "xchacha_seal P dkek n aad (serialize_keypair_bytes d kp) = Some ct"
    and s: "serialize_sealed_device_key_file ib ?fp n ct = Inr bs"
    using r by (auto simp: seal_keyfile_def Let_def bind_act_eq_Inr encrypt_Inr)
  have fp: "length ?fp = 32" using P(2) by (simp add: blake_sized_def identity_fingerprint_def)
  have parsed: "parse_sealed_device_key_file bs =
      Inr \<lparr>ps_identity_bytes = ib, ps_fingerprint = ?fp, ps_nonce = n, ps_ciphertext = ct\<rparr>"
    by (rule keyfile_fmt.par_ser) (use fp e(1) s in \<open>simp_all add: sealed_wf_def serialize_parsed_keyfile_def\<close>)
  have "decrypt P dkek n ct aad = Inr (serialize_keypair_bytes d kp)"
    by (rule decrypt_sealed [OF P(1) k _ e(2)]) (simp add: e(1))
  moreover have "deserialize_identity_bytes ib = Inr d" by (rule identity_fmt.par_ser [OF wf ib])
  moreover have "keypair_wf Q (di_device_id d, di_classical_public_key d, kp)"
    using own wf by (auto simp: keypair_wf_def owns_def ed25519_pair_def identity_wf_def u32_max_def)
  then have "deserialize_keypair_bytes Q (serialize_keypair_bytes d kp) = Inr (di_device_id d, di_classical_public_key d, kp)"
    unfolding serialize_keypair_form by (rule deserialize_keypair_complete)
  ultimately show ?thesis
    using parsed aad rebuild_owned [OF Q own] by (simp add: open_keyfile_def)
qed

lemma open_keyfile_sound:
  assumes P: "aead_tight P" and k: "length dkek = 32" and o: "open_keyfile P Q bs dkek = Inr (d, kp)"
  shows "\<exists>aad n ct. identity_wf d \<and> keypair_wf Q (di_device_id d, di_classical_public_key d, kp) \<and>
    (\<exists>spk. di_signing_public_key d = Some spk \<and> validate_signing_key_matches_public Q (dk_signing_private_key kp) spk = ok ()) \<and>
    sealed_device_key_file_aad (identity_bytes d) (identity_fingerprint P d) = ok aad \<and>
    xchacha_seal P dkek n aad (serialize_keypair_bytes d kp) = Some ct \<and>
    serialize_sealed_device_key_file (identity_bytes d) (identity_fingerprint P d) n ct = ok bs"
proof -
  obtain x aad pt d0 where x: "parse_sealed_device_key_file bs = Inr x"
    and aad: "sealed_device_key_file_aad (ps_identity_bytes x) (ps_fingerprint x) = Inr aad"
    and pt: "decrypt P dkek (ps_nonce x) (ps_ciphertext x) aad = Inr pt"
    and d0: "deserialize_identity_bytes (ps_identity_bytes x) = Inr d0"
    and kp: "deserialize_keypair_bytes Q pt = Inr (di_device_id d0, di_classical_public_key d0, kp)"
    and rb: "rebuild_identity_from_keypair Q d0 kp = Inr d" and fp: "ps_fingerprint x = identity_fingerprint P d"
    using o by (auto simp: open_keyfile_def split: if_splits)
  note kw = deserialize_keypair_sound [OF kp]
  obtain spk where spk: "di_signing_public_key d0 = Some spk"
    "validate_signing_key_matches_public Q (dk_signing_private_key kp) spk = ok ()"
    and d: "d = d0\<lparr>di_classical_public_key := x25519_public Q (dk_classical_private_key kp)\<rparr>"
    using rb by (cases d0) (auto simp: rebuild_identity_from_keypair_def Let_def x25519_public_from_private_def)
  have dd: "d = d0" using d kw by (cases d0) (simp add: keypair_wf_def)
  have wf: "identity_wf d" "ps_identity_bytes x = identity_bytes d"
    using deserialize_identity_sound [OF d0] dd by simp_all
  note p = keyfile_fmt.ser_par [OF x]
  have "length (ps_nonce x) = 24" using p by (simp add: sealed_wf_def)
  then have "xchacha_seal P dkek (ps_nonce x) aad pt = Some (ps_ciphertext x)"
    using decrypt_tight [OF P k _ pt] by blast
  moreover have "pt = serialize_keypair_bytes d kp" using kw dd by (simp add: serialize_keypair_form)
  ultimately show ?thesis
    using wf kw dd spk aad p fp by (auto simp: serialize_parsed_keyfile_def)
qed

end
