(* ===== verification/Identity_Text.thy ===== *)
theory Identity_Text
  imports Device_Laws
begin

text \<open>
  src/crates/meissnerseal-core/src/keys/device.rs, the textual identity file: one \<open>key=value\<close> line
  per field behind a version line. What std does on the way is written out on bytes:
  \<open>str::lines\<close>, \<open>split_once\<close>, \<open>chunks(2)\<close>, \<open>u8::from_str_radix\<close> and \<open>str::parse::<u64>\<close>.
\<close>

subsection \<open>Standard library\<close>

text \<open>\<open>lines\<close>: split at newlines; a carriage return before the newline belongs to the line ending.\<close>

definition strip_cr :: "byte list \<Rightarrow> byte list" where
  "strip_cr l = (if l \<noteq> [] \<and> last l = 13 then butlast l else l)"

function text_lines :: "byte list \<Rightarrow> byte list list" where
  "text_lines bs =
     (if bs = [] then []
      else if 10 \<in> set bs
      then strip_cr (takeWhile (\<lambda>b. b \<noteq> 10) bs) # text_lines (tl (dropWhile (\<lambda>b. b \<noteq> 10) bs))
      else [bs])"
  by pat_completeness auto
termination
proof (relation "measure length")
  fix bs :: "byte list" assume "bs \<noteq> []" "10 \<in> set bs"
  have "length (dropWhile (\<lambda>b. b \<noteq> 10) bs) \<le> length bs" by (rule length_dropWhile_le)
  moreover have "0 < length bs" using \<open>bs \<noteq> []\<close> by simp
  ultimately show "(tl (dropWhile (\<lambda>b. b \<noteq> 10) bs), bs) \<in> measure length"
    by (simp del: length_greater_0_conv)
qed simp

declare text_lines.simps [simp del]

text \<open>\<open>split_once('=')\<close>\<close>

definition split_at_eq :: "byte list \<Rightarrow> (byte list \<times> byte list) option" where
  "split_at_eq line =
     (if 61 \<in> set line
      then Some (takeWhile (\<lambda>b. b \<noteq> 61) line, tl (dropWhile (\<lambda>b. b \<noteq> 61) line)) else None)"

text \<open>
  \<open>from_str_radix\<close> and \<open>parse\<close> of an unsigned type with maximum \<open>mx\<close>: not empty, an optional plus
  sign that is not alone, then digits, with an error on overflow.
\<close>

definition digit_val :: "byte \<Rightarrow> nat option" where
  "digit_val b =
     (if in_rng 48 57 b then Some (unat b - 48)
      else if in_rng 97 122 b then Some (unat b - 87)
      else if in_rng 65 90 b then Some (unat b - 55) else None)"

primrec parse_digits :: "nat \<Rightarrow> nat \<Rightarrow> nat \<Rightarrow> byte list \<Rightarrow> nat option" where
  "parse_digits radix mx acc [] = Some acc"
| "parse_digits radix mx acc (b # bs) =
     (case digit_val b of None \<Rightarrow> None
      | Some d \<Rightarrow>
          if radix \<le> d then None
          else if mx < acc * radix + d then None
          else parse_digits radix mx (acc * radix + d) bs)"

definition parse_uint :: "nat \<Rightarrow> nat \<Rightarrow> byte list \<Rightarrow> nat option" where
  "parse_uint radix mx s =
     (if s = [] \<or> s = [43] \<or> s = [45] then None
      else parse_digits radix mx 0 (if hd s = 43 then tl s else s))"

subsection \<open>Hexadecimal fields\<close>

definition hex_encode :: "byte list \<Rightarrow> byte list" where
  "hex_encode bs = bytes_of (hex_of bs)"

text \<open>The loop over \<open>chunks(2)\<close>.\<close>

fun hex_chunks :: "byte list \<Rightarrow> byte list dev" where
  "hex_chunks [] = ok []"
| "hex_chunks [a] =
     and_then (from_utf8 [a] InvalidFileFormat) (\<lambda>hex.
     and_then (ok_or (parse_uint 16 255 hex) InvalidFileFormat) (\<lambda>v. ok [of_nat v]))"
| "hex_chunks (a # b # rest) =
     and_then (from_utf8 [a, b] InvalidFileFormat) (\<lambda>hex.
     and_then (ok_or (parse_uint 16 255 hex) InvalidFileFormat) (\<lambda>v.
     and_then (hex_chunks rest) (\<lambda>out. ok (of_nat v # out))))"

definition hex_decode :: "byte list \<Rightarrow> byte list dev" where
  "hex_decode text = (if odd (length text) then err InvalidFileFormat else hex_chunks text)"

definition hex_array :: "nat \<Rightarrow> byte list \<Rightarrow> byte list dev" where
  "hex_array n text =
     and_then (hex_decode text) (\<lambda>bs. if length bs = n then ok bs else err InvalidFileFormat)"

subsection \<open>The identity file\<close>

definition dec_bytes :: "nat \<Rightarrow> byte list" where
  "dec_bytes n = bytes_of (dec_of n)"

definition serialize_identity_text :: "DeviceIdentity \<Rightarrow> byte list" where
  "serialize_identity_text d =
     (let signing_public_key = (case di_signing_public_key d of None \<Rightarrow> [] | Some spk \<Rightarrow> spk_bytes spk) in
      bytes_of ''ms-device-identity-v1'' @ [10] @
      bytes_of ''device_id='' @ hex_encode (di_device_id d) @ [10] @
      bytes_of ''display_name='' @ di_display_name d @ [10] @
      bytes_of ''classical_public_key='' @ hex_encode (di_classical_public_key d) @ [10] @
      bytes_of ''pqc_public_key='' @ hex_encode (di_pqc_public_key d) @ [10] @
      bytes_of ''signing_algorithm=Ed25519V1'' @ [10] @
      bytes_of ''signing_public_key='' @ hex_encode signing_public_key @ [10] @
      bytes_of ''created_at='' @ dec_bytes (unat (di_created_at d)) @ [10])"

record identity_fields =
  if_device_id :: "byte list option"
  if_display_name :: "byte list option"
  if_classical_public_key :: "byte list option"
  if_pqc_public_key :: "byte list option"
  if_signing_algorithm :: "SigningAlgorithmId option"
  if_signing_public_key :: "byte list option"
  if_created_at :: "u64 option"

definition no_fields :: identity_fields where
  "no_fields = \<lparr>if_device_id = None, if_display_name = None, if_classical_public_key = None,
     if_pqc_public_key = None, if_signing_algorithm = None, if_signing_public_key = None,
     if_created_at = None\<rparr>"

text \<open>One line of the file; the arms of the match in their order.\<close>

definition identity_line :: "identity_fields \<Rightarrow> byte list \<Rightarrow> identity_fields dev" where
  "identity_line f line =
     and_then (ok_or (split_at_eq line) InvalidFileFormat) (\<lambda>(key, v).
     if key = bytes_of ''device_id'' then
       and_then (hex_array 16 v) (\<lambda>x. ok (f\<lparr>if_device_id := Some x\<rparr>))
     else if key = bytes_of ''display_name'' \<and> 10 \<notin> set v then
       ok (f\<lparr>if_display_name := Some v\<rparr>)
     else if key = bytes_of ''classical_public_key'' then
       and_then (hex_array 32 v) (\<lambda>x. ok (f\<lparr>if_classical_public_key := Some x\<rparr>))
     else if key = bytes_of ''pqc_public_key'' then
       and_then (hex_array 1184 v) (\<lambda>x. ok (f\<lparr>if_pqc_public_key := Some x\<rparr>))
     else if key = bytes_of ''signing_algorithm'' \<and> v = bytes_of ''Ed25519V1'' then
       ok (f\<lparr>if_signing_algorithm := Some Ed25519V1\<rparr>)
     else if key = bytes_of ''signing_public_key'' then
       and_then (hex_decode v) (\<lambda>x. ok (f\<lparr>if_signing_public_key := Some x\<rparr>))
     else if key = bytes_of ''created_at'' then
       and_then (ok_or (parse_uint 10 usize_max v) InvalidFileFormat) (\<lambda>x.
       ok (f\<lparr>if_created_at := Some (of_nat x)\<rparr>))
     else err InvalidFileFormat)"

primrec identity_lines :: "identity_fields \<Rightarrow> byte list list \<Rightarrow> identity_fields dev" where
  "identity_lines f [] = ok f"
| "identity_lines f (l # ls) = and_then (identity_line f l) (\<lambda>f. identity_lines f ls)"

definition identity_of_fields :: "identity_fields \<Rightarrow> DeviceIdentity dev" where
  "identity_of_fields f =
     and_then (ok_or (if_signing_algorithm f) InvalidFileFormat) (\<lambda>algorithm.
     and_then (ok_or (if_signing_public_key f) InvalidFileFormat) (\<lambda>key_bytes.
     and_then (try_new_signing_public_key algorithm key_bytes) (\<lambda>signing_public_key.
     and_then (ok_or (if_device_id f) InvalidFileFormat) (\<lambda>device_id.
     and_then (ok_or (if_display_name f) InvalidFileFormat) (\<lambda>display_name.
     and_then (ok_or (if_classical_public_key f) InvalidFileFormat) (\<lambda>classical_public_key.
     and_then (ok_or (if_pqc_public_key f) InvalidFileFormat) (\<lambda>pqc_public_key.
     and_then (ok_or (if_created_at f) InvalidFileFormat) (\<lambda>created_at.
     let d = \<lparr>di_device_id = device_id, di_display_name = display_name,
              di_classical_public_key = classical_public_key, di_pqc_public_key = pqc_public_key,
              di_signing_public_key = Some signing_public_key, di_created_at = created_at,
              di_trust_state = Untrusted\<rparr> in
     and_then (identity_validate d) (\<lambda>_. ok d)))))))))"

definition deserialize_identity_text :: "byte list \<Rightarrow> DeviceIdentity dev" where
  "deserialize_identity_text text =
     (case text_lines text of
        [] \<Rightarrow> err InvalidFileFormat
      | first # rest \<Rightarrow>
          if first \<noteq> bytes_of ''ms-device-identity-v1'' then err InvalidFileFormat
          else and_then (identity_lines no_fields rest) identity_of_fields)"

subsection \<open>Lines\<close>

lemma text_lines_Nil [simp]: "text_lines [] = []"
  by (simp add: text_lines.simps)

lemma text_lines_line:
  assumes "10 \<notin> set l"
  shows "text_lines (l @ [10] @ rest) = strip_cr l # text_lines rest"
proof -
  have "takeWhile (\<lambda>b. b \<noteq> 10) (l @ 10 # rest) = l" "dropWhile (\<lambda>b. b \<noteq> 10) (l @ 10 # rest) = 10 # rest"
    using assms by (auto simp: takeWhile_append dropWhile_append)
  then show ?thesis using text_lines.simps [of "l @ 10 # rest"] by simp
qed

lemma split_at_eq_line: "61 \<notin> set k \<Longrightarrow> split_at_eq (k @ 61 # v) = Some (k, v)"
  by (simp add: split_at_eq_def takeWhile_append dropWhile_append)

subsection \<open>Digits\<close>

lemma hex_digit_lower: "n < 16 \<Longrightarrow> digit_val (of_char (hex_digit n)) = Some n"
proof -
  have "\<forall>n \<in> set [0..<16]. digit_val (of_char (hex_digit n)) = Some n" by code_simp
  then show "n < 16 \<Longrightarrow> digit_val (of_char (hex_digit n)) = Some n" by simp
qed

lemma dec_digit_lower: "n < 10 \<Longrightarrow> digit_val (of_char (''0123456789'' ! n)) = Some n"
proof -
  have "\<forall>n \<in> set [0..<10]. digit_val (of_char (''0123456789'' ! n)) = Some n" by code_simp
  then show "n < 10 \<Longrightarrow> digit_val (of_char (''0123456789'' ! n)) = Some n" by simp
qed

lemma digit_not_sign: "digit_val b = Some n \<Longrightarrow> b \<noteq> 43 \<and> b \<noteq> 45 \<and> b \<noteq> 10 \<and> b \<noteq> 13 \<and> unat b < 128"
  by (auto simp: digit_val_def in_rng_def split: if_splits)

lemma parse_digits_append:
  "parse_digits r mx acc (xs @ ys) = (case parse_digits r mx acc xs of None \<Rightarrow> None | Some a \<Rightarrow> parse_digits r mx a ys)"
  by (induction xs arbitrary: acc) (auto split: option.splits)

text \<open>A hex pair written by \<open>hex_byte\<close> is read back.\<close>

lemma hex_pair: "parse_uint 16 255 (bytes_of (hex_byte b)) = Some (unat b)"
  and hex_pair_ascii: "list_all (\<lambda>x. unat x < 128) (bytes_of (hex_byte b))"
proof -
  let ?h = "unat b div 16" and ?l = "unat b mod 16"
  have h: "?h < 16" "?l < 16" using unat_byte_lt [of b] by auto
  have d: "digit_val (of_char (hex_digit ?h)) = Some ?h" "digit_val (of_char (hex_digit ?l)) = Some ?l"
    using h hex_digit_lower by blast+
  note ns = digit_not_sign [OF d(1)] digit_not_sign [OF d(2)]
  have "?h * 16 + ?l = unat b" "unat b \<le> 255" "?h \<le> 255" using unat_byte_lt [of b] by auto
  then show "parse_uint 16 255 (bytes_of (hex_byte b)) = Some (unat b)"
    using h d ns by (simp add: parse_uint_def hex_byte_def bytes_of_def)
  show "list_all (\<lambda>x. unat x < 128) (bytes_of (hex_byte b))"
    using ns by (simp add: hex_byte_def bytes_of_def)
qed

lemma hex_encode_Cons: "hex_encode (b # bs) = bytes_of (hex_byte b) @ hex_encode bs"
  by (simp add: hex_encode_def hex_of_def bytes_of_def)

lemma hex_encode_Nil [simp]: "hex_encode [] = []"
  by (simp add: hex_encode_def hex_of_def bytes_of_def)

lemma length_hex_encode [simp]: "length (hex_encode bs) = 2 * length bs"
  by (simp add: hex_encode_def)

lemma hex_chunks_encode: "hex_chunks (hex_encode bs) = Inr bs"
proof (induction bs)
  case Nil
  then show ?case by simp
next
  case (Cons b bs)
  obtain x y where xy: "bytes_of (hex_byte b) = [x, y]" by (simp add: hex_byte_def bytes_of_def)
  have "utf8_valid [x, y]" using hex_pair_ascii [of b] by (intro utf8_valid_ascii) (simp add: xy)
  then show ?case using Cons hex_pair [of b] by (simp add: hex_encode_Cons xy from_utf8_def)
qed

lemma hex_decode_encode [simp]: "hex_decode (hex_encode bs) = Inr bs"
  by (simp add: hex_decode_def hex_chunks_encode)

lemma hex_array_encode: "length bs = n \<Longrightarrow> hex_array n (hex_encode bs) = Inr bs"
  by (simp add: hex_array_def)

lemma hex_encode_plain: "x \<in> set (hex_encode bs) \<Longrightarrow> x \<noteq> 10 \<and> x \<noteq> 13"
proof (induction bs)
  case Nil
  then show ?case by simp
next
  case (Cons b bs)
  have h: "unat b div 16 < 16" "unat b mod 16 < 16" using unat_byte_lt [of b] by auto
  show ?case using Cons digit_not_sign [OF hex_digit_lower [OF h(1)]] digit_not_sign [OF hex_digit_lower [OF h(2)]]
    by (auto simp: hex_encode_Cons hex_byte_def bytes_of_def)
qed

text \<open>Decimal numbers.\<close>

lemma dec_bytes_step: "dec_bytes n = (if n < 10 then [of_char (''0123456789'' ! n)]
    else dec_bytes (n div 10) @ [of_char (''0123456789'' ! (n mod 10))])"
  unfolding dec_bytes_def by (subst dec_of.simps) (simp add: bytes_of_def)

lemma parse_dec_digits: "n \<le> mx \<Longrightarrow> parse_digits 10 mx 0 (dec_bytes n) = Some n"
proof (induction n rule: less_induct)
  case (less n)
  have d: "digit_val (of_char (''0123456789'' ! (n mod 10))) = Some (n mod 10)" by (rule dec_digit_lower) simp
  show ?case
  proof (cases "n < 10")
    case True
    then show ?thesis using d less.prems by (subst dec_bytes_step) simp
  next
    case False
    then have "parse_digits 10 mx 0 (dec_bytes (n div 10)) = Some (n div 10)" using less by simp
    moreover have "n div 10 * 10 + n mod 10 = n" by simp
    ultimately show ?thesis using False d less.prems by (subst dec_bytes_step) (simp add: parse_digits_append)
  qed
qed

lemma dec_bytes_digits: "x \<in> set (dec_bytes n) \<Longrightarrow> \<exists>v. digit_val x = Some v"
proof (induction n rule: less_induct)
  case (less n)
  show ?case
  proof (cases "n < 10")
    case True
    then show ?thesis using less.prems dec_digit_lower [of n] by (subst (asm) dec_bytes_step) auto
  next
    case False
    then show ?thesis
      using less.prems less.IH [of "n div 10"] dec_digit_lower [of "n mod 10"] by (subst (asm) dec_bytes_step) auto
  qed
qed

lemma dec_bytes_not_Nil [simp]: "dec_bytes n \<noteq> []"
  by (simp add: dec_bytes_def bytes_of_def)

lemma parse_dec: "n \<le> mx \<Longrightarrow> parse_uint 10 mx (dec_bytes n) = Some n"
proof -
  assume n: "n \<le> mx"
  obtain x xs where x: "dec_bytes n = x # xs" by (cases "dec_bytes n") auto
  have "x \<noteq> 43" "x \<noteq> 45" using dec_bytes_digits [of x n] digit_not_sign by (fastforce simp: x)+
  then show ?thesis using parse_dec_digits [OF n] by (simp add: parse_uint_def x)
qed

subsection \<open>Round trip\<close>

text \<open>The lines of a text identity, for any display name without a line break.\<close>

definition id_line :: "string \<Rightarrow> byte list \<Rightarrow> byte list" where
  "id_line k v = bytes_of k @ 61 # v"

lemma strip_cr_id: "v = [] \<or> last v \<noteq> 13 \<Longrightarrow> strip_cr (id_line k v) = id_line k v"
  by (auto simp: strip_cr_def id_line_def)

lemma text_lines_id:
  "10 \<notin> set (bytes_of k) \<Longrightarrow> 10 \<notin> set v \<Longrightarrow> v = [] \<or> last v \<noteq> 13 \<Longrightarrow>
    text_lines (id_line k v @ [10] @ rest) = id_line k v # text_lines rest"
  using text_lines_line [of "id_line k v" rest] by (simp add: strip_cr_id) (simp add: id_line_def)

lemma hex_no_breaks: "10 \<notin> set (hex_encode bs)" "hex_encode bs = [] \<or> last (hex_encode bs) \<noteq> 13"
  using hex_encode_plain last_in_set by blast+

lemma dec_no_breaks: "10 \<notin> set (dec_bytes n)" "last (dec_bytes n) \<noteq> 13"
  using dec_bytes_digits digit_not_sign last_in_set [OF dec_bytes_not_Nil] by blast+

lemma bytes_of_key: "bytes_of (k @ ''='') = bytes_of k @ [61]"
  by (simp add: bytes_of_def)

lemma id_line_key: "bytes_of (k @ ''='') @ v = id_line k v"
  by (simp add: bytes_of_key id_line_def)

definition key_bytes_of :: "DeviceIdentity \<Rightarrow> byte list" where
  "key_bytes_of d = (case di_signing_public_key d of None \<Rightarrow> [] | Some spk \<Rightarrow> spk_bytes spk)"

lemma text_as_lines:
  "serialize_identity_text d = bytes_of ''ms-device-identity-v1'' @ [10] @
     id_line ''device_id'' (hex_encode (di_device_id d)) @ [10] @
     id_line ''display_name'' (di_display_name d) @ [10] @
     id_line ''classical_public_key'' (hex_encode (di_classical_public_key d)) @ [10] @
     id_line ''pqc_public_key'' (hex_encode (di_pqc_public_key d)) @ [10] @
     id_line ''signing_algorithm'' (bytes_of ''Ed25519V1'') @ [10] @
     id_line ''signing_public_key'' (hex_encode (key_bytes_of d)) @ [10] @
     id_line ''created_at'' (dec_bytes (unat (di_created_at d))) @ [10]"
proof -
  have k: "bytes_of ''device_id='' = bytes_of ''device_id'' @ [61]" "bytes_of ''display_name='' = bytes_of ''display_name'' @ [61]"
    "bytes_of ''classical_public_key='' = bytes_of ''classical_public_key'' @ [61]"
    "bytes_of ''pqc_public_key='' = bytes_of ''pqc_public_key'' @ [61]"
    "bytes_of ''signing_public_key='' = bytes_of ''signing_public_key'' @ [61]"
    "bytes_of ''created_at='' = bytes_of ''created_at'' @ [61]"
    "bytes_of ''signing_algorithm=Ed25519V1'' = bytes_of ''signing_algorithm'' @ [61] @ bytes_of ''Ed25519V1''"
    by code_simp+
  show ?thesis
    unfolding serialize_identity_text_def Let_def k key_bytes_of_def [symmetric] id_line_def by simp
qed

text \<open>What one line does to the fields.\<close>

lemma keys_plain: "61 \<notin> set (bytes_of ''device_id'')" "61 \<notin> set (bytes_of ''display_name'')"
  "61 \<notin> set (bytes_of ''classical_public_key'')" "61 \<notin> set (bytes_of ''pqc_public_key'')"
  "61 \<notin> set (bytes_of ''signing_algorithm'')" "61 \<notin> set (bytes_of ''signing_public_key'')"
  "61 \<notin> set (bytes_of ''created_at'')"
  "10 \<notin> set (bytes_of ''device_id'')" "10 \<notin> set (bytes_of ''display_name'')"
  "10 \<notin> set (bytes_of ''classical_public_key'')" "10 \<notin> set (bytes_of ''pqc_public_key'')"
  "10 \<notin> set (bytes_of ''signing_algorithm'')" "10 \<notin> set (bytes_of ''signing_public_key'')"
  "10 \<notin> set (bytes_of ''created_at'')" "10 \<notin> set (bytes_of ''ms-device-identity-v1'')"
  "10 \<notin> set (bytes_of ''Ed25519V1'')" "last (bytes_of ''Ed25519V1'') \<noteq> 13"
  "strip_cr (bytes_of ''ms-device-identity-v1'') = bytes_of ''ms-device-identity-v1''"
  by code_simp+

lemma keys_differ: "distinct [bytes_of ''device_id'', bytes_of ''display_name'', bytes_of ''classical_public_key'',
    bytes_of ''pqc_public_key'', bytes_of ''signing_algorithm'', bytes_of ''signing_public_key'', bytes_of ''created_at'']"
  "distinct [bytes_of ''created_at'', bytes_of ''signing_public_key'', bytes_of ''signing_algorithm'',
    bytes_of ''pqc_public_key'', bytes_of ''classical_public_key'', bytes_of ''display_name'', bytes_of ''device_id'']"
  by code_simp+

lemmas keys_ne = keys_differ [simplified]

lemma identity_line_fields:
  "length x = 16 \<Longrightarrow> identity_line f (id_line ''device_id'' (hex_encode x)) = ok (f\<lparr>if_device_id := Some x\<rparr>)"
  "10 \<notin> set n \<Longrightarrow> identity_line f (id_line ''display_name'' n) = ok (f\<lparr>if_display_name := Some n\<rparr>)"
  "length y = 32 \<Longrightarrow> identity_line f (id_line ''classical_public_key'' (hex_encode y)) =
     ok (f\<lparr>if_classical_public_key := Some y\<rparr>)"
  "length z = 1184 \<Longrightarrow> identity_line f (id_line ''pqc_public_key'' (hex_encode z)) = ok (f\<lparr>if_pqc_public_key := Some z\<rparr>)"
  "identity_line f (id_line ''signing_algorithm'' (bytes_of ''Ed25519V1'')) = ok (f\<lparr>if_signing_algorithm := Some Ed25519V1\<rparr>)"
  "identity_line f (id_line ''signing_public_key'' (hex_encode u)) = ok (f\<lparr>if_signing_public_key := Some u\<rparr>)"
  "identity_line f (id_line ''created_at'' (dec_bytes (unat (t :: u64)))) = ok (f\<lparr>if_created_at := Some t\<rparr>)"
  unfolding identity_line_def id_line_def
  by (simp_all add: split_at_eq_line keys_plain hex_array_encode keys_ne parse_dec unat_u64_bound)

definition text_ok :: "DeviceIdentity \<Rightarrow> bool" where
  "text_ok d \<longleftrightarrow> length (di_device_id d) = 16 \<and> length (di_classical_public_key d) = 32 \<and>
     length (di_pqc_public_key d) = 1184 \<and>
     (\<exists>spk. di_signing_public_key d = Some spk \<and> spk_algorithm spk = Ed25519V1 \<and> length (spk_bytes spk) = 32)"

text \<open>The fields that follow the display name.\<close>

definition rest_lines :: "DeviceIdentity \<Rightarrow> byte list list" where
  "rest_lines d = [id_line ''classical_public_key'' (hex_encode (di_classical_public_key d)),
     id_line ''pqc_public_key'' (hex_encode (di_pqc_public_key d)),
     id_line ''signing_algorithm'' (bytes_of ''Ed25519V1''),
     id_line ''signing_public_key'' (hex_encode (key_bytes_of d)),
     id_line ''created_at'' (dec_bytes (unat (di_created_at d)))]"

definition after_name :: "DeviceIdentity \<Rightarrow> byte list" where
  "after_name d = id_line ''classical_public_key'' (hex_encode (di_classical_public_key d)) @ [10] @
     id_line ''pqc_public_key'' (hex_encode (di_pqc_public_key d)) @ [10] @
     id_line ''signing_algorithm'' (bytes_of ''Ed25519V1'') @ [10] @
     id_line ''signing_public_key'' (hex_encode (key_bytes_of d)) @ [10] @
     id_line ''created_at'' (dec_bytes (unat (di_created_at d))) @ [10]"

lemma lines_after_name: "text_lines (after_name d) = rest_lines d"
proof -
  have "text_lines (id_line ''created_at'' (dec_bytes (unat (di_created_at d))) @ [10]) =
      [id_line ''created_at'' (dec_bytes (unat (di_created_at d)))]"
    using text_lines_id [of "''created_at''" _ "[]"] keys_plain dec_no_breaks by simp
  then show ?thesis
    unfolding after_name_def rest_lines_def
    by (simp only: text_lines_id keys_plain hex_no_breaks not_False_eq_True simp_thms)
qed

lemma identity_from_lines:
  assumes ok: "text_ok d" and i: "length i = 16" and n: "n \<noteq> []"
  shows "and_then (identity_lines \<lparr>if_device_id = Some i, if_display_name = Some n, if_classical_public_key = None,
      if_pqc_public_key = None, if_signing_algorithm = None, if_signing_public_key = None, if_created_at = None\<rparr>
      (rest_lines d)) identity_of_fields =
    ok (d\<lparr>di_device_id := i, di_display_name := n, di_trust_state := Untrusted\<rparr>)"
proof -
  obtain spk where k: "di_signing_public_key d = Some spk" "spk_algorithm spk = Ed25519V1" "length (spk_bytes spk) = 32"
    and w: "length (di_classical_public_key d) = 32" "length (di_pqc_public_key d) = 1184"
    using ok unfolding text_ok_def by blast
  have "\<lparr>spk_algorithm = Ed25519V1, spk_bytes = spk_bytes spk\<rparr> = spk" using k(2) by (cases spk) simp
  then have t: "try_new_signing_public_key Ed25519V1 (spk_bytes spk) = Inr spk" using k(3) by (simp add: try_new_Inr)
  show ?thesis
    using w k(1) t n
    by (cases d) (simp add: rest_lines_def identity_line_fields key_bytes_of_def identity_of_fields_def Let_def
        identity_validate_def requires_signing_key_def)
qed

lemma text_of_named:
  assumes "10 \<notin> set n" "last n \<noteq> 13"
  shows "text_lines (id_line ''display_name'' n @ [10] @ rest) = id_line ''display_name'' n # text_lines rest"
  using assms keys_plain by (simp only: text_lines_id not_False_eq_True simp_thms)

lemma text_split: "serialize_identity_text d = bytes_of ''ms-device-identity-v1'' @ [10] @
    id_line ''device_id'' (hex_encode (di_device_id d)) @ [10] @
    id_line ''display_name'' (di_display_name d) @ [10] @ after_name d"
  unfolding text_as_lines after_name_def by simp

lemma text_lines_head: "text_lines (bytes_of ''ms-device-identity-v1'' @ [10] @
      id_line ''device_id'' (hex_encode i) @ [10] @ rest) =
    bytes_of ''ms-device-identity-v1'' # id_line ''device_id'' (hex_encode i) # text_lines rest"
  by (simp only: text_lines_line text_lines_id keys_plain hex_no_breaks not_False_eq_True simp_thms)

lemma text_lines_identity:
  assumes "10 \<notin> set (di_display_name d)" "last (di_display_name d) \<noteq> 13"
  shows "text_lines (serialize_identity_text d) = bytes_of ''ms-device-identity-v1'' #
    id_line ''device_id'' (hex_encode (di_device_id d)) # id_line ''display_name'' (di_display_name d) # rest_lines d"
  unfolding text_split text_lines_head by (simp add: text_of_named [OF assms] lines_after_name del: append_Cons)

lemma identity_text_reads:
  assumes "text_ok d" "di_display_name d \<noteq> []" "10 \<notin> set (di_display_name d)" "last (di_display_name d) \<noteq> 13"
  shows "deserialize_identity_text (serialize_identity_text d) = ok (d\<lparr>di_trust_state := Untrusted\<rparr>)"
proof -
  have l: "length (di_device_id d) = 16" using assms(1) by (simp add: text_ok_def)
  show ?thesis
    unfolding deserialize_identity_text_def text_lines_identity [OF assms(3,4)]
    using l assms identity_from_lines [OF assms(1) l assms(2)]
    by (simp add: identity_line_fields no_fields_def)
qed

subsection \<open>Generated identities\<close>

lemma generate_spec:
  assumes Q: "sig_correct Q" "dh_correct Q" "kem_correct Q" and u: "utf8_valid name" "length name \<le> u32_max"
    and r: "generate Q name w = (Inr (d, kp), w')"
  shows "identity_wf d \<and> owns Q d kp \<and> text_ok d \<and> mlkem_pair Q (di_pqc_public_key d) (dk_pqc_private_key kp) \<and>
    di_display_name d = name \<and> di_device_id d = next_random w 16 \<and> di_trust_state d = Untrusted"
proof -
  define cs where "cs = next_random (w\<lparr>drawn := drawn w + 16\<rparr>) 32"
  define ms where "ms = next_random (w\<lparr>drawn := 48 + drawn w\<rparr>) 64"
  define ss where "ss = next_random (w\<lparr>drawn := 112 + drawn w\<rparr>) 32"
  obtain pk sk where g: "mlkem_generate Q ms = (pk, sk)" by fastforce
  have l: "length pk = 1184" "length sk = 2400"
    using kem_correctD [OF Q(3) _ _ g, of "zeros 32"] by (simp_all add: ms_def)
  have n: "name \<noteq> []" using r by (auto simp: generate_def)
  have "\<exists>t. d = \<lparr>di_device_id = next_random w 16, di_display_name = name, di_classical_public_key = x25519_public Q cs,
      di_pqc_public_key = pk, di_signing_public_key = Some \<lparr>spk_algorithm = Ed25519V1, spk_bytes = ed25519_public Q ss\<rparr>,
      di_created_at = t, di_trust_state = Untrusted\<rparr> \<and>
    kp = \<lparr>dk_classical_private_key = cs, dk_pqc_private_key = sk,
      dk_signing_private_key = \<lparr>ssk_algorithm = Ed25519V1, ssk_bytes = ss\<rparr>\<rparr>"
    using r n g l
    by (auto simp: generate_def bind_act_eq_Inr random_bytes_def x25519_keypair_def random_key_def mlkem_keypair_def
        key_from_slice_def ed25519_keypair_def cs_def [symmetric] ms_def [symmetric] ss_def [symmetric]
        split: prod.splits if_splits)
  then obtain t where d: "d = \<lparr>di_device_id = next_random w 16, di_display_name = name, di_classical_public_key = x25519_public Q cs,
      di_pqc_public_key = pk, di_signing_public_key = Some \<lparr>spk_algorithm = Ed25519V1, spk_bytes = ed25519_public Q ss\<rparr>,
      di_created_at = t, di_trust_state = Untrusted\<rparr>"
    and kp: "kp = \<lparr>dk_classical_private_key = cs, dk_pqc_private_key = sk,
      dk_signing_private_key = \<lparr>ssk_algorithm = Ed25519V1, ssk_bytes = ss\<rparr>\<rparr>" by blast
  have s: "length cs = 32" "length ms = 64" "length ss = 32" by (simp_all add: cs_def ms_def ss_def)
  then show ?thesis
    using l n u Q(2) sig_correctD [OF Q(1) s(3)] g
    by (auto simp: d kp identity_wf_def owns_def text_ok_def signing_key_ok_def identity_validate_def
        requires_signing_key_def ed25519_pair_def mlkem_pair_def)
qed

lemma sample_generated:
  "\<exists>d kp w'. generate toy_pqc [97] sample_world = (Inr (d, kp), w')"
  by (simp add: generate_def bind_act_def random_bytes_def x25519_keypair_def random_key_def mlkem_keypair_def
      key_from_slice_def ed25519_keypair_def dev_unix_time_millis_def map_err_act_def toy_pqc_def sample_world_def
      usize_max_def to_u64_def)

lemma toy_blake: "blake_sized toy_prims"
  by (simp add: blake_sized_def toy_prims_def min_def del: take_append)

lemma sample_utf8: "utf8_valid [97]" "length [97 :: byte] \<le> u32_max"
  by (simp_all add: in_rng_def u32_max_def)

lemma seal_ok:
  assumes P: "aead_correct P" "aead_total P" and wf: "identity_wf d" and own: "owns Q d kp" and k: "length dkek = 32"
    and fp: "blake_sized P" and n: "length (di_display_name d) \<le> 65536"
  shows "\<exists>bs w'. seal_keyfile P d kp dkek w = (Inr bs, w')"
proof -
  have key: "\<exists>spk. di_signing_public_key d = Some spk \<and> length (spk_bytes spk) = 32"
    using own wf by (auto simp: owns_def identity_wf_def signing_key_ok_def)
  then have ib: "serialize_identity_bytes d = Inr (identity_bytes d)" "length (identity_bytes d) \<le> 70000"
    using wf n by (auto simp: serialize_identity_Inr identity_wf_def u32_max_def identity_bytes_def key_section_def)
  then obtain aad where aad: "sealed_device_key_file_aad (identity_bytes d) (identity_fingerprint P d) = Inr aad"
    by (auto simp: sealed_device_key_file_aad_def u32_max_def)
  have "length (serialize_keypair_bytes d kp) \<le> 3000"
    using own wf by (auto simp: serialize_keypair_bytes_def owns_def ed25519_pair_def identity_wf_def)
  moreover from this obtain ct where ct: "xchacha_seal P dkek (next_random w 24) aad (serialize_keypair_bytes d kp) = Some ct"
    using aead_totalD [OF P(2) k, of "next_random w 24" "serialize_keypair_bytes d kp" aad] by auto
  ultimately have "length ct \<le> u32_max" using aead_correctD [OF P(1) k _ ct] by (simp add: u32_max_def)
  then obtain bs where "serialize_sealed_device_key_file (identity_bytes d) (identity_fingerprint P d) (next_random w 24) ct = Inr bs"
    using ib(2) by (auto simp: serialize_sealed_device_key_file_def u32_max_def)
  then show ?thesis
    by (simp add: seal_keyfile_def Let_def bind_act_def ib(1) aad encrypt_apply ct map_err_act_def)
qed

subsection \<open>Properties\<close>

text \<open>A sealed key file gives the keys back: whatever \<open>seal\<close> writes for a well-formed identity
  and the key pair it belongs to (every generated pair is one) opens under the same key to exactly that
  identity and key pair.\<close>

theorem keyfile_roundtrip:
  assumes "aead_correct P" "blake_sized P" "sig_correct Q" "identity_wf d" "owns Q d kp" "length dkek = 32"
    and "seal_keyfile P d kp dkek w = (Inr bs, w')"
  shows "open_keyfile P Q bs dkek = Inr (d, kp)"
  by (rule open_sealed [OF assms])

theorem keyfile_roundtrip_witness:
  "\<exists>d kp bs. identity_wf d \<and> owns toy_pqc d kp \<and> open_keyfile toy_prims toy_pqc bs (zeros 32) = Inr (d, kp)"
proof -
  obtain d kp w' where g: "generate toy_pqc [97] sample_world = (Inr (d, kp), w')"
    using sample_generated by blast
  note s = generate_spec [OF toy_pqc_correct sample_utf8 g]
  then obtain bs w'' where b: "seal_keyfile toy_prims d kp (zeros 32) w' = (Inr bs, w'')"
    using seal_ok [OF toy_prims_aead(1,3) _ _ _ toy_blake, of d toy_pqc kp "zeros 32" w'] by auto
  show ?thesis
    using keyfile_roundtrip [OF toy_prims_aead(1) toy_blake toy_pqc_correct(1) _ _ _ b] s by auto
qed

text \<open>C26. Only consistent key files open: an identity and keys are returned only if the file is the
  canonical framing of the seal of exactly these keys under this identity and its fingerprint, the
  identity is well formed, the X25519 public key is that of the private key and the signing key pair
  passes a signature check.\<close>

theorem keyfile_open_sound:
  assumes "aead_tight P" "length dkek = 32" "open_keyfile P Q bs dkek = Inr (d, kp)"
  shows "identity_wf d \<and> di_classical_public_key d = x25519_public Q (dk_classical_private_key kp) \<and>
    (\<exists>spk. di_signing_public_key d = Some spk \<and>
      validate_signing_key_matches_public Q (dk_signing_private_key kp) spk = ok ()) \<and>
    (\<exists>ib aad n ct. serialize_identity_bytes d = ok ib \<and>
      sealed_device_key_file_aad ib (identity_fingerprint P d) = ok aad \<and>
      xchacha_seal P dkek n aad (serialize_keypair_bytes d kp) = Some ct \<and>
      serialize_sealed_device_key_file ib (identity_fingerprint P d) n ct = ok bs)"
proof -
  obtain aad n ct where s: "identity_wf d" "keypair_wf Q (di_device_id d, di_classical_public_key d, kp)"
    "\<exists>spk. di_signing_public_key d = Some spk \<and> validate_signing_key_matches_public Q (dk_signing_private_key kp) spk = ok ()"
    "sealed_device_key_file_aad (identity_bytes d) (identity_fingerprint P d) = ok aad"
    "xchacha_seal P dkek n aad (serialize_keypair_bytes d kp) = Some ct"
    "serialize_sealed_device_key_file (identity_bytes d) (identity_fingerprint P d) n ct = ok bs"
    using open_keyfile_sound [OF assms] by blast
  have "serialize_identity_bytes d = ok (identity_bytes d)"
    using s(1) by (auto simp: serialize_identity_Inr identity_wf_def signing_key_ok_def u32_max_def)
  moreover have "di_classical_public_key d = x25519_public Q (dk_classical_private_key kp)"
    using s(2) by (simp add: keypair_wf_def)
  ultimately show ?thesis using s(1,3-) by blast
qed

theorem keyfile_open_sound_witness:
  "\<exists>d kp bs ib. open_keyfile toy_prims toy_pqc bs (zeros 32) = Inr (d, kp) \<and> serialize_identity_bytes d = ok ib"
proof -
  obtain d kp w' where g: "generate toy_pqc [97] sample_world = (Inr (d, kp), w')"
    using sample_generated by blast
  note s = generate_spec [OF toy_pqc_correct sample_utf8 g]
  then obtain bs w'' where b: "seal_keyfile toy_prims d kp (zeros 32) w' = (Inr bs, w'')"
    using seal_ok [OF toy_prims_aead(1,3) _ _ _ toy_blake, of d toy_pqc kp "zeros 32" w'] by auto
  have "open_keyfile toy_prims toy_pqc bs (zeros 32) = Inr (d, kp)"
    using open_sealed [OF toy_prims_aead(1) toy_blake toy_pqc_correct(1) _ _ _ b] s by auto
  then show ?thesis using keyfile_open_sound [OF toy_prims_aead(2), of "zeros 32" toy_pqc bs d kp] by auto
qed

text \<open>Text identities round-trip, but only for display names without line breaks: a name that
  goes on with a line of its own replaces the device id of the parsed identity.\<close>

theorem identity_text_roundtrip:
  assumes "text_ok d" "n \<noteq> []" "10 \<notin> set n" "last n \<noteq> 13" "length i = 16"
  shows "deserialize_identity_text (serialize_identity_text (d\<lparr>di_display_name := n\<rparr>)) =
      ok (d\<lparr>di_display_name := n, di_trust_state := Untrusted\<rparr>) \<and>
    deserialize_identity_text (serialize_identity_text
        (d\<lparr>di_display_name := n @ [10] @ bytes_of ''device_id='' @ hex_encode i\<rparr>)) =
      ok (d\<lparr>di_device_id := i, di_display_name := n, di_trust_state := Untrusted\<rparr>)"
proof -
  let ?d1 = "d\<lparr>di_display_name := n\<rparr>" and ?d2 = "d\<lparr>di_display_name := n @ [10] @ id_line ''device_id'' (hex_encode i)\<rparr>"
  have "bytes_of ''device_id='' = bytes_of ''device_id'' @ [61]" by code_simp
  then have k: "bytes_of ''device_id='' @ hex_encode i = id_line ''device_id'' (hex_encode i)" by (simp add: id_line_def)
  have l: "length (di_device_id d) = 16" and a: "after_name ?d2 = after_name d"
    using assms(1) by (simp_all add: text_ok_def after_name_def key_bytes_of_def)
  have ok1: "text_ok ?d1" using assms(1) by (simp add: text_ok_def)
  have t: "deserialize_identity_text (serialize_identity_text ?d1) = ok (d\<lparr>di_display_name := n, di_trust_state := Untrusted\<rparr>)"
    using identity_text_reads [OF ok1] assms(2-4) by simp
  have "id_line ''display_name'' (n @ [10] @ x) @ [10] @ y = id_line ''display_name'' n @ [10] @ x @ [10] @ y" for x y
    by (simp add: id_line_def)
  then have t2: "text_lines (serialize_identity_text ?d2) = bytes_of ''ms-device-identity-v1'' #
      id_line ''device_id'' (hex_encode (di_device_id d)) # id_line ''display_name'' n #
      id_line ''device_id'' (hex_encode i) # rest_lines d"
    unfolding text_split text_lines_head
    by (simp add: a text_of_named [OF assms(3,4)] text_lines_id keys_plain hex_no_breaks lines_after_name del: append_Cons)
  show ?thesis
    unfolding k t unfolding deserialize_identity_text_def t2
    using l assms identity_from_lines [OF assms(1) _ assms(2)]
    by (simp add: identity_line_fields no_fields_def)
qed

theorem identity_text_roundtrip_witness:
  "\<exists>d. di_device_id d = next_random sample_world 16 \<and>
    deserialize_identity_text (serialize_identity_text
      (d\<lparr>di_display_name := [97] @ [10] @ bytes_of ''device_id='' @ hex_encode (zeros 16)\<rparr>)) =
    ok (d\<lparr>di_device_id := zeros 16, di_display_name := [97], di_trust_state := Untrusted\<rparr>)"
proof -
  obtain d kp w' where g: "generate toy_pqc [97] sample_world = (Inr (d, kp), w')"
    using sample_generated by blast
  show ?thesis
    using generate_spec [OF toy_pqc_correct sample_utf8 g] identity_text_roundtrip [of d "[97]" "zeros 16"] by auto
qed

end
