(* ===== verification/Format_Records.thy ===== *)
theory Format_Records
  imports Header_Laws
begin

text \<open>
  Record table entries, record frames, item envelopes and the canonical record AAD of
  src/crates/meissnerseal-core/src/vault/format.rs: everything of the vault body that needs no
  cryptography. The positions of the fixed-width fields are written as sums of the widths
  before them; a read that succeeded has checked that the next position is in range.
\<close>

abbreviation (input) RECORD_TABLE_COUNT_LEN :: nat where "RECORD_TABLE_COUNT_LEN \<equiv> 4"
abbreviation (input) RECORD_TABLE_ENTRY_LEN :: nat where "RECORD_TABLE_ENTRY_LEN \<equiv> 46"
abbreviation (input) RECORD_FRAME_FIXED_PREFIX_LEN :: nat
  where "RECORD_FRAME_FIXED_PREFIX_LEN \<equiv> 37"
abbreviation (input) RECORD_AAD_LEN :: nat where "RECORD_AAD_LEN \<equiv> 79"
abbreviation (input) XCHACHA20_NONCE_LEN :: nat where "XCHACHA20_NONCE_LEN \<equiv> 24"
abbreviation (input) RECORD_KIND_ITEM :: u16 where "RECORD_KIND_ITEM \<equiv> 0x0001"
abbreviation (input) RECORD_KIND_WRAPPED_ROOT_KEY :: u16
  where "RECORD_KIND_WRAPPED_ROOT_KEY \<equiv> 0x0002"
abbreviation (input) RECORD_KIND_TOMBSTONE :: u16 where "RECORD_KIND_TOMBSTONE \<equiv> 0x0006"

definition AAD_DOMAIN :: "byte list" where
  "AAD_DOMAIN = bytes_of ''meissnerseal-aad-v1''"

lemma length_AAD_DOMAIN [simp, codec]: "length AAD_DOMAIN = 19"
  by (simp add: AAD_DOMAIN_def)

subsection \<open>Data\<close>

record RecordTableEntry =
  te_record_id :: "byte list"
  te_record_kind :: u16
  te_revision_id :: "byte list"
  te_frame_offset :: u64
  te_frame_len :: u32

record RecordFrame =
  rf_frame_version :: u16
  rf_record_id :: "byte list"
  rf_revision_id :: "byte list"
  rf_nonce :: "byte list"
  rf_stored_aad :: "byte list"
  rf_ciphertext_len :: u32
  rf_ciphertext :: "byte list"

record ItemRecordFrameEnvelope =
  ie_rek_wrap_nonce :: "byte list"
  ie_wrapped_rek :: "byte list"
  ie_payload_nonce :: "byte list"
  ie_encrypted_payload :: "byte list"

text \<open>The lengths the Rust array types carry.\<close>

definition entry_wf :: "RecordTableEntry \<Rightarrow> bool" where
  "entry_wf e \<longleftrightarrow> length (te_record_id e) = 16 \<and> length (te_revision_id e) = 16"

definition frame_wf :: "RecordFrame \<Rightarrow> bool" where
  "frame_wf f \<longleftrightarrow> length (rf_record_id f) = 16 \<and> length (rf_revision_id f) = 16 \<and>
     length (rf_nonce f) = 24 \<and> length (rf_stored_aad f) = 79"

definition envelope_wf :: "ItemRecordFrameEnvelope \<Rightarrow> bool" where
  "envelope_wf e \<longleftrightarrow> length (ie_rek_wrap_nonce e) = 24 \<and> length (ie_payload_nonce e) = 24"

subsection \<open>Record table\<close>

definition entry_bytes :: "RecordTableEntry \<Rightarrow> byte list" where
  "entry_bytes e =
     te_record_id e @ u16_le (te_record_kind e) @ te_revision_id e @
     u64_le (te_frame_offset e) @ u32_le (te_frame_len e)"

definition serialize_record_table :: "RecordTableEntry list \<Rightarrow> byte list res" where
  "serialize_record_table entries =
     and_then (len_to_u32 (length entries) ''record table count overflow'') (\<lambda>count.
     and_then (ok_or (Option.bind (checked_mul (length entries) RECORD_TABLE_ENTRY_LEN)
                        (checked_add RECORD_TABLE_COUNT_LEN))
                 (format_error ''record table length overflow'')) (\<lambda>entries_len.
     ok (u32_le count @ concat (map entry_bytes entries))))"

text \<open>One iteration of \<open>for _ in 0..count\<close>, and the loop.\<close>

definition parse_table_entry :: "byte list \<Rightarrow> nat \<Rightarrow> RecordTableEntry res" where
  "parse_table_entry bytes cursor =
     and_then (read_array_at 16 bytes cursor) (\<lambda>record_id.
     and_then (read_u16_le bytes (cursor + 16)) (\<lambda>record_kind.
     and_then (read_array_at 16 bytes (cursor + 16 + 2)) (\<lambda>revision_id.
     and_then (read_u64_le bytes (cursor + 16 + 2 + 16)) (\<lambda>frame_offset.
     and_then (read_u32_le bytes (cursor + 16 + 2 + 16 + 8)) (\<lambda>frame_len.
     if record_kind = RECORD_KIND_WRAPPED_ROOT_KEY
     then err (format_error ''WrappedRootKey entry not allowed in V2 table'')
     else ok \<lparr>te_record_id = record_id, te_record_kind = record_kind,
              te_revision_id = revision_id, te_frame_offset = frame_offset,
              te_frame_len = frame_len\<rparr>)))))"

primrec parse_table_entries ::
    "byte list \<Rightarrow> nat \<Rightarrow> nat \<Rightarrow> RecordTableEntry list \<Rightarrow> RecordTableEntry list res" where
  "parse_table_entries bytes 0 cursor entries = ok entries"
| "parse_table_entries bytes (Suc n) cursor entries =
     and_then (parse_table_entry bytes cursor) (\<lambda>e.
     parse_table_entries bytes n (cursor + RECORD_TABLE_ENTRY_LEN) (entries @ [e]))"

definition parse_record_table ::
    "byte list \<Rightarrow> nat \<Rightarrow> nat \<Rightarrow> RecordTableEntry list res" where
  "parse_record_table bytes offset len =
     and_then (ok_or (checked_add offset len)
                 (format_error ''record table bounds overflow'')) (\<lambda>end_at.
     if end_at > length bytes \<or> len < RECORD_TABLE_COUNT_LEN
     then err (format_error ''truncated record table'')
     else
     and_then (read_u32_le bytes offset) (\<lambda>c.
     and_then (to_usize (unat c) (format_error ''record table count overflow'')) (\<lambda>count.
     and_then (ok_or (Option.bind (checked_mul count RECORD_TABLE_ENTRY_LEN)
                        (checked_add RECORD_TABLE_COUNT_LEN))
                 (format_error ''record table length overflow'')) (\<lambda>entries_len.
     if entries_len \<noteq> len then err (format_error ''record table length mismatch'')
     else parse_table_entries bytes count (offset + RECORD_TABLE_COUNT_LEN) []))))"

subsection \<open>Item envelope\<close>

definition serialize_item_record_frame_envelope ::
    "ItemRecordFrameEnvelope \<Rightarrow> byte list res" where
  "serialize_item_record_frame_envelope e =
     (if ie_wrapped_rek e = [] then err (format_error ''empty wrapped REK'')
      else if ie_encrypted_payload e = [] then err (format_error ''empty encrypted item payload'')
      else
     and_then (len_to_u32 (length (ie_wrapped_rek e)) ''wrapped REK length overflow'') (\<lambda>rek_len.
     and_then (len_to_u32 (length (ie_encrypted_payload e))
                 ''encrypted payload length overflow'') (\<lambda>payload_len.
     and_then (ok_or (Option.bind (checked_add XCHACHA20_NONCE_LEN 4) (\<lambda>l.
                      Option.bind (checked_add l (length (ie_wrapped_rek e))) (\<lambda>l.
                      Option.bind (checked_add l XCHACHA20_NONCE_LEN) (\<lambda>l.
                      Option.bind (checked_add l 4) (\<lambda>l.
                      checked_add l (length (ie_encrypted_payload e)))))))
                 (format_error ''item envelope length overflow'')) (\<lambda>capacity.
     ok (ie_rek_wrap_nonce e @ u32_le rek_len @ ie_wrapped_rek e @
         ie_payload_nonce e @ u32_le payload_len @ ie_encrypted_payload e)))))"

definition parse_item_record_frame_envelope ::
    "byte list \<Rightarrow> ItemRecordFrameEnvelope res" where
  "parse_item_record_frame_envelope bytes =
     and_then (read_array_at 24 bytes 0) (\<lambda>rek_wrap_nonce.
     and_then (read_u32_le bytes XCHACHA20_NONCE_LEN) (\<lambda>rl.
     and_then (to_usize (unat rl) (format_error ''wrapped REK length overflow'')) (\<lambda>rek_len.
     if rek_len = 0 then err (format_error ''empty wrapped REK'')
     else
     and_then (ok_or (checked_add (XCHACHA20_NONCE_LEN + 4) rek_len)
                 (format_error ''wrapped REK length overflow'')) (\<lambda>rek_end.
     and_then (ok_or (get_range bytes (XCHACHA20_NONCE_LEN + 4) rek_end)
                 (format_error ''truncated wrapped REK'')) (\<lambda>wrapped_rek.
     and_then (read_array_at 24 bytes rek_end) (\<lambda>payload_nonce.
     and_then (read_u32_le bytes (rek_end + XCHACHA20_NONCE_LEN)) (\<lambda>pl.
     and_then (to_usize (unat pl) (format_error ''encrypted payload length overflow'')) (\<lambda>payload_len.
     if payload_len = 0 then err (format_error ''empty encrypted item payload'')
     else
     and_then (ok_or (checked_add (rek_end + XCHACHA20_NONCE_LEN + 4) payload_len)
                 (format_error ''encrypted payload length overflow'')) (\<lambda>payload_end.
     and_then (ok_or (get_range bytes (rek_end + XCHACHA20_NONCE_LEN + 4) payload_end)
                 (format_error ''truncated encrypted item payload'')) (\<lambda>encrypted_payload.
     if payload_end \<noteq> length bytes then err (format_error ''trailing item envelope garbage'')
     else ok \<lparr>ie_rek_wrap_nonce = rek_wrap_nonce, ie_wrapped_rek = wrapped_rek,
              ie_payload_nonce = payload_nonce,
              ie_encrypted_payload = encrypted_payload\<rparr>))))))))))"

subsection \<open>Record frames\<close>

definition serialize_record_frame :: "RecordFrame \<Rightarrow> byte list \<Rightarrow> byte list res" where
  "serialize_record_frame f aad =
     (if length (rf_nonce f) \<noteq> XCHACHA20_NONCE_LEN then err (format_error ''invalid nonce length'')
      else
     and_then (len_to_u32 (length (rf_ciphertext f)) ''ciphertext length overflow'') (\<lambda>clen.
     if rf_ciphertext_len f \<noteq> clen then err (format_error ''ciphertext length mismatch'')
     else
     and_then (ok_or (Option.bind (checked_add RECORD_FRAME_FIXED_PREFIX_LEN XCHACHA20_NONCE_LEN) (\<lambda>l.
                      Option.bind (checked_add l 4) (\<lambda>l.
                      Option.bind (checked_add l (length aad)) (\<lambda>l.
                      Option.bind (checked_add l 4) (\<lambda>l.
                      checked_add l (length (rf_ciphertext f)))))))
                 (format_error ''record frame length overflow'')) (\<lambda>frame_len.
     and_then (len_to_u32 (length aad) ''AAD length overflow'') (\<lambda>aad_len.
     ok (u16_le (rf_frame_version f) @ rf_record_id f @ rf_revision_id f @ u16_le 1 @
         [of_nat XCHACHA20_NONCE_LEN] @ rf_nonce f @ u32_le aad_len @ aad @
         u32_le (rf_ciphertext_len f) @ rf_ciphertext f)))))"

definition parse_record_frame :: "byte list \<Rightarrow> u32 \<Rightarrow> u16 \<Rightarrow> RecordFrame res" where
  "parse_record_frame bytes frame_len_u32 expected_aead_profile =
     and_then (to_usize (unat frame_len_u32)
                 (format_error ''record frame length overflow'')) (\<lambda>frame_len.
     if length bytes < frame_len \<or> frame_len < RECORD_FRAME_FIXED_PREFIX_LEN
     then err (format_error ''truncated record frame'')
     else
     and_then (index_range bytes 0 frame_len) (\<lambda>frame.
     and_then (read_u16_le frame 0) (\<lambda>frame_version.
     if frame_version \<noteq> 1 then err (format_error ''unsupported record frame version'')
     else
     and_then (read_array_at 16 frame 2) (\<lambda>record_id.
     and_then (read_array_at 16 frame 18) (\<lambda>revision_id.
     and_then (read_u16_le frame 34) (\<lambda>aead_profile.
     if aead_profile \<noteq> expected_aead_profile
     then err (format_error ''record frame aead_profile does not match header'')
     else
     and_then (index_at frame 36) (\<lambda>nonce_len.
     if unat nonce_len \<noteq> XCHACHA20_NONCE_LEN then err (format_error ''invalid nonce length'')
     else
     and_then (read_array_at 24 frame 37) (\<lambda>nonce.
     and_then (read_u32_le frame 61) (\<lambda>al.
     and_then (to_usize (unat al) (format_error ''AAD length overflow'')) (\<lambda>aad_len.
     and_then (ok_or (checked_add 65 aad_len) (format_error ''AAD length overflow'')) (\<lambda>aad_end.
     if aad_end > frame_len then err (format_error ''truncated record frame AAD'')
     else
     and_then (read_u32_le frame aad_end) (\<lambda>ciphertext_len.
     and_then (to_usize (unat ciphertext_len)
                 (format_error ''ciphertext length overflow'')) (\<lambda>clen.
     if clen < 16 then err (format_error ''ciphertext too short for AEAD tag'')
     else
     and_then (ok_or (checked_add (aad_end + 4) clen)
                 (format_error ''ciphertext length overflow'')) (\<lambda>ciphertext_end.
     if ciphertext_end > frame_len
     then err (format_error ''ciphertext length exceeds frame boundary'')
     else if ciphertext_end \<noteq> frame_len
     then err (format_error ''record frame length mismatch'')
     else
     and_then (index_range frame 65 aad_end) (\<lambda>aad_bytes.
     and_then (read_array RECORD_AAD_LEN aad_bytes ''invalid record AAD bytes'') (\<lambda>stored_aad.
     and_then (index_range frame (aad_end + 4) ciphertext_end) (\<lambda>ciphertext.
     ok \<lparr>rf_frame_version = frame_version, rf_record_id = record_id,
         rf_revision_id = revision_id, rf_nonce = nonce, rf_stored_aad = stored_aad,
         rf_ciphertext_len = ciphertext_len, rf_ciphertext = ciphertext\<rparr>)))))))))))))))))"

subsection \<open>Record AAD\<close>

text \<open>\<open>aad.ct_eq(expected)\<close> compares in constant time; its value is equality.\<close>

definition validate_stored_record_aad :: "byte list \<Rightarrow> byte list \<Rightarrow> unit res" where
  "validate_stored_record_aad aad expected =
     (if length aad \<noteq> RECORD_AAD_LEN then err (format_error ''invalid record AAD length'')
      else if aad \<noteq> expected then err (format_error ''invalid record AAD bytes'')
      else ok ())"

text \<open>The code fills a zeroed 79-byte array front to back; the fields fill it exactly.\<close>

definition build_aad ::
    "byte list \<Rightarrow> u16 \<Rightarrow> u16 \<Rightarrow> u16 \<Rightarrow> u16 \<Rightarrow> u16 \<Rightarrow> byte list \<Rightarrow> byte list \<Rightarrow> u16 \<Rightarrow> byte list" where
  "build_aad vault_id format_version schema_profile aead_profile kdf_profile pqc_profile
     record_id revision_id record_kind =
     AAD_DOMAIN @ vault_id @
     concat (map u16_le [format_version, schema_profile, aead_profile, kdf_profile, pqc_profile]) @
     record_id @ revision_id @ u16_le record_kind"

subsection \<open>Lemmas: record AAD\<close>

lemma length_build_aad [simp]:
  "length v = 16 \<Longrightarrow> length r = 16 \<Longrightarrow> length x = 16 \<Longrightarrow> length (build_aad v a b c d e r x k) = 79"
  by (simp add: build_aad_def)

lemma build_aad_inj:
  assumes "length v = 16" "length v' = 16" "length r = 16" "length r' = 16"
    and "length x = 16" "length x' = 16"
  shows "build_aad v a b c d e r x k = build_aad v' a' b' c' d' e' r' x' k' \<longleftrightarrow>
    v = v' \<and> a = a' \<and> b = b' \<and> c = c' \<and> d = d' \<and> e = e' \<and> r = r' \<and> x = x' \<and> k = k'"
  using assms by (auto simp: build_aad_def)

lemma validate_stored_record_aad_Inr [simp]:
  "validate_stored_record_aad aad expected = Inr u \<longleftrightarrow> length aad = 79 \<and> aad = expected"
  by (auto simp: validate_stored_record_aad_def)

lemma no_panic_validate_stored [simp]: "no_panic (validate_stored_record_aad aad expected)"
  by (simp add: validate_stored_record_aad_def)

subsection \<open>Lemmas: record table\<close>

lemma length_entry_bytes [simp]: "entry_wf e \<Longrightarrow> length (entry_bytes e) = 46"
  by (simp add: entry_bytes_def entry_wf_def)

lemma length_entries_bytes [simp]:
  "list_all entry_wf es \<Longrightarrow> length (concat (map entry_bytes es)) = 46 * length es"
  by (induction es) simp_all

lemma parse_table_entry_Inr:
  assumes "cursor + 46 \<le> usize_max"
  shows "parse_table_entry bs cursor = Inr e \<longleftrightarrow>
    entry_wf e \<and> te_record_kind e \<noteq> RECORD_KIND_WRAPPED_ROOT_KEY \<and> holds_at bs cursor (entry_bytes e)"
  (is "?l \<longleftrightarrow> ?r")
proof
  assume ?l
  then show ?r
    by (auto simp: parse_table_entry_def reads_Inr entry_wf_def entry_bytes_def holds_at_append
        ac_simps split: if_splits)
next
  assume ?r
  then have "read_array_at 16 bs cursor = Inr (te_record_id e)"
    "read_u16_le bs (cursor + 16) = Inr (te_record_kind e)"
    "read_array_at 16 bs (cursor + 16 + 2) = Inr (te_revision_id e)"
    "read_u64_le bs (cursor + 16 + 2 + 16) = Inr (te_frame_offset e)"
    "read_u32_le bs (cursor + 16 + 2 + 16 + 8) = Inr (te_frame_len e)"
    "te_record_kind e \<noteq> RECORD_KIND_WRAPPED_ROOT_KEY"
    using assms by (auto simp: reads_Inr entry_wf_def entry_bytes_def holds_at_append ac_simps)
  then show ?l by (simp add: parse_table_entry_def)
qed

lemma no_panic_parse_table_entries [simp]: "no_panic (parse_table_entries bs n cursor acc)"
proof (induction n arbitrary: cursor acc)
  case 0
  then show ?case by simp
next
  case (Suc n)
  have "no_panic (parse_table_entry bs cursor)"
    unfolding parse_table_entry_def by (intro no_panic_intros) simp_all
  with Suc show ?case by (auto intro!: no_panic_intros)
qed

definition table_entry_ok :: "RecordTableEntry \<Rightarrow> bool" where
  "table_entry_ok e \<longleftrightarrow> entry_wf e \<and> te_record_kind e \<noteq> RECORD_KIND_WRAPPED_ROOT_KEY"

lemma parse_table_entries_Inr:
  "cursor + 46 * n \<le> usize_max \<Longrightarrow> parse_table_entries bs n cursor acc = Inr out \<longleftrightarrow>
    (\<exists>es. out = acc @ es \<and> length es = n \<and> list_all table_entry_ok es \<and>
      (n \<noteq> 0 \<longrightarrow> holds_at bs cursor (concat (map entry_bytes es))))"
proof (induction n arbitrary: cursor acc out)
  case 0
  then show ?case by auto
next
  case (Suc n)
  have pte: "parse_table_entry bs cursor = Inr e \<longleftrightarrow>
    table_entry_ok e \<and> holds_at bs cursor (entry_bytes e)" for e
    using Suc.prems parse_table_entry_Inr [of cursor bs e] by (auto simp: table_entry_ok_def)
  have IH: "parse_table_entries bs n (cursor + 46) (acc @ [e]) = Inr out \<longleftrightarrow>
    (\<exists>es. out = (acc @ [e]) @ es \<and> length es = n \<and> list_all table_entry_ok es \<and>
      (n \<noteq> 0 \<longrightarrow> holds_at bs (cursor + 46) (concat (map entry_bytes es))))" for e
    using Suc.prems by (intro Suc.IH) simp
  have len: "table_entry_ok e \<Longrightarrow> length (entry_bytes e) = 46" for e
    by (simp add: table_entry_ok_def)
  show ?case (is "?l \<longleftrightarrow> ?r")
  proof
    assume ?l
    then obtain e es where e: "table_entry_ok e" "holds_at bs cursor (entry_bytes e)"
      and es: "out = (acc @ [e]) @ es" "length es = n" "list_all table_entry_ok es"
        "n \<noteq> 0 \<longrightarrow> holds_at bs (cursor + 46) (concat (map entry_bytes es))"
      using pte IH by auto
    then show ?r
      using len [OF e(1)]
      by (intro exI [of _ "e # es"]) (cases "n = 0"; simp add: holds_at_append)
  next
    assume ?r
    then obtain e es where "out = acc @ e # es" "length es = n" "table_entry_ok e"
      "list_all table_entry_ok es" "holds_at bs cursor (entry_bytes e @ concat (map entry_bytes es))"
      by (auto simp: length_Suc_conv)
    then show ?l
      using pte IH len by (auto simp: holds_at_append)
  qed
qed

lemma entry_bytes_inj:
  "entry_wf e \<Longrightarrow> entry_wf e' \<Longrightarrow> entry_bytes e = entry_bytes e' \<Longrightarrow> e = e'"
  by (cases e; cases e') (auto simp: entry_wf_def entry_bytes_def)

lemma entries_bytes_inj:
  "length es = length es' \<Longrightarrow> list_all entry_wf es \<Longrightarrow> list_all entry_wf es' \<Longrightarrow>
    concat (map entry_bytes es) = concat (map entry_bytes es') \<Longrightarrow> es = es'"
  by (induction es es' rule: list_induct2) (auto dest: entry_bytes_inj)

lemma serialize_record_table_Inr:
  "serialize_record_table es = Inr bs \<longleftrightarrow>
    length es \<le> u32_max \<and> bs = u32_le (of_nat (length es)) @ concat (map entry_bytes es)"
  by (auto simp: serialize_record_table_def bind_eq_Some_conv u32_max_def usize_max_def)

lemma parse_record_table_Inr:
  assumes "length bs \<le> usize_max"
  shows "parse_record_table bs off len = Inr es \<longleftrightarrow>
    list_all table_entry_ok es \<and> length es \<le> u32_max \<and> len = 4 + 46 * length es \<and>
    holds_at bs off (u32_le (of_nat (length es)) @ concat (map entry_bytes es))"
  (is "?l \<longleftrightarrow> ?r")
proof
  assume l: ?l
  then obtain c where c: "off + len \<le> length bs" "4 \<le> len" "read_u32_le bs off = Inr c"
    "len = 4 + unat c * 46" "parse_table_entries bs (unat c) (off + 4) [] = Inr es"
    by (auto simp: parse_record_table_def bind_eq_Some_conv not_less split: if_splits)
  then show ?r
    using assms parse_table_entries_Inr [of "off + 4" "unat c" bs "[]" es]
    by (auto simp: holds_at_append read_u32_le_Inr unat_u32_bound)
next
  assume r: ?r
  then have h: "holds_at bs off (u32_le (of_nat (length es)))"
    "holds_at bs (off + 4) (concat (map entry_bytes es))"
    by (simp_all add: holds_at_append)
  have es: "list_all entry_wf es" using r by (auto simp: list_all_iff table_entry_ok_def)
  then have b: "off + 4 + 46 * length es \<le> length bs"
    using holds_at_bound [OF h(2)] by simp
  have "read_u32_le bs off = Inr (of_nat (length es))"
    using h(1) b assms by (simp add: read_u32_le_Inr)
  moreover have "parse_table_entries bs (length es) (off + 4) [] = Inr es"
    using parse_table_entries_Inr [of "off + 4" "length es" bs "[]" es] b assms r h(2) by auto
  ultimately show ?l
    using r b assms by (simp add: parse_record_table_def to_usize_def mult.commute bind_eq_Some_conv)
qed

subsection \<open>Lemmas: item envelope\<close>

lemma serialize_item_envelope_Inr:
  "serialize_item_record_frame_envelope e = Inr bs \<longleftrightarrow>
    ie_wrapped_rek e \<noteq> [] \<and> ie_encrypted_payload e \<noteq> [] \<and>
    length (ie_wrapped_rek e) \<le> u32_max \<and> length (ie_encrypted_payload e) \<le> u32_max \<and>
    56 + length (ie_wrapped_rek e) + length (ie_encrypted_payload e) \<le> usize_max \<and>
    bs = ie_rek_wrap_nonce e @ u32_le (of_nat (length (ie_wrapped_rek e))) @ ie_wrapped_rek e @
         ie_payload_nonce e @ u32_le (of_nat (length (ie_encrypted_payload e))) @
         ie_encrypted_payload e"
  by (auto simp: serialize_item_record_frame_envelope_def bind_eq_Some_conv)

lemma parse_item_envelope_sound:
  assumes "parse_item_record_frame_envelope bs = Inr e"
  shows "envelope_wf e \<and> serialize_item_record_frame_envelope e = Inr bs"
proof -
  obtain rl pl where
    a: "holds_at bs 0 (ie_rek_wrap_nonce e)" "holds_at bs 24 (u32_le rl)"
      "holds_at bs 28 (ie_wrapped_rek e)" "holds_at bs (28 + unat rl) (ie_payload_nonce e)"
      "holds_at bs (52 + unat rl) (u32_le pl)" "holds_at bs (56 + unat rl) (ie_encrypted_payload e)"
    and l: "length (ie_rek_wrap_nonce e) = 24" "length (ie_payload_nonce e) = 24"
      "length (ie_wrapped_rek e) = unat rl" "length (ie_encrypted_payload e) = unat pl"
      "0 < unat rl" "0 < unat pl" "length bs = 56 + unat rl + unat pl"
      "56 + unat rl + unat pl \<le> usize_max"
    using assms
    by (auto simp: parse_item_record_frame_envelope_def reads_Inr get_range_holds_at ac_simps
        split: if_splits)
  let ?out = "ie_rek_wrap_nonce e @ u32_le rl @ ie_wrapped_rek e @
    ie_payload_nonce e @ u32_le pl @ ie_encrypted_payload e"
  have "holds_at bs 0 ?out"
    using a l by (simp add: holds_at_append ac_simps)
  moreover have "length bs = length ?out" using l by simp
  ultimately have "bs = ?out" by (rule holds_at_whole)
  moreover have "of_nat (length (ie_wrapped_rek e)) = rl"
    "of_nat (length (ie_encrypted_payload e)) = pl"
    using l by simp_all
  ultimately show ?thesis
    using l by (auto simp: envelope_wf_def serialize_item_envelope_Inr unat_u32_bound)
qed

lemma parse_item_envelope_complete:
  assumes wf: "envelope_wf e" and ser: "serialize_item_record_frame_envelope e = Inr bs"
  shows "parse_item_record_frame_envelope bs = Inr e"
proof -
  let ?r = "ie_wrapped_rek e" and ?p = "ie_encrypted_payload e"
  note s = ser [unfolded serialize_item_envelope_Inr]
  have l: "length (ie_rek_wrap_nonce e) = 24" "length (ie_payload_nonce e) = 24"
    using wf by (simp_all add: envelope_wf_def)
  have h: "holds_at bs 0 (ie_rek_wrap_nonce e @ u32_le (of_nat (length ?r)) @ ?r @
      ie_payload_nonce e @ u32_le (of_nat (length ?p)) @ ?p)"
    using s holds_at_self [of bs] by simp
  have "read_array_at 24 bs 0 = Inr (ie_rek_wrap_nonce e)"
    "read_u32_le bs 24 = Inr (of_nat (length ?r))"
    "get_range bs 28 (28 + length ?r) = Some ?r"
    "read_array_at 24 bs (28 + length ?r) = Inr (ie_payload_nonce e)"
    "read_u32_le bs (28 + length ?r + 24) = Inr (of_nat (length ?p))"
    "get_range bs (28 + length ?r + 24 + 4) (28 + length ?r + 24 + 4 + length ?p) = Some ?p"
    using h l s by (simp_all add: reads_Inr get_range_holds_at holds_at_append ac_simps)
  moreover have "length bs = 56 + length ?r + length ?p" using s l by simp
  ultimately show ?thesis
    using s by (simp add: parse_item_record_frame_envelope_def to_usize_def u32_max_def
        usize_max_def)
qed

lemma no_panic_parse_item_envelope [simp]: "no_panic (parse_item_record_frame_envelope bs)"
  unfolding parse_item_record_frame_envelope_def by (intro no_panic_intros; simp)

interpretation item_env: canonical_codec serialize_item_record_frame_envelope
  parse_item_record_frame_envelope envelope_wf
  by unfold_locales (auto intro: parse_item_envelope_complete simp: parse_item_envelope_sound)

subsection \<open>Lemmas: record frames\<close>

lemma serialize_record_frame_Inr:
  "serialize_record_frame f aad = Inr bs \<longleftrightarrow>
    length (rf_nonce f) = 24 \<and> length (rf_ciphertext f) \<le> u32_max \<and>
    rf_ciphertext_len f = of_nat (length (rf_ciphertext f)) \<and> length aad \<le> u32_max \<and>
    69 + length aad + length (rf_ciphertext f) \<le> usize_max \<and>
    bs = u16_le (rf_frame_version f) @ rf_record_id f @ rf_revision_id f @ u16_le 1 @ [24] @
      rf_nonce f @ u32_le (of_nat (length aad)) @ aad @
      u32_le (rf_ciphertext_len f) @ rf_ciphertext f"
  by (auto simp: serialize_record_frame_def bind_eq_Some_conv)

lemma no_panic_parse_record_frame [simp]:
  "length bs \<le> isize_max \<Longrightarrow> no_panic (parse_record_frame bs n prof)"
  unfolding parse_record_frame_def by (intro no_panic_intros; auto simp: get_range_holds_at holds_at_def)

text \<open>The frame inside a slice of exactly its length, as the record table delimits it.\<close>

definition parse_whole_frame :: "byte list \<Rightarrow> RecordFrame res" where
  "parse_whole_frame bs =
     and_then (len_to_u32 (length bs) ''record frame length overflow'') (\<lambda>n.
     parse_record_frame bs n 1)"

definition stored_frame_wf :: "RecordFrame \<Rightarrow> bool" where
  "stored_frame_wf f \<longleftrightarrow> frame_wf f \<and> rf_frame_version f = 1 \<and>
     16 \<le> length (rf_ciphertext f) \<and> length (rf_ciphertext f) + 148 \<le> u32_max"

lemma byte_24: "unat (x :: byte) = 24 \<longleftrightarrow> x = 24"
proof -
  have "unat x = 24 \<longleftrightarrow> unat x = unat (24 :: byte)" by simp
  then show ?thesis by (simp only: word_unat_eq_iff)
qed

lemma parse_record_frame_sound:
  assumes "parse_record_frame bs n 1 = Inr f"
  shows "stored_frame_wf f \<and> unat n = 148 + length (rf_ciphertext f) \<and>
    serialize_record_frame f (rf_stored_aad f) = Inr (take (unat n) bs)"
proof -
  define b where "b = take (unat n) bs"
  have le: "unat n \<le> length bs"
    using assms by (auto simp: parse_record_frame_def not_less split: if_splits)
  then have gr: "get_range bs 0 (unat n) = Some b" and lb: "length b = unat n"
    by (simp_all add: get_range_def b_def)
  obtain al where
    a: "holds_at b 0 (u16_le 1)" "holds_at b 2 (rf_record_id f)"
      "holds_at b 18 (rf_revision_id f)" "holds_at b 34 (u16_le 1)" "holds_at b 36 [24]"
      "holds_at b 37 (rf_nonce f)" "holds_at b 61 (u32_le al)"
      "holds_at b 65 (rf_stored_aad f)" "holds_at b 144 (u32_le (rf_ciphertext_len f))"
      "holds_at b 148 (rf_ciphertext f)"
    and l: "frame_wf f" "unat al = 79" "length (rf_ciphertext f) = unat (rf_ciphertext_len f)"
      "16 \<le> unat (rf_ciphertext_len f)" "unat n = 148 + unat (rf_ciphertext_len f)"
      "rf_frame_version f = 1" "unat n \<le> usize_max"
    using assms
    by (auto simp: parse_record_frame_def reads_Inr gr get_range_holds_at [of b] frame_wf_def
        byte_24 holds_at_Cons split: if_splits)
  let ?out = "u16_le 1 @ rf_record_id f @ rf_revision_id f @ u16_le 1 @ [24] @
      rf_nonce f @ u32_le al @ rf_stored_aad f @ u32_le (rf_ciphertext_len f) @ rf_ciphertext f"
  have "holds_at b 0 ?out"
    using a l(1) by (simp add: holds_at_append holds_at_Cons frame_wf_def)
  moreover have "length b = length ?out" using l lb by (simp add: frame_wf_def)
  ultimately have b: "b = ?out" by (rule holds_at_whole)
  have "al = of_nat (unat al)" by simp
  then have "al = 79" unfolding l(2) by simp
  moreover have "rf_ciphertext_len f = of_nat (length (rf_ciphertext f))" using l(3) by simp
  ultimately show ?thesis
    using l(1,3-7) b unat_u32_bound [of n]
    by (simp add: serialize_record_frame_Inr stored_frame_wf_def frame_wf_def u32_max_def b_def)
qed

lemma parse_record_frame_complete:
  assumes wf: "stored_frame_wf f"
    and ser: "serialize_record_frame f (rf_stored_aad f) = Inr bs"
    and n: "unat n = length bs"
  shows "parse_record_frame (bs @ rest) n 1 = Inr f"
proof -
  note s = ser [unfolded serialize_record_frame_Inr]
  have l: "length (rf_record_id f) = 16" "length (rf_revision_id f) = 16"
    "length (rf_nonce f) = 24" "length (rf_stored_aad f) = 79" "rf_frame_version f = 1"
    "16 \<le> length (rf_ciphertext f)" "length (rf_ciphertext f) + 148 \<le> u32_max"
    using wf by (simp_all add: stored_frame_wf_def frame_wf_def)
  have lb: "length bs = 148 + length (rf_ciphertext f)" using s l by simp
  have h: "holds_at bs 0 (u16_le 1 @ rf_record_id f @ rf_revision_id f @ u16_le 1 @ [24] @
      rf_nonce f @ u32_le 79 @ rf_stored_aad f @ u32_le (rf_ciphertext_len f) @ rf_ciphertext f)"
    using s l holds_at_self [of bs] by simp
  have r: "index_range (bs @ rest) 0 (148 + length (rf_ciphertext f)) = Inr bs"
    by (simp add: index_range_def lb)
  have reads: "read_u16_le bs 0 = Inr 1" "read_array_at 16 bs 2 = Inr (rf_record_id f)"
    "read_array_at 16 bs 18 = Inr (rf_revision_id f)" "read_u16_le bs 34 = Inr 1"
    "index_at bs 36 = Inr 24" "read_array_at 24 bs 37 = Inr (rf_nonce f)"
    "read_u32_le bs 61 = Inr 79" "index_range bs 65 144 = Inr (rf_stored_aad f)"
    "read_u32_le bs 144 = Inr (rf_ciphertext_len f)"
    "index_range bs 148 (148 + length (rf_ciphertext f)) = Inr (rf_ciphertext f)"
    using h l s by (simp_all add: reads_Inr get_range_holds_at holds_at_append holds_at_Cons
        usize_max_def)
  have cl: "unat (rf_ciphertext_len f) = length (rf_ciphertext f)" using s by simp
  show ?thesis
    using l(5-7)
    by (simp add: parse_record_frame_def r reads cl lb n l(4) to_usize_def u32_max_def usize_max_def
        read_array_def)
qed

interpretation frame_fmt: canonical_codec "\<lambda>f. serialize_record_frame f (rf_stored_aad f)"
  parse_whole_frame stored_frame_wf
proof unfold_locales
  fix f bs
  assume a: "stored_frame_wf f" "serialize_record_frame f (rf_stored_aad f) = Inr bs"
  then have "length bs \<le> u32_max"
    by (auto simp: serialize_record_frame_Inr stored_frame_wf_def frame_wf_def)
  with a show "parse_whole_frame bs = Inr f"
    using parse_record_frame_complete [of f bs "of_nat (length bs)" "[]"]
    by (simp add: parse_whole_frame_def len_to_u32_def to_u32_def)
next
  fix bs f
  assume "parse_whole_frame bs = Inr f"
  then have "length bs \<le> u32_max" "parse_record_frame bs (of_nat (length bs)) 1 = Inr f"
    by (auto simp: parse_whole_frame_def)
  then show "stored_frame_wf f \<and> serialize_record_frame f (rf_stored_aad f) = Inr bs"
    using parse_record_frame_sound [of bs "of_nat (length bs)" f] by simp
qed

subsection \<open>Vault file assembly\<close>

definition serialize_vault_file :: "byte list \<Rightarrow> byte list \<Rightarrow> byte list \<Rightarrow> byte list res" where
  "serialize_vault_file header record_table body =
     and_then (len_to_u32 (length header) ''header length overflow'') (\<lambda>header_len.
     and_then (len_to_u32 (length record_table) ''record table length overflow'') (\<lambda>record_table_len.
     and_then (ok_or (checked_add (length body) (length record_table))
                 (format_error ''body length overflow'')) (\<lambda>body_and_table_len.
     and_then (len_to_u64 body_and_table_len ''body length overflow'') (\<lambda>body_len.
     and_then (serialize_prefix FORMAT_VERSION header_len record_table_len body_len) (\<lambda>prefix.
     and_then (ok_or (Option.bind (checked_add (length prefix) (length header)) (\<lambda>l.
                      Option.bind (checked_add l (length body)) (\<lambda>l.
                      checked_add l (length record_table))))
                 (format_error ''vault file length overflow'')) (\<lambda>capacity.
     ok (prefix @ header @ body @ record_table)))))))"

lemma serialize_vault_file_Inr:
  "serialize_vault_file header table body = Inr bs \<longleftrightarrow>
    length header \<le> u32_max \<and> length table \<le> u32_max \<and>
    26 + length header + length body + length table \<le> usize_max \<and>
    bs = (MAGIC @ u16_le 1 @ u32_le (of_nat (length header)) @ u32_le (of_nat (length table)) @
      u64_le (of_nat (length body + length table))) @ header @ body @ table"
  by (auto simp: serialize_vault_file_def bind_eq_Some_conv)

lemma parse_header_vault_file:
  assumes "header_wf h" "serialize_header h = Inr hdr" "serialize_vault_file hdr table body = Inr bs"
  shows "parse_header bs = Inr h"
proof -
  have "length hdr = 147"
    using assms(2) serialize_header_Inr [OF assms(1)] length_header_tlvs [OF assms(1)] by auto
  moreover have s: "length table \<le> u32_max"
    "26 + length hdr + length body + length table \<le> usize_max"
    and bs: "bs = (MAGIC @ u16_le 1 @ u32_le (of_nat (length hdr)) @ u32_le (of_nat (length table)) @
      u64_le (of_nat (length body + length table))) @ hdr @ (body @ table)"
    using assms(3) by (auto simp: serialize_vault_file_Inr)
  ultimately show ?thesis
    unfolding bs using assms(1,2)
    by (intro parse_header_serialized [where rl = "of_nat (length table)"
          and bl = "of_nat (length body + length table)"])
       (simp_all del: of_nat_add)
qed

subsection \<open>Properties\<close>

text \<open>Record frames have one encoding: a frame slice parses exactly when it is the output
  of \<open>serialize_record_frame\<close> for a frame of version 1 with a full AEAD tag, and then to that
  frame. Every length field, the nonce length and the 79-byte AAD are pinned; nothing may
  follow the ciphertext.\<close>

theorem record_frame_canonical:
  "parse_whole_frame bs = Inr f \<longleftrightarrow>
    stored_frame_wf f \<and> serialize_record_frame f (rf_stored_aad f) = Inr bs"
  by (rule frame_fmt.par_iff)

text \<open>\<open>serialize_record_frame\<close> emits frames that \<open>parse_record_frame\<close> refuses: a frame
  whose ciphertext is shorter than an AEAD tag (a tombstone has none) is written but cannot be
  read back, whatever length is declared for it.\<close>

theorem short_frame_unreadable:
  assumes "serialize_record_frame f aad = Inr bs" "frame_wf f" "length aad = 79"
    and "length (rf_ciphertext f) < 16"
  shows "\<not> is_ok (parse_record_frame bs n 1)"
proof
  assume "is_ok (parse_record_frame bs n 1)"
  then obtain g where g: "parse_record_frame bs n 1 = Inr g" by (auto simp: is_ok_iff)
  then have "unat n \<le> length bs" by (auto simp: parse_record_frame_def not_less split: if_splits)
  moreover have "164 \<le> unat n"
    using parse_record_frame_sound [OF g] by (simp add: stored_frame_wf_def)
  moreover have "length bs < 164"
    using assms by (auto simp: serialize_record_frame_Inr frame_wf_def)
  ultimately show False by simp
qed

theorem short_frame_unreadable_witness:
  "\<not> is_ok (parse_record_frame (u16_le 1 @ zeros 16 @ zeros 16 @ u16_le 1 @ [24] @ zeros 24 @
      u32_le 79 @ zeros 79 @ u32_le 0 @ []) 148 1)"
  by (rule short_frame_unreadable [where aad = "zeros 79" and
        f = "\<lparr>rf_frame_version = 1, rf_record_id = zeros 16, rf_revision_id = zeros 16,
          rf_nonce = zeros 24, rf_stored_aad = zeros 79, rf_ciphertext_len = 0,
          rf_ciphertext = []\<rparr>"])
     (simp_all add: serialize_record_frame_Inr frame_wf_def u32_max_def usize_max_def)

text \<open>Item envelopes have one encoding: a ciphertext parses as an item envelope exactly
  when \<open>serialize_item_record_frame_envelope\<close> writes it, so truncation, trailing bytes and empty
  ciphertexts are all rejected.\<close>

theorem item_envelope_canonical:
  "parse_item_record_frame_envelope bs = Inr e \<longleftrightarrow>
    envelope_wf e \<and> serialize_item_record_frame_envelope e = Inr bs"
  by (rule item_env.par_iff)

text \<open>C30. The record AAD is a 79-byte injective encoding: two records have the same AAD only if
  they agree on the vault, on all five profile fields and on record id, revision and kind. A
  frame moved to another record, revision, vault or profile fails authentication.\<close>

theorem record_aad_injective:
  assumes "length v = 16" "length v' = 16" "length r = 16" "length r' = 16"
    and "length x = 16" "length x' = 16"
  shows "length (build_aad v a b c d e r x k) = 79 \<and>
    (build_aad v a b c d e r x k = build_aad v' a' b' c' d' e' r' x' k' \<longleftrightarrow>
      (v, a, b, c, d, e, r, x, k) = (v', a', b', c', d', e', r', x', k'))"
  using assms build_aad_inj [OF assms] by simp

theorem record_aad_injective_witness:
  "length (build_aad (zeros 16) 1 2 1 1 0 (zeros 16) (zeros 16) 1) = 79 \<and>
    (build_aad (zeros 16) 1 2 1 1 0 (zeros 16) (zeros 16) 1 =
       build_aad (zeros 16) 1 2 1 1 0 (replicate 16 1) (zeros 16) 1 \<longleftrightarrow>
      (zeros 16, 1 :: u16, 2 :: u16, 1 :: u16, 1 :: u16, 0 :: u16, zeros 16, zeros 16, 1 :: u16) =
      (zeros 16, 1, 2, 1, 1, 0, replicate 16 1, zeros 16, 1))"
  by (rule record_aad_injective) simp_all

text \<open>The plaintext record table round trip: what \<open>serialize_record_table\<close> writes, at any
  offset of a file, \<open>parse_record_table\<close> reads back entry by entry, unless an entry has the
  wrapped-root-key kind, which the parser refuses.\<close>

theorem record_table_roundtrip:
  assumes "serialize_record_table es = Inr tb" "list_all entry_wf es"
    and "length (pre @ tb @ rest) \<le> usize_max"
  shows "if (\<exists>e \<in> set es. te_record_kind e = RECORD_KIND_WRAPPED_ROOT_KEY)
    then \<not> is_ok (parse_record_table (pre @ tb @ rest) (length pre) (length tb))
    else parse_record_table (pre @ tb @ rest) (length pre) (length tb) = Inr es"
proof -
  have tb: "length es \<le> u32_max" "tb = u32_le (of_nat (length es)) @ concat (map entry_bytes es)"
    using assms(1) by (simp_all add: serialize_record_table_Inr)
  have iff: "parse_record_table (pre @ tb @ rest) (length pre) (length tb) = Inr es' \<longleftrightarrow>
    list_all table_entry_ok es' \<and> length es' \<le> u32_max \<and> length tb = 4 + 46 * length es' \<and>
    holds_at (pre @ tb @ rest) (length pre) (u32_le (of_nat (length es')) @ concat (map entry_bytes es'))"
    for es'
    using assms(3) by (rule parse_record_table_Inr)
  show ?thesis
  proof (cases "\<exists>e \<in> set es. te_record_kind e = RECORD_KIND_WRAPPED_ROOT_KEY")
    case True
    have "es' = es" if "parse_record_table (pre @ tb @ rest) (length pre) (length tb) = Inr es'" for es'
    proof -
      have ok: "list_all entry_wf es'" "length es' = length es"
        using that assms(2) tb(2) unfolding iff by (auto simp: table_entry_ok_def list_all_iff)
      moreover have "concat (map entry_bytes es') = concat (map entry_bytes es)"
        using that ok assms(2) tb(2) unfolding iff by (auto simp: holds_at_def)
      ultimately show ?thesis using assms(2) by (intro entries_bytes_inj) simp_all
    qed
    moreover have "\<not> list_all table_entry_ok es"
      using True by (auto simp: list_all_iff table_entry_ok_def)
    ultimately show ?thesis using True iff by (auto simp: is_ok_iff)
  next
    case False
    then have "list_all table_entry_ok es"
      using assms(2) by (auto simp: list_all_iff table_entry_ok_def)
    moreover have "holds_at (pre @ tb @ rest) (length pre) tb"
      by (rule holds_at_in_append) simp
    ultimately have "parse_record_table (pre @ tb @ rest) (length pre) (length tb) = Inr es"
      using tb assms(2) unfolding iff by simp
    then show ?thesis by (simp add: False)
  qed
qed

theorem record_table_roundtrip_witness:
  "let es = [\<lparr>te_record_id = zeros 16, te_record_kind = 1, te_revision_id = zeros 16,
       te_frame_offset = 300, te_frame_len = 164\<rparr>];
     tb = u32_le 1 @ concat (map entry_bytes es) in
   if (\<exists>e \<in> set es. te_record_kind e = RECORD_KIND_WRAPPED_ROOT_KEY)
   then \<not> is_ok (parse_record_table ([7] @ tb @ [8]) (length [7 :: byte]) (length tb))
   else parse_record_table ([7] @ tb @ [8]) (length [7 :: byte]) (length tb) = Inr es"
  unfolding Let_def
  by (rule record_table_roundtrip)
     (simp_all add: serialize_record_table_Inr u32_max_def entry_wf_def usize_max_def entry_bytes_def)

end
