(* ===== verification/Sealed_Table.thy ===== *)
theory Sealed_Table
  imports Format_Records Crypto_Api "HOL-Library.Multiset"
begin

text \<open>
  The encrypted record table of vault/format.rs (schema V2): padding to a power-of-two bucket,
  sealing under the metadata key, opening with all its structural checks. The unstable sort of
  the frame extents is modelled by a stable one: the two can only disagree on extents that
  start at the same offset, where at most one of them is not empty.
\<close>

subsection \<open>Buckets\<close>

text \<open>\<open>usize::checked_next_power_of_two\<close> and \<open>usize::is_power_of_two\<close>.\<close>

function next_pow2_from :: "nat \<Rightarrow> nat \<Rightarrow> nat" where
  "next_pow2_from p n = (if p = 0 \<or> n \<le> p then p else next_pow2_from (2 * p) n)"
  by pat_completeness auto
termination by (relation "measure (\<lambda>(p, n). n - p)") auto

declare next_pow2_from.simps [simp del]

definition checked_next_power_of_two :: "nat \<Rightarrow> nat option" where
  "checked_next_power_of_two n =
     (let p = next_pow2_from 1 n in if p \<le> usize_max then Some p else None)"

fun is_power_of_two :: "nat \<Rightarrow> bool" where
  "is_power_of_two n =
     (if n = 0 then False else if n = 1 then True
      else if n mod 2 = 0 then is_power_of_two (n div 2) else False)"

declare is_power_of_two.simps [simp del]

definition sealed_record_table_padded_plaintext_len :: "nat \<Rightarrow> nat res" where
  "sealed_record_table_padded_plaintext_len entry_count =
     and_then (if entry_count = 0 then ok 1
               else ok_or (checked_next_power_of_two entry_count)
                      (format_error ''sealed table bucket overflow'')) (\<lambda>bucket_capacity.
     ok_or (Option.bind (checked_mul bucket_capacity RECORD_TABLE_ENTRY_LEN)
              (checked_add RECORD_TABLE_COUNT_LEN))
       (format_error ''sealed table padded length overflow''))"

definition build_table_aad_v2 :: "byte list \<Rightarrow> u16 \<Rightarrow> byte list res" where
  "build_table_aad_v2 vault_id schema_profile =
     (if schema_profile \<noteq> SCHEMA_MEISSNER_RECORDS_V2
      then err (format_error ''unsupported schema profile'')
      else ok (vault_id @ u16_le schema_profile))"

subsection \<open>Sealing\<close>

text \<open>The loop that appends the entries to the plaintext.\<close>

primrec table_plaintext :: "byte list \<Rightarrow> RecordTableEntry list \<Rightarrow> byte list res" where
  "table_plaintext plaintext [] = ok plaintext"
| "table_plaintext plaintext (e # es) =
     (if te_record_kind e = 0 \<or> te_record_kind e = RECORD_KIND_WRAPPED_ROOT_KEY
      then err (format_error ''invalid V2 record table entry kind'')
      else table_plaintext (plaintext @ entry_bytes e) es)"

text \<open>\<open>Vec::resize(n, 0)\<close>\<close>

definition resize0 :: "nat \<Rightarrow> byte list \<Rightarrow> byte list" where
  "resize0 n bs = take n bs @ zeros (n - length bs)"

definition serialize_sealed_record_table_v2 ::
    "prims \<Rightarrow> RecordTableEntry list \<Rightarrow> key \<Rightarrow> byte list \<Rightarrow> u16 \<Rightarrow> byte list io" where
  "serialize_sealed_record_table_v2 P entries metadata_key vault_id schema_profile =
     bind_act (lift_rs (build_table_aad_v2 vault_id schema_profile)) (\<lambda>table_aad.
     bind_act (lift_rs (sealed_record_table_padded_plaintext_len (length entries))) (\<lambda>padded_len.
     bind_act (lift_rs (len_to_u32 (length entries) ''record table count overflow'')) (\<lambda>count.
     bind_act (lift_rs (table_plaintext (u32_le count) entries)) (\<lambda>plaintext.
     bind_act (map_err_act (encrypt P metadata_key (resize0 padded_len plaintext) table_aad)
                 (format_error ''sealed record table encryption failed'')) (\<lambda>(ciphertext, nonce).
     lift_rs (
       and_then (ok_or (checked_add XCHACHA20_NONCE_LEN (length ciphertext))
                   (format_error ''sealed table length overflow'')) (\<lambda>l.
       and_then (len_to_u32 l ''sealed table length overflow'') (\<lambda>sealed_table_len.
       and_then (to_usize (unat sealed_table_len)
                   (format_error ''sealed table length overflow'')) (\<lambda>stl.
       and_then (ok_or (checked_add 4 stl)
                   (format_error ''sealed table length overflow'')) (\<lambda>capacity.
       ok (u32_le sealed_table_len @ nonce @ ciphertext)))))))))))"

subsection \<open>Opening\<close>

definition table_field :: "byte list \<Rightarrow> nat \<Rightarrow> nat \<Rightarrow> byte list res" where
  "table_field plaintext cursor n =
     and_then (ok_or (get_range plaintext cursor (cursor + n))
                 (format_error ''truncated sealed table entry'')) (\<lambda>v.
     read_array n v ''truncated sealed table entry'')"

record TableAcc =
  ta_entries :: "RecordTableEntry list"
  ta_live_ids :: "byte list set"
  ta_extents :: "(nat \<times> nat) list"

text \<open>One iteration over the entries; the bounds come from the file and the key frame.\<close>

definition open_table_entry ::
    "byte list \<Rightarrow> nat \<Rightarrow> nat \<Rightarrow> nat \<Rightarrow> nat \<Rightarrow> TableAcc \<Rightarrow> TableAcc res" where
  "open_table_entry plaintext wrk_frame_end file_len sealed_table_end cursor acc =
     and_then (table_field plaintext cursor 16) (\<lambda>record_id.
     and_then (table_field plaintext (cursor + 16) 2) (\<lambda>kind_bytes.
     and_then (table_field plaintext (cursor + 16 + 2) 16) (\<lambda>revision_id.
     and_then (table_field plaintext (cursor + 16 + 2 + 16) 8) (\<lambda>off_bytes.
     and_then (table_field plaintext (cursor + 16 + 2 + 16 + 8) 4) (\<lambda>len_bytes.
     let record_kind = u16_from_le kind_bytes; frame_offset = u64_from_le off_bytes;
         frame_len = u32_from_le len_bytes in
     if record_kind = 0 \<or> record_kind = RECORD_KIND_WRAPPED_ROOT_KEY
     then err (format_error ''invalid V2 record table entry kind'')
     else
     and_then (to_usize (unat frame_offset) (format_error ''frame offset overflow'')) (\<lambda>start.
     and_then (to_usize (unat frame_len) (format_error ''frame length overflow'')) (\<lambda>len.
     and_then (ok_or (checked_add start len) (format_error ''frame bounds overflow'')) (\<lambda>frame_end.
     if start < wrk_frame_end \<or> frame_end > file_len
     then err (format_error ''record frame offset out of bounds'')
     else if start < sealed_table_end
     then err (format_error ''record frame overlaps sealed table'')
     else if record_id \<in> ta_live_ids acc
     then err (format_error ''duplicate live record id'')
     else ok \<lparr>ta_entries = ta_entries acc @
                [\<lparr>te_record_id = record_id, te_record_kind = record_kind,
                  te_revision_id = revision_id, te_frame_offset = frame_offset,
                  te_frame_len = frame_len\<rparr>],
              ta_live_ids = insert record_id (ta_live_ids acc),
              ta_extents = ta_extents acc @ [(start, frame_end)]\<rparr>))))))))"

primrec open_table_entries ::
    "byte list \<Rightarrow> nat \<Rightarrow> nat \<Rightarrow> nat \<Rightarrow> nat \<Rightarrow> nat \<Rightarrow> TableAcc \<Rightarrow> (nat \<times> TableAcc) res" where
  "open_table_entries plaintext we fl te 0 cursor acc = ok (cursor, acc)"
| "open_table_entries plaintext we fl te (Suc n) cursor acc =
     and_then (open_table_entry plaintext we fl te cursor acc) (\<lambda>acc.
     open_table_entries plaintext we fl te n (cursor + RECORD_TABLE_ENTRY_LEN) acc)"

text \<open>\<open>windows(2)\<close> over the sorted extents.\<close>

fun overlap_free :: "(nat \<times> nat) list \<Rightarrow> bool" where
  "overlap_free ((_, left_end) # (right_start, e) # r) \<longleftrightarrow>
     \<not> right_start < left_end \<and> overlap_free ((right_start, e) # r)"
| "overlap_free _ \<longleftrightarrow> True"

text \<open>The part after authentication, on the decrypted plaintext.\<close>

definition open_table_plaintext ::
    "byte list \<Rightarrow> nat \<Rightarrow> nat \<Rightarrow> nat \<Rightarrow> RecordTableEntry list res" where
  "open_table_plaintext plaintext wrk_frame_end file_len sealed_table_end =
     (if length plaintext < RECORD_TABLE_COUNT_LEN
      then err (format_error ''truncated sealed table plaintext'')
      else
     and_then (ok_or (checked_sub (length plaintext) RECORD_TABLE_COUNT_LEN)
                 (format_error ''sealed table plaintext length overflow'')) (\<lambda>payload_len.
     if payload_len mod RECORD_TABLE_ENTRY_LEN \<noteq> 0
     then err (format_error ''invalid sealed table padding bucket'')
     else
     let bucket_capacity = payload_len div RECORD_TABLE_ENTRY_LEN in
     if bucket_capacity = 0 \<or> \<not> is_power_of_two bucket_capacity
     then err (format_error ''invalid sealed table padding bucket'')
     else
     and_then (index_range plaintext 0 4) (\<lambda>count_bytes.
     and_then (read_array 4 count_bytes ''invalid entry count'') (\<lambda>count_array.
     and_then (to_usize (unat (u32_from_le count_array))
                 (format_error ''record table count overflow'')) (\<lambda>entry_count.
     if entry_count > bucket_capacity
     then err (format_error ''entry count exceeds padding bucket'')
     else
     and_then (open_table_entries plaintext wrk_frame_end file_len sealed_table_end entry_count
                 RECORD_TABLE_COUNT_LEN
                 \<lparr>ta_entries = [], ta_live_ids = {}, ta_extents = []\<rparr>) (\<lambda>(cursor, acc).
     and_then (index_range plaintext cursor (length plaintext)) (\<lambda>padding.
     if list_ex (\<lambda>b. b \<noteq> 0) padding then err (format_error ''non-zero sealed table padding'')
     else if \<not> overlap_free (sort_key fst (ta_extents acc))
     then err (format_error ''record frames overlap'')
     else ok (ta_entries acc))))))))"

definition open_sealed_record_table_v2 ::
    "prims \<Rightarrow> byte list \<Rightarrow> nat \<Rightarrow> nat \<Rightarrow> key \<Rightarrow> byte list \<Rightarrow> u16 \<Rightarrow> nat \<Rightarrow> nat \<Rightarrow>
     RecordTableEntry list res" where
  "open_sealed_record_table_v2 P bytes offset len metadata_key vault_id schema_profile
     wrk_frame_end file_len =
     and_then (build_table_aad_v2 vault_id schema_profile) (\<lambda>table_aad.
     and_then (ok_or (checked_add offset len)
                 (format_error ''sealed table bounds overflow'')) (\<lambda>end_at.
     if end_at > length bytes \<or> len < 4 + XCHACHA20_NONCE_LEN + TAG_LEN
     then err (format_error ''truncated sealed record table'')
     else
     and_then (read_u32_le bytes offset) (\<lambda>stl.
     and_then (to_usize (unat stl) (format_error ''sealed table length overflow'')) (\<lambda>sealed_table_len.
     if sealed_table_len < XCHACHA20_NONCE_LEN + TAG_LEN
     then err (format_error ''sealed table length too short'')
     else
     and_then (ok_or (checked_add 4 sealed_table_len)
                 (format_error ''sealed table length overflow'')) (\<lambda>expected_len.
     if len \<noteq> expected_len then err (format_error ''sealed table length mismatch'')
     else
     and_then (read_array_at 24 bytes (offset + 4)) (\<lambda>nonce.
     and_then (index_range bytes (offset + 4 + XCHACHA20_NONCE_LEN) end_at) (\<lambda>ciphertext.
     and_then (map_err (decrypt P metadata_key nonce ciphertext table_aad)
                 (format_error ''sealed record table authentication failed'')) (\<lambda>plaintext.
     open_table_plaintext plaintext wrk_frame_end file_len end_at))))))))"

subsection \<open>Lemmas: buckets\<close>

lemma is_power_of_two_iff: "is_power_of_two n \<longleftrightarrow> (\<exists>k. n = 2 ^ k)"
proof (induction n rule: less_induct)
  case (less n)
  show ?case
  proof (cases "n \<le> 1 \<or> n mod 2 \<noteq> 0")
    case True
    then consider "n = 0" | "n = 1" | "1 < n" "n mod 2 \<noteq> 0" by linarith
    then show ?thesis
    proof cases
      case 1
      then show ?thesis by (simp add: is_power_of_two.simps)
    next
      case 2
      then show ?thesis by (auto simp: is_power_of_two.simps intro: exI [of _ 0])
    next
      case 3
      have "n \<noteq> 2 ^ k" for k using 3 by (cases k) auto
      then show ?thesis using 3 by (subst is_power_of_two.simps) auto
    qed
  next
    case False
    then have "is_power_of_two n \<longleftrightarrow> is_power_of_two (n div 2)"
      by (subst is_power_of_two.simps) auto
    also have "\<dots> \<longleftrightarrow> (\<exists>k. n div 2 = 2 ^ k)" using False by (intro less) simp
    also have "\<dots> \<longleftrightarrow> (\<exists>k. n = 2 ^ k)"
    proof
      assume "\<exists>k. n div 2 = 2 ^ k"
      then obtain k where "n div 2 = 2 ^ k" by blast
      then have "n = 2 ^ Suc k" using False by auto
      then show "\<exists>k. n = 2 ^ k" by blast
    next
      assume "\<exists>k. n = 2 ^ k"
      then obtain k where k: "n = 2 ^ k" by blast
      then obtain j where "k = Suc j" using False by (cases k) auto
      then show "\<exists>k. n div 2 = 2 ^ k" using k by auto
    qed
    finally show ?thesis .
  qed
qed

definition bucket :: "nat \<Rightarrow> nat" where
  "bucket n = next_pow2_from 1 n"

lemma next_pow2_from_spec:
  "\<exists>j \<ge> i. next_pow2_from (2 ^ i) n = 2 ^ j \<and> n \<le> 2 ^ j \<and> (j = i \<or> 2 ^ j < 2 * n)"
proof (induction "n - 2 ^ i" arbitrary: i rule: less_induct)
  case less
  show ?case
  proof (cases "n \<le> 2 ^ i")
    case True
    then show ?thesis by (subst next_pow2_from.simps) auto
  next
    case False
    then have "n - 2 ^ Suc i < n - 2 ^ i" by (simp add: diff_less_mono2)
    then obtain j where j: "j \<ge> Suc i" "next_pow2_from (2 ^ Suc i) n = 2 ^ j" "n \<le> 2 ^ j"
      "j = Suc i \<or> 2 ^ j < 2 * n" using less [of "Suc i"] by blast
    moreover have "next_pow2_from (2 ^ i) n = next_pow2_from (2 ^ Suc i) n"
      using False by (subst next_pow2_from.simps) simp
    moreover have "2 ^ j < 2 * n" using j(4) False by auto
    ultimately show ?thesis by (intro exI [of _ j]) auto
  qed
qed

lemma bucket_spec: "is_power_of_two (bucket n) \<and> n \<le> bucket n \<and> (bucket n = 1 \<or> bucket n < 2 * n)"
  using next_pow2_from_spec [of 0 n] by (auto simp: bucket_def is_power_of_two_iff)

lemma bucket_pos [simp]: "0 < bucket n"
  using bucket_spec [of n] by (auto simp: is_power_of_two_iff)

lemma bucket_0 [simp]: "bucket 0 = 1"
  by (simp add: bucket_def next_pow2_from.simps)

lemma padded_len_Inr:
  "sealed_record_table_padded_plaintext_len n = Inr l \<longleftrightarrow>
    l = 4 + 46 * bucket n \<and> 4 + 46 * bucket n \<le> usize_max"
proof -
  have "next_pow2_from 1 n = bucket n" by (simp add: bucket_def)
  then show ?thesis
    by (auto simp: sealed_record_table_padded_plaintext_len_def checked_next_power_of_two_def Let_def
        bind_eq_Some_conv mult.commute)
qed

lemma build_table_aad_v2_Inr [simp]:
  "build_table_aad_v2 v s = Inr a \<longleftrightarrow> s = SCHEMA_MEISSNER_RECORDS_V2 \<and> a = v @ u16_le s"
  by (auto simp: build_table_aad_v2_def)

subsection \<open>Lemmas: what is sealed\<close>

definition sealable :: "RecordTableEntry \<Rightarrow> bool" where
  "sealable e \<longleftrightarrow> te_record_kind e \<noteq> 0 \<and> te_record_kind e \<noteq> RECORD_KIND_WRAPPED_ROOT_KEY"

lemma table_plaintext_Inr:
  "table_plaintext pt es = Inr out \<longleftrightarrow> list_all sealable es \<and> out = pt @ concat (map entry_bytes es)"
  by (induction es arbitrary: pt) (auto simp: sealable_def)

definition padded_table :: "RecordTableEntry list \<Rightarrow> byte list" where
  "padded_table es =
     u32_le (of_nat (length es)) @ concat (map entry_bytes es) @ zeros (46 * (bucket (length es) - length es))"

lemma length_padded_table [simp]:
  "list_all entry_wf es \<Longrightarrow> length (padded_table es) = 4 + 46 * bucket (length es)"
  using bucket_spec [of "length es"] by (simp add: padded_table_def diff_mult_distrib2)

lemma resize0_padded:
  assumes "list_all entry_wf es"
  shows "resize0 (4 + 46 * bucket (length es)) (u32_le (of_nat (length es)) @ concat (map entry_bytes es)) =
    padded_table es"
  using assms bucket_spec [of "length es"]
  by (simp add: resize0_def padded_table_def diff_mult_distrib2)

text \<open>The section that sealing produces, as a relation on the bytes.\<close>

definition sealed_section ::
    "prims \<Rightarrow> RecordTableEntry list \<Rightarrow> key \<Rightarrow> byte list \<Rightarrow> byte list \<Rightarrow> byte list \<Rightarrow> bool" where
  "sealed_section P es k vault_id nonce sec \<longleftrightarrow>
     (\<exists>c. xchacha_seal P k nonce (vault_id @ u16_le 2) (padded_table es) = Some c \<and>
       24 + length c \<le> u32_max \<and> sec = u32_le (of_nat (24 + length c)) @ nonce @ c)"

lemma u32_slack: "n \<le> u32_max \<Longrightarrow> n \<le> usize_max \<and> 4 + n \<le> usize_max"
  by (simp add: u32_max_def usize_max_def)

lemma serialize_sealed_Inr:
  assumes "list_all entry_wf es"
  shows "serialize_sealed_record_table_v2 P es k v s w = (Inr sec, w') \<longleftrightarrow>
    s = 2 \<and> list_all sealable es \<and> length es \<le> u32_max \<and> 4 + 46 * bucket (length es) \<le> usize_max \<and>
    sealed_section P es k v (next_random w 24) sec \<and> w' = w\<lparr>drawn := drawn w + 24\<rparr>"
  unfolding serialize_sealed_record_table_v2_def sealed_section_def
  by (auto simp: bind_act_eq_Inr padded_len_Inr table_plaintext_Inr encrypt_Inr
      resize0_padded [OF assms] split: prod.splits simp del: of_nat_add)
     (simp_all add: u32_max_def usize_max_def)

subsection \<open>Lemmas: opening\<close>

definition extent :: "RecordTableEntry \<Rightarrow> nat \<times> nat" where
  "extent e = (unat (te_frame_offset e), unat (te_frame_offset e) + unat (te_frame_len e))"

definition placed :: "nat \<Rightarrow> nat \<Rightarrow> RecordTableEntry \<Rightarrow> bool" where
  "placed lo hi e \<longleftrightarrow> lo \<le> fst (extent e) \<and> snd (extent e) \<le> hi"

definition acc_add :: "TableAcc \<Rightarrow> RecordTableEntry \<Rightarrow> TableAcc" where
  "acc_add acc e = \<lparr>ta_entries = ta_entries acc @ [e],
     ta_live_ids = insert (te_record_id e) (ta_live_ids acc),
     ta_extents = ta_extents acc @ [extent e]\<rparr>"

lemma table_field_Inr:
  "table_field pt c n = Inr x \<longleftrightarrow> holds_at pt c x \<and> length x = n"
  by (auto simp: table_field_def get_range_holds_at)

lemma open_table_entry_Inr:
  assumes "fl \<le> usize_max"
  shows "open_table_entry pt we fl te cur acc = Inr acc' \<longleftrightarrow>
    (\<exists>e. entry_wf e \<and> sealable e \<and> holds_at pt cur (entry_bytes e) \<and> placed (max we te) fl e \<and>
      te_record_id e \<notin> ta_live_ids acc \<and> acc' = acc_add acc e)"
  (is "?l \<longleftrightarrow> ?r")
proof
  assume ?l
  then obtain rid kb rev ob lb where f:
    "holds_at pt cur rid" "length rid = 16" "holds_at pt (cur + 16) kb" "length kb = 2"
    "holds_at pt (cur + 16 + 2) rev" "length rev = 16"
    "holds_at pt (cur + 16 + 2 + 16) ob" "length ob = 8"
    "holds_at pt (cur + 16 + 2 + 16 + 8) lb" "length lb = 4"
    and kind: "u16_from_le kb \<noteq> 0" "u16_from_le kb \<noteq> 2"
    and pos: "we \<le> unat (u64_from_le ob)" "te \<le> unat (u64_from_le ob)"
      "unat (u64_from_le ob) + unat (u32_from_le lb) \<le> fl" "rid \<notin> ta_live_ids acc"
    and acc': "acc' = \<lparr>ta_entries = ta_entries acc @
                [\<lparr>te_record_id = rid, te_record_kind = u16_from_le kb,
                  te_revision_id = rev, te_frame_offset = u64_from_le ob,
                  te_frame_len = u32_from_le lb\<rparr>],
              ta_live_ids = insert rid (ta_live_ids acc),
              ta_extents = ta_extents acc @ [(unat (u64_from_le ob),
                unat (u64_from_le ob) + unat (u32_from_le lb))]\<rparr>"
    by (auto simp: open_table_entry_def Let_def table_field_Inr not_less split: if_splits)
  let ?e = "\<lparr>te_record_id = rid, te_record_kind = u16_from_le kb, te_revision_id = rev,
    te_frame_offset = u64_from_le ob, te_frame_len = u32_from_le lb\<rparr>"
  have "entry_wf ?e" "sealable ?e" "placed (max we te) fl ?e" "te_record_id ?e \<notin> ta_live_ids acc"
    "acc' = acc_add acc ?e"
    using f kind pos acc' by (simp_all add: entry_wf_def sealable_def placed_def extent_def acc_add_def)
  moreover have "holds_at pt cur (entry_bytes ?e)"
    using f by (simp add: entry_bytes_def holds_at_append ac_simps)
  ultimately show ?r by blast
next
  assume ?r
  then obtain e where e: "entry_wf e" "sealable e" "holds_at pt cur (entry_bytes e)"
    "placed (max we te) fl e" "te_record_id e \<notin> ta_live_ids acc" "acc' = acc_add acc e" by blast
  have "table_field pt cur 16 = Inr (te_record_id e)"
    "table_field pt (cur + 16) 2 = Inr (u16_le (te_record_kind e))"
    "table_field pt (cur + 16 + 2) 16 = Inr (te_revision_id e)"
    "table_field pt (cur + 16 + 2 + 16) 8 = Inr (u64_le (te_frame_offset e))"
    "table_field pt (cur + 16 + 2 + 16 + 8) 4 = Inr (u32_le (te_frame_len e))"
    using e(1,3) by (simp_all add: table_field_Inr entry_bytes_def holds_at_append entry_wf_def ac_simps)
  then show ?l
    using e assms
    by (simp add: open_table_entry_def Let_def sealable_def placed_def extent_def acc_add_def not_less)
qed

definition acc_adds :: "TableAcc \<Rightarrow> RecordTableEntry list \<Rightarrow> TableAcc" where
  "acc_adds acc es = fold (\<lambda>e acc. acc_add acc e) es acc"

lemma acc_adds_fields:
  "ta_entries (acc_adds acc es) = ta_entries acc @ es"
  "ta_extents (acc_adds acc es) = ta_extents acc @ map extent es"
  "ta_live_ids (acc_adds acc es) = ta_live_ids acc \<union> set (map te_record_id es)"
  by (induction es arbitrary: acc) (auto simp: acc_adds_def acc_add_def)

definition entries_ok :: "nat \<Rightarrow> nat \<Rightarrow> RecordTableEntry list \<Rightarrow> bool" where
  "entries_ok lo hi es \<longleftrightarrow> list_all (\<lambda>e. entry_wf e \<and> sealable e \<and> placed lo hi e) es \<and>
     distinct (map te_record_id es)"

lemma entries_ok_wf: "entries_ok lo hi es \<Longrightarrow> list_all entry_wf es"
  by (auto simp: entries_ok_def list_all_iff)

lemma open_table_entries_Inr:
  assumes fl: "fl \<le> usize_max"
  shows "open_table_entries pt we fl te n cur acc = Inr (c, acc') \<longleftrightarrow>
    (\<exists>es. length es = n \<and> c = cur + 46 * n \<and> entries_ok (max we te) fl es \<and>
      ta_live_ids acc \<inter> set (map te_record_id es) = {} \<and>
      (n \<noteq> 0 \<longrightarrow> holds_at pt cur (concat (map entry_bytes es))) \<and> acc' = acc_adds acc es)"
proof (induction n arbitrary: cur acc)
  case 0
  then show ?case by (auto simp: acc_adds_def entries_ok_def)
next
  case (Suc n)
  show ?case (is "?l \<longleftrightarrow> ?r")
  proof
    assume ?l
    then obtain e es where e: "entry_wf e" "sealable e" "holds_at pt cur (entry_bytes e)"
        "placed (max we te) fl e" "te_record_id e \<notin> ta_live_ids acc"
      and es: "length es = n" "c = cur + 46 + 46 * n" "entries_ok (max we te) fl es"
        "ta_live_ids (acc_add acc e) \<inter> set (map te_record_id es) = {}"
        "n \<noteq> 0 \<longrightarrow> holds_at pt (cur + 46) (concat (map entry_bytes es))"
        "acc' = acc_adds (acc_add acc e) es"
      by (auto simp: open_table_entry_Inr [OF fl] Suc.IH)
    have "holds_at pt cur (concat (map entry_bytes (e # es)))"
      using e es(1,5) by (cases "n = 0") (simp_all add: holds_at_append)
    then show ?r
      using e es by (intro exI [of _ "e # es"]) (auto simp: entries_ok_def acc_adds_def acc_add_def)
  next
    assume ?r
    then obtain e es where e: "length es = n" "c = cur + 46 * Suc n"
      "entries_ok (max we te) fl (e # es)" "ta_live_ids acc \<inter> set (map te_record_id (e # es)) = {}"
      "holds_at pt cur (entry_bytes e @ concat (map entry_bytes es))"
      "acc' = acc_adds acc (e # es)"
      by (auto simp: length_Suc_conv)
    have 1: "open_table_entry pt we fl te cur acc = Inr (acc_add acc e)"
      using e by (auto simp: open_table_entry_Inr [OF fl] entries_ok_def holds_at_append)
    have "open_table_entries pt we fl te n (cur + 46) (acc_add acc e) = Inr (c, acc')"
      unfolding Suc.IH using e
      by (intro exI [of _ es]) (auto simp: entries_ok_def acc_adds_def acc_add_def holds_at_append)
    then show ?l using 1 by simp
  qed
qed

text \<open>What opens: a table sealed under the key, with some power-of-two bucket.\<close>

definition table_plain :: "nat \<Rightarrow> RecordTableEntry list \<Rightarrow> byte list" where
  "table_plain cap es =
     u32_le (of_nat (length es)) @ concat (map entry_bytes es) @ zeros (46 * (cap - length es))"

lemma padded_table_plain: "padded_table es = table_plain (bucket (length es)) es"
  by (simp add: padded_table_def table_plain_def)

lemma list_ex_zeros: "\<not> list_ex (\<lambda>b. b \<noteq> 0) bs \<longleftrightarrow> bs = zeros (length bs)"
  by (induction bs) (auto simp: zeros_def)

lemma open_table_plaintext_Inr:
  assumes fl: "fl \<le> usize_max"
  shows "open_table_plaintext pt we fl te = Inr es \<longleftrightarrow>
    (\<exists>cap. is_power_of_two cap \<and> length es \<le> cap \<and> length es \<le> u32_max \<and> pt = table_plain cap es) \<and>
    entries_ok (max we te) fl es \<and> overlap_free (sort_key fst (map extent es))"
  (is "?l \<longleftrightarrow> ?r")
proof
  assume ?l
  let ?cap = "(length pt - 4) div 46" and ?cb = "take 4 pt"
  obtain cur acc where
    p1: "4 \<le> length pt" "(length pt - 4) mod 46 = 0" "is_power_of_two ?cap"
      "unat (u32_from_le ?cb) \<le> ?cap"
    and lp: "open_table_entries pt we fl te (unat (u32_from_le ?cb)) 4
        \<lparr>ta_entries = [], ta_live_ids = {}, ta_extents = []\<rparr> = Inr (cur, acc)"
    and pad: "cur \<le> length pt" "\<not> list_ex (\<lambda>b. b \<noteq> 0) (drop cur pt)"
    and ov: "overlap_free (sort_key fst (ta_extents acc))" and es: "es = ta_entries acc"
    using \<open>?l\<close> unfolding open_table_plaintext_def Let_def
    by (auto simp: get_range_Some not_less split: if_splits prod.splits)
  have pt: "4 \<le> length pt" "(length pt - 4) mod 46 = 0" "is_power_of_two ?cap"
    "holds_at pt 0 ?cb" "length ?cb = 4" "unat (u32_from_le ?cb) \<le> ?cap"
    using p1 by (simp_all add: holds_at_def)
  let ?n = "unat (u32_from_le ?cb)"
  obtain es' where e: "length es' = ?n" "cur = 4 + 46 * ?n" "entries_ok (max we te) fl es'"
    "?n \<noteq> 0 \<longrightarrow> holds_at pt 4 (concat (map entry_bytes es'))"
    "acc = acc_adds \<lparr>ta_entries = [], ta_live_ids = {}, ta_extents = []\<rparr> es'"
    using lp by (auto simp: open_table_entries_Inr [OF fl])
  have es': "es' = es" "ta_extents acc = map extent es" using e(5) es by (simp_all add: acc_adds_fields)
  have wf: "list_all entry_wf es" using e(3) es' by (auto intro: entries_ok_wf)
  have "46 * ?cap = length pt - 4" using pt(2) by (simp add: mult_div_mod_eq [symmetric] flip: minus_mod_eq_mult_div)
  moreover define cap where "cap = ?cap"
  ultimately have lpt: "length pt = 4 + 46 * cap" using pt(1) by simp
  define n where "n = ?n"
  note pt = pt [folded cap_def, folded n_def] and e = e [folded n_def]
  have "drop cur pt = zeros (length (drop cur pt))" using pad(2) list_ex_zeros by blast
  then have dz: "drop cur pt = zeros (46 * (cap - n))"
    using lpt e(2) by (simp add: diff_mult_distrib2)
  let ?out = "u32_le (of_nat (length es)) @ concat (map entry_bytes es) @ zeros (46 * (cap - n))"
  have "holds_at pt 4 (concat (map entry_bytes es))"
    using e(1,4) es' pt(1) by (cases "n = 0") auto
  moreover have "holds_at pt (4 + 46 * n) (drop cur pt)"
    using e(2) pad(1) by (simp add: holds_at_def)
  moreover have "take 4 pt = u32_le (of_nat n)"
    using pt(5) by (simp add: n_def)
  ultimately have "holds_at pt 0 ?out"
    using pt(4,5) e(1) es' wf dz by (simp add: holds_at_append)
  moreover have "length pt = length ?out"
    using lpt e(1) es' wf pt(6) by (simp add: diff_mult_distrib2)
  ultimately have "pt = ?out" by (rule holds_at_whole)
  then have "pt = table_plain cap es" using e(1) es' by (simp add: table_plain_def)
  then show ?r
    using pt(3,6) e(1,3) es' ov unat_u32_bound [of "u32_from_le ?cb", folded n_def] by auto
next
  assume ?r
  then obtain cap where c: "is_power_of_two cap" "length es \<le> cap" "length es \<le> u32_max"
    and pt: "pt = table_plain cap es" and ok: "entries_ok (max we te) fl es"
    and ov: "overlap_free (sort_key fst (map extent es))" by blast
  have wf: "list_all entry_wf es" using ok by (rule entries_ok_wf)
  have cap: "cap \<noteq> 0" using c(1) by (auto simp: is_power_of_two_iff)
  have l: "length pt = 4 + 46 * cap"
    using pt wf c(2) by (simp add: table_plain_def diff_mult_distrib2)
  have h: "holds_at pt 0 (u32_le (of_nat (length es)))"
    "holds_at pt 4 (concat (map entry_bytes es))"
    "holds_at pt (4 + 46 * length es) (zeros (46 * (cap - length es)))"
    using holds_at_self [of pt] wf unfolding pt table_plain_def
    by (simp_all only: holds_at_append) simp_all
  have loop: "open_table_entries pt we fl te (length es) 4
      \<lparr>ta_entries = [], ta_live_ids = {}, ta_extents = []\<rparr> =
    Inr (4 + 46 * length es, acc_adds \<lparr>ta_entries = [], ta_live_ids = {}, ta_extents = []\<rparr> es)"
    using ok h(2) by (auto simp: open_table_entries_Inr [OF fl] intro!: exI [of _ es])
  have cnt: "index_range pt 0 4 = Inr (u32_le (of_nat (length es)))"
    using h(1) by (simp add: get_range_holds_at)
  have "length pt = 4 + 46 * length es + length (zeros (46 * (cap - length es)))"
    using l c(2) by (simp add: diff_mult_distrib2)
  then have pad: "get_range pt (4 + 46 * length es) (4 + 46 * cap) = Some (zeros (46 * (cap - length es)))"
    using h(3) l by (simp add: get_range_holds_at)
  have nz: "\<not> list_ex (\<lambda>b. b \<noteq> 0) (zeros m)" for m by (simp add: list_ex_zeros)
  show ?l
    unfolding open_table_plaintext_def Let_def
    using l cap c ov
    by (auto simp: cnt loop pad nz acc_adds_fields to_usize_def u32_slack read_array_def)
qed

lemma open_sealed_Inr:
  assumes "length bytes \<le> usize_max"
  shows "open_sealed_record_table_v2 P bytes off len k v s we fl = Inr es \<longleftrightarrow>
    s = 2 \<and> (\<exists>nonce c pt. length nonce = 24 \<and> 16 \<le> length c \<and> 24 + length c \<le> u32_max \<and>
      len = 28 + length c \<and>
      holds_at bytes off (u32_le (of_nat (24 + length c)) @ nonce @ c) \<and>
      decrypt P k nonce c (v @ u16_le 2) = Inr pt \<and>
      open_table_plaintext pt we fl (off + len) = Inr es)"
  (is "?l \<longleftrightarrow> ?r")
proof
  assume ?l
  then obtain stl nonce c pt where hd: "s = 2" "off + len \<le> length bytes"
      "holds_at bytes off (u32_le stl)" "len = 4 + unat stl" "40 \<le> unat stl"
      "holds_at bytes (off + 4) nonce" "length nonce = 24"
      "get_range bytes (off + 4 + 24) (off + len) = Some c"
    and pt: "decrypt P k nonce c (v @ u16_le 2) = Inr pt"
      "open_table_plaintext pt we fl (off + len) = Inr es"
    unfolding open_sealed_record_table_v2_def
    by (auto simp: reads_Inr not_less split: if_splits)
  have c: "holds_at bytes (off + 4 + 24) c" "off + len = off + 4 + 24 + length c"
    using hd(8) by (simp_all add: get_range_holds_at)
  then have u: "unat stl = 24 + length c" using hd(4) by simp
  then have "stl = of_nat (24 + length c)" by (metis unat_inj unat_of_nat_u32 unat_u32_bound)
  then have "holds_at bytes off (u32_le (of_nat (24 + length c)) @ nonce @ c)"
    using hd c by (simp add: holds_at_append ac_simps del: of_nat_add)
  moreover have "24 + length c \<le> u32_max" using u unat_u32_bound [of stl] by simp
  moreover have "16 \<le> length c" "len = 28 + length c" using u hd(4,5) by simp_all
  ultimately show ?r using hd(1,7) pt by blast
next
  assume ?r
  then obtain nonce c pt where s: "s = 2" and l: "length nonce = 24" "16 \<le> length c"
      "24 + length c \<le> u32_max" "len = 28 + length c"
    and h: "holds_at bytes off (u32_le (of_nat (24 + length c)) @ nonce @ c)"
    and pt: "decrypt P k nonce c (v @ u16_le 2) = Inr pt"
      "open_table_plaintext pt we fl (off + len) = Inr es" by blast
  have b: "off + len \<le> length bytes" using holds_at_bound [OF h] l by simp
  have r: "read_u32_le bytes off = Inr (of_nat (24 + length c))"
    "read_array_at 24 bytes (off + 4) = Inr nonce"
    using h l b assms by (simp_all add: reads_Inr holds_at_append ac_simps del: of_nat_add)
  have gr: "get_range bytes (off + 4 + 24) (off + len) = Some c"
    using h l by (simp add: get_range_holds_at holds_at_append ac_simps)
  have ir: "index_range bytes (off + 4 + 24) (off + len) = Inr c"
    using gr by simp
  then show ?l
    unfolding open_sealed_record_table_v2_def
    using s l(1-3) b r pt assms
    by (simp add: ir l(4) [symmetric] to_usize_def u32_slack del: of_nat_add index_range_Inr)
       (simp add: l(4))
qed

lemma no_panic_open_table_entries [simp]: "no_panic (open_table_entries pt we fl te n cur acc)"
proof (induction n arbitrary: cur acc)
  case 0
  then show ?case by simp
next
  case (Suc n)
  have "no_panic (table_field pt c m)" for c m
    unfolding table_field_def by (intro no_panic_intros) simp_all
  then have "no_panic (open_table_entry pt we fl te cur acc)"
    unfolding open_table_entry_def Let_def by (intro no_panic_intros; simp)
  with Suc show ?case by (auto intro!: no_panic_intros)
qed

lemma open_entries_cursor: "open_table_entries pt we fl te n cur acc = Inr (c, acc') \<Longrightarrow> c = cur + 46 * n"
  by (induction n arbitrary: cur acc) fastforce+

lemma no_panic_open_table_plaintext [simp]: "no_panic (open_table_plaintext pt we fl te)"
proof -
  have "46 * n \<le> length pt - 4" if "(length pt - 4) mod 46 = 0" "n \<le> (length pt - 4) div 46" for n
    using that by linarith
  then show ?thesis
    unfolding open_table_plaintext_def Let_def
    by (intro no_panic_intros; auto dest!: open_entries_cursor simp: not_less)
qed

lemma no_panic_open_sealed [simp]:
  assumes "length bytes \<le> isize_max"
  shows "no_panic (open_sealed_record_table_v2 P bytes off len k v s we fl)"
  unfolding open_sealed_record_table_v2_def build_table_aad_v2_def
  by (intro no_panic_intros; auto simp: no_panic_def [of "err _"] reads_Inr not_less)

text \<open>Adjacent extents in order: every pair is disjoint.\<close>

lemma overlap_free_sorted_wrt:
  "list_all (\<lambda>(a, b). a \<le> b) xs \<Longrightarrow> overlap_free xs \<longleftrightarrow> sorted_wrt (\<lambda>x y. snd x \<le> fst y) xs"
proof (induction xs rule: overlap_free.induct)
  case (1 s l t e r)
  have "sorted_wrt (\<lambda>x y. snd x \<le> fst y) ((t, e) # r) \<Longrightarrow> l \<le> t \<Longrightarrow> t \<le> e \<Longrightarrow> y \<in> set r \<Longrightarrow> l \<le> fst y" for y
    by fastforce
  with 1 show ?case by (auto simp: not_less)
qed simp_all

definition disjoint_frames :: "RecordTableEntry list \<Rightarrow> bool" where
  "disjoint_frames es \<longleftrightarrow> (\<forall>i j. i < length es \<and> j < length es \<and> i \<noteq> j \<longrightarrow>
     snd (extent (es ! i)) \<le> fst (extent (es ! j)) \<or> snd (extent (es ! j)) \<le> fst (extent (es ! i)))"

lemma sorted_wrt_symp_perm:
  "sorted_wrt R ys \<Longrightarrow> mset xs = mset ys \<Longrightarrow> symp R \<Longrightarrow> sorted_wrt R xs"
proof (induction ys arbitrary: xs)
  case Nil
  then show ?case by simp
next
  case (Cons y ys)
  have "y \<in> set xs" using Cons.prems(2) by (metis list.set_intros(1) set_mset_mset)
  then obtain as bs where xs: "xs = as @ y # bs" by (meson split_list)
  then have m: "mset (as @ bs) = mset ys" using Cons.prems(2) by simp
  then have "set (as @ bs) = set ys" by (metis set_mset_mset)
  moreover have "sorted_wrt R (as @ bs)" using Cons m by simp
  ultimately show ?case
    using Cons.prems(1,3) by (auto simp: xs sorted_wrt_append dest: sympD)
qed

lemma sorted_wrt_mono': "sorted_wrt R xs \<Longrightarrow> (\<And>x y. R x y \<Longrightarrow> S x y) \<Longrightarrow> sorted_wrt S xs"
  by (induction xs) auto

lemma overlap_free_disjoint:
  assumes "overlap_free (sort_key fst (map extent es))"
  shows "disjoint_frames es"
proof -
  let ?D = "\<lambda>x y. snd x \<le> fst y \<or> snd y \<le> (fst x :: nat)"
  have "list_all (\<lambda>(a, b). a \<le> b) (sort_key fst (map extent es))"
    by (auto simp: list_all_iff extent_def)
  then have "sorted_wrt (\<lambda>x y. snd x \<le> fst y) (sort_key fst (map extent es))"
    using assms overlap_free_sorted_wrt by blast
  then have "sorted_wrt ?D (sort_key fst (map extent es))" by (rule sorted_wrt_mono') blast
  then have "sorted_wrt ?D (map extent es)"
    by (rule sorted_wrt_symp_perm) (auto simp: symp_def)
  then have "?D (extent (es ! i)) (extent (es ! j))" if "i < j" "j < length es" for i j
    using that by (simp add: sorted_wrt_iff_nth_less)
  then show ?thesis unfolding disjoint_frames_def by (metis nat_neq_iff)
qed

lemma open_sealed_complete:
  assumes P: "aead_correct P" and k: "length k = 32" "length nonce = 24"
    and sec: "sealed_section P es k v nonce sec" and h: "holds_at bytes off sec"
    and b: "length bytes \<le> usize_max" "fl \<le> usize_max"
    and ok: "entries_ok (max we (off + length sec)) fl es" "overlap_free (sort_key fst (map extent es))"
      "length es \<le> u32_max"
  shows "open_sealed_record_table_v2 P bytes off (length sec) k v 2 we fl = Inr es"
proof -
  obtain c where c: "xchacha_seal P k nonce (v @ u16_le 2) (padded_table es) = Some c"
    "24 + length c \<le> u32_max" "sec = u32_le (of_nat (24 + length c)) @ nonce @ c"
    using sec unfolding sealed_section_def by blast
  have "length c = length (padded_table es) + 16"
    using aead_correctD [OF P k c(1)] by simp
  moreover have "decrypt P k nonce c (v @ u16_le 2) = Inr (padded_table es)"
    by (rule decrypt_sealed [OF P k c(1)])
  moreover have "open_table_plaintext (padded_table es) we fl (off + length sec) = Inr es"
    unfolding open_table_plaintext_Inr [OF b(2)] padded_table_plain
    using ok bucket_spec [of "length es"] by blast
  moreover have "length sec = 28 + length c" using c(3) k(2) by simp
  ultimately show ?thesis
    unfolding open_sealed_Inr [OF b(1)] using k(2) c(2) h [unfolded c(3)]
    by (intro conjI exI [of _ nonce] exI [of _ c] exI [of _ "padded_table es"])
       (simp_all del: of_nat_add)
qed

lemma length_sealed_section:
  assumes "aead_correct P" "length k = 32" "length nonce = 24" "list_all entry_wf es"
    and "sealed_section P es k v nonce sec"
  shows "length sec = 48 + 46 * bucket (length es)"
proof -
  obtain c where c: "xchacha_seal P k nonce (v @ u16_le 2) (padded_table es) = Some c"
    "sec = u32_le (of_nat (24 + length c)) @ nonce @ c"
    using assms(5) unfolding sealed_section_def by blast
  then have "length c = 4 + 46 * bucket (length es) + 16"
    using aead_correctD [OF assms(1-3) c(1)] assms(4) by simp
  then show ?thesis using c(2) assms(3) by simp
qed

subsection \<open>Properties\<close>

text \<open>C20. The sealed table round trip: the section that \<open>serialize_sealed_record_table_v2\<close>
  returns, placed anywhere in a file, is opened by \<open>open_sealed_record_table_v2\<close> under the
  same key, vault and schema to exactly the sealed entries, provided the frames they describe
  lie behind the table and inside the file, do not overlap and have distinct ids.\<close>

theorem sealed_table_roundtrip:
  assumes "aead_correct P" "length k = 32" "list_all entry_wf es"
    and "serialize_sealed_record_table_v2 P es k v s w = (Inr sec, w')"
    and "length (pre @ sec @ post) \<le> usize_max"
    and "entries_ok (max we (length pre + length sec)) (length (pre @ sec @ post)) es"
    and "overlap_free (sort_key fst (map extent es))"
  shows "open_sealed_record_table_v2 P (pre @ sec @ post) (length pre) (length sec) k v s we
    (length (pre @ sec @ post)) = Inr es"
proof -
  have s: "s = 2" "length es \<le> u32_max" "sealed_section P es k v (next_random w 24) sec"
    using assms(4) unfolding serialize_sealed_Inr [OF assms(3)] by simp_all
  have "holds_at (pre @ sec @ post) (length pre) sec" by (rule holds_at_in_append) simp
  then show ?thesis
    unfolding s(1) using assms s by (intro open_sealed_complete [where nonce = "next_random w 24"]) simp_all
qed

definition sample_entry :: RecordTableEntry where
  "sample_entry = \<lparr>te_record_id = zeros 16, te_record_kind = 1, te_revision_id = zeros 16,
     te_frame_offset = 95, te_frame_len = 5\<rparr>"

definition sample_section :: "byte list" where
  "sample_section = u32_le 90 @ next_random sample_world 24 @ padded_table [sample_entry] @
     toy_tag (zeros 32) (next_random sample_world 24) (zeros 16 @ u16_le 2) (padded_table [sample_entry])"

lemma bucket_1 [simp]: "bucket (Suc 0) = 1"
  by (simp add: bucket_def next_pow2_from.simps)

lemma sample_entry_wf: "entry_wf sample_entry"
  by (simp add: sample_entry_def entry_wf_def)

lemma sample_section_length: "length sample_section = 94"
  by (simp add: sample_section_def sample_entry_wf toy_tag_def)

lemma sample_sealed:
  "sealed_section toy_prims [sample_entry] (zeros 32) (zeros 16) (next_random sample_world 24) sample_section"
  by (simp add: sealed_section_def toy_seal_def sample_section_def sample_entry_wf u32_max_def)

lemma sample_entries_ok: "entries_ok (max 0 95) 100 [sample_entry]"
  by (simp add: entries_ok_def sample_entry_wf) (simp add: placed_def extent_def sample_entry_def sealable_def)

theorem sealed_table_roundtrip_witness:
  "open_sealed_record_table_v2 toy_prims ([1] @ sample_section @ zeros 5) (length [1 :: byte])
    (length sample_section) (zeros 32) (zeros 16) 2 0 (length ([1] @ sample_section @ zeros 5)) =
    Inr [sample_entry]"
proof (rule sealed_table_roundtrip [where w = sample_world and w' = "sample_world\<lparr>drawn := drawn sample_world + 24\<rparr>"])
  show "serialize_sealed_record_table_v2 toy_prims [sample_entry] (zeros 32) (zeros 16) 2 sample_world =
    (Inr sample_section, sample_world\<lparr>drawn := drawn sample_world + 24\<rparr>)"
    using sample_sealed
    by (subst serialize_sealed_Inr)
       (simp_all add: sample_entry_wf u32_max_def usize_max_def, simp add: sample_entry_def sealable_def)
qed (use sample_entries_ok in \<open>simp_all add: toy_prims_aead sample_entry_wf sample_section_length usize_max_def\<close>)

text \<open>C19. Opening is sound: whatever the file contains, entries are returned only if the file
  holds at the table's place a nonce and a ciphertext that authenticate under the metadata key,
  and then the entries have distinct record ids, none has the wrapped-root-key or the zero kind,
  every frame lies behind the key frame and the table and inside the file, and no two frames
  overlap.\<close>

theorem sealed_table_open_sound:
  assumes "open_sealed_record_table_v2 P bytes off len k v s we fl = Inr es"
    and "length bytes \<le> usize_max" "fl \<le> usize_max"
  shows "s = SCHEMA_MEISSNER_RECORDS_V2 \<and> off + len \<le> length bytes \<and>
    distinct (map te_record_id es) \<and>
    (\<forall>e \<in> set es. te_record_kind e \<notin> {0, RECORD_KIND_WRAPPED_ROOT_KEY} \<and>
       we \<le> fst (extent e) \<and> off + len \<le> fst (extent e) \<and> snd (extent e) \<le> fl) \<and>
    disjoint_frames es \<and>
    (\<exists>nonce c pt. holds_at bytes (off + 4) (nonce @ c) \<and> decrypt P k nonce c (v @ u16_le s) = Inr pt)"
proof -
  obtain nonce c pt where o: "s = 2" "length nonce = 24" "len = 28 + length c"
    "holds_at bytes off (u32_le (of_nat (24 + length c)) @ nonce @ c)"
    "decrypt P k nonce c (v @ u16_le 2) = Inr pt"
    "open_table_plaintext pt we fl (off + len) = Inr es"
    using assms(1) unfolding open_sealed_Inr [OF assms(2)] by blast
  have pt: "entries_ok (max we (off + len)) fl es" "overlap_free (sort_key fst (map extent es))"
    using o(6) unfolding open_table_plaintext_Inr [OF assms(3)] by blast+
  have "off + len \<le> length bytes" using holds_at_bound [OF o(4)] o(2,3) by simp
  moreover have "holds_at bytes (off + 4) (nonce @ c)" using o(4) by (simp add: holds_at_append)
  ultimately show ?thesis
    using o(1,5) pt overlap_free_disjoint [OF pt(2)]
    by (auto simp: entries_ok_def list_all_iff placed_def sealable_def)
qed

theorem sealed_table_open_sound_witness:
  "length [1 :: byte] + length sample_section \<le> length ([1] @ sample_section @ zeros 5) \<and>
    distinct (map te_record_id [sample_entry]) \<and>
    length [1 :: byte] + length sample_section \<le> fst (extent sample_entry) \<and>
    disjoint_frames [sample_entry] \<and>
    (\<exists>nonce c pt. holds_at ([1] @ sample_section @ zeros 5) (length [1 :: byte] + 4) (nonce @ c) \<and>
      decrypt toy_prims (zeros 32) nonce c (zeros 16 @ u16_le 2) = Inr pt)"
proof -
  have "open_sealed_record_table_v2 toy_prims ([1] @ sample_section @ zeros 5) (length [1 :: byte])
    (length sample_section) (zeros 32) (zeros 16) 2 0 (length ([1] @ sample_section @ zeros 5)) =
    Inr [sample_entry]"
    using sample_entries_ok sample_sealed
      holds_at_in_append [of "length [1 :: byte]" "[1]" sample_section "zeros 5"]
    by (intro open_sealed_complete [where nonce = "next_random sample_world 24"])
       (simp_all add: toy_prims_aead sample_section_length usize_max_def u32_max_def)
  from sealed_table_open_sound [OF this] show ?thesis
    by (simp add: sample_section_length usize_max_def)
qed

text \<open>The size of a sealed table leaks only its bucket: the section's length is
  48 + 46 * B, where B is the smallest power of two that is at least the number of entries (1 for
  none), whatever the entries are.\<close>

theorem sealed_table_length:
  assumes "aead_correct P" "length k = 32" "list_all entry_wf es"
    and "serialize_sealed_record_table_v2 P es k v s w = (Inr sec, w')"
  shows "\<exists>B. length sec = 48 + 46 * B \<and> is_power_of_two B \<and> length es \<le> B \<and>
    (B = 1 \<or> B < 2 * length es)"
proof -
  have "sealed_section P es k v (next_random w 24) sec"
    using assms(4) unfolding serialize_sealed_Inr [OF assms(3)] by simp
  then have "length sec = 48 + 46 * bucket (length es)"
    by (intro length_sealed_section [OF assms(1,2) _ assms(3)]) simp_all
  then show ?thesis using bucket_spec [of "length es"] by blast
qed

theorem sealed_table_length_witness:
  "\<exists>B. length sample_section = 48 + 46 * B \<and> is_power_of_two B \<and> length [sample_entry] \<le> B \<and>
    (B = 1 \<or> B < 2 * length [sample_entry])"
proof (rule sealed_table_length)
  show "serialize_sealed_record_table_v2 toy_prims [sample_entry] (zeros 32) (zeros 16) 2 sample_world =
    (Inr sample_section, sample_world\<lparr>drawn := drawn sample_world + 24\<rparr>)"
    using sample_sealed
    by (subst serialize_sealed_Inr)
       (simp_all add: sample_entry_wf u32_max_def usize_max_def, simp add: sample_entry_def sealable_def)
qed (simp_all add: toy_prims_aead sample_entry_wf)

end
