(* ===== verification/Key_Hierarchy.thy ===== *)
theory Key_Hierarchy
  imports Crypto_Api
begin

text \<open>
  Session keys of src/crates/meissnerseal-core/src/keys/hierarchy.rs: the master unlock key,
  the wrapped vault root key and the seven subkeys, at creation (\<open>create_session_keys\<close>, which
  draws a root key and wraps it) and at unlock (\<open>derive_session_keys\<close>, which unwraps it).
\<close>

record UnlockedKeys =
  uk_item_wrap_key :: key
  uk_metadata_key :: key
  uk_audit_key :: key
  uk_sync_envelope_key :: key
  uk_device_enrollment_key :: key
  uk_recovery_wrapping_key :: key
  uk_export_key :: key

definition derive_master_unlock_key_with_header_params ::
    "prims \<Rightarrow> byte list \<Rightarrow> byte list \<Rightarrow> HeaderKdfParams \<Rightarrow> key res" where
  "derive_master_unlock_key_with_header_params P password vault_id kdf_params =
     (if password = [] \<or> kp_profile_id kdf_params \<noteq> KDF_ARGON2ID_V1 \<or>
         kp_argon2_version kdf_params \<noteq> ARGON2_VERSION_0X13
      then err Crypto
      else map_err (derive P password vault_id (kp_argon2 kdf_params)) Crypto)"

definition derive_subkeys :: "prims \<Rightarrow> byte list \<Rightarrow> byte list \<Rightarrow> u16 \<Rightarrow> UnlockedKeys res" where
  "derive_subkeys P root_prk vault_id aead_id =
     and_then (map_err (derive_subkey P root_prk ItemKeyWrappingKey vault_id (Some aead_id)) Crypto) (\<lambda>item_wrap.
     and_then (map_err (derive_subkey P root_prk MetadataEncryptionKey vault_id (Some aead_id)) Crypto) (\<lambda>metadata.
     and_then (map_err (derive_subkey P root_prk LocalAuditEventKey vault_id None) Crypto) (\<lambda>audit.
     and_then (map_err (derive_subkey P root_prk SyncEnvelopeKey vault_id None) Crypto) (\<lambda>sync_envelope.
     and_then (map_err (derive_subkey P root_prk DeviceEnrollmentKey vault_id None) Crypto) (\<lambda>device_enrollment.
     and_then (map_err (derive_subkey P root_prk RecoveryWrappingKey vault_id None) Crypto) (\<lambda>recovery_wrapping.
     and_then (map_err (derive_subkey P root_prk ExportBundleKey vault_id None) Crypto) (\<lambda>export.
     ok \<lparr>uk_item_wrap_key = item_wrap, uk_metadata_key = metadata, uk_audit_key = audit,
         uk_sync_envelope_key = sync_envelope, uk_device_enrollment_key = device_enrollment,
         uk_recovery_wrapping_key = recovery_wrapping, uk_export_key = export\<rparr>)))))))"

definition derive_session_keys ::
    "prims \<Rightarrow> byte list \<Rightarrow> byte list \<Rightarrow> byte list \<Rightarrow> u16 \<Rightarrow> HeaderKdfParams \<Rightarrow> byte list \<Rightarrow>
     byte list \<Rightarrow> byte list \<Rightarrow> UnlockedKeys res" where
  "derive_session_keys P password vault_id header_nonce aead_profile kdf_params
     wrapped_root_key_ciphertext wrapped_root_key_nonce aad =
     and_then (map_err (AeadProfileId_new aead_profile) Crypto) (\<lambda>_.
     and_then (derive_master_unlock_key_with_header_params P password vault_id kdf_params) (\<lambda>muk.
     and_then (map_err (derive_vkek P muk vault_id) Crypto) (\<lambda>vkek.
     and_then (map_err (decrypt P vkek wrapped_root_key_nonce wrapped_root_key_ciphertext aad) Auth) (\<lambda>vrk_plaintext.
     and_then (if length vrk_plaintext = 32 then ok vrk_plaintext else err Crypto) (\<lambda>vrk.
     derive_subkeys P (derive_root_prk P vrk vault_id header_nonce) vault_id aead_profile)))))"

definition create_session_keys ::
    "prims \<Rightarrow> byte list \<Rightarrow> byte list \<Rightarrow> byte list \<Rightarrow> u16 \<Rightarrow> HeaderKdfParams \<Rightarrow> byte list \<Rightarrow>
     (UnlockedKeys \<times> byte list \<times> byte list) io" where
  "create_session_keys P password vault_id header_nonce aead_profile kdf_params aad =
     bind_act (lift_rs (map_err (AeadProfileId_new aead_profile) Crypto)) (\<lambda>_.
     bind_act random_key (\<lambda>vault_root_key.
     bind_act (lift_rs (derive_master_unlock_key_with_header_params P password vault_id kdf_params)) (\<lambda>muk.
     bind_act (lift_rs (map_err (derive_vkek P muk vault_id) Crypto)) (\<lambda>vkek.
     bind_act (map_err_act (encrypt P vkek vault_root_key aad) Crypto) (\<lambda>(ciphertext, enc_nonce).
     bind_act (lift_rs (derive_subkeys P (derive_root_prk P vault_root_key vault_id header_nonce)
                          vault_id aead_profile)) (\<lambda>unlocked.
     ret (unlocked, ciphertext, enc_nonce)))))))"

subsection \<open>Lemmas\<close>

definition keys_wf :: "UnlockedKeys \<Rightarrow> bool" where
  "keys_wf u \<longleftrightarrow> length (uk_item_wrap_key u) = 32 \<and> length (uk_metadata_key u) = 32 \<and>
     length (uk_audit_key u) = 32 \<and> length (uk_sync_envelope_key u) = 32 \<and>
     length (uk_device_enrollment_key u) = 32 \<and> length (uk_recovery_wrapping_key u) = 32 \<and>
     length (uk_export_key u) = 32"

lemma derive_subkeys_ok:
  assumes "kdf_total P" "length prk = 32"
  shows "\<exists>u. derive_subkeys P prk v a = Inr u \<and> keys_wf u"
proof -
  have wrapped: "\<exists>k. derive_subkey P prk p v (Some a) = Inr k \<and> length k = 32"
    if "needs_aead p" for p using derive_subkey_ok [OF assms] that by simp
  have plain: "\<exists>k. derive_subkey P prk p v None = Inr k \<and> length k = 32"
    if "\<not> needs_aead p" for p using derive_subkey_ok [OF assms] that by simp
  obtain k1 k2 k3 k4 k5 k6 k7 where
    "derive_subkey P prk ItemKeyWrappingKey v (Some a) = Inr k1" "length k1 = 32"
    "derive_subkey P prk MetadataEncryptionKey v (Some a) = Inr k2" "length k2 = 32"
    "derive_subkey P prk LocalAuditEventKey v None = Inr k3" "length k3 = 32"
    "derive_subkey P prk SyncEnvelopeKey v None = Inr k4" "length k4 = 32"
    "derive_subkey P prk DeviceEnrollmentKey v None = Inr k5" "length k5 = 32"
    "derive_subkey P prk RecoveryWrappingKey v None = Inr k6" "length k6 = 32"
    "derive_subkey P prk ExportBundleKey v None = Inr k7" "length k7 = 32"
    using wrapped [of ItemKeyWrappingKey] wrapped [of MetadataEncryptionKey]
      plain [of LocalAuditEventKey] plain [of SyncEnvelopeKey] plain [of DeviceEnrollmentKey]
      plain [of RecoveryWrappingKey] plain [of ExportBundleKey]
    by (auto simp: needs_aead_def)
  then show ?thesis by (simp add: derive_subkeys_def keys_wf_def)
qed

lemma master_key_ok:
  assumes "kdf_total P" "kdf_params_wf kp" "pw \<noteq> []"
  shows "\<exists>k. derive_master_unlock_key_with_header_params P pw v kp = Inr k \<and> length k = 32"
  using derive_ok [OF assms(1), of "kp_argon2 kp" pw v] assms
  by (auto simp: derive_master_unlock_key_with_header_params_def kdf_params_wf_def)

lemma create_session_keys_Inr:
  "create_session_keys P pw v hn a kp aad w = (Inr (u, c, n), w') \<longleftrightarrow>
    a = AEAD_XCHACHA20_POLY1305_V1 \<and> n = next_random (w\<lparr>drawn := drawn w + 32\<rparr>) 24 \<and>
    w' = w\<lparr>drawn := drawn w + 56\<rparr> \<and>
    (\<exists>muk vkek. derive_master_unlock_key_with_header_params P pw v kp = Inr muk \<and>
      derive_vkek P muk v = Inr vkek \<and> xchacha_seal P vkek n aad (next_random w 32) = Some c \<and>
      derive_subkeys P (derive_root_prk P (next_random w 32) v hn) v a = Inr u)"
  by (auto simp: create_session_keys_def bind_act_eq_Inr random_key_def encrypt_Inr
      AeadProfileId_new_def split: prod.splits)

text \<open>What was wrapped at creation is what unlock unwraps.\<close>

lemma session_keys_agree:
  assumes P: "aead_correct P" "kdf_total P"
    and c: "create_session_keys P pw v hn a kp aad w = (Inr (u, c, n), w')"
  shows "derive_session_keys P pw v hn a kp c n aad = Inr u"
proof -
  obtain muk vkek where m: "a = AEAD_XCHACHA20_POLY1305_V1" "length n = 24"
    "derive_master_unlock_key_with_header_params P pw v kp = Inr muk"
    "derive_vkek P muk v = Inr vkek" "xchacha_seal P vkek n aad (next_random w 32) = Some c"
    "derive_subkeys P (derive_root_prk P (next_random w 32) v hn) v a = Inr u"
    using c by (auto simp: create_session_keys_Inr)
  have "length vkek = 32" using derive_vkek_ok [OF P(2), of muk v] m(4) by auto
  then have "decrypt P vkek n c aad = Inr (next_random w 32)"
    by (intro decrypt_sealed P m)
  then show ?thesis using m by (simp add: derive_session_keys_def AeadProfileId_new_def)
qed

lemma create_session_keys_ok:
  assumes "aead_correct P" "aead_total P" "kdf_total P" "kdf_params_wf kp" "pw \<noteq> []" "a = AEAD_XCHACHA20_POLY1305_V1"
  shows "\<exists>u c. create_session_keys P pw v hn a kp aad w =
      (Inr (u, c, next_random (w\<lparr>drawn := drawn w + 32\<rparr>) 24), w\<lparr>drawn := drawn w + 56\<rparr>) \<and>
    keys_wf u \<and> length c = 48"
proof -
  let ?n = "next_random (w\<lparr>drawn := drawn w + 32\<rparr>) 24"
  obtain muk where muk: "derive_master_unlock_key_with_header_params P pw v kp = Inr muk"
    using master_key_ok [OF assms(3-5)] by blast
  obtain vkek where vkek: "derive_vkek P muk v = Inr vkek" "length vkek = 32"
    using derive_vkek_ok [OF assms(3)] by blast
  obtain c where c: "xchacha_seal P vkek ?n aad (next_random w 32) = Some c"
    using aead_totalD [OF assms(2) vkek(2), of ?n "next_random w 32" aad] by auto
  obtain u where u: "derive_subkeys P (derive_root_prk P (next_random w 32) v hn) v a = Inr u" "keys_wf u"
    using derive_subkeys_ok [OF assms(3) length_derive_root_prk [OF assms(3)]] by blast
  have "length c = 48" using aead_correctD [OF assms(1) vkek(2) _ c] by simp
  then show ?thesis
    using muk vkek c u assms(6)
    by (intro exI [of _ u] exI [of _ c]) (simp add: create_session_keys_Inr)
qed

lemma no_panic_key_steps [simp]:
  "no_panic (derive P pw v p)" "no_panic (derive_vkek P k v)" "no_panic (derive_subkey P k u v a)"
  by (auto simp: derive_def derive_vkek_def derive_subkey_def hkdf_expand_def Let_def
      build_subkey_info_def intro!: no_panic_intros split: bool.splits option.splits)

lemma no_panic_derive_session_keys [simp]:
  "no_panic (derive_session_keys P pw v hn a kp c n aad)"
  unfolding derive_session_keys_def derive_subkeys_def AeadProfileId_new_def
    derive_master_unlock_key_with_header_params_def
  by (intro no_panic_intros; simp)+

subsection \<open>Properties\<close>

text \<open>Creation and unlock agree: from the wrapped root key and nonce that
  \<open>create_session_keys\<close> returns, \<open>derive_session_keys\<close> under the same password, vault, header
  nonce, KDF parameters and AAD derives exactly the seven keys of the creating session.\<close>

theorem unlock_keys_agree:
  assumes "aead_correct P" "kdf_total P"
    and "create_session_keys P pw v hn a kp aad w = (Inr (u, c, n), w')"
  shows "derive_session_keys P pw v hn a kp c n aad = Inr u"
  using assms by (rule session_keys_agree)

theorem unlock_keys_agree_witness:
  "\<exists>u c. derive_session_keys toy_prims [112, 119] (zeros 16) (zeros 24) 1 canonical_argon2id_v1 c
    (next_random (sample_world\<lparr>drawn := drawn sample_world + 32\<rparr>) 24) (zeros 79) = Inr u \<and> length c = 48"
proof -
  obtain u c where uc: "create_session_keys toy_prims [112, 119] (zeros 16) (zeros 24) 1
      canonical_argon2id_v1 (zeros 79) sample_world =
    (Inr (u, c, next_random (sample_world\<lparr>drawn := drawn sample_world + 32\<rparr>) 24),
      sample_world\<lparr>drawn := drawn sample_world + 56\<rparr>)" "length c = 48"
    using create_session_keys_ok [of toy_prims canonical_argon2id_v1 "[112, 119]" 1 "zeros 16" "zeros 24"
        "zeros 79" sample_world] toy_prims_aead toy_prims_kdf canonical_kdf_wf by auto
  show ?thesis
    using unlock_keys_agree [OF toy_prims_aead(1) toy_prims_kdf uc(1)] uc(2) by blast
qed

end
