(* ===== verification/Vault_Engine.thy ===== *)
theory Vault_Engine
  imports Sealed_Table Key_Hierarchy
begin

text \<open>
  src/crates/meissnerseal-core/src/vault/engine.rs: creating, opening, unlocking and locking a
  vault file, and the two ways a vault file is written (\<open>persist_vault\<close> for a new file,
  \<open>persist_vault_mutation_v2\<close> for a rewrite). File permissions are not modelled; a failing
  clean-up is ignored, as in the code.
\<close>

abbreviation (input) MAX_VAULT_FILE_LEN :: nat where "MAX_VAULT_FILE_LEN \<equiv> 64 * 1024 * 1024"

subsection \<open>Frame geometry\<close>

definition read_u32_at :: "byte list \<Rightarrow> nat \<Rightarrow> u32 res" where
  "read_u32_at bytes offset =
     and_then (ok_or (checked_add offset 4) (Format ''u32 read overflow'')) (\<lambda>end_at.
     and_then (ok_or (get_range bytes offset end_at) (Format ''truncated u32 field'')) (\<lambda>v.
     if length v = 4 then ok (u32_from_le v) else err (Format ''u32 read error'')))"

definition record_frame_end_offset :: "byte list \<Rightarrow> nat \<Rightarrow> nat res" where
  "record_frame_end_offset bytes offset =
     and_then (ok_or (checked_add offset 37) (Format ''record frame prefix overflow'')) (\<lambda>fixed_end.
     if fixed_end > length bytes then err (Format ''truncated record frame'')
     else
     and_then (ok_or (checked_add offset 36) (Format ''nonce length offset overflow'')) (\<lambda>nl_at.
     and_then (ok_or (if nl_at < length bytes then Some (bytes ! nl_at) else None)
                 (Format ''truncated record frame'')) (\<lambda>nonce_len.
     and_then (ok_or (checked_add fixed_end (unat nonce_len))
                 (Format ''AAD length offset overflow'')) (\<lambda>aad_len_offset.
     and_then (read_u32_at bytes aad_len_offset) (\<lambda>aad_len.
     and_then (ok_or (Option.bind (checked_add aad_len_offset 4) (\<lambda>x. checked_add x (unat aad_len)))
                 (Format ''ciphertext length offset overflow'')) (\<lambda>ciphertext_len_offset.
     and_then (read_u32_at bytes ciphertext_len_offset) (\<lambda>ciphertext_len.
     ok_or (Option.bind (checked_add ciphertext_len_offset 4) (\<lambda>x. checked_add x (unat ciphertext_len)))
       (Format ''record frame length overflow''))))))))"

definition record_frame_len_at :: "byte list \<Rightarrow> nat \<Rightarrow> u32 res" where
  "record_frame_len_at bytes offset =
     and_then (record_frame_end_offset bytes offset) (\<lambda>end_at.
     and_then (ok_or (checked_sub end_at offset) (Format ''record frame length overflow'')) (\<lambda>frame_len.
     to_u32 frame_len (Format ''record frame length overflow'')))"

subsection \<open>Parsing an untrusted file\<close>

record UntrustedVaultFile =
  uf_bytes :: "byte list"
  uf_header :: VaultHeader
  uf_record_table_len :: nat
  uf_wrk_frame_offset :: nat
  uf_wrk_frame_len :: u32

definition parse_and_validate :: "byte list \<Rightarrow> UntrustedVaultFile res" where
  "parse_and_validate bytes =
     and_then (to_u64 (length bytes) (Format ''vault file exceeds maximum length'')) (\<lambda>n.
     if unat n > MAX_VAULT_FILE_LEN then err (Format ''vault file exceeds maximum length'')
     else
     and_then (parse_header bytes) (\<lambda>header.
     if length bytes < HEADER_MIN_LEN + 8 then err (Format ''vault prefix too short'')
     else
     and_then (ok_or (get_range bytes 10 14) (Format ''header_len out of bounds'')) (\<lambda>hb.
     and_then (if length hb = 4 then ok (u32_from_le hb) else err (Format ''header_len read error'')) (\<lambda>header_len.
     and_then (ok_or (get_range bytes 14 18) (Format ''record_table_len out of bounds'')) (\<lambda>rb.
     and_then (if length rb = 4 then ok (u32_from_le rb) else err (Format ''record_table_len read error'')) (\<lambda>record_table_len.
     and_then (ok_or (checked_add HEADER_MIN_LEN (unat header_len))
                 (Format ''WRK frame offset overflow'')) (\<lambda>wrk_frame_offset.
     and_then (record_frame_len_at bytes wrk_frame_offset) (\<lambda>wrk_frame_len.
     ok \<lparr>uf_bytes = bytes, uf_header = header, uf_record_table_len = unat record_table_len,
         uf_wrk_frame_offset = wrk_frame_offset, uf_wrk_frame_len = wrk_frame_len\<rparr>))))))))"

subsection \<open>Sessions\<close>

text \<open>\<open>Vault<Locked>\<close> holds the path only; \<open>Vault<Unlocked>\<close> the keys and the context.\<close>

record AuthenticatedVaultContext =
  cx_vault_id :: "byte list"
  cx_header_nonce :: "byte list"
  cx_profile_set :: VaultProfileSet

record LockedVault =
  lv_path :: path

record UnlockedVault =
  uv_path :: path
  uv_keys :: UnlockedKeys
  uv_context :: AuthenticatedVaultContext

record UnlockParams =
  up_path :: path
  up_password :: "byte list"

text \<open>The pure part of \<open>unlock_impl\<close>, on the bytes of the file.\<close>

definition unlock_bytes :: "prims \<Rightarrow> path \<Rightarrow> byte list \<Rightarrow> byte list \<Rightarrow> UnlockedVault res" where
  "unlock_bytes P p password file_bytes =
     and_then (parse_and_validate file_bytes) (\<lambda>u.
     let bytes = uf_bytes u; header = uf_header u; wrk_off = uf_wrk_frame_offset u;
         context = \<lparr>cx_vault_id = vh_vault_id header, cx_header_nonce = vh_header_nonce header,
                    cx_profile_set = vh_profile_set header\<rparr>;
         ps = vh_profile_set header in
     and_then (ok_or (get_from bytes wrk_off) (Format ''frame offset out of bounds'')) (\<lambda>frame_slice.
     and_then (parse_record_frame frame_slice (uf_wrk_frame_len u) (ps_aead ps)) (\<lambda>frame.
     let aad = build_aad (cx_vault_id context) (vh_format_version header) (ps_schema ps)
                 (ps_aead ps) (ps_kdf ps) (ps_pqc ps) (rf_record_id frame) (rf_revision_id frame)
                 RECORD_KIND_WRAPPED_ROOT_KEY in
     and_then (validate_stored_record_aad (rf_stored_aad frame) aad) (\<lambda>_.
     and_then (derive_session_keys P password (cx_vault_id context) (cx_header_nonce context)
                 (ps_aead ps) (vh_kdf_params header) (rf_ciphertext frame) (rf_nonce frame) aad) (\<lambda>keys.
     and_then (to_usize (unat (uf_wrk_frame_len u)) (Format ''WRK frame length overflow'')) (\<lambda>wrk_len.
     and_then (ok_or (checked_add wrk_off wrk_len) (Format ''record table offset overflow'')) (\<lambda>wrk_frame_end.
     and_then (ok_or (checked_add wrk_off wrk_len) (Format ''record table offset overflow'')) (\<lambda>table_off.
     and_then (open_sealed_record_table_v2 P bytes table_off (uf_record_table_len u)
                 (uk_metadata_key keys) (cx_vault_id context) (ps_schema ps) wrk_frame_end
                 (length bytes)) (\<lambda>_.
     ok \<lparr>uv_path = p, uv_keys = keys, uv_context = context\<rparr>)))))))))"

definition unlock_impl :: "prims \<Rightarrow> UnlockParams \<Rightarrow> UnlockedVault io" where
  "unlock_impl P params =
     bind_act (lift_rs (if up_password params = [] then err (InvalidState ''empty password'') else ok ())) (\<lambda>_.
     bind_act (fs_read (up_path params)) (\<lambda>bytes.
     lift_rs (unlock_bytes P (up_path params) (up_password params) bytes)))"

definition vault_open :: "path \<Rightarrow> LockedVault res" where
  "vault_open p = ok \<lparr>lv_path = p\<rparr>"

definition unlock :: "prims \<Rightarrow> LockedVault \<Rightarrow> UnlockParams \<Rightarrow> UnlockedVault io" where
  "unlock P v params =
     (if up_path params \<noteq> lv_path v
      then fail (InvalidState ''unlock path does not match locked vault'')
      else unlock_impl P params)"

definition lock :: "UnlockedVault \<Rightarrow> LockedVault" where
  "lock v = \<lparr>lv_path = uv_path v\<rparr>"

subsection \<open>Writing vault files\<close>

definition hex16 :: "byte list \<Rightarrow> string" where
  "hex16 bytes = hex_of bytes"

definition unique_tmp_path :: "path \<Rightarrow> byte list \<Rightarrow> path" where
  "unique_tmp_path p record_id = with_extension p (hex16 record_id @ ''.msv.tmp'')"

definition unix_time_millis :: "u64 io" where
  "unix_time_millis = (\<lambda>w.
     (if clock_ms w < 0 then err (InvalidState ''system clock before unix epoch'')
      else to_u64 (nat (clock_ms w)) (InvalidState ''system clock overflow''), w))"

definition fsync_parent :: "path \<Rightarrow> unit io" where
  "fsync_parent p = fs_sync_dir (if p_dir p = [] then ''.'' else p_dir p)"

text \<open>\<open>let _ = ...\<close>: the result of a clean-up call is dropped.\<close>

definition ignore_act :: "'a io \<Rightarrow> unit io" where
  "ignore_act m = (\<lambda>w. (Inr (), snd (m w)))"

text \<open>The steps both writers share: a new temporary file, synced, renamed over the target.\<close>

definition write_and_rename :: "path \<Rightarrow> path \<Rightarrow> byte list \<Rightarrow> unit io" where
  "write_and_rename tmp_path p vault_bytes =
     bind_act (fs_create_new tmp_path) (\<lambda>_.
     bind_act (fs_write_all tmp_path vault_bytes) (\<lambda>_.
     bind_act (fs_sync_all tmp_path) (\<lambda>_.
     bind_act (fs_rename tmp_path p) (\<lambda>_.
     fsync_parent p))))"

definition persist_vault_mutation_v2 :: "path \<Rightarrow> byte list \<Rightarrow> byte list \<Rightarrow> unit io" where
  "persist_vault_mutation_v2 p vault_bytes unique_seed =
     (let tmp_path = unique_tmp_path p unique_seed in
      catch_act (write_and_rename tmp_path p vault_bytes) (\<lambda>result.
      case result of
        Inl (Err e) \<Rightarrow> bind_act (ignore_act (fs_remove_file tmp_path)) (\<lambda>_. lift_rs result)
      | _ \<Rightarrow> lift_rs result))"

text \<open>The bytes of a new vault file, from the wrapped root key.\<close>

definition new_vault_image ::
    "prims \<Rightarrow> byte list \<Rightarrow> byte list \<Rightarrow> HeaderKdfParams \<Rightarrow> byte list \<Rightarrow> byte list \<Rightarrow> byte list \<Rightarrow>
     byte list \<Rightarrow> byte list \<Rightarrow> key \<Rightarrow> byte list io" where
  "new_vault_image P vault_id header_nonce kdf_params record_id revision_id wrk_ciphertext
     wrk_nonce aad metadata_key =
     bind_act unix_time_millis (\<lambda>created_at.
     bind_act (lift_rs (AeadProfileId_new AEAD_XCHACHA20_POLY1305_V1)) (\<lambda>aead.
     bind_act (lift_rs (PqcProfileId_new PQC_NONE)) (\<lambda>pqc.
     bind_act (lift_rs (KdfProfileId_new KDF_ARGON2ID_V1)) (\<lambda>kdf.
     bind_act (lift_rs (SchemaProfileId_new SCHEMA_MEISSNER_RECORDS_V2)) (\<lambda>schema.
     let header = \<lparr>vh_vault_id = vault_id, vh_created_at = created_at,
           vh_format_version = FORMAT_VERSION, vh_schema_profile = SCHEMA_MEISSNER_RECORDS_V2,
           vh_aead_profile = AEAD_XCHACHA20_POLY1305_V1, vh_kdf_profile = KDF_ARGON2ID_V1,
           vh_kdf_params = kdf_params, vh_pqc_profile = PQC_NONE, vh_header_nonce = header_nonce,
           vh_profile_set = \<lparr>ps_aead = aead, ps_pqc = pqc, ps_kdf = kdf, ps_schema = schema\<rparr>\<rparr> in
     bind_act (lift_rs (serialize_header header)) (\<lambda>header_bytes.
     bind_act (lift_rs (to_u32 (length wrk_ciphertext) (Format ''ciphertext length overflow''))) (\<lambda>clen.
     let frame = \<lparr>rf_frame_version = FORMAT_VERSION, rf_record_id = record_id,
           rf_revision_id = revision_id, rf_nonce = wrk_nonce, rf_stored_aad = aad,
           rf_ciphertext_len = clen, rf_ciphertext = wrk_ciphertext\<rparr> in
     bind_act (lift_rs (serialize_record_frame frame aad)) (\<lambda>frame_bytes.
     bind_act (serialize_sealed_record_table_v2 P [] metadata_key vault_id
                 SCHEMA_MEISSNER_RECORDS_V2) (\<lambda>record_table_bytes.
     lift_rs (serialize_vault_file header_bytes record_table_bytes frame_bytes))))))))))"

definition persist_vault_inner ::
    "prims \<Rightarrow> path \<Rightarrow> path \<Rightarrow> byte list \<Rightarrow> byte list \<Rightarrow> HeaderKdfParams \<Rightarrow> byte list \<Rightarrow> byte list \<Rightarrow>
     byte list \<Rightarrow> byte list \<Rightarrow> byte list \<Rightarrow> key \<Rightarrow> unit io" where
  "persist_vault_inner P p tmp_path vault_id header_nonce kdf_params record_id revision_id
     wrk_ciphertext wrk_nonce aad metadata_key =
     bind_act (new_vault_image P vault_id header_nonce kdf_params record_id revision_id
                 wrk_ciphertext wrk_nonce aad metadata_key) (\<lambda>vault_bytes.
     write_and_rename tmp_path p vault_bytes)"

definition persist_vault ::
    "prims \<Rightarrow> path \<Rightarrow> byte list \<Rightarrow> byte list \<Rightarrow> HeaderKdfParams \<Rightarrow> byte list \<Rightarrow> byte list \<Rightarrow>
     byte list \<Rightarrow> byte list \<Rightarrow> byte list \<Rightarrow> key \<Rightarrow> unit io" where
  "persist_vault P p vault_id header_nonce kdf_params record_id revision_id wrk_ciphertext
     wrk_nonce aad metadata_key =
     (let tmp_path = unique_tmp_path p record_id in
      catch_act (fs_create_new p) (\<lambda>claim.
      case claim of
        Inr _ \<Rightarrow>
          catch_act (persist_vault_inner P p tmp_path vault_id header_nonce kdf_params record_id
              revision_id wrk_ciphertext wrk_nonce aad metadata_key) (\<lambda>result.
          case result of
            Inl (Err e) \<Rightarrow>
              bind_act (ignore_act (fs_remove_file tmp_path)) (\<lambda>_.
              bind_act (ignore_act (fs_remove_file p)) (\<lambda>_. lift_rs result))
          | _ \<Rightarrow> lift_rs result)
      | Inl (Err e) \<Rightarrow> bind_act (ignore_act (fs_remove_file tmp_path)) (\<lambda>_. lift_rs claim)
      | Inl Panic \<Rightarrow> lift_rs claim))"

record CreateVaultParams =
  cp_path :: path
  cp_password :: "byte list"

definition create :: "prims \<Rightarrow> CreateVaultParams \<Rightarrow> LockedVault io" where
  "create P params =
     bind_act (lift_rs (if cp_password params = [] then err (InvalidState ''empty password'') else ok ())) (\<lambda>_.
     bind_act (random_bytes 16) (\<lambda>vault_id.
     bind_act (random_bytes 16) (\<lambda>record_id.
     bind_act (random_bytes 16) (\<lambda>revision_id.
     bind_act random_nonce_xchacha20 (\<lambda>header_nonce.
     let aad = build_aad vault_id FORMAT_VERSION SCHEMA_MEISSNER_RECORDS_V2 1 1 0 record_id
                 revision_id RECORD_KIND_WRAPPED_ROOT_KEY;
         kdf_params = canonical_argon2id_v1 in
     bind_act (lift_rs (AeadProfileId_new AEAD_XCHACHA20_POLY1305_V1)) (\<lambda>aead_profile.
     bind_act (create_session_keys P (cp_password params) vault_id header_nonce aead_profile
                 kdf_params aad) (\<lambda>(keys, wrk_ciphertext, wrk_nonce).
     bind_act (persist_vault P (cp_path params) vault_id header_nonce kdf_params record_id
                 revision_id wrk_ciphertext wrk_nonce aad (uk_metadata_key keys)) (\<lambda>_.
     ret \<lparr>lv_path = cp_path params\<rparr>))))))))"

end
