(* ===== verification/Vault_Laws.thy ===== *)
theory Vault_Laws
  imports Vault_Engine
begin

text \<open>
  Correctness of Vault_Engine: the geometry of a well-formed vault file (\<open>vault_layout\<close>), what
  unlocking such a file returns, and what the writers do to the file system under every pattern
  of I/O failures.
\<close>

subsection \<open>Frame geometry\<close>

lemma read_u32_at_Inr:
  "read_u32_at bs off = Inr x \<longleftrightarrow> holds_at bs off (u32_le x) \<and> off + 4 \<le> usize_max"
  by (fastforce simp: read_u32_at_def get_range_holds_at split: if_splits)

lemma record_frame_end_offset_frame:
  assumes f: "stored_frame_wf f" "serialize_record_frame f (rf_stored_aad f) = Inr fb"
    and h: "holds_at bs off fb" and b: "length bs \<le> usize_max"
  shows "record_frame_end_offset bs off = Inr (off + length fb)"
proof -
  note s = f(2) [unfolded serialize_record_frame_Inr]
  have l: "length (rf_record_id f) = 16" "length (rf_revision_id f) = 16"
    "length (rf_nonce f) = 24" "length (rf_stored_aad f) = 79"
    using f(1) by (simp_all add: stored_frame_wf_def frame_wf_def)
  have len: "length fb = 148 + length (rf_ciphertext f)" using s l by simp
  have bd: "off + length fb \<le> length bs" by (rule holds_at_bound [OF h])
  have hh: "holds_at bs off (u16_le (rf_frame_version f) @ rf_record_id f @ rf_revision_id f @ u16_le 1 @
      [24] @ rf_nonce f @ u32_le 79 @ rf_stored_aad f @ u32_le (rf_ciphertext_len f) @ rf_ciphertext f)"
    using h s l by simp
  have r: "read_u32_at bs (off + 61) = Inr 79" "read_u32_at bs (off + 144) = Inr (rf_ciphertext_len f)"
    and nl: "bs ! (off + 36) = 24"
    using hh l bd len b by (simp_all add: read_u32_at_Inr holds_at_append holds_at_Cons ac_simps)
  have c: "unat (rf_ciphertext_len f) = length (rf_ciphertext f)" using s by simp
  show ?thesis
    unfolding record_frame_end_offset_def
    using bd len b c nl r by (simp add: add.assoc)
qed

lemma record_frame_len_at_frame:
  assumes "stored_frame_wf f" "serialize_record_frame f (rf_stored_aad f) = Inr fb"
    and "holds_at bs off fb" "length bs \<le> usize_max"
  shows "record_frame_len_at bs off = Inr (of_nat (length fb))"
proof -
  have "length fb \<le> u32_max"
    using assms(1,2) by (auto simp: serialize_record_frame_Inr stored_frame_wf_def frame_wf_def)
  then show ?thesis
    using record_frame_end_offset_frame [OF assms] by (simp add: record_frame_len_at_def)
qed

lemma no_panic_read_u32_at [simp]: "no_panic (read_u32_at bs off)"
  unfolding read_u32_at_def by (intro no_panic_intros; simp)

lemma no_panic_record_frame_len_at [simp]: "no_panic (record_frame_len_at bs off)"
  unfolding record_frame_len_at_def record_frame_end_offset_def by (intro no_panic_intros; simp)

subsection \<open>The layout of a vault file\<close>

text \<open>
  Prefix, header, wrapped-root-key frame, sealed table and item frames, in this order; the
  prefix counts the table and the body.
\<close>

definition prefix_bytes :: "nat \<Rightarrow> nat \<Rightarrow> nat \<Rightarrow> byte list" where
  "prefix_bytes hl rl bl =
     MAGIC @ u16_le 1 @ u32_le (of_nat hl) @ u32_le (of_nat rl) @ u64_le (of_nat bl)"

lemma length_prefix_bytes [simp]: "length (prefix_bytes hl rl bl) = 26"
  by (simp add: prefix_bytes_def)

definition vault_layout ::
    "byte list \<Rightarrow> VaultHeader \<Rightarrow> RecordFrame \<Rightarrow> byte list \<Rightarrow> byte list \<Rightarrow> byte list \<Rightarrow> bool" where
  "vault_layout bs h f fb sec frames \<longleftrightarrow>
     header_wf h \<and> stored_frame_wf f \<and> serialize_record_frame f (rf_stored_aad f) = Inr fb \<and>
     length sec \<le> u32_max \<and> length bs \<le> usize_max \<and>
     bs = prefix_bytes 147 (length sec) (length fb + length sec + length frames) @
       header_tlvs h @ fb @ sec @ frames"

lemma vault_layout_facts:
  assumes "vault_layout bs h f fb sec frames"
  shows "length bs = 173 + length fb + length sec + length frames"
    and "holds_at bs 10 (u32_le 147)" and "holds_at bs 14 (u32_le (of_nat (length sec)))"
    and "holds_at bs 26 (header_tlvs h)" and "holds_at bs 173 fb"
    and "holds_at bs (173 + length fb) sec"
    and "holds_at bs (173 + length fb + length sec) frames"
    and "parse_header bs = Inr h"
    and "record_frame_len_at bs 173 = Inr (of_nat (length fb))"
    and "length fb \<le> u32_max" and "148 \<le> length fb"
    and "drop 173 bs = fb @ sec @ frames"
    and "parse_record_frame (drop 173 bs) (of_nat (length fb)) 1 = Inr f"
proof -
  note v = assms [unfolded vault_layout_def]
  have hl: "length (header_tlvs h) = 147" using v length_header_tlvs by blast
  then show len: "length bs = 173 + length fb + length sec + length frames" using v by simp
  have h0: "holds_at bs 0 (prefix_bytes 147 (length sec) (length fb + length sec + length frames) @
      header_tlvs h @ fb @ sec @ frames)"
    using v by simp
  show "holds_at bs 10 (u32_le 147)" "holds_at bs 14 (u32_le (of_nat (length sec)))"
    and h26: "holds_at bs 26 (header_tlvs h)" and fb: "holds_at bs 173 fb"
    and "holds_at bs (173 + length fb) sec"
    and "holds_at bs (173 + length fb + length sec) frames"
    using h0 hl by (simp_all add: holds_at_append prefix_bytes_def ac_simps)
  show lfb: "length fb \<le> u32_max" "148 \<le> length fb"
    using v by (auto simp: serialize_record_frame_Inr stored_frame_wf_def frame_wf_def)
  show "record_frame_len_at bs 173 = Inr (of_nat (length fb))"
    using v fb by (intro record_frame_len_at_frame) blast+
  show d: "drop 173 bs = fb @ sec @ frames" using v hl by simp
  show "parse_record_frame (drop 173 bs) (of_nat (length fb)) 1 = Inr f"
    unfolding d using v lfb by (intro parse_record_frame_complete) simp_all
  have u: "length fb + (length sec + length frames) \<le> usize_max" using v len by simp
  have "parse_header (prefix_bytes 147 (length sec) (length fb + length sec + length frames) @
      header_tlvs h @ (fb @ sec @ frames)) = Inr h"
    using v len hl u
    by (intro parse_header_serialized [where rl = "of_nat (length sec)"
          and bl = "of_nat (length fb + length sec + length frames)"])
       (simp_all add: serialize_header_Inr prefix_bytes_def add.assoc del: of_nat_add)
  then show "parse_header bs = Inr h" using v by simp
qed

lemma parse_and_validate_layout:
  assumes v: "vault_layout bs h f fb sec frames" and len: "length bs \<le> 67108864"
  shows "parse_and_validate bs = Inr \<lparr>uf_bytes = bs, uf_header = h, uf_record_table_len = length sec,
    uf_wrk_frame_offset = 173, uf_wrk_frame_len = of_nat (length fb)\<rparr>"
proof -
  note f = vault_layout_facts [OF v]
  have r: "get_range bs 10 14 = Some (u32_le 147)"
    "get_range bs 14 18 = Some (u32_le (of_nat (length sec)))"
    using f by (simp_all add: get_range_holds_at)
  have u: "length bs \<le> usize_max" "(173 :: nat) \<le> usize_max" "length sec \<le> u32_max"
    using v by (auto simp: vault_layout_def simp del: length_append) (simp add: usize_max_def)
  have "34 \<le> length bs" using f(1) by simp
  then show ?thesis
    unfolding parse_and_validate_def
    using f(8,9) r u len by (simp add: to_u64_def)
qed

text \<open>The session that unlocking a file with this header and these keys gives.\<close>

definition session_of :: "path \<Rightarrow> VaultHeader \<Rightarrow> UnlockedKeys \<Rightarrow> UnlockedVault" where
  "session_of p h u = \<lparr>uv_path = p, uv_keys = u, uv_context =
     \<lparr>cx_vault_id = vh_vault_id h, cx_header_nonce = vh_header_nonce h,
      cx_profile_set = vh_profile_set h\<rparr>\<rparr>"

definition wrk_aad :: "VaultHeader \<Rightarrow> RecordFrame \<Rightarrow> byte list" where
  "wrk_aad h f = build_aad (vh_vault_id h) 1 2 1 1 0 (rf_record_id f) (rf_revision_id f)
     RECORD_KIND_WRAPPED_ROOT_KEY"

lemma unlock_bytes_layout:
  assumes v: "vault_layout bs h f fb sec frames" and len: "length bs \<le> 67108864"
    and aad: "rf_stored_aad f = wrk_aad h f"
    and keys: "derive_session_keys P pw (vh_vault_id h) (vh_header_nonce h) 1 (vh_kdf_params h)
      (rf_ciphertext f) (rf_nonce f) (wrk_aad h f) = Inr u"
    and table: "open_sealed_record_table_v2 P bs (173 + length fb) (length sec) (uk_metadata_key u)
      (vh_vault_id h) 2 (173 + length fb) (length bs) = Inr es"
  shows "unlock_bytes P p pw bs = Inr (session_of p h u)"
proof -
  note f = vault_layout_facts [OF v]
  have ps: "vh_profile_set h = \<lparr>ps_aead = 1, ps_pqc = 0, ps_kdf = 1, ps_schema = 2\<rparr>"
    "vh_format_version h = 1"
    using v by (simp_all add: vault_layout_def header_wf_def suite_pinned_def)
  have fr: "get_from bs 173 = Some (drop 173 bs)" using f(1) by (simp add: get_from_def)
  have al: "length (wrk_aad h f) = 79"
    using v by (simp add: wrk_aad_def vault_layout_def header_wf_def stored_frame_wf_def frame_wf_def)
  have u: "173 + length fb \<le> usize_max" using f(1) v by (simp add: vault_layout_def)
  show ?thesis
    unfolding unlock_bytes_def Let_def parse_and_validate_layout [OF v len]
    using f(10,13) fr ps aad keys table al u
    by (simp add: wrk_aad_def session_of_def to_usize_def validate_stored_record_aad_def
        del: validate_stored_record_aad_Inr)
qed

subsection \<open>What the writers do to the disk\<close>

text \<open>
  \<open>evolves Q w w'\<close>: every state of the disk seen from \<open>w\<close> on, up to and including that of \<open>w'\<close>,
  satisfies \<open>Q\<close>; nothing but the disk and the position in the random stream changes.
\<close>

definition evolves :: "(fs_state \<Rightarrow> bool) \<Rightarrow> world \<Rightarrow> world \<Rightarrow> bool" where
  "evolves Q w w' \<longleftrightarrow> (\<exists>hs. history w' = hs @ history w \<and> (\<forall>s \<in> set hs. Q s)) \<and> Q (files w') \<and>
     entropy w' = entropy w \<and> clock_ms w' = clock_ms w \<and> faults w' = faults w"

lemma evolves_refl: "Q (files w) \<Longrightarrow> evolves Q w w"
  by (simp add: evolves_def)

lemma evolves_trans:
  assumes "evolves Q w v" "evolves Q v u"
  shows "evolves Q w u"
proof -
  obtain hs where "history v = hs @ history w" "\<forall>s \<in> set hs. Q s"
    using assms(1) unfolding evolves_def by blast
  moreover obtain gs where "history u = gs @ history v" "\<forall>s \<in> set gs. Q s"
    using assms(2) unfolding evolves_def by blast
  ultimately have "history u = (gs @ hs) @ history w \<and> (\<forall>s \<in> set (gs @ hs). Q s)" by auto
  then show ?thesis using assms unfolding evolves_def by (intro conjI exI) auto
qed

lemma evolves_mono: "evolves Q w v \<Longrightarrow> (\<And>s. Q s \<Longrightarrow> R s) \<Longrightarrow> evolves R w v"
  unfolding evolves_def by blast

lemma evolves_snapshot:
  "Q fs \<Longrightarrow> evolves Q w (snapshot (w\<lparr>files := fs\<rparr>))"
  by (simp add: evolves_def snapshot_def)

lemma evolves_snapshot0: "Q (files w) \<Longrightarrow> evolves Q w (snapshot w)"
  by (simp add: evolves_def snapshot_def)

lemma files_snapshot [simp]: "files (snapshot w) = files w"
  by (simp add: snapshot_def)

lemma faults_snapshot [simp]: "faults (snapshot w) = faults w"
  by (simp add: snapshot_def)

lemma history_snapshot [simp]: "history (snapshot w) = files w # history w"
  by (simp add: snapshot_def)

lemma rest_snapshot [simp]:
  "entropy (snapshot w) = entropy w" "drawn (snapshot w) = drawn w" "clock_ms (snapshot w) = clock_ms w"
  by (simp_all add: snapshot_def)

text \<open>An operation within \<open>Q\<close>: started where \<open>Q\<close> holds it stays in \<open>Q\<close>.\<close>

definition within :: "(fs_state \<Rightarrow> bool) \<Rightarrow> ('e, 'a) act \<Rightarrow> bool" where
  "within Q m \<longleftrightarrow> (\<forall>w. Q (files w) \<longrightarrow> evolves Q w (snd (m w)))"

lemma within_bind: "within Q m \<Longrightarrow> (\<And>x. within Q (f x)) \<Longrightarrow> within Q (bind_act m f)"
  unfolding within_def bind_act_def
  by (auto split: prod.splits sum.splits) (metis evolves_def evolves_trans snd_conv)+

lemma within_lift [simp]: "within Q (lift_rs r)"
  by (simp add: within_def evolves_refl)

lemma within_ignore: "within Q m \<Longrightarrow> within Q (ignore_act m)"
  by (simp add: within_def ignore_act_def)

lemma within_catch: "within Q m \<Longrightarrow> (\<And>r. within Q (h r)) \<Longrightarrow> within Q (catch_act m h)"
  unfolding within_def catch_act_def
  by (auto split: prod.splits) (metis evolves_def evolves_trans snd_conv)+

lemma within_plain_call [simp]: "within Q plain_call"
  by (auto simp: within_def plain_call_def evolves_snapshot0 split: option.splits)

lemma within_sync [simp]: "within Q (fs_sync_all p)" "within Q (fs_sync_dir d)" "within Q (fsync_parent p)"
  by (simp_all add: fs_sync_all_def fs_sync_dir_def fsync_parent_def within_bind)

lemma within_read [simp]: "within Q (fs_read p)"
  by (auto simp: within_def fs_read_def evolves_snapshot0 split: option.splits)

lemma within_draw [simp]: "within Q (draw n)" "within Q (random_key)" "within Q random_nonce_xchacha20"
  by (simp_all add: within_def evolves_def random_key_def random_nonce_xchacha20_def)

lemma within_random_bytes [simp]: "within Q (random_bytes n)"
  by (simp add: random_bytes_def)

lemma within_map_err: "within Q m \<Longrightarrow> within Q (map_err_act m e)"
  unfolding within_def map_err_act_def by (auto split: prod.splits)

lemma within_encrypt [simp]: "within Q (encrypt P k m a)"
  unfolding encrypt_def generate_nonce_def by (intro within_bind) simp_all

lemma within_clock [simp]: "within Q unix_time_millis"
  by (simp add: within_def unix_time_millis_def evolves_refl)

lemma within_seal_table [simp]: "within Q (serialize_sealed_record_table_v2 P es k v s)"
  unfolding serialize_sealed_record_table_v2_def
  by (intro within_bind within_lift within_map_err within_encrypt) (auto split: prod.splits)

lemma within_new_image [simp]: "within Q (new_vault_image P v hn kp rid rid2 ct n aad mk)"
  unfolding new_vault_image_def Let_def
  by (intro within_bind within_lift within_clock within_seal_table)

lemma withinD: "within Q m \<Longrightarrow> Q (files w) \<Longrightarrow> m w = (r, w') \<Longrightarrow> evolves Q w w'"
  unfolding within_def by (metis snd_conv)

text \<open>Two disks that agree outside a set of paths; operations on a temporary file only.\<close>

definition same_except :: "path set \<Rightarrow> fs_state \<Rightarrow> fs_state \<Rightarrow> bool" where
  "same_except T s t \<longleftrightarrow> (\<forall>p. p \<notin> T \<longrightarrow> s p = t p)"

lemma same_except_refl [simp]: "same_except T s s"
  by (simp add: same_except_def)

lemma same_except_upd: "p \<in> T \<Longrightarrow> same_except T s (t(p := x)) \<longleftrightarrow> same_except T s t"
  by (auto simp: same_except_def)

lemma within_create_new:
  "(\<And>s. Q s \<Longrightarrow> s p = None \<Longrightarrow> Q (s(p := Some []))) \<Longrightarrow> within Q (fs_create_new p)"
  by (auto simp: within_def fs_create_new_def evolves_snapshot0 evolves_snapshot split: option.splits)

lemma within_write_all:
  "(\<And>s xs. Q s \<Longrightarrow> Q (s(p := Some xs))) \<Longrightarrow> within Q (fs_write_all p bs)"
  by (auto simp: within_def fs_write_all_def Let_def evolves_snapshot0 evolves_snapshot split: option.splits)

lemma within_remove:
  "(\<And>s. Q s \<Longrightarrow> Q (s(p := None))) \<Longrightarrow> within Q (fs_remove_file p)"
  by (auto simp: within_def fs_remove_file_def evolves_snapshot0 evolves_snapshot split: option.splits)

lemma tmp_differs: "unique_tmp_path p seed \<noteq> p"
  unfolding unique_tmp_path_def by (rule with_extension_differs) simp

text \<open>
  The writer's states: outside the temporary file, the disk is as before, or the target holds
  the complete new content.
\<close>

definition published :: "path \<Rightarrow> path \<Rightarrow> byte list \<Rightarrow> fs_state \<Rightarrow> fs_state \<Rightarrow> bool" where
  "published tmp p bs s0 s \<longleftrightarrow>
     same_except {tmp} s0 s \<or> same_except {tmp} (s0(p := Some bs)) s"

lemma published_target: "published tmp p bs s0 s \<Longrightarrow> tmp \<noteq> p \<Longrightarrow> s p = s0 p \<or> s p = Some bs"
  unfolding published_def same_except_def by (metis empty_iff fun_upd_same insert_iff)

lemma write_and_rename_cases:
  assumes ne: "tmp \<noteq> p"
  shows "evolves (published tmp p bs (files w)) w (snd (write_and_rename tmp p bs w)) \<and>
    (fst (write_and_rename tmp p bs w) = Inr () \<longrightarrow>
       files (snd (write_and_rename tmp p bs w)) = (files w)(tmp := None, p := Some bs)) \<and>
    no_panic (fst (write_and_rename tmp p bs w))"
proof -
  let ?Q = "published tmp p bs (files w)"
  have q: "same_except {tmp} (files w) s \<Longrightarrow> ?Q s" for s by (simp add: published_def)
  show ?thesis
    using ne
    by (auto simp: write_and_rename_def bind_act_def fs_create_new_def fs_write_all_def Let_def
        fs_sync_all_def plain_call_def fs_rename_def fsync_parent_def fs_sync_dir_def evolves_def
        published_def same_except_def fun_upd_def split: option.splits prod.splits sum.splits)
qed

lemma persist_mutation_cases:
  fixes w :: world and p :: path and seed bs :: "byte list"
  defines "tmp \<equiv> unique_tmp_path p seed" and "out \<equiv> persist_vault_mutation_v2 p bs seed w"
  shows "evolves (published tmp p bs (files w)) w (snd out)"
    and "fst out = Inr () \<Longrightarrow> files (snd out) = (files w)(tmp := None, p := Some bs)"
    and "no_panic (fst out)"
proof -
  have ne: "tmp \<noteq> p" unfolding tmp_def by (rule tmp_differs)
  let ?Q = "published tmp p bs (files w)"
  obtain r v where rv: "write_and_rename tmp p bs w = (r, v)" by fastforce
  have c: "evolves ?Q w v" "r = Inr () \<longrightarrow> files v = (files w)(tmp := None, p := Some bs)" "no_panic r"
    using write_and_rename_cases [OF ne, of bs w] rv by simp_all
  have "within ?Q (fs_remove_file tmp)"
    by (rule within_remove) (auto simp: published_def same_except_upd)
  then have rm: "evolves ?Q v (snd (fs_remove_file tmp v))"
    using c(1) by (simp add: within_def evolves_def)
  have out: "out = (case r of Inl (Err e) \<Rightarrow> (r, snd (fs_remove_file tmp v)) | _ \<Rightarrow> (r, v))"
    using rv by (auto simp: out_def persist_vault_mutation_v2_def Let_def tmp_def [symmetric] catch_act_def
        bind_act_def ignore_act_def split: sum.splits fault.splits)
  show "evolves ?Q w (snd out)"
    using c(1) evolves_trans [OF c(1) rm] by (auto simp: out split: sum.splits fault.splits)
  show "files (snd out) = (files w)(tmp := None, p := Some bs)" if "fst out = Inr ()"
    using that c(2) by (auto simp: out split: sum.splits fault.splits)
  show "no_panic (fst out)"
    using c(3) by (auto simp: out split: sum.splits fault.splits)
qed

subsection \<open>Creating a vault\<close>

definition new_header :: "byte list \<Rightarrow> byte list \<Rightarrow> HeaderKdfParams \<Rightarrow> u64 \<Rightarrow> VaultHeader" where
  "new_header vault_id header_nonce kdf created_at =
     \<lparr>vh_vault_id = vault_id, vh_created_at = created_at, vh_format_version = 1,
      vh_schema_profile = 2, vh_aead_profile = 1, vh_kdf_profile = 1, vh_kdf_params = kdf,
      vh_pqc_profile = 0, vh_header_nonce = header_nonce,
      vh_profile_set = \<lparr>ps_aead = 1, ps_pqc = 0, ps_kdf = 1, ps_schema = 2\<rparr>\<rparr>"

definition wrk_frame :: "byte list \<Rightarrow> byte list \<Rightarrow> byte list \<Rightarrow> byte list \<Rightarrow> byte list \<Rightarrow> RecordFrame" where
  "wrk_frame rid rid2 nonce aad ct = \<lparr>rf_frame_version = 1, rf_record_id = rid,
     rf_revision_id = rid2, rf_nonce = nonce, rf_stored_aad = aad,
     rf_ciphertext_len = of_nat (length ct), rf_ciphertext = ct\<rparr>"

definition fresh_inputs ::
    "byte list \<Rightarrow> byte list \<Rightarrow> HeaderKdfParams \<Rightarrow> byte list \<Rightarrow> byte list \<Rightarrow> byte list \<Rightarrow> byte list \<Rightarrow> byte list \<Rightarrow> key \<Rightarrow> bool" where
  "fresh_inputs v hn kp rid rid2 ct n aad mk \<longleftrightarrow>
     length v = 16 \<and> length hn = 24 \<and> kdf_params_wf kp \<and> length rid = 16 \<and> length rid2 = 16 \<and>
     length ct = 48 \<and> length n = 24 \<and> length aad = 79 \<and> length mk = 32"

lemma new_image_layout:
  assumes P: "aead_correct P" and ins: "fresh_inputs v hn kp rid rid2 ct n aad mk"
    and run: "new_vault_image P v hn kp rid rid2 ct n aad mk w = (Inr bs, w')"
  shows "\<exists>t fb sec. vault_layout bs (new_header v hn kp t) (wrk_frame rid rid2 n aad ct) fb sec [] \<and>
    sealed_section P [] mk v (next_random w 24) sec \<and> length bs = 463 \<and>
    0 \<le> clock_ms w \<and> t = of_nat (nat (clock_ms w)) \<and> w' = w\<lparr>drawn := drawn w + 24\<rparr>"
proof -
  define t :: u64 where "t = of_nat (nat (clock_ms w))"
  let ?h = "new_header v hn kp t" and ?f = "wrk_frame rid rid2 n aad ct"
  have h: "header_wf ?h"
    using ins by (simp add: header_wf_def suite_pinned_def new_header_def fresh_inputs_def)
  have f: "stored_frame_wf ?f" "rf_stored_aad ?f = aad"
    using ins by (simp_all add: stored_frame_wf_def frame_wf_def wrk_frame_def fresh_inputs_def u32_max_def)
  obtain fb sec where r: "0 \<le> clock_ms w" "serialize_record_frame ?f aad = Inr fb"
    "serialize_sealed_record_table_v2 P [] mk v 2 w = (Inr sec, w')"
    "serialize_vault_file (header_tlvs ?h) sec fb = Inr bs"
    using run serialize_header_Inr [OF h] ins
    by (fastforce simp: new_vault_image_def bind_act_eq_Inr unix_time_millis_def Let_def
        AeadProfileId_new_def PqcProfileId_new_def KdfProfileId_new_def SchemaProfileId_new_def
        t_def [symmetric] new_header_def wrk_frame_def fresh_inputs_def split: if_splits)
  have s: "sealed_section P [] mk v (next_random w 24) sec" "w' = w\<lparr>drawn := drawn w + 24\<rparr>"
    using r(3) by (simp_all add: serialize_sealed_Inr)
  have ls: "length sec = 94"
    using length_sealed_section [OF P _ _ _ s(1)] ins by (simp add: fresh_inputs_def)
  have lf: "length fb = 196"
    using r(2) ins by (auto simp: serialize_record_frame_Inr wrk_frame_def fresh_inputs_def)
  have bs: "bs = prefix_bytes 147 (length sec) (length fb + length sec) @ header_tlvs ?h @ fb @ sec"
    using r(4) length_header_tlvs [OF h] by (auto simp: serialize_vault_file_Inr prefix_bytes_def)
  then have lb: "length bs = 463" using ls lf length_header_tlvs [OF h] by simp
  have "vault_layout bs ?h ?f fb sec []"
    using h f r(2) ls lb bs by (simp add: vault_layout_def u32_max_def usize_max_def)
  then show ?thesis using s r(1) lb by (intro exI [of _ t] exI) (auto simp: t_def)
qed

lemma fs_create_new_Inr:
  "fs_create_new p w = (Inr u, w') \<longleftrightarrow> files w p = None \<and> faults w (calls w) = None \<and>
    w' = snapshot (w\<lparr>files := (files w)(p := Some [])\<rparr>)"
  by (auto simp: fs_create_new_def split: option.splits)

lemma fs_read_Inr:
  "fs_read p w = (Inr bs, w') \<longleftrightarrow> files w p = Some bs \<and> faults w (calls w) = None \<and> w' = snapshot w"
  by (auto simp: fs_read_def split: option.splits)

lemma persist_vault_Inr:
  assumes "persist_vault P p v hn kp rid rid2 ct n aad mk w = (Inr u, w')"
  shows "\<exists>bs w1 w2. files w p = None \<and> w1 = snapshot (w\<lparr>files := (files w)(p := Some [])\<rparr>) \<and>
    new_vault_image P v hn kp rid rid2 ct n aad mk w1 = (Inr bs, w2) \<and>
    write_and_rename (unique_tmp_path p rid) p bs w2 = (Inr (), w')"
proof -
  let ?w1 = "snapshot (w\<lparr>files := (files w)(p := Some [])\<rparr>)"
  have c: "fs_create_new p w = (Inr (), ?w1)"
    and i: "persist_vault_inner P p (unique_tmp_path p rid) v hn kp rid rid2 ct n aad mk ?w1 = (Inr (), w')"
    using assms
    by (auto simp: persist_vault_def Let_def catch_act_def fs_create_new_Inr bind_act_eq_Inr
        split: sum.splits fault.splits prod.splits option.splits if_splits) 
  then show ?thesis
    unfolding persist_vault_inner_def by (auto simp: bind_act_eq_Inr fs_create_new_Inr)
qed

text \<open>The keys of a creation, and the file it leaves.\<close>

definition wrk_record_aad :: "byte list \<Rightarrow> byte list \<Rightarrow> byte list \<Rightarrow> byte list" where
  "wrk_record_aad v rid rid2 = build_aad v 1 2 1 1 0 rid rid2 RECORD_KIND_WRAPPED_ROOT_KEY"

definition created_file :: "prims \<Rightarrow> byte list \<Rightarrow> UnlockedKeys \<Rightarrow> byte list \<Rightarrow> bool" where
  "created_file P pw u bs \<longleftrightarrow> (\<exists>h f fb sec n.
     vault_layout bs h f fb sec [] \<and> length bs = 463 \<and> rf_stored_aad f = wrk_aad h f \<and> keys_wf u \<and>
     derive_session_keys P pw (vh_vault_id h) (vh_header_nonce h) 1 (vh_kdf_params h)
       (rf_ciphertext f) (rf_nonce f) (wrk_aad h f) = Inr u \<and>
     length n = 24 \<and> sealed_section P [] (uk_metadata_key u) (vh_vault_id h) n sec)"

lemma created_file_unlocks:
  assumes P: "aead_correct P" and c: "created_file P pw u bs"
  shows "\<exists>h. unlock_bytes P p pw bs = Inr (session_of p h u)"
proof -
  obtain h f fb sec n where v: "vault_layout bs h f fb sec []" "length bs = 463"
    and a: "rf_stored_aad f = wrk_aad h f" "keys_wf u"
    and k: "derive_session_keys P pw (vh_vault_id h) (vh_header_nonce h) 1 (vh_kdf_params h)
       (rf_ciphertext f) (rf_nonce f) (wrk_aad h f) = Inr u"
    and s: "length n = 24" "sealed_section P [] (uk_metadata_key u) (vh_vault_id h) n sec"
    using c unfolding created_file_def by blast
  have "open_sealed_record_table_v2 P bs (173 + length fb) (length sec) (uk_metadata_key u)
      (vh_vault_id h) 2 (173 + length fb) (length bs) = Inr []"
    using vault_layout_facts(6) [OF v(1)] v a s
    by (intro open_sealed_complete [OF P _ s]) (simp_all add: keys_wf_def entries_ok_def usize_max_def)
  then show ?thesis
    using unlock_bytes_layout [OF v(1) _ a(1) k] v(2) by auto
qed

lemma create_file:
  assumes P: "aead_correct P" "kdf_total P"
    and run: "create P \<lparr>cp_path = p, cp_password = pw\<rparr> w = (Inr lv, w')"
  shows "lv = \<lparr>lv_path = p\<rparr> \<and> pw \<noteq> [] \<and> files w p = None \<and>
    (\<exists>u bs. files w' p = Some bs \<and> created_file P pw u bs \<and> (\<exists>tmp. files w' = (files w)(tmp := None, p := Some bs)))"
proof -
  define v where "v = next_random w 16"
  define rid where "rid = next_random (w\<lparr>drawn := drawn w + 16\<rparr>) 16"
  define rid2 where "rid2 = next_random (w\<lparr>drawn := 32 + drawn w\<rparr>) 16"
  define hn where "hn = next_random (w\<lparr>drawn := 48 + drawn w\<rparr>) 24"
  define w0 where "w0 = w\<lparr>drawn := 72 + drawn w\<rparr>"
  have ids: "length rid = 16" "length rid2 = 16" "length hn = 24" and w0: "files w0 = files w"
    by (simp_all add: rid_def rid2_def hn_def w0_def)
  obtain u ct n w1 where
    pw: "pw \<noteq> []" "lv = \<lparr>lv_path = p\<rparr>"
    and keys: "create_session_keys P pw v hn 1 canonical_argon2id_v1 (wrk_record_aad v rid rid2) w0 =
      (Inr (u, ct, n), w1)"
    and pv: "persist_vault P p v hn canonical_argon2id_v1 rid rid2 ct n (wrk_record_aad v rid rid2)
      (uk_metadata_key u) w1 = (Inr (), w')"
    using run
    by (auto simp: create_def bind_act_eq_Inr random_bytes_def random_nonce_xchacha20_def Let_def
        AeadProfileId_new_def wrk_record_aad_def v_def [symmetric] rid_def [symmetric]
        rid2_def [symmetric] hn_def [symmetric] w0_def [symmetric] split: if_splits prod.splits)
  have w1: "files w1 = files w0" and n: "length n = 24"
    using keys by (auto simp: create_session_keys_Inr)
  obtain muk vkek where mv: "derive_vkek P muk v = Inr vkek"
    "xchacha_seal P vkek n (wrk_record_aad v rid rid2) (next_random w0 32) = Some ct"
    "derive_subkeys P (derive_root_prk P (next_random w0 32) v hn) v 1 = Inr u"
    using keys by (auto simp: create_session_keys_Inr)
  have "length vkek = 32" using derive_vkek_ok [OF P(2), of muk v] mv(1) by auto
  then have lct: "length ct = 48" using aead_correctD [OF P(1) _ n mv(2)] by simp
  have kw: "keys_wf u" using derive_subkeys_ok [OF P(2) length_derive_root_prk [OF P(2)]] mv(3)
    by (metis Inr_inject)
  let ?aad = "wrk_record_aad v rid rid2"
  have la: "length ?aad = 79" using ids by (simp add: wrk_record_aad_def v_def)
  obtain bs c1 c2 where pvd: "files w1 p = None" "files c1 = (files w1)(p := Some [])"
    "new_vault_image P v hn canonical_argon2id_v1 rid rid2 ct n ?aad (uk_metadata_key u) c1 = (Inr bs, c2)"
    "write_and_rename (unique_tmp_path p rid) p bs c2 = (Inr (), w')"
    using persist_vault_Inr [OF pv] by (elim exE conjE) (rule that, simp_all)
  have ins: "fresh_inputs v hn canonical_argon2id_v1 rid rid2 ct n ?aad (uk_metadata_key u)"
    using ids lct n la kw by (simp add: fresh_inputs_def v_def keys_wf_def)
  obtain t fb sec where im: "vault_layout bs (new_header v hn canonical_argon2id_v1 t)
      (wrk_frame rid rid2 n ?aad ct) fb sec []" "length bs = 463"
    "sealed_section P [] (uk_metadata_key u) v (next_random c1 24) sec"
    using new_image_layout [OF P(1) ins pvd(3)] by blast
  have "created_file P pw u bs"
    unfolding created_file_def
  proof (intro exI conjI)
    show "vault_layout bs (new_header v hn canonical_argon2id_v1 t) (wrk_frame rid rid2 n ?aad ct) fb sec []"
      by (rule im(1))
    show "derive_session_keys P pw (vh_vault_id (new_header v hn canonical_argon2id_v1 t))
      (vh_header_nonce (new_header v hn canonical_argon2id_v1 t)) 1
      (vh_kdf_params (new_header v hn canonical_argon2id_v1 t))
      (rf_ciphertext (wrk_frame rid rid2 n ?aad ct)) (rf_nonce (wrk_frame rid rid2 n ?aad ct))
      (wrk_aad (new_header v hn canonical_argon2id_v1 t) (wrk_frame rid rid2 n ?aad ct)) = Inr u"
      using session_keys_agree [OF P keys]
      by (simp add: new_header_def wrk_frame_def wrk_aad_def wrk_record_aad_def)
    show "sealed_section P [] (uk_metadata_key u) (vh_vault_id (new_header v hn canonical_argon2id_v1 t))
      (next_random c1 24) sec" using im(3) by (simp add: new_header_def)
  qed (use im kw in \<open>simp_all add: new_header_def wrk_frame_def wrk_aad_def wrk_record_aad_def\<close>)
  moreover have "files c2 = files c1"
    using withinD [OF within_new_image, of "\<lambda>s. s = files c1" c1, OF refl pvd(3)] by (simp add: evolves_def)
  then have "files w' = (files w)(unique_tmp_path p rid := None, p := Some bs)"
    using write_and_rename_cases [OF tmp_differs, of p rid bs c2] pvd(2,4) w1 w0 by (simp add: fun_upd_twist)
  moreover have "files w p = None" using pvd(1) w1 w0 by simp
  ultimately show ?thesis using pw by (intro conjI exI) auto
qed

subsection \<open>Creation succeeds\<close>

lemma new_image_ok:
  assumes P: "aead_correct P" "aead_total P" and ins: "fresh_inputs v hn kp rid rid2 ct n aad mk"
    and clk: "0 \<le> clock_ms w" "nat (clock_ms w) \<le> usize_max"
  shows "\<exists>bs. new_vault_image P v hn kp rid rid2 ct n aad mk w = (Inr bs, w\<lparr>drawn := drawn w + 24\<rparr>)"
proof -
  define t :: u64 where "t = of_nat (nat (clock_ms w))"
  let ?h = "new_header v hn kp t" and ?f = "wrk_frame rid rid2 n aad ct"
  have h: "header_wf ?h"
    using ins by (simp add: header_wf_def suite_pinned_def new_header_def fresh_inputs_def)
  obtain fb where fb: "serialize_record_frame ?f aad = Inr fb" "length fb = 196"
    using ins by (auto simp: serialize_record_frame_Inr wrk_frame_def fresh_inputs_def u32_max_def usize_max_def)
  have lk: "length mk = 32" using ins by (simp add: fresh_inputs_def)
  obtain c where c: "xchacha_seal P mk (next_random w 24) (v @ u16_le 2) (padded_table []) = Some c"
    using aead_totalD [OF P(2) lk, of "next_random w 24" "padded_table []" "v @ u16_le 2"] by auto
  have lc: "length c = 66" using aead_correctD [OF P(1) lk _ c] by simp
  let ?sec = "u32_le (of_nat (24 + length c)) @ next_random w 24 @ c"
  have sec: "serialize_sealed_record_table_v2 P [] mk v 2 w = (Inr ?sec, w\<lparr>drawn := drawn w + 24\<rparr>)"
    using c lc by (simp add: serialize_sealed_Inr sealed_section_def u32_max_def usize_max_def)
  obtain bs where bs: "serialize_vault_file (header_tlvs ?h) ?sec fb = Inr bs"
    using fb lc length_header_tlvs [OF h] by (auto simp: serialize_vault_file_Inr u32_max_def usize_max_def)
  show ?thesis
    using clk serialize_header_Inr [OF h] fb sec bs ins
    by (intro exI [of _ bs])
       (simp add: new_vault_image_def unix_time_millis_def Let_def bind_act_eq_Inr
        AeadProfileId_new_def PqcProfileId_new_def KdfProfileId_new_def SchemaProfileId_new_def
        t_def [symmetric] new_header_def wrk_frame_def fresh_inputs_def u32_max_def del: of_nat_add)
qed

lemma write_and_rename_ok:
  assumes "no_faults w" "files w tmp = None" "tmp \<noteq> p"
  shows "\<exists>w'. write_and_rename tmp p bs w = (Inr (), w')"
  using assms
  by (auto simp: no_faults_def write_and_rename_def bind_act_def fs_create_new_def fs_write_all_def
      Let_def fs_sync_all_def plain_call_def fs_rename_def fsync_parent_def fs_sync_dir_def)

lemma persist_vault_ok:
  assumes P: "aead_correct P" "aead_total P" and ins: "fresh_inputs v hn kp rid rid2 ct n aad mk"
    and clk: "0 \<le> clock_ms w" "nat (clock_ms w) \<le> usize_max"
    and fs: "no_faults w" "files w p = None" "files w (unique_tmp_path p rid) = None"
  shows "\<exists>w'. persist_vault P p v hn kp rid rid2 ct n aad mk w = (Inr (), w')"
proof -
  let ?w1 = "snapshot (w\<lparr>files := (files w)(p := Some [])\<rparr>)"
  have 1: "fs_create_new p w = (Inr (), ?w1)"
    using fs by (simp add: fs_create_new_def no_faults_def)
  obtain bs w2 where 2: "new_vault_image P v hn kp rid rid2 ct n aad mk ?w1 = (Inr bs, w2)"
    "w2 = ?w1\<lparr>drawn := drawn ?w1 + 24\<rparr>"
    using new_image_ok [OF P ins, of ?w1] clk by auto
  have "no_faults w2" "files w2 (unique_tmp_path p rid) = None"
    using fs tmp_differs [of p rid] 2(2) by (simp_all add: no_faults_def)
  then obtain w' where 3: "write_and_rename (unique_tmp_path p rid) p bs w2 = (Inr (), w')"
    using write_and_rename_ok tmp_differs by blast
  show ?thesis
    by (simp add: persist_vault_def Let_def catch_act_def 1 persist_vault_inner_def bind_act_def 2(1) 3)
qed

lemma create_ok:
  assumes P: "aead_correct P" "aead_total P" "kdf_total P" and pw: "pw \<noteq> []"
    and clk: "0 \<le> clock_ms w" "nat (clock_ms w) \<le> usize_max"
    and fs: "no_faults w" "files w p = None" "\<And>seed. files w (unique_tmp_path p seed) = None"
  shows "\<exists>w'. create P \<lparr>cp_path = p, cp_password = pw\<rparr> w = (Inr \<lparr>lv_path = p\<rparr>, w')"
proof -
  define v where "v = next_random w 16"
  define rid where "rid = next_random (w\<lparr>drawn := drawn w + 16\<rparr>) 16"
  define rid2 where "rid2 = next_random (w\<lparr>drawn := 32 + drawn w\<rparr>) 16"
  define hn where "hn = next_random (w\<lparr>drawn := 48 + drawn w\<rparr>) 24"
  define w0 where "w0 = w\<lparr>drawn := 72 + drawn w\<rparr>"
  let ?aad = "build_aad v 1 2 1 1 0 rid rid2 RECORD_KIND_WRAPPED_ROOT_KEY"
  obtain u ct where k: "create_session_keys P pw v hn 1 canonical_argon2id_v1 ?aad w0 =
      (Inr (u, ct, next_random (w0\<lparr>drawn := drawn w0 + 32\<rparr>) 24), w0\<lparr>drawn := drawn w0 + 56\<rparr>)"
    "keys_wf u" "length ct = 48"
    using create_session_keys_ok [OF P canonical_kdf_wf pw refl, of v hn ?aad w0] by blast
  let ?n = "next_random (w0\<lparr>drawn := drawn w0 + 32\<rparr>) 24"
  let ?w1 = "w0\<lparr>drawn := drawn w0 + 56\<rparr>"
  have "fresh_inputs v hn canonical_argon2id_v1 rid rid2 ct ?n ?aad (uk_metadata_key u)"
    using k by (simp add: fresh_inputs_def v_def rid_def rid2_def hn_def keys_wf_def)
  moreover have "no_faults ?w1" "files ?w1 p = None" "files ?w1 (unique_tmp_path p rid) = None"
    "0 \<le> clock_ms ?w1" "nat (clock_ms ?w1) \<le> usize_max"
    using fs clk by (simp_all add: no_faults_def w0_def)
  ultimately obtain w' where "persist_vault P p v hn canonical_argon2id_v1 rid rid2 ct ?n ?aad
      (uk_metadata_key u) ?w1 = (Inr (), w')"
    using persist_vault_ok [OF P(1,2)] by blast
  then show ?thesis
    using pw k(1)
    by (intro exI [of _ w'])
       (simp add: create_def bind_act_eq_Inr random_bytes_def random_nonce_xchacha20_def Let_def
        AeadProfileId_new_def v_def [symmetric] rid_def [symmetric]
        rid2_def [symmetric] hn_def [symmetric] w0_def [symmetric])
qed

subsection \<open>Creation never damages the disk\<close>

text \<open>The states during a creation: nothing, an empty claimed file, or the complete file.\<close>

definition creating :: "path \<Rightarrow> path \<Rightarrow> byte list set \<Rightarrow> fs_state \<Rightarrow> fs_state \<Rightarrow> bool" where
  "creating tmp p images s0 s \<longleftrightarrow>
     same_except {tmp, p} s0 s \<and> s p \<in> {s0 p, None, Some []} \<union> Some ` images"

lemma persist_existing:
  assumes "files w p = Some old"
  shows "fst (persist_vault P p v hn kp rid rid2 ct n aad mk w) \<noteq> Inr () \<and>
    evolves (same_except {unique_tmp_path p rid} (files w)) w
      (snd (persist_vault P p v hn kp rid rid2 ct n aad mk w))"
proof -
  let ?tmp = "unique_tmp_path p rid"
  obtain e where c: "fs_create_new p w = (err e, snapshot w)"
    using assms by (cases "faults w (calls w)") (auto simp: fs_create_new_def)
  have "within (same_except {?tmp} (files w)) (fs_remove_file ?tmp)"
    by (rule within_remove) (simp add: same_except_upd)
  then have "evolves (same_except {?tmp} (files w)) (snapshot w) (snd (fs_remove_file ?tmp (snapshot w)))"
    by (simp add: within_def)
  moreover have "evolves (same_except {?tmp} (files w)) w (snapshot w)"
    by (simp add: evolves_snapshot0)
  ultimately have "evolves (same_except {?tmp} (files w)) w (snd (fs_remove_file ?tmp (snapshot w)))"
    by (rule evolves_trans [rotated])
  then show ?thesis
    by (simp add: persist_vault_def Let_def catch_act_def c bind_act_def ignore_act_def)
qed

lemma persist_fresh:
  assumes new: "files w p = None"
  shows "evolves (creating (unique_tmp_path p rid) p
      {bs. \<exists>u u'. new_vault_image P v hn kp rid rid2 ct n aad mk u = (Inr bs, u')} (files w)) w
    (snd (persist_vault P p v hn kp rid rid2 ct n aad mk w))"
proof -
  let ?tmp = "unique_tmp_path p rid"
  let ?I = "{bs. \<exists>u u'. new_vault_image P v hn kp rid rid2 ct n aad mk u = (Inr bs, u')}"
  let ?Q = "creating ?tmp p ?I (files w)"
  have ne: "?tmp \<noteq> p" by (rule tmp_differs)
  have q0: "?Q (files w)" by (simp add: creating_def)
  have upd: "?Q s \<Longrightarrow> ?Q (s(?tmp := x))" for s x
    using ne by (auto simp: creating_def same_except_def)
  have updp: "?Q s \<Longrightarrow> x \<in> {None, Some []} \<union> Some ` ?I \<Longrightarrow> ?Q (s(p := x))" for s x
    by (auto simp: creating_def same_except_def)
  have rm: "within ?Q (fs_remove_file ?tmp)" "within ?Q (fs_remove_file p)"
    by (auto intro: within_remove upd updp)
  have inner: "within ?Q (persist_vault_inner P p ?tmp v hn kp rid rid2 ct n aad mk)"
    unfolding within_def
  proof (intro allI impI)
    fix w1 :: world
    assume w1: "?Q (files w1)"
    obtain r w2 where im: "new_vault_image P v hn kp rid rid2 ct n aad mk w1 = (r, w2)" by fastforce
    have e1: "evolves ?Q w1 w2" using withinD [of ?Q, OF within_new_image w1 im] .
    show "evolves ?Q w1 (snd (persist_vault_inner P p ?tmp v hn kp rid rid2 ct n aad mk w1))"
    proof (cases r)
      case (Inl e)
      then show ?thesis using im e1 by (simp add: persist_vault_inner_def bind_act_def)
    next
      case (Inr bs)
      have w2: "?Q (files w2)" using e1 by (simp add: evolves_def)
      have "?Q s" if "published ?tmp p bs (files w2) s" for s
      proof -
        have bs: "bs \<in> ?I" using im Inr by blast
        then have "?Q ((files w2)(p := Some bs))" using w2 updp by blast
        moreover have "?Q t" if "same_except {?tmp} t0 t" "?Q t0" for t t0
        proof -
          have "t = t0(?tmp := t ?tmp)" using that(1) by (auto simp: same_except_def)
          then show ?thesis using upd [OF that(2), of "t ?tmp"] by simp
        qed
        ultimately show ?thesis using that w2 unfolding published_def by blast
      qed
      then have "evolves ?Q w2 (snd (write_and_rename ?tmp p bs w2))"
        using write_and_rename_cases [OF ne, of bs w2] by (blast intro: evolves_mono)
      then show ?thesis
        using im Inr evolves_trans [OF e1] by (simp add: persist_vault_inner_def bind_act_def)
    qed
  qed
  have "within ?Q (persist_vault P p v hn kp rid rid2 ct n aad mk)"
    unfolding persist_vault_def Let_def
  proof (intro within_catch within_create_new)
    show "?Q (s(p := Some []))" if "?Q s" for s using that by (rule updp) simp
  next
    fix claim :: "(core_error, unit) rs"
    have h: "within ?Q (case r of Inl (Err e) \<Rightarrow> bind_act (ignore_act (fs_remove_file ?tmp))
        (\<lambda>_. bind_act (ignore_act (fs_remove_file p)) (\<lambda>_. lift_rs r)) | _ \<Rightarrow> lift_rs r)"
      for r :: "(core_error, unit) rs"
      using rm by (auto intro!: within_bind within_ignore split: sum.splits fault.splits)
    show "within ?Q (case claim of
        Inr _ \<Rightarrow> catch_act (persist_vault_inner P p ?tmp v hn kp rid rid2 ct n aad mk) (\<lambda>result.
          case result of Inl (Err e) \<Rightarrow> bind_act (ignore_act (fs_remove_file ?tmp))
              (\<lambda>_. bind_act (ignore_act (fs_remove_file p)) (\<lambda>_. lift_rs result))
            | _ \<Rightarrow> lift_rs result)
      | Inl (Err e) \<Rightarrow> bind_act (ignore_act (fs_remove_file ?tmp)) (\<lambda>_. lift_rs claim)
      | Inl Panic \<Rightarrow> lift_rs claim)"
      using rm inner h
      by (auto intro!: within_bind within_ignore within_catch split: sum.split fault.split)
  qed
  then show ?thesis using q0 by (simp add: within_def)
qed

subsection \<open>Unlocking untrusted bytes\<close>

lemma no_panic_parse_and_validate [simp]:
  "length bs \<le> isize_max \<Longrightarrow> no_panic (parse_and_validate bs)"
  unfolding parse_and_validate_def
  by (intro no_panic_intros; simp add: no_panic_parse_header)

lemma get_from_Some: "get_from xs a = Some ys \<longleftrightarrow> a \<le> length xs \<and> ys = drop a xs"
  by (auto simp: get_from_def)

lemma parse_and_validate_bytes: "parse_and_validate bs = Inr u \<Longrightarrow> uf_bytes u = bs"
  by (auto simp: parse_and_validate_def split: if_splits)

lemma no_panic_unlock_bytes:
  assumes "length bs \<le> isize_max"
  shows "no_panic (unlock_bytes P p pw bs)"
  unfolding unlock_bytes_def Let_def using assms
  by (intro no_panic_intros; auto simp: get_from_Some dest: parse_and_validate_bytes)

subsection \<open>Properties\<close>

text \<open>C10. Create, then unlock: a vault file that \<open>create\<close> reports as created is unlocked by
  \<open>unlock\<close> with the same password in any later state of the world in which the file is
  unchanged and its read does not fail; the session is for that path. The password was not
  empty and the path did not exist before.\<close>

theorem create_then_unlock:
  assumes "aead_correct P" "kdf_total P"
    and "create P \<lparr>cp_path = p, cp_password = pw\<rparr> w = (Inr lv, w')"
    and "files v p = files w' p" "faults v (calls v) = None"
  shows "\<exists>s. unlock P lv \<lparr>up_path = p, up_password = pw\<rparr> v = (Inr s, snapshot v) \<and> uv_path s = p"
proof -
  obtain u bs where c: "lv = \<lparr>lv_path = p\<rparr>" "pw \<noteq> []" "files w' p = Some bs" "created_file P pw u bs"
    using create_file [OF assms(1-3)] by blast
  obtain h where "unlock_bytes P p pw bs = Inr (session_of p h u)"
    using created_file_unlocks [OF assms(1) c(4)] by blast
  then show ?thesis
    using c assms(4,5)
    by (intro exI [of _ "session_of p h u"])
       (simp add: unlock_def unlock_impl_def bind_act_def fs_read_def session_of_def)
qed

theorem create_then_unlock_witness:
  "\<exists>lv w' s. unlock toy_prims lv \<lparr>up_path = \<lparr>p_dir = ''d'', p_name = ''v''\<rparr>, up_password = [1]\<rparr>
      (w'\<lparr>faults := \<lambda>_. None\<rparr>) = (Inr s, snapshot (w'\<lparr>faults := \<lambda>_. None\<rparr>)) \<and>
    uv_path s = \<lparr>p_dir = ''d'', p_name = ''v''\<rparr>"
proof -
  let ?p = "\<lparr>p_dir = ''d'', p_name = ''v''\<rparr>"
  obtain w' where "create toy_prims \<lparr>cp_path = ?p, cp_password = [1]\<rparr> sample_world = (Inr \<lparr>lv_path = ?p\<rparr>, w')"
    using create_ok [OF toy_prims_aead(1,3) toy_prims_kdf, of "[1]" sample_world ?p]
    by (auto simp: sample_world_def no_faults_def usize_max_def)
  then show ?thesis
    using create_then_unlock [OF toy_prims_aead(1) toy_prims_kdf, of ?p "[1]" sample_world _ w' "w'\<lparr>faults := \<lambda>_. None\<rparr>"]
    by fastforce
qed

text \<open>Creation makes progress: when no system call fails, the clock is after 1970, the
  password is not empty and neither the target nor a temporary name of it exists, \<open>create\<close>
  succeeds.\<close>

theorem create_succeeds:
  assumes "aead_correct P" "aead_total P" "kdf_total P" "pw \<noteq> []"
    and "0 \<le> clock_ms w" "nat (clock_ms w) \<le> usize_max"
    and "no_faults w" "files w p = None" "\<And>seed. files w (unique_tmp_path p seed) = None"
  shows "fst (create P \<lparr>cp_path = p, cp_password = pw\<rparr> w) = Inr \<lparr>lv_path = p\<rparr>"
  using create_ok [OF assms(1-8)] assms(9) by (metis fst_conv)

theorem create_succeeds_witness:
  "fst (create toy_prims \<lparr>cp_path = \<lparr>p_dir = [], p_name = ''v''\<rparr>, cp_password = [1]\<rparr> sample_world) =
    Inr \<lparr>lv_path = \<lparr>p_dir = [], p_name = ''v''\<rparr>\<rparr>"
  by (rule create_succeeds)
     (simp_all add: toy_prims_aead toy_prims_kdf sample_world_def no_faults_def usize_max_def)

text \<open>C27. Creation never overwrites: if the target exists, \<open>persist_vault\<close> fails, and at no
  moment, whatever system calls fail, does any file other than the temporary one change.\<close>

theorem create_never_overwrites:
  assumes "files w p = Some old"
  shows "fst (persist_vault P p v hn kp rid rid2 ct n aad mk w) \<noteq> Inr () \<and>
    evolves (same_except {unique_tmp_path p rid} (files w)) w
      (snd (persist_vault P p v hn kp rid rid2 ct n aad mk w))"
  using assms by (rule persist_existing)

theorem create_never_overwrites_witness:
  "let p = \<lparr>p_dir = [], p_name = ''v''\<rparr>; w = sample_world\<lparr>files := (\<lambda>_. Some [7])\<rparr>;
       out = persist_vault toy_prims p (zeros 16) (zeros 24) canonical_argon2id_v1 (zeros 16) (zeros 16)
         (zeros 48) (zeros 24) (zeros 79) (zeros 32) w in
   fst out \<noteq> Inr () \<and> evolves (same_except {unique_tmp_path p (zeros 16)} (files w)) w (snd out)"
  unfolding Let_def by (rule create_never_overwrites [where old = "[7]"]) simp

text \<open>C28. Crash safety of creation: for a new target, whatever system calls fail and wherever
  the process stops, the target is absent, empty, or a complete vault image, and no file other
  than the target and the temporary one is touched.\<close>

theorem create_crash_safe:
  assumes "files w p = None"
  shows "evolves (creating (unique_tmp_path p rid) p
      {bs. \<exists>u u'. new_vault_image P v hn kp rid rid2 ct n aad mk u = (Inr bs, u')} (files w)) w
    (snd (persist_vault P p v hn kp rid rid2 ct n aad mk w))"
  using assms by (rule persist_fresh)

theorem create_crash_safe_witness:
  "let p = \<lparr>p_dir = [], p_name = ''v''\<rparr>; w = sample_world\<lparr>faults := (\<lambda>n. if n = 2 then Some (IoOther, 9) else None)\<rparr> in
   evolves (creating (unique_tmp_path p (zeros 16)) p
      {bs. \<exists>u u'. new_vault_image toy_prims (zeros 16) (zeros 24) canonical_argon2id_v1 (zeros 16) (zeros 16)
         (zeros 48) (zeros 24) (zeros 79) (zeros 32) u = (Inr bs, u')} (files w)) w
    (snd (persist_vault toy_prims p (zeros 16) (zeros 24) canonical_argon2id_v1 (zeros 16) (zeros 16)
         (zeros 48) (zeros 24) (zeros 79) (zeros 32) w))"
  unfolding Let_def by (rule create_crash_safe) (simp add: sample_world_def)

text \<open>C11. A rewrite is all or nothing: at every moment of \<open>persist_vault_mutation_v2\<close>, under
  every pattern of I/O failures, the vault file holds its complete old or its complete new
  content and every other file but the temporary one is unchanged; success means the new
  content is in place and the temporary file is gone, and the code never panics.\<close>

theorem mutation_all_or_nothing:
  "let out = persist_vault_mutation_v2 p bs seed w; tmp = unique_tmp_path p seed in
   evolves (published tmp p bs (files w)) w (snd out) \<and>
   files (snd out) p \<in> {files w p, Some bs} \<and>
   (fst out = Inr () \<longrightarrow> files (snd out) = (files w)(tmp := None, p := Some bs)) \<and>
   no_panic (fst out)"
proof -
  have e: "evolves (published (unique_tmp_path p seed) p bs (files w)) w
      (snd (persist_vault_mutation_v2 p bs seed w))"
    by (rule persist_mutation_cases(1))
  then have "published (unique_tmp_path p seed) p bs (files w) (files (snd (persist_vault_mutation_v2 p bs seed w)))"
    by (simp add: evolves_def)
  then have "files (snd (persist_vault_mutation_v2 p bs seed w)) p \<in> {files w p, Some bs}"
    using published_target [OF _ tmp_differs] by blast
  then show ?thesis
    unfolding Let_def using e persist_mutation_cases(2,3) [where p = p and bs = bs and seed = seed and w = w]
    by blast
qed

theorem mutation_all_or_nothing_witness:
  "let p = \<lparr>p_dir = [], p_name = ''v''\<rparr>; w = sample_world\<lparr>files := (\<lambda>_. None)(p := Some [7])\<rparr>;
     out = persist_vault_mutation_v2 p [8, 9] (zeros 16) w in
   fst out = Inr () \<and> files (snd out) p = Some [8, 9]"
proof -
  let ?p = "\<lparr>p_dir = [], p_name = ''v''\<rparr>"
  let ?w = "sample_world\<lparr>files := (\<lambda>_. None)(?p := Some [7])\<rparr>"
  let ?out = "persist_vault_mutation_v2 ?p [8, 9] (zeros 16) ?w"
  have ok: "fst ?out = Inr ()"
    using write_and_rename_ok [of ?w "unique_tmp_path ?p (zeros 16)" ?p "[8, 9]"] tmp_differs [of ?p]
    by (auto simp: persist_vault_mutation_v2_def Let_def catch_act_def no_faults_def sample_world_def)
  then show ?thesis
    using mutation_all_or_nothing [of ?p "[8, 9]" "zeros 16" ?w] unfolding Let_def by simp
qed

text \<open>An error of \<open>persist_vault_mutation_v2\<close> does not mean the vault is unchanged: when the
  directory sync after the rename fails, the caller gets the error although the new content is
  already in place.\<close>

theorem mutation_error_after_rename:
  assumes "faults w = (\<lambda>i. if i = calls w + 4 \<or> i = calls w + 5 then Some (e, 0) else None)"
    and "files w (unique_tmp_path p seed) = None"
  shows "fst (persist_vault_mutation_v2 p bs seed w) = err (Io e) \<and>
    files (snd (persist_vault_mutation_v2 p bs seed w)) p = Some bs"
  using assms tmp_differs [of p seed]
  by (simp add: persist_vault_mutation_v2_def Let_def catch_act_def write_and_rename_def bind_act_def
      fs_create_new_def fs_write_all_def fs_sync_all_def plain_call_def fs_rename_def fsync_parent_def
      fs_sync_dir_def snapshot_def ignore_act_def fs_remove_file_def)

theorem mutation_error_after_rename_witness:
  "fst (persist_vault_mutation_v2 \<lparr>p_dir = [], p_name = ''v''\<rparr> [8] (zeros 16)
      (sample_world\<lparr>faults := (\<lambda>i. if i = 4 \<or> i = 5 then Some (IoOther, 0) else None)\<rparr>)) = err (Io IoOther) \<and>
    files (snd (persist_vault_mutation_v2 \<lparr>p_dir = [], p_name = ''v''\<rparr> [8] (zeros 16)
      (sample_world\<lparr>faults := (\<lambda>i. if i = 4 \<or> i = 5 then Some (IoOther, 0) else None)\<rparr>))) \<lparr>p_dir = [], p_name = ''v''\<rparr> = Some [8]"
  by (rule mutation_error_after_rename) (simp_all add: sample_world_def)

text \<open>Unlocking untrusted bytes never panics: whatever a vault file contains, parsing,
  frame decoding, key derivation and table opening return a result or an error.\<close>

theorem unlock_total:
  assumes "length bs \<le> isize_max"
  shows "no_panic (unlock_bytes P p pw bs)"
  using assms by (rule no_panic_unlock_bytes)

theorem unlock_total_witness:
  "no_panic (unlock_bytes toy_prims \<lparr>p_dir = [], p_name = ''v''\<rparr> [1] (MAGIC @ zeros 90))"
  by (rule unlock_total) (simp add: isize_max_def)


lemma sample_created:
  "\<exists>u bs. created_file toy_prims [1] u bs"
proof -
  let ?p = "\<lparr>p_dir = ''d'', p_name = ''v''\<rparr>"
  obtain w' where "create toy_prims \<lparr>cp_path = ?p, cp_password = [1]\<rparr> sample_world = (Inr \<lparr>lv_path = ?p\<rparr>, w')"
    using create_ok [OF toy_prims_aead(1,3) toy_prims_kdf, of "[1]" sample_world ?p]
    by (auto simp: sample_world_def no_faults_def usize_max_def)
  then show ?thesis using create_file [OF toy_prims_aead(1) toy_prims_kdf] by blast
qed


end
