(* ===== verification/Item_Store.thy ===== *)
theory Item_Store
  imports Vault_Laws
begin

text \<open>
  src/crates/meissnerseal-core/src/item/model.rs and item/store.rs: items, their payload
  encoding, and the operations \<open>add\<close>, \<open>list\<close>, \<open>with_item\<close>, \<open>update\<close> and \<open>delete\<close>, each of which
  loads the vault file, decrypts or replaces records and rewrites the file. Strings are their
  UTF-8 bytes. A closure passed to \<open>with_item\<close> is a function of the item view.
\<close>

abbreviation (input) MAX_LABEL_LEN :: nat where "MAX_LABEL_LEN \<equiv> 1024"
abbreviation (input) MAX_TAG_COUNT :: nat where "MAX_TAG_COUNT \<equiv> 64"
abbreviation (input) MAX_TAG_LEN :: nat where "MAX_TAG_LEN \<equiv> 256"
abbreviation (input) MAX_SECRET_LEN :: nat where "MAX_SECRET_LEN \<equiv> 64 * 1024"
abbreviation (input) SEALED_TABLE_SECTION_OVERHEAD :: nat
  where "SEALED_TABLE_SECTION_OVERHEAD \<equiv> 4 + 24 + 16"

subsection \<open>Items\<close>

datatype ItemKind = Password | SeedPhrase | SshPrivateKey | ApiToken | SecureNote

primrec item_kind_as_u16 :: "ItemKind \<Rightarrow> u16" where
  "item_kind_as_u16 Password = 0x0001"
| "item_kind_as_u16 SeedPhrase = 0x0002"
| "item_kind_as_u16 SshPrivateKey = 0x0003"
| "item_kind_as_u16 ApiToken = 0x0004"
| "item_kind_as_u16 SecureNote = 0x0005"

definition item_kind_from_u16 :: "u16 \<Rightarrow> ItemKind res" where
  "item_kind_from_u16 v =
     (if v = 0x0001 then ok Password
      else if v = 0x0002 then ok SeedPhrase
      else if v = 0x0003 then ok SshPrivateKey
      else if v = 0x0004 then ok ApiToken
      else if v = 0x0005 then ok SecureNote
      else err (Format ''unknown item kind''))"

record PlainItem =
  pi_kind :: ItemKind
  pi_label :: "byte list"
  pi_tags :: "byte list list"
  pi_secret :: "byte list"

text \<open>\<open>DecodedItem\<close> and \<open>PlainItemView\<close> have the fields of \<open>PlainItem\<close>.\<close>

type_synonym DecodedItem = PlainItem

record ItemSummary =
  is_id :: "byte list"
  is_kind :: ItemKind
  is_label :: "byte list"
  is_tags :: "byte list list"

subsection \<open>Payload encoding\<close>

definition u32_len :: "nat \<Rightarrow> string \<Rightarrow> u32 res" where
  "u32_len n e = to_u32 n (Format e)"

primrec serialize_tags :: "byte list \<Rightarrow> byte list list \<Rightarrow> byte list res" where
  "serialize_tags out [] = ok out"
| "serialize_tags out (t # ts) =
     and_then (u32_len (length t) ''item tag length overflow'') (\<lambda>n.
     serialize_tags (out @ u32_le n @ t) ts)"

definition serialize_item_payload :: "PlainItem \<Rightarrow> byte list res" where
  "serialize_item_payload item =
     and_then (u32_len (length (pi_label item)) ''item label length overflow'') (\<lambda>label_len.
     and_then (u32_len (length (pi_tags item)) ''item tag count overflow'') (\<lambda>tag_count.
     and_then (serialize_tags (u16_le (item_kind_as_u16 (pi_kind item)) @ u32_le label_len @
                 pi_label item @ u32_le tag_count) (pi_tags item)) (\<lambda>out.
     and_then (u32_len (length (pi_secret item)) ''item secret length overflow'') (\<lambda>secret_len.
     ok (out @ u32_le secret_len @ pi_secret item)))))"

text \<open>The readers advance the cursor they return.\<close>

definition take_u32 :: "byte list \<Rightarrow> nat \<Rightarrow> (nat \<times> nat) res" where
  "take_u32 bytes cursor =
     and_then (ok_or (checked_add cursor 4) (Format ''item payload length overflow'')) (\<lambda>end_at.
     and_then (ok_or (get_range bytes cursor end_at) (Format ''truncated item payload'')) (\<lambda>raw.
     and_then (if length raw = 4 then ok raw else err (Format ''item payload u32 read error'')) (\<lambda>array.
     and_then (to_usize (unat (u32_from_le array)) (Format ''item payload field overflow'')) (\<lambda>n.
     ok (n, end_at)))))"

definition take_bytes :: "byte list \<Rightarrow> nat \<Rightarrow> nat \<Rightarrow> (byte list \<times> nat) res" where
  "take_bytes bytes cursor len =
     and_then (ok_or (checked_add cursor len) (Format ''item payload length overflow'')) (\<lambda>end_at.
     and_then (ok_or (get_range bytes cursor end_at) (Format ''truncated item payload'')) (\<lambda>slice.
     ok (slice, end_at)))"

primrec take_tags :: "byte list \<Rightarrow> nat \<Rightarrow> nat \<Rightarrow> byte list list \<Rightarrow> (byte list list \<times> nat) res" where
  "take_tags bytes 0 cursor tags = ok (tags, cursor)"
| "take_tags bytes (Suc n) cursor tags =
     and_then (take_u32 bytes cursor) (\<lambda>(tag_len, cursor).
     if tag_len > MAX_TAG_LEN then err (Format ''item tag exceeds maximum length'')
     else
     and_then (take_bytes bytes cursor tag_len) (\<lambda>(raw, cursor).
     and_then (from_utf8 raw (Format ''invalid item tag encoding'')) (\<lambda>tag.
     take_tags bytes n cursor (tags @ [tag]))))"

definition deserialize_item_payload :: "byte list \<Rightarrow> DecodedItem res" where
  "deserialize_item_payload bytes =
     and_then (take_bytes bytes 0 2) (\<lambda>(raw, cursor).
     and_then (if length raw = 2 then ok (u16_from_le raw) else err (Format ''item kind read error'')) (\<lambda>kind_raw.
     and_then (item_kind_from_u16 kind_raw) (\<lambda>kind.
     and_then (take_u32 bytes cursor) (\<lambda>(label_len, cursor).
     if label_len > MAX_LABEL_LEN then err (Format ''item label exceeds maximum length'')
     else
     and_then (take_bytes bytes cursor label_len) (\<lambda>(raw_label, cursor).
     and_then (from_utf8 raw_label (Format ''invalid item label encoding'')) (\<lambda>label.
     and_then (take_u32 bytes cursor) (\<lambda>(tag_count, cursor).
     if tag_count > MAX_TAG_COUNT then err (Format ''item tag count exceeds maximum'')
     else
     and_then (take_tags bytes tag_count cursor []) (\<lambda>(tags, cursor).
     and_then (take_u32 bytes cursor) (\<lambda>(secret_len, cursor).
     if secret_len > MAX_SECRET_LEN then err (Format ''item secret exceeds maximum length'')
     else
     and_then (take_bytes bytes cursor secret_len) (\<lambda>(secret, cursor).
     if cursor \<noteq> length bytes then err (Format ''trailing item payload garbage'')
     else ok \<lparr>pi_kind = kind, pi_label = label, pi_tags = tags, pi_secret = secret\<rparr>))))))))))"

subsection \<open>Loading a vault\<close>

record LoadedVault =
  ld_bytes :: "byte list"
  ld_header :: VaultHeader
  ld_wrk_frame_offset :: nat
  ld_wrk_frame_len :: nat
  ld_entries :: "RecordTableEntry list"

definition read_prefix_u32 :: "byte list \<Rightarrow> nat \<Rightarrow> nat res" where
  "read_prefix_u32 bytes offset =
     and_then (ok_or (checked_add offset 4) (Format ''vault prefix offset overflow'')) (\<lambda>end_at.
     and_then (ok_or (get_range bytes offset end_at) (Format ''truncated vault prefix'')) (\<lambda>raw.
     and_then (if length raw = 4 then ok raw else err (Format ''prefix u32 read error'')) (\<lambda>array.
     to_usize (unat (u32_from_le array)) (Format ''prefix u32 overflow''))))"

definition load_bytes :: "prims \<Rightarrow> UnlockedKeys \<Rightarrow> byte list \<Rightarrow> LoadedVault res" where
  "load_bytes P keys bytes =
     and_then (parse_header bytes) (\<lambda>header.
     and_then (read_prefix_u32 bytes 10) (\<lambda>header_len.
     and_then (read_prefix_u32 bytes 14) (\<lambda>table_len.
     and_then (ok_or (checked_add HEADER_MIN_LEN header_len)
                 (Format ''WRK frame offset overflow'')) (\<lambda>wrk_frame_offset.
     and_then (record_frame_len_at bytes wrk_frame_offset) (\<lambda>wl.
     and_then (to_usize (unat wl) (Format ''WRK frame length overflow'')) (\<lambda>wrk_frame_len.
     and_then (ok_or (checked_add wrk_frame_offset wrk_frame_len)
                 (Format ''record table offset overflow'')) (\<lambda>table_offset.
     and_then (open_sealed_record_table_v2 P bytes table_offset table_len (uk_metadata_key keys)
                 (vh_vault_id header) (vh_schema_profile header) table_offset (length bytes)) (\<lambda>entries.
     ok \<lparr>ld_bytes = bytes, ld_header = header, ld_wrk_frame_offset = wrk_frame_offset,
         ld_wrk_frame_len = wrk_frame_len, ld_entries = entries\<rparr>))))))))"

definition load_vault :: "prims \<Rightarrow> UnlockedVault \<Rightarrow> LoadedVault io" where
  "load_vault P session =
     bind_act (fs_read (uv_path session)) (\<lambda>bytes. lift_rs (load_bytes P (uv_keys session) bytes))"

subsection \<open>Frames of items\<close>

definition fresh_id :: "byte list io" where
  "fresh_id = random_bytes 16"

definition item_record_aad :: "VaultHeader \<Rightarrow> byte list \<Rightarrow> byte list \<Rightarrow> u16 \<Rightarrow> byte list" where
  "item_record_aad h record_id revision_id record_kind =
     build_aad (vh_vault_id h) (vh_format_version h) (vh_schema_profile h) (vh_aead_profile h)
       (vh_kdf_profile h) (vh_pqc_profile h) record_id revision_id record_kind"

definition build_record_frame ::
    "byte list \<Rightarrow> byte list \<Rightarrow> byte list \<Rightarrow> byte list \<Rightarrow> byte list io" where
  "build_record_frame record_id revision_id ciphertext aad =
     bind_act (lift_rs (u32_len (length ciphertext) ''item frame ciphertext length overflow'')) (\<lambda>clen.
     bind_act random_nonce_xchacha20 (\<lambda>nonce.
     lift_rs (serialize_record_frame
       \<lparr>rf_frame_version = FORMAT_VERSION, rf_record_id = record_id, rf_revision_id = revision_id,
        rf_nonce = nonce, rf_stored_aad = aad, rf_ciphertext_len = clen,
        rf_ciphertext = ciphertext\<rparr> aad)))"

definition build_item_frame ::
    "prims \<Rightarrow> PlainItem \<Rightarrow> key \<Rightarrow> VaultHeader \<Rightarrow> byte list \<Rightarrow> byte list \<Rightarrow> byte list io" where
  "build_item_frame P item item_wrap_key header record_id revision_id =
     (let aad = item_record_aad header record_id revision_id RECORD_KIND_ITEM in
     bind_act (lift_rs (serialize_item_payload item)) (\<lambda>payload_plain.
     bind_act (random_bytes 32) (\<lambda>rek.
     bind_act (map_err_act (encrypt P rek payload_plain aad) Crypto) (\<lambda>(payload_ct, payload_nonce).
     bind_act (map_err_act (encrypt P item_wrap_key rek aad) Crypto) (\<lambda>(wrapped_rek_ct, rek_wrap_nonce).
     bind_act (lift_rs (serialize_item_record_frame_envelope
        \<lparr>ie_rek_wrap_nonce = rek_wrap_nonce, ie_wrapped_rek = wrapped_rek_ct,
         ie_payload_nonce = payload_nonce, ie_encrypted_payload = payload_ct\<rparr>)) (\<lambda>envelope_bytes.
     build_record_frame record_id revision_id envelope_bytes aad))))))"

definition existing_frame_bytes :: "LoadedVault \<Rightarrow> RecordTableEntry \<Rightarrow> byte list res" where
  "existing_frame_bytes loaded entry =
     and_then (to_usize (unat (te_frame_offset entry)) (Format ''frame offset overflow'')) (\<lambda>start.
     and_then (to_usize (unat (te_frame_len entry)) (Format ''frame length overflow'')) (\<lambda>len.
     and_then (ok_or (checked_add start len) (Format ''frame bounds overflow'')) (\<lambda>end_at.
     ok_or (get_range (ld_bytes loaded) start end_at) (Format ''frame out of bounds''))))"

definition read_item :: "prims \<Rightarrow> UnlockedVault \<Rightarrow> LoadedVault \<Rightarrow> RecordTableEntry \<Rightarrow> DecodedItem res" where
  "read_item P session loaded entry =
     and_then (to_usize (unat (te_frame_offset entry)) (Format ''frame offset overflow'')) (\<lambda>start.
     and_then (ok_or (get_from (ld_bytes loaded) start) (Format ''frame offset out of bounds'')) (\<lambda>frame_slice.
     and_then (parse_record_frame frame_slice (te_frame_len entry)
                 (vh_aead_profile (ld_header loaded))) (\<lambda>frame.
     if rf_record_id frame \<noteq> te_record_id entry \<or> rf_revision_id frame \<noteq> te_revision_id entry
     then err Auth
     else
     and_then (parse_item_record_frame_envelope (rf_ciphertext frame)) (\<lambda>envelope.
     let aad = item_record_aad (ld_header loaded) (te_record_id entry) (te_revision_id entry)
                 RECORD_KIND_ITEM in
     and_then (map_err (decrypt P (uk_item_wrap_key (uv_keys session)) (ie_rek_wrap_nonce envelope)
                 (ie_wrapped_rek envelope) aad) Auth) (\<lambda>rek_plain.
     and_then (if length rek_plain = 32 then ok rek_plain else err Crypto) (\<lambda>rek.
     and_then (map_err (decrypt P rek (ie_payload_nonce envelope)
                 (ie_encrypted_payload envelope) aad) Auth) (\<lambda>payload_plain.
     deserialize_item_payload payload_plain)))))))"

subsection \<open>Rewriting the vault\<close>

record PendingRecord =
  pr_record_id :: "byte list"
  pr_record_kind :: u16
  pr_revision_id :: "byte list"
  pr_frame_bytes :: "byte list"

text \<open>The loop that lays the frames out behind the table.\<close>

primrec layout_records ::
    "PendingRecord list \<Rightarrow> nat \<Rightarrow> RecordTableEntry list \<Rightarrow> byte list \<Rightarrow>
     (RecordTableEntry list \<times> byte list) res" where
  "layout_records [] next_offset entries frames_concat = ok (entries, frames_concat)"
| "layout_records (r # rs) next_offset entries frames_concat =
     and_then (u32_len (length (pr_frame_bytes r)) ''frame length overflow'') (\<lambda>frame_len.
     and_then (to_u64 next_offset (Format ''frame offset overflow'')) (\<lambda>frame_offset.
     let entry = \<lparr>te_record_id = pr_record_id r, te_record_kind = pr_record_kind r,
           te_revision_id = pr_revision_id r, te_frame_offset = frame_offset,
           te_frame_len = frame_len\<rparr> in
     and_then (ok_or (checked_add next_offset (length (pr_frame_bytes r)))
                 (Format ''frame offset overflow'')) (\<lambda>next_offset.
     layout_records rs next_offset (entries @ [entry]) (frames_concat @ pr_frame_bytes r))))"

definition rewrite_vault ::
    "prims \<Rightarrow> UnlockedVault \<Rightarrow> LoadedVault \<Rightarrow> PendingRecord list \<Rightarrow> unit io" where
  "rewrite_vault P session loaded records =
     bind_act (lift_rs (ok_or (get_range (ld_bytes loaded) HEADER_MIN_LEN (ld_wrk_frame_offset loaded))
                 (Format ''header section out of bounds''))) (\<lambda>header_bytes.
     bind_act (lift_rs (ok_or (checked_add (ld_wrk_frame_offset loaded) (ld_wrk_frame_len loaded))
                 (Format ''WRK frame bounds overflow''))) (\<lambda>wrk_end.
     bind_act (lift_rs (ok_or (get_range (ld_bytes loaded) (ld_wrk_frame_offset loaded) wrk_end)
                 (Format ''WRK frame out of bounds''))) (\<lambda>wrk_bytes.
     bind_act (lift_rs (sealed_record_table_padded_plaintext_len (length records))) (\<lambda>padded_plaintext_len.
     bind_act (lift_rs (ok_or (checked_add SEALED_TABLE_SECTION_OVERHEAD padded_plaintext_len)
                 (Format ''sealed table length overflow''))) (\<lambda>table_section_len.
     bind_act (lift_rs (ok_or (checked_add wrk_end table_section_len)
                 (Format ''frame offset overflow''))) (\<lambda>next_offset.
     bind_act (lift_rs (layout_records records next_offset [] [])) (\<lambda>(entries, frames_concat).
     bind_act (serialize_sealed_record_table_v2 P entries (uk_metadata_key (uv_keys session))
                 (vh_vault_id (ld_header loaded)) (vh_schema_profile (ld_header loaded))) (\<lambda>table_bytes.
     bind_act (lift_rs (if length table_bytes \<noteq> table_section_len
                 then err (Format ''sealed table section length mismatch'') else ok ())) (\<lambda>_.
     bind_act (lift_rs (ok_or (Option.bind (checked_add (length wrk_bytes) (length table_bytes))
                           (\<lambda>l. checked_add l (length frames_concat)))
                 (Format ''body length overflow''))) (\<lambda>body_len.
     bind_act (lift_rs (u32_len (length header_bytes) ''header length overflow'')) (\<lambda>hl.
     bind_act (lift_rs (u32_len (length table_bytes) ''record table length overflow'')) (\<lambda>tl.
     bind_act (lift_rs (to_u64 body_len (Format ''body length overflow''))) (\<lambda>bl.
     bind_act (lift_rs (serialize_prefix FORMAT_VERSION hl tl bl)) (\<lambda>prefix.
     let vault_bytes = prefix @ header_bytes @ wrk_bytes @ table_bytes @ frames_concat in
     bind_act fresh_id (\<lambda>unique_seed.
     persist_vault_mutation_v2 (uv_path session) vault_bytes unique_seed)))))))))))))))"

text \<open>
  The loop of \<open>stage_records\<close>: the record at \<open>position\<close> is taken from \<open>replacement\<close>, which may be
  taken once; a replacement that is left over is appended.
\<close>

primrec stage_loop ::
    "LoadedVault \<Rightarrow> nat option \<Rightarrow> RecordTableEntry list \<Rightarrow> nat \<Rightarrow> PendingRecord option \<Rightarrow>
     PendingRecord list \<Rightarrow> (PendingRecord option \<times> PendingRecord list) res" where
  "stage_loop loaded position [] index replacement records = ok (replacement, records)"
| "stage_loop loaded position (entry # es) index replacement records =
     (if position = Some index then
        and_then (ok_or replacement (InvalidState ''missing record replacement'')) (\<lambda>pending.
        stage_loop loaded position es (index + 1) None (records @ [pending]))
      else
        and_then (existing_frame_bytes loaded entry) (\<lambda>frame_bytes.
        stage_loop loaded position es (index + 1) replacement
          (records @ [\<lparr>pr_record_id = te_record_id entry, pr_record_kind = te_record_kind entry,
             pr_revision_id = te_revision_id entry, pr_frame_bytes = frame_bytes\<rparr>])))"

definition stage_records ::
    "LoadedVault \<Rightarrow> nat option \<Rightarrow> PendingRecord option \<Rightarrow> PendingRecord list res" where
  "stage_records loaded position replacement =
     and_then (stage_loop loaded position (ld_entries loaded) 0 replacement []) (\<lambda>(rest, records).
     case rest of Some pending \<Rightarrow> ok (records @ [pending]) | None \<Rightarrow> ok records)"

text \<open>\<open>iter().position(..)\<close>\<close>

primrec position_from :: "('a \<Rightarrow> bool) \<Rightarrow> 'a list \<Rightarrow> nat \<Rightarrow> nat option" where
  "position_from P [] i = None"
| "position_from P (x # xs) i = (if P x then Some i else position_from P xs (i + 1))"

definition is_live_item :: "byte list \<Rightarrow> RecordTableEntry \<Rightarrow> bool" where
  "is_live_item item_id e \<longleftrightarrow> te_record_id e = item_id \<and> te_record_kind e = RECORD_KIND_ITEM"

definition live_item_position :: "LoadedVault \<Rightarrow> byte list \<Rightarrow> nat option" where
  "live_item_position loaded item_id = position_from (is_live_item item_id) (ld_entries loaded) 0"

definition id_hex :: "byte list \<Rightarrow> string" where
  "id_hex item_id = hex_of item_id"

subsection \<open>Operations\<close>

definition add :: "prims \<Rightarrow> UnlockedVault \<Rightarrow> PlainItem \<Rightarrow> byte list io" where
  "add P session item =
     bind_act (load_vault P session) (\<lambda>loaded.
     bind_act fresh_id (\<lambda>record_id.
     bind_act fresh_id (\<lambda>revision_id.
     bind_act (build_item_frame P item (uk_item_wrap_key (uv_keys session)) (ld_header loaded)
                 record_id revision_id) (\<lambda>frame_bytes.
     bind_act (lift_rs (stage_records loaded None (Some
        \<lparr>pr_record_id = record_id, pr_record_kind = RECORD_KIND_ITEM,
         pr_revision_id = revision_id, pr_frame_bytes = frame_bytes\<rparr>))) (\<lambda>records.
     bind_act (rewrite_vault P session loaded records) (\<lambda>_.
     ret record_id))))))"

primrec list_loop ::
    "prims \<Rightarrow> UnlockedVault \<Rightarrow> LoadedVault \<Rightarrow> RecordTableEntry list \<Rightarrow> ItemSummary list \<Rightarrow>
     ItemSummary list res" where
  "list_loop P session loaded [] summaries = ok summaries"
| "list_loop P session loaded (entry # es) summaries =
     (if te_record_kind entry \<noteq> RECORD_KIND_ITEM then list_loop P session loaded es summaries
      else
     and_then (read_item P session loaded entry) (\<lambda>decoded.
     list_loop P session loaded es (summaries @
       [\<lparr>is_id = te_record_id entry, is_kind = pi_kind decoded, is_label = pi_label decoded,
         is_tags = pi_tags decoded\<rparr>])))"

definition list_items :: "prims \<Rightarrow> UnlockedVault \<Rightarrow> ItemSummary list io" where
  "list_items P session =
     bind_act (load_vault P session) (\<lambda>loaded.
     lift_rs (list_loop P session loaded (ld_entries loaded) []))"

definition with_item ::
    "prims \<Rightarrow> UnlockedVault \<Rightarrow> byte list \<Rightarrow> (DecodedItem \<Rightarrow> 'a res) \<Rightarrow> 'a io" where
  "with_item P session item_id f =
     bind_act (load_vault P session) (\<lambda>loaded.
     lift_rs (
       and_then (ok_or (List.find (is_live_item item_id) (ld_entries loaded))
                   (NotFound (id_hex item_id))) (\<lambda>entry.
       and_then (read_item P session loaded entry) (\<lambda>decoded.
       f decoded))))"

definition update :: "prims \<Rightarrow> UnlockedVault \<Rightarrow> byte list \<Rightarrow> PlainItem \<Rightarrow> unit io" where
  "update P session item_id item =
     bind_act (load_vault P session) (\<lambda>loaded.
     bind_act (lift_rs (ok_or (live_item_position loaded item_id)
                 (NotFound (id_hex item_id)))) (\<lambda>position.
     bind_act fresh_id (\<lambda>revision_id.
     bind_act (build_item_frame P item (uk_item_wrap_key (uv_keys session)) (ld_header loaded)
                 item_id revision_id) (\<lambda>frame_bytes.
     bind_act (lift_rs (stage_records loaded (Some position) (Some
        \<lparr>pr_record_id = item_id, pr_record_kind = RECORD_KIND_ITEM,
         pr_revision_id = revision_id, pr_frame_bytes = frame_bytes\<rparr>))) (\<lambda>records.
     rewrite_vault P session loaded records)))))"

definition delete :: "prims \<Rightarrow> UnlockedVault \<Rightarrow> byte list \<Rightarrow> unit io" where
  "delete P session item_id =
     bind_act (load_vault P session) (\<lambda>loaded.
     case live_item_position loaded item_id of
       None \<Rightarrow>
         if list_ex (\<lambda>e. te_record_id e = item_id \<and> te_record_kind e = RECORD_KIND_TOMBSTONE)
              (ld_entries loaded)
         then ret () else fail (NotFound (id_hex item_id))
     | Some position \<Rightarrow>
         bind_act fresh_id (\<lambda>revision_id.
         let aad = item_record_aad (ld_header loaded) item_id revision_id RECORD_KIND_TOMBSTONE in
         bind_act (build_record_frame item_id revision_id [] aad) (\<lambda>tombstone_frame.
         bind_act (lift_rs (stage_records loaded (Some position) (Some
            \<lparr>pr_record_id = item_id, pr_record_kind = RECORD_KIND_TOMBSTONE,
             pr_revision_id = revision_id, pr_frame_bytes = tombstone_frame\<rparr>))) (\<lambda>records.
         rewrite_vault P session loaded records))))"

end
