(* ===== verification/Export_Bundle.thy ===== *)
theory Export_Bundle
  imports Item_Store
begin

text \<open>
  src/crates/meissnerseal-core/src/export.rs: the encrypted .msexp container. \<open>export_bundle\<close>
  serializes the live items of a vault and seals them under a key derived from a passphrase;
  \<open>authenticate\<close> parses and opens such a container; \<open>import_bundle\<close> adds its items to a vault
  and deletes them again when one addition fails.
\<close>

definition MSEXP_MAGIC :: "byte list" where
  "MSEXP_MAGIC = bytes_of ''MSEXP'' @ [1, 0, 0]"

abbreviation (input) MSEXP_VERSION_V1 :: u16 where "MSEXP_VERSION_V1 \<equiv> 1"
abbreviation (input) MAX_EXPORT_ITEM_COUNT :: nat where "MAX_EXPORT_ITEM_COUNT \<equiv> 4096"
abbreviation (input) MIN_BUNDLE_LEN :: nat where "MIN_BUNDLE_LEN \<equiv> 58"

subsection \<open>Field readers and writers\<close>

definition write_len_bytes :: "byte list \<Rightarrow> byte list \<Rightarrow> string \<Rightarrow> byte list res" where
  "write_len_bytes out bytes overflow =
     and_then (to_u32 (length bytes) (Format overflow)) (\<lambda>n. ok (out @ u32_le n @ bytes))"

definition exp_read_u16 :: "byte list \<Rightarrow> nat \<Rightarrow> u16 res" where
  "exp_read_u16 bytes offset =
     and_then (ok_or (checked_add offset 2) (Format ''field offset overflow'')) (\<lambda>end_at.
     and_then (ok_or (get_range bytes offset end_at) (Format ''truncated field'')) (\<lambda>slice.
     and_then (if length slice = 2 then ok slice else err (Format ''field read error'')) (\<lambda>raw.
     ok (u16_from_le raw))))"

definition exp_read_u32 :: "byte list \<Rightarrow> nat \<Rightarrow> u32 res" where
  "exp_read_u32 bytes offset =
     and_then (ok_or (checked_add offset 4) (Format ''field offset overflow'')) (\<lambda>end_at.
     and_then (ok_or (get_range bytes offset end_at) (Format ''truncated field'')) (\<lambda>slice.
     and_then (if length slice = 4 then ok slice else err (Format ''field read error'')) (\<lambda>raw.
     ok (u32_from_le raw))))"

text \<open>The readers below return the advanced cursor.\<close>

definition exp_take_u16 :: "byte list \<Rightarrow> nat \<Rightarrow> (u16 \<times> nat) res" where
  "exp_take_u16 bytes cursor =
     and_then (exp_read_u16 bytes cursor) (\<lambda>v.
     and_then (ok_or (checked_add cursor 2) (Format ''field cursor overflow'')) (\<lambda>cursor.
     ok (v, cursor)))"

definition exp_take_u32 :: "byte list \<Rightarrow> nat \<Rightarrow> (nat \<times> nat) res" where
  "exp_take_u32 bytes cursor =
     and_then (exp_read_u32 bytes cursor) (\<lambda>v.
     and_then (ok_or (checked_add cursor 4) (Format ''field cursor overflow'')) (\<lambda>cursor.
     and_then (to_usize (unat v) (Format ''field length overflow'')) (\<lambda>n.
     ok (n, cursor))))"

definition take_vec :: "byte list \<Rightarrow> nat \<Rightarrow> (byte list \<times> nat) res" where
  "take_vec bytes cursor =
     and_then (exp_take_u32 bytes cursor) (\<lambda>(len, cursor).
     and_then (ok_or (checked_add cursor len) (Format ''field length overflow'')) (\<lambda>end_at.
     and_then (ok_or (get_range bytes cursor end_at) (Format ''truncated field'')) (\<lambda>v.
     ok (v, end_at))))"

definition take_utf8 :: "byte list \<Rightarrow> nat \<Rightarrow> (byte list \<times> nat) res" where
  "take_utf8 bytes cursor =
     and_then (take_vec bytes cursor) (\<lambda>(raw, cursor).
     and_then (from_utf8 raw (Format ''invalid field encoding'')) (\<lambda>s. ok (s, cursor)))"

subsection \<open>The item set\<close>

primrec write_tags :: "byte list \<Rightarrow> byte list list \<Rightarrow> byte list res" where
  "write_tags out [] = ok out"
| "write_tags out (tag # tags) =
     and_then (write_len_bytes out tag ''export tag length overflow'') (\<lambda>out. write_tags out tags)"

text \<open>The closure that \<open>serialize_live_item_set\<close> passes to \<open>with_item\<close>.\<close>

definition write_item :: "byte list \<Rightarrow> DecodedItem \<Rightarrow> byte list res" where
  "write_item out view =
     and_then (write_len_bytes (out @ u16_le (item_kind_as_u16 (pi_kind view))) (pi_label view)
                 ''export label length overflow'') (\<lambda>out.
     and_then (to_u32 (length (pi_tags view)) (Format ''export tag count overflow'')) (\<lambda>tag_count.
     and_then (write_tags (out @ u32_le tag_count) (pi_tags view)) (\<lambda>out.
     write_len_bytes out (pi_secret view) ''export secret length overflow'')))"

primrec write_summaries ::
    "prims \<Rightarrow> UnlockedVault \<Rightarrow> byte list \<Rightarrow> ItemSummary list \<Rightarrow> byte list io" where
  "write_summaries P session out [] = ret out"
| "write_summaries P session out (item_summary # summaries) =
     bind_act (with_item P session (is_id item_summary) (write_item out)) (\<lambda>out.
     write_summaries P session out summaries)"

definition serialize_live_item_set :: "prims \<Rightarrow> UnlockedVault \<Rightarrow> byte list io" where
  "serialize_live_item_set P session =
     bind_act (list_items P session) (\<lambda>summaries.
     bind_act (lift_rs (to_u32 (length summaries) (Format ''export item count overflow''))) (\<lambda>n.
     write_summaries P session (u32_le n) summaries))"

primrec read_tags :: "byte list \<Rightarrow> nat \<Rightarrow> nat \<Rightarrow> byte list list \<Rightarrow> (byte list list \<times> nat) res" where
  "read_tags bytes 0 cursor tags = ok (tags, cursor)"
| "read_tags bytes (Suc n) cursor tags =
     and_then (take_utf8 bytes cursor) (\<lambda>(tag, cursor). read_tags bytes n cursor (tags @ [tag]))"

definition read_export_item :: "byte list \<Rightarrow> nat \<Rightarrow> (PlainItem \<times> nat) res" where
  "read_export_item bytes cursor =
     and_then (exp_take_u16 bytes cursor) (\<lambda>(kind_raw, cursor).
     and_then (item_kind_from_u16 kind_raw) (\<lambda>kind.
     and_then (take_utf8 bytes cursor) (\<lambda>(label, cursor).
     and_then (exp_take_u32 bytes cursor) (\<lambda>(tag_count, cursor).
     if tag_count > MAX_TAG_COUNT then err (Format ''export tag count exceeds maximum'')
     else
     and_then (read_tags bytes tag_count cursor []) (\<lambda>(tags, cursor).
     and_then (take_vec bytes cursor) (\<lambda>(secret, cursor).
     ok (\<lparr>pi_kind = kind, pi_label = label, pi_tags = tags, pi_secret = secret\<rparr>, cursor)))))))"

primrec read_export_items ::
    "byte list \<Rightarrow> nat \<Rightarrow> nat \<Rightarrow> PlainItem list \<Rightarrow> (PlainItem list \<times> nat) res" where
  "read_export_items bytes 0 cursor items = ok (items, cursor)"
| "read_export_items bytes (Suc n) cursor items =
     and_then (read_export_item bytes cursor) (\<lambda>(it, cursor).
     read_export_items bytes n cursor (items @ [it]))"

definition deserialize_item_set :: "byte list \<Rightarrow> PlainItem list res" where
  "deserialize_item_set bytes =
     and_then (exp_take_u32 bytes 0) (\<lambda>(item_count, cursor).
     if item_count > MAX_EXPORT_ITEM_COUNT then err (Format ''export item count exceeds maximum'')
     else
     and_then (read_export_items bytes item_count cursor []) (\<lambda>(items, cursor).
     if cursor \<noteq> length bytes then err (Format ''export payload trailing garbage'')
     else ok items))"

subsection \<open>The container\<close>

record ParsedBundle =
  pb_version :: u16
  pb_source_vault_id :: "byte list"
  pb_kdf_params :: "byte list"
  pb_nonce :: "byte list"
  pb_ciphertext_and_tag :: "byte list"

definition export_aad :: "byte list \<Rightarrow> u16 \<Rightarrow> byte list" where
  "export_aad source_vault_id version = source_vault_id @ MSEXP_MAGIC @ u16_le version"

definition serialize_bundle ::
    "byte list \<Rightarrow> byte list \<Rightarrow> byte list \<Rightarrow> byte list \<Rightarrow> byte list res" where
  "serialize_bundle source_vault_id kdf_params nonce ciphertext_and_tag =
     (if length nonce \<noteq> 24 then err (Format ''invalid export nonce length'')
      else
     and_then (to_u32 (length kdf_params) (Format ''export KDF params length overflow'')) (\<lambda>kdf_len.
     and_then (to_u32 (length ciphertext_and_tag) (Format ''export ciphertext length overflow'')) (\<lambda>ciphertext_len.
     and_then (ok_or (Option.bind (checked_add MIN_BUNDLE_LEN (length kdf_params))
                           (\<lambda>l. checked_add l (length ciphertext_and_tag)))
                 (Format ''export bundle length overflow'')) (\<lambda>capacity.
     ok (MSEXP_MAGIC @ u16_le MSEXP_VERSION_V1 @ source_vault_id @ u32_le kdf_len @ kdf_params @
         nonce @ u32_le ciphertext_len @ ciphertext_and_tag)))))"

definition parse_bundle :: "byte list \<Rightarrow> ParsedBundle res" where
  "parse_bundle bundle =
     (if length bundle < MIN_BUNDLE_LEN then err (Format ''truncated export bundle'')
      else
     and_then (ok_or (get_range bundle 0 8) (Format ''truncated export magic'')) (\<lambda>magic.
     if magic \<noteq> MSEXP_MAGIC then err (Format ''wrong export magic'')
     else
     and_then (exp_read_u16 bundle 8) (\<lambda>version.
     if version \<noteq> MSEXP_VERSION_V1 then err (Format ''unsupported export version'')
     else
     and_then (ok_or (get_range bundle 10 26) (Format ''truncated export vault id'')) (\<lambda>vid.
     and_then (if length vid = 16 then ok vid else err (Format ''export vault id read error'')) (\<lambda>source_vault_id.
     and_then (exp_read_u32 bundle 26) (\<lambda>kdf_raw.
     and_then (to_usize (unat kdf_raw) (Format ''export KDF params length overflow'')) (\<lambda>kdf_len.
     and_then (ok_or (checked_add 26 4) (Format ''export KDF params offset overflow'')) (\<lambda>kdf_params_offset.
     and_then (ok_or (checked_add kdf_params_offset kdf_len)
                 (Format ''export KDF params length overflow'')) (\<lambda>kdf_params_end.
     and_then (ok_or (get_range bundle kdf_params_offset kdf_params_end)
                 (Format ''truncated export KDF params'')) (\<lambda>kdf_params.
     and_then (ok_or (checked_add kdf_params_end 24) (Format ''export nonce offset overflow'')) (\<lambda>nonce_end.
     and_then (ok_or (get_range bundle kdf_params_end nonce_end) (Format ''truncated export nonce'')) (\<lambda>nn.
     and_then (if length nn = 24 then ok nn else err (Format ''export nonce read error'')) (\<lambda>nonce.
     and_then (exp_read_u32 bundle nonce_end) (\<lambda>ct_raw.
     and_then (to_usize (unat ct_raw) (Format ''export ciphertext length overflow'')) (\<lambda>ciphertext_len.
     and_then (ok_or (checked_add nonce_end 4) (Format ''export ciphertext offset overflow'')) (\<lambda>ciphertext_offset.
     and_then (ok_or (checked_add ciphertext_offset ciphertext_len)
                 (Format ''export ciphertext length overflow'')) (\<lambda>ciphertext_end.
     if ciphertext_end \<noteq> length bundle then err (Format ''export bundle trailing garbage'')
     else
     and_then (ok_or (get_range bundle ciphertext_offset ciphertext_end)
                 (Format ''truncated export ciphertext'')) (\<lambda>ciphertext_and_tag.
     ok \<lparr>pb_version = version, pb_source_vault_id = source_vault_id, pb_kdf_params = kdf_params,
         pb_nonce = nonce, pb_ciphertext_and_tag = ciphertext_and_tag\<rparr>))))))))))))))))))"

definition derive_export_key ::
    "prims \<Rightarrow> byte list \<Rightarrow> byte list \<Rightarrow> HeaderKdfParams \<Rightarrow> key res" where
  "derive_export_key P passphrase source_vault_id kdf_params =
     map_err (derive_export_bundle_key P passphrase source_vault_id (kp_argon2 kdf_params)) Crypto"

definition authenticate :: "prims \<Rightarrow> byte list \<Rightarrow> byte list \<Rightarrow> PlainItem list res" where
  "authenticate P bundle passphrase =
     (if passphrase = [] then err (InvalidState ''empty export passphrase'')
      else
     and_then (parse_bundle bundle) (\<lambda>parsed.
     and_then (parse_kdf_profile_params (pb_kdf_params parsed)) (\<lambda>kdf_params.
     and_then (derive_export_key P passphrase (pb_source_vault_id parsed) kdf_params) (\<lambda>export_key.
     let aad = export_aad (pb_source_vault_id parsed) (pb_version parsed) in
     and_then (map_err (decrypt P export_key (pb_nonce parsed) (pb_ciphertext_and_tag parsed) aad)
                 Auth) (\<lambda>plaintext.
     deserialize_item_set plaintext)))))"

definition export_bundle :: "prims \<Rightarrow> UnlockedVault \<Rightarrow> byte list \<Rightarrow> byte list io" where
  "export_bundle P session passphrase =
     (if passphrase = [] then fail (InvalidState ''empty export passphrase'')
      else
     let source_vault_id = cx_vault_id (uv_context session);
         kdf_params = canonical_argon2id_v1 in
     bind_act (lift_rs (serialize_kdf_profile_params kdf_params)) (\<lambda>kdf_params_bytes.
     bind_act (serialize_live_item_set P session) (\<lambda>plaintext.
     bind_act (lift_rs (derive_export_key P passphrase source_vault_id kdf_params)) (\<lambda>export_key.
     let aad = export_aad source_vault_id MSEXP_VERSION_V1 in
     bind_act (map_err_act (encrypt P export_key plaintext aad) Crypto) (\<lambda>(ciphertext, nonce).
     lift_rs (serialize_bundle source_vault_id kdf_params_bytes nonce ciphertext))))))"

subsection \<open>Import\<close>

text \<open>\<open>imported_ids.iter().all(|&id| delete(session, id).is_ok())\<close> stops at the first failure.\<close>

primrec rollback :: "prims \<Rightarrow> UnlockedVault \<Rightarrow> byte list list \<Rightarrow> bool io" where
  "rollback P session [] = ret True"
| "rollback P session (i # ids) =
     catch_act (delete P session i) (\<lambda>r. case r of
       Inr _ \<Rightarrow> rollback P session ids
     | Inl (Err _) \<Rightarrow> ret False
     | Inl Panic \<Rightarrow> lift_rs panic)"

primrec import_items ::
    "prims \<Rightarrow> UnlockedVault \<Rightarrow> PlainItem list \<Rightarrow> byte list list \<Rightarrow> byte list list io" where
  "import_items P session [] imported_ids = ret imported_ids"
| "import_items P session (it # items) imported_ids =
     catch_act (add P session it) (\<lambda>r. case r of
       Inr i \<Rightarrow> import_items P session items (imported_ids @ [i])
     | Inl (Err _) \<Rightarrow>
         bind_act (rollback P session imported_ids) (\<lambda>rollback_ok.
         if rollback_ok then fail (InvalidState ''import add failed; rollback succeeded'')
         else fail PartialImport)
     | Inl Panic \<Rightarrow> lift_rs panic)"

definition import_bundle ::
    "prims \<Rightarrow> UnlockedVault \<Rightarrow> byte list \<Rightarrow> byte list \<Rightarrow> byte list list io" where
  "import_bundle P session bundle passphrase =
     bind_act (lift_rs (authenticate P bundle passphrase)) (\<lambda>items.
     import_items P session items [])"

end
