(* ===== verification/Console.thy ===== *)
theory Console
  imports Identity_Text Export_Bundle
begin

text \<open>
  What the command line adds to the world of the theory Runtime: standard input and output, the
  hidden prompt of the terminal, \<open>std::fs::write\<close>, and the standard library's view of text
  (\<open>char\<close>, \<open>trim\<close>, \<open>escape_default\<close>, \<open>BufRead::lines\<close>).
\<close>

subsection \<open>Consoles and commands\<close>

text \<open>
  \<open>cn_stdin\<close> is the input not yet read. \<open>cn_tty\<close> holds the answers to the hidden prompts of the
  rpassword package, in order, None for a failing one. \<open>cn_out_faults n\<close> makes the n-th write to
  standard output fail after some bytes. Writing to standard error (\<open>eprintln!\<close>) always succeeds.
\<close>

record console =
  cn_world :: world
  cn_stdin :: "byte list"
  cn_tty :: "byte list option list"
  cn_stdout :: "byte list"
  cn_out_faults :: "nat \<Rightarrow> (io_error \<times> nat) option"
  cn_prints :: nat
  cn_stderr :: "byte list"

type_synonym 'a cli = "console \<Rightarrow> 'a res \<times> console"

definition lift_cli :: "'a res \<Rightarrow> 'a cli" where
  "lift_cli r = (\<lambda>c. (r, c))"

definition bind_cli :: "'a cli \<Rightarrow> ('a \<Rightarrow> 'b cli) \<Rightarrow> 'b cli" where
  "bind_cli m f = (\<lambda>c. case m c of (Inl e, c') \<Rightarrow> (Inl e, c') | (Inr x, c') \<Rightarrow> f x c')"

definition do_io :: "'a io \<Rightarrow> 'a cli" where
  "do_io m = (\<lambda>c. case m (cn_world c) of (r, w) \<Rightarrow> (r, c\<lparr>cn_world := w\<rparr>))"

definition write_stdout :: "byte list \<Rightarrow> unit cli" where
  "write_stdout bs = (\<lambda>c. case cn_out_faults c (cn_prints c) of
     Some (e, k) \<Rightarrow> (err (Io e), c\<lparr>cn_stdout := cn_stdout c @ take k bs, cn_prints := cn_prints c + 1\<rparr>)
   | None \<Rightarrow> (ok (), c\<lparr>cn_stdout := cn_stdout c @ bs, cn_prints := cn_prints c + 1\<rparr>))"

definition write_stderr :: "byte list \<Rightarrow> unit cli" where
  "write_stderr bs = (\<lambda>c. (ok (), c\<lparr>cn_stderr := cn_stderr c @ bs\<rparr>))"

text \<open>\<open>read_line\<close>: up to and including the next newline; the bytes must be UTF-8.\<close>

definition next_line :: "byte list \<Rightarrow> byte list" where
  "next_line bs = takeWhile (\<lambda>b. b \<noteq> 10) bs @ (if 10 \<in> set bs then [10] else [])"

definition read_line :: "byte list cli" where
  "read_line = (\<lambda>c.
     let line = next_line (cn_stdin c) in
     (from_utf8 line (Io IoOther), c\<lparr>cn_stdin := drop (length line) (cn_stdin c)\<rparr>))"

text \<open>
  One element of \<open>BufRead::lines\<close>, None at the end of the input: the line without its newline and a
  carriage return before it.
\<close>

definition lines_next :: "byte list option cli" where
  "lines_next = bind_cli read_line (\<lambda>line. lift_cli (ok
     (if line = [] then None
      else if last line = 10 then Some (strip_cr (butlast line)) else Some line)))"

definition prompt_tty :: "byte list cli" where
  "prompt_tty = (\<lambda>c. case cn_tty c of
     [] \<Rightarrow> (err (Io IoOther), c)
   | a # as \<Rightarrow> (ok_or a (Io IoOther), c\<lparr>cn_tty := as\<rparr>))"

subsection \<open>File system\<close>

text \<open>
  \<open>std::fs::write\<close> creates the file or truncates it, then writes everything: a failure or a crash
  can leave the file absent, empty or with a prefix. \<open>read_to_string\<close> wants UTF-8.
\<close>

definition fs_create :: "path \<Rightarrow> unit io" where
  "fs_create p = (\<lambda>w. case faults w (calls w) of
     Some (e, _) \<Rightarrow> (err (Io e), snapshot w)
   | None \<Rightarrow> (Inr (), snapshot (w\<lparr>files := (files w)(p := Some [])\<rparr>)))"

definition fs_write :: "path \<Rightarrow> byte list \<Rightarrow> unit io" where
  "fs_write p bs = bind_act (fs_create p) (\<lambda>_. fs_write_all p bs)"

definition fs_read_to_string :: "path \<Rightarrow> byte list io" where
  "fs_read_to_string p = bind_act (fs_read p) (\<lambda>bs. lift_rs (from_utf8 bs (Io IoOther)))"

definition fs_metadata :: "path \<Rightarrow> unit io" where
  "fs_metadata p = (\<lambda>w. case faults w (calls w) of
     Some (e, _) \<Rightarrow> (err (Io e), snapshot w)
   | None \<Rightarrow> (if files w p = None then err (Io IoNotFound) else Inr (), snapshot w))"

definition fs_set_permissions :: "path \<Rightarrow> unit io" where
  "fs_set_permissions p = fs_metadata p"

subsection \<open>Text\<close>

text \<open>The code points of a well-formed UTF-8 byte list.\<close>

fun utf8_chars :: "byte list \<Rightarrow> nat list" where
  "utf8_chars [] = []"
| "utf8_chars (a # bs) =
     (if unat a < 0x80 then unat a # utf8_chars bs
      else if unat a < 0xE0 then
        (case bs of b # r \<Rightarrow> ((unat a - 0xC0) * 64 + (unat b - 0x80)) # utf8_chars r | _ \<Rightarrow> [])
      else if unat a < 0xF0 then
        (case bs of b # c # r \<Rightarrow>
           ((unat a - 0xE0) * 4096 + (unat b - 0x80) * 64 + (unat c - 0x80)) # utf8_chars r | _ \<Rightarrow> [])
      else
        (case bs of b # c # d # r \<Rightarrow>
           ((unat a - 0xF0) * 262144 + (unat b - 0x80) * 4096 + (unat c - 0x80) * 64 + (unat d - 0x80)) #
             utf8_chars r | _ \<Rightarrow> []))"

text \<open>\<open>char::is_whitespace\<close>: the code points with the Unicode property White_Space.\<close>

definition is_whitespace :: "nat \<Rightarrow> bool" where
  "is_whitespace c \<longleftrightarrow> (9 \<le> c \<and> c \<le> 13) \<or> c = 0x20 \<or> c = 0x85 \<or> c = 0xA0 \<or> c = 0x1680 \<or>
     (0x2000 \<le> c \<and> c \<le> 0x200A) \<or> c = 0x2028 \<or> c = 0x2029 \<or> c = 0x202F \<or> c = 0x205F \<or> c = 0x3000"

definition trim_chars :: "nat list \<Rightarrow> nat list" where
  "trim_chars cs = rev (dropWhile is_whitespace (rev (dropWhile is_whitespace cs)))"

text \<open>\<open>trim_end_matches(&['\r', '\n'][..])\<close>\<close>

definition trim_line_end :: "byte list \<Rightarrow> byte list" where
  "trim_line_end bs = rev (dropWhile (\<lambda>b. b = 13 \<or> b = 10) (rev bs))"

text \<open>\<open>{:x}\<close> and \<open>char::escape_default\<close>.\<close>

function hex_num :: "nat \<Rightarrow> string" where
  "hex_num n = (if n < 16 then [hex_digit n] else hex_num (n div 16) @ [hex_digit (n mod 16)])"
  by pat_completeness auto
termination by (relation "measure id") auto

declare hex_num.simps [simp del]

definition escape_char :: "nat \<Rightarrow> string" where
  "escape_char c =
     (if c = 9 then [CHR 0x5C, CHR ''t'']
      else if c = 13 then [CHR 0x5C, CHR ''r'']
      else if c = 10 then [CHR 0x5C, CHR ''n'']
      else if c = 39 \<or> c = 34 \<or> c = 92 then [CHR 0x5C, char_of c]
      else if 0x20 \<le> c \<and> c \<le> 0x7E then [char_of c]
      else [CHR 0x5C, CHR ''u'', CHR 0x7B] @ hex_num c @ [CHR 0x7D])"

definition escape_default :: "byte list \<Rightarrow> string" where
  "escape_default s = concat (map escape_char (utf8_chars s))"

subsection \<open>Lemmas\<close>

lemma lift_cli_apply [simp]: "lift_cli r c = (r, c)"
  by (simp add: lift_cli_def)

lemma bind_cli_lift [simp]: "bind_cli (lift_cli (Inr x)) f = f x" "bind_cli (lift_cli (Inl e)) f c = (Inl e, c)"
  by (simp_all add: bind_cli_def fun_eq_iff)

lemma bind_cli_Inr: "m c = (Inr x, c') \<Longrightarrow> bind_cli m f c = f x c'"
  by (simp add: bind_cli_def)

lemma bind_cli_Inl: "m c = (Inl e, c') \<Longrightarrow> bind_cli m f c = (Inl e, c')"
  by (simp add: bind_cli_def)

lemma bind_cli_eq_Inr: "bind_cli m f c = (Inr y, c'') \<longleftrightarrow> (\<exists>x c'. m c = (Inr x, c') \<and> f x c' = (Inr y, c''))"
  by (auto simp: bind_cli_def split: prod.splits sum.splits)

lemma do_io_Inr: "m (cn_world c) = (Inr x, w) \<Longrightarrow> do_io m c = (Inr x, c\<lparr>cn_world := w\<rparr>)"
  by (simp add: do_io_def)

lemma do_io_eq: "do_io m c = (r, c') \<longleftrightarrow> (\<exists>w. m (cn_world c) = (r, w) \<and> c' = c\<lparr>cn_world := w\<rparr>)"
  by (auto simp: do_io_def split: prod.splits)

end
