(* ===== verification/Replay_Store.thy ===== *)
theory Replay_Store
  imports Byte_Parser
begin

text \<open>
  src/crates/meissnerseal-core/src/transfer/protocol.rs (profile identifiers and errors) and
  transfer/replay.rs: the store of accepted envelope ids. A reading of the clock is an argument
  of the operations: \<open>check_and_insert\<close> reads it twice, so it takes two.
\<close>

subsection \<open>protocol.rs\<close>

abbreviation (input) TRANSFER_PROFILE_V1_ID :: u16 where "TRANSFER_PROFILE_V1_ID \<equiv> 0x0001"
abbreviation (input) CLASSICAL_ALG_ID_X25519 :: u16 where "CLASSICAL_ALG_ID_X25519 \<equiv> 0x0001"
abbreviation (input) PQC_ALG_ID_MLKEM768 :: u16 where "PQC_ALG_ID_MLKEM768 \<equiv> 0x0001"

type_synonym EnvelopeId = "byte list"
type_synonym Timestamp = u64

datatype TransferError =
    UnknownProfile
  | ExpiredEnvelope
  | ReplayedEnvelopeId
  | TranscriptMismatch
  | MissingPqcCiphertext
  | AlgorithmMismatch
  | KeyDerivationFailed
  | EncryptionFailed
  | DecryptionFailed
  | SigningFailed
  | VerificationFailed
  | UntrustedSender
  | InvalidEnvelopeId
  | TranscriptHashUnavailable
  | MalformedReplayStore
  | Unimplemented
  | MissingAnonymousRecipientPublicKey

datatype TransferProfileId = TransferProfileId (profile_to_u16: u16)

definition profile_v1 :: TransferProfileId where
  "profile_v1 = TransferProfileId TRANSFER_PROFILE_V1_ID"

definition profile_from_u16 :: "u16 \<Rightarrow> (TransferError, TransferProfileId) rs" where
  "profile_from_u16 v =
     (if v = TRANSFER_PROFILE_V1_ID then ok (TransferProfileId v) else err UnknownProfile)"

subsection \<open>Time\<close>

text \<open>
  \<open>duration_since(UNIX_EPOCH).unwrap_or_default().as_millis()\<close> of a clock that shows the given
  number of milliseconds since the epoch, clamped to \<open>Timestamp::MAX\<close>.
\<close>

definition unix_time_millis_at :: "int \<Rightarrow> Timestamp" where
  "unix_time_millis_at t =
     (let millis = (if t < 0 then 0 else nat t) in
      if millis \<le> usize_max then of_nat millis else of_nat usize_max)"

subsection \<open>replay.rs\<close>

abbreviation (input) MAX_REPLAY_ENTRIES :: u32 where "MAX_REPLAY_ENTRIES \<equiv> 65536"

record SeenEnvelopeIds =
  entries :: "(EnvelopeId \<times> Timestamp option) list"

definition seen_new :: SeenEnvelopeIds where
  "seen_new = \<lparr>entries = []\<rparr>"

definition evict_expired :: "Timestamp \<Rightarrow> SeenEnvelopeIds \<Rightarrow> SeenEnvelopeIds" where
  "evict_expired now seen =
     seen\<lparr>entries := filter (\<lambda>(_, expires_at).
        case expires_at of None \<Rightarrow> True | Some expires \<Rightarrow> expires > now) (entries seen)\<rparr>"

definition check_and_insert ::
    "Timestamp \<Rightarrow> Timestamp \<Rightarrow> SeenEnvelopeIds \<Rightarrow> EnvelopeId \<Rightarrow> Timestamp option \<Rightarrow>
     (TransferError, unit) rs \<times> SeenEnvelopeIds" where
  "check_and_insert now_evict now seen i expires_at =
     (let seen = evict_expired now_evict seen in
      if (case expires_at of None \<Rightarrow> False | Some expires \<Rightarrow> expires \<le> now)
      then (err ExpiredEnvelope, seen)
      else if list_ex (\<lambda>(seen_id, _). seen_id = i) (entries seen)
      then (err ReplayedEnvelopeId, seen)
      else (ok (), seen\<lparr>entries := entries seen @ [(i, expires_at)]\<rparr>))"

primrec write_entries :: "(EnvelopeId \<times> Timestamp option) list \<Rightarrow> byte list" where
  "write_entries [] = []"
| "write_entries (e # es) =
     fst e @ u64_le (case snd e of None \<Rightarrow> 0 | Some t \<Rightarrow> t) @ write_entries es"

definition seen_to_bytes :: "SeenEnvelopeIds \<Rightarrow> byte list" where
  "seen_to_bytes seen =
     (let count = (if length (entries seen) \<le> u32_max then of_nat (length (entries seen))
                   else of_nat u32_max :: u32) in
      u32_le count @ write_entries (entries seen))"

text \<open>\<open>seen_ids\<close> is the hash set of the loop, as the list of the ids inserted so far.\<close>

primrec read_entries ::
    "byte list \<Rightarrow> nat \<Rightarrow> nat \<Rightarrow> (EnvelopeId \<times> Timestamp option) list \<Rightarrow> EnvelopeId list \<Rightarrow>
     (TransferError, (EnvelopeId \<times> Timestamp option) list \<times> nat) rs" where
  "read_entries bytes 0 c es seen_ids = ok (es, c)"
| "read_entries bytes (Suc n) c es seen_ids =
     and_then (bp_take_array MalformedReplayStore 16 bytes c) (\<lambda>(i, c).
     and_then (bp_take_u64_le MalformedReplayStore bytes c) (\<lambda>(millis, c).
     let expires_at = (if millis = 0 then None else Some millis) in
     if i \<in> set seen_ids then err MalformedReplayStore
     else read_entries bytes n c (es @ [(i, expires_at)]) (i # seen_ids)))"

definition seen_from_bytes :: "byte list \<Rightarrow> (TransferError, SeenEnvelopeIds) rs" where
  "seen_from_bytes bytes =
     and_then (bp_take_u32_le MalformedReplayStore bytes 0) (\<lambda>(count, c).
     if count > MAX_REPLAY_ENTRIES then err MalformedReplayStore
     else
     and_then (read_entries bytes (unat count) c [] []) (\<lambda>(es, c).
     if c \<noteq> length bytes then err MalformedReplayStore
     else ok \<lparr>entries = es\<rparr>))"

subsection \<open>Well-formed stores\<close>

text \<open>What every store reachable through the operations satisfies; the size limit is the parser's.\<close>

definition seen_wf :: "SeenEnvelopeIds \<Rightarrow> bool" where
  "seen_wf seen \<longleftrightarrow> distinct (map fst (entries seen)) \<and>
     list_all (\<lambda>(i, t). length i = 16 \<and> t \<noteq> Some 0) (entries seen)"

definition live_at :: "Timestamp \<Rightarrow> Timestamp option \<Rightarrow> bool" where
  "live_at now t \<longleftrightarrow> (case t of None \<Rightarrow> True | Some expires \<Rightarrow> expires > now)"

lemma evict_entries: "entries (evict_expired now seen) = filter (\<lambda>e. live_at now (snd e)) (entries seen)"
  by (simp add: evict_expired_def live_at_def split_def)

lemma evict_wf: "seen_wf seen \<Longrightarrow> seen_wf (evict_expired now seen)"
  by (auto simp: seen_wf_def evict_entries list_all_iff distinct_map intro: inj_on_subset)

lemma check_and_insert_cases:
  "check_and_insert n1 n2 seen i t = (r, seen') \<longleftrightarrow>
    (\<not> live_at n2 t \<and> r = err ExpiredEnvelope \<and> seen' = evict_expired n1 seen) \<or>
    (live_at n2 t \<and> i \<in> fst ` set (entries (evict_expired n1 seen)) \<and> r = err ReplayedEnvelopeId \<and>
       seen' = evict_expired n1 seen) \<or>
    (live_at n2 t \<and> i \<notin> fst ` set (entries (evict_expired n1 seen)) \<and> r = ok () \<and>
       seen' = (evict_expired n1 seen)\<lparr>entries := entries (evict_expired n1 seen) @ [(i, t)]\<rparr>)"
proof -
  have "list_ex (\<lambda>(j, _). j = i) xs \<longleftrightarrow> i \<in> fst ` set xs" for xs :: "(EnvelopeId \<times> Timestamp option) list"
    by (induction xs) auto
  moreover have "(case t of None \<Rightarrow> False | Some expires \<Rightarrow> expires \<le> n2) \<longleftrightarrow> \<not> live_at n2 t"
    by (auto simp: live_at_def split: option.splits)
  ultimately show ?thesis by (auto simp: check_and_insert_def Let_def)
qed

lemma live_not_zero: "live_at now t \<Longrightarrow> t \<noteq> Some 0"
  by (auto simp: live_at_def)

lemma check_and_insert_wf:
  assumes "seen_wf seen" "length i = 16" "check_and_insert n1 n2 seen i t = (r, seen')"
  shows "seen_wf seen'"
  using evict_wf [OF assms(1), of n1] assms(2,3) live_not_zero [of n2 t]
  by (auto simp: check_and_insert_cases seen_wf_def)

subsection \<open>The reachable stores\<close>

text \<open>
  The life of a store: it starts empty or is read from bytes, and ids are checked and inserted
  while the clock never goes back; \<open>accepted\<close> collects what was accepted, newest first.
\<close>

record replay_state =
  rs_now :: Timestamp
  rs_seen :: SeenEnvelopeIds
  rs_accepted :: "(EnvelopeId \<times> Timestamp option) list"

inductive replay_step :: "replay_state \<Rightarrow> replay_state \<Rightarrow> bool" where
  accept: "rs_now s \<le> n1 \<Longrightarrow> n1 \<le> n2 \<Longrightarrow> length i = 16 \<Longrightarrow>
     check_and_insert n1 n2 (rs_seen s) i t = (ok (), seen') \<Longrightarrow>
     replay_step s \<lparr>rs_now = n2, rs_seen = seen', rs_accepted = (i, t) # rs_accepted s\<rparr>"
| refuse: "rs_now s \<le> n1 \<Longrightarrow> n1 \<le> n2 \<Longrightarrow> length i = 16 \<Longrightarrow>
     check_and_insert n1 n2 (rs_seen s) i t = (err e, seen') \<Longrightarrow>
     replay_step s \<lparr>rs_now = n2, rs_seen = seen', rs_accepted = rs_accepted s\<rparr>"
| reload: "seen_from_bytes (seen_to_bytes (rs_seen s)) = ok seen' \<Longrightarrow>
     replay_step s (s\<lparr>rs_seen := seen'\<rparr>)"

inductive replay_reachable :: "replay_state \<Rightarrow> bool" where
  start: "replay_reachable \<lparr>rs_now = now, rs_seen = seen_new, rs_accepted = []\<rparr>"
| step: "replay_reachable s \<Longrightarrow> replay_step s s' \<Longrightarrow> replay_reachable s'"

definition replay_inv :: "replay_state \<Rightarrow> bool" where
  "replay_inv s \<longleftrightarrow> seen_wf (rs_seen s) \<and> set (entries (rs_seen s)) \<subseteq> set (rs_accepted s) \<and>
     (\<forall>(i, t) \<in> set (rs_accepted s). live_at (rs_now s) t \<longrightarrow> (i, t) \<in> set (entries (rs_seen s)))"

subsection \<open>The wire format\<close>

lemma write_entries_append: "write_entries (xs @ ys) = write_entries xs @ write_entries ys"
  by (induction xs) simp_all

lemma length_write_entries: "list_all (\<lambda>(i, t). length i = 16) es \<Longrightarrow> length (write_entries es) = 24 * length es"
  by (induction es) auto

lemma read_entries_sound:
  "read_entries bs n c es seen_ids = Inr (out, c') \<Longrightarrow> c \<le> length bs \<Longrightarrow> \<exists>new. out = es @ new \<and> length new = n \<and>
    list_all (\<lambda>(i, t). length i = 16 \<and> t \<noteq> Some 0) new \<and> distinct (map fst new) \<and>
    set (map fst new) \<inter> set seen_ids = {} \<and> holds_at bs c (write_entries new) \<and> c' = c + length (write_entries new)"
proof (induction n arbitrary: c es seen_ids)
  case 0
  then show ?case by simp
next
  case (Suc n)
  obtain i m where i: "holds_at bs c i" "length i = 16" "holds_at bs (c + 16) (u64_le m)" "i \<notin> set seen_ids"
    and r: "read_entries bs n (c + 24) (es @ [(i, if m = 0 then None else Some m)]) (i # seen_ids) = Inr (out, c')"
    using Suc.prems(1) by (auto simp: bp_Inr Let_def ac_simps split: if_splits)
  have "c + 24 \<le> length bs" using holds_at_bound [OF i(3)] by simp
  then obtain new where n: "out = (es @ [(i, if m = 0 then None else Some m)]) @ new" "length new = n"
    "list_all (\<lambda>(i, t). length i = 16 \<and> t \<noteq> Some 0) new" "distinct (map fst new)"
    "set (map fst new) \<inter> set (i # seen_ids) = {}" "holds_at bs (c + 24) (write_entries new)"
    "c' = c + 24 + length (write_entries new)"
    using Suc.IH [OF r] by blast
  show ?case
    using i n by (intro exI [of _ "(i, if m = 0 then None else Some m) # new"])
      (auto simp: holds_at_append add.assoc)
qed

lemma read_entries_complete:
  "list_all (\<lambda>(i, t). length i = 16 \<and> t \<noteq> Some 0) new \<Longrightarrow> distinct (map fst new) \<Longrightarrow>
    set (map fst new) \<inter> set seen_ids = {} \<Longrightarrow> holds_at bs c (write_entries new) \<Longrightarrow> length bs \<le> usize_max \<Longrightarrow>
    read_entries bs (length new) c es seen_ids = Inr (es @ new, c + length (write_entries new))"
proof (induction new arbitrary: c es seen_ids)
  case Nil
  then show ?case by simp
next
  case (Cons e new)
  obtain i t where e: "e = (i, t)" by fastforce
  let ?m = "case t of None \<Rightarrow> 0 | Some t \<Rightarrow> t"
  have h: "holds_at bs c i" "length i = 16" "holds_at bs (c + 16) (u64_le ?m)" "holds_at bs (c + 24) (write_entries new)"
    using Cons.prems(1,4) by (auto simp: e holds_at_append add.assoc)
  have "bp_take_array MalformedReplayStore 16 bs c = Inr (i, c + 16)"
    "bp_take_u64_le MalformedReplayStore bs (c + 16) = Inr (?m, c + 24)"
    using h holds_at_bound [OF h(1)] holds_at_bound [OF h(3)] Cons.prems(5) by (simp_all add: bp_Inr)
  moreover have "(if ?m = 0 then None else Some ?m) = t" using Cons.prems(1) by (auto simp: e split: option.splits)
  moreover have "read_entries bs (length new) (c + 24) (es @ [(i, t)]) (i # seen_ids) =
      Inr ((es @ [(i, t)]) @ new, c + 24 + length (write_entries new))"
    using Cons.prems h by (intro Cons.IH) (auto simp: e)
  moreover have "i \<notin> set seen_ids" using Cons.prems(3) by (simp add: e)
  ultimately show ?case using h(2) by (simp add: Let_def e)
qed

lemma seen_from_bytes_Inr:
  assumes b: "length bs \<le> usize_max"
  shows "seen_from_bytes bs = Inr s \<longleftrightarrow> seen_wf s \<and> length (entries s) \<le> 65536 \<and> bs = seen_to_bytes s" (is "?l \<longleftrightarrow> ?r")
proof
  assume ?l
  then obtain n es where n: "n \<le> 65536" "holds_at bs 0 (u32_le n)"
    and r: "read_entries bs (unat n) 4 [] [] = Inr (es, length bs)" and s: "s = \<lparr>entries = es\<rparr>"
    by (auto simp: seen_from_bytes_def bp_Inr not_less split: if_splits)
  have es: "length es = unat n" "list_all (\<lambda>(i, t). length i = 16 \<and> t \<noteq> Some 0) es" "distinct (map fst es)"
    "holds_at bs 4 (write_entries es)" "length bs = 4 + length (write_entries es)"
    using read_entries_sound [OF r] holds_at_bound [OF n(2)] by auto
  have un: "unat n \<le> 65536" using n(1) by (simp add: word_le_nat_alt)
  have "of_nat (length es) = n" by (simp add: es(1))
  then have "bs = seen_to_bytes s"
    using n(2) es(4,5) un es(1)
    by (intro holds_at_whole) (simp_all add: seen_to_bytes_def s holds_at_append u32_max_def)
  then show ?r using es un by (simp add: seen_wf_def s)
next
  assume r: ?r
  then have bs: "bs = u32_le (of_nat (length (entries s))) @ write_entries (entries s)"
    by (simp add: seen_to_bytes_def u32_max_def)
  have "bp_take_u32_le MalformedReplayStore bs 0 = Inr (of_nat (length (entries s)), 4)"
    by (simp add: bp_Inr bs holds_at_def usize_max_def)
  moreover have h: "holds_at bs 4 (write_entries (entries s))" "length bs = 4 + length (write_entries (entries s))"
    by (simp_all add: bs holds_at_def)
  then have "read_entries bs (length (entries s)) 4 [] [] = Inr (entries s, length bs)"
    using read_entries_complete [of "entries s" "[]" bs 4 "[]"] r b by (simp add: seen_wf_def)
  moreover have "unat (of_nat (length (entries s)) :: u32) = length (entries s)"
    using r by (simp add: u32_max_def)
  moreover from this have "\<not> (of_nat (length (entries s)) :: u32) > 65536"
    using r by (simp add: word_less_nat_alt)
  ultimately show ?l using h by (simp add: seen_from_bytes_def)
qed

lemma length_seen_to_bytes: "seen_wf s \<Longrightarrow> length (seen_to_bytes s) = 4 + 24 * length (entries s)"
  by (auto simp: seen_to_bytes_def Let_def seen_wf_def list_all_iff intro!: length_write_entries)

lemma no_panic_read_entries [simp]: "no_panic (read_entries bs n c es seen_ids)"
proof (induction n arbitrary: c es seen_ids)
  case (Suc n)
  then show ?case unfolding read_entries.simps Let_def by (intro no_panic_intros; simp)
qed simp

lemma no_panic_seen_from_bytes [simp]: "no_panic (seen_from_bytes bs)"
  unfolding seen_from_bytes_def by (intro no_panic_intros; simp)

lemma seen_reload:
  assumes "seen_wf s" "length (entries s) \<le> u32_max"
  shows "seen_from_bytes (seen_to_bytes s) = (if length (entries s) \<le> 65536 then ok s else err MalformedReplayStore)"
proof (cases "length (entries s) \<le> 65536")
  case True
  then have "length (seen_to_bytes s) \<le> usize_max"
    using length_seen_to_bytes [OF assms(1)] by (simp add: usize_max_def)
  then show ?thesis using assms True by (simp add: seen_from_bytes_Inr)
next
  case False
  let ?n = "of_nat (length (entries s)) :: u32"
  have "unat ?n = length (entries s)" using assms(2) by simp
  then have "?n > 65536" using False by (simp add: word_less_nat_alt)
  moreover have "bp_take_u32_le MalformedReplayStore (seen_to_bytes s) 0 = Inr (?n, 4)"
    using assms(2) by (simp add: bp_Inr seen_to_bytes_def holds_at_def usize_max_def)
  ultimately show ?thesis using False by (simp add: seen_from_bytes_def)
qed

subsection \<open>The invariant\<close>

lemma live_at_mono: "n1 \<le> n2 \<Longrightarrow> live_at n2 t \<Longrightarrow> live_at n1 t"
  by (auto simp: live_at_def split: option.splits)

lemma replay_inv_start: "replay_inv \<lparr>rs_now = now, rs_seen = seen_new, rs_accepted = []\<rparr>"
  by (simp add: replay_inv_def seen_wf_def seen_new_def)

lemma replay_inv_step:
  assumes "replay_step s s'" "replay_inv s"
  shows "replay_inv s'"
  using assms(1)
proof cases
  case (accept n1 n2 i t seen')
  note wf = check_and_insert_wf [OF _ accept(4,5)]
  have e: "entries seen' = filter (\<lambda>e. live_at n1 (snd e)) (entries (rs_seen s)) @ [(i, t)]"
    using accept(5) by (auto simp: check_and_insert_cases evict_entries)
  have "live_at (rs_now s) x" "live_at n1 x" if "live_at n2 x" for x
    using that accept(2,3) live_at_mono by (blast intro: order_trans)+
  then show ?thesis
    using assms(2) wf by (auto simp: replay_inv_def accept(1) e)
next
  case (refuse n1 n2 i t e seen')
  note wf = check_and_insert_wf [OF _ refuse(4,5)]
  have e: "entries seen' = filter (\<lambda>e. live_at n1 (snd e)) (entries (rs_seen s))"
    using refuse(5) by (auto simp: check_and_insert_cases evict_entries)
  have "live_at (rs_now s) x" "live_at n1 x" if "live_at n2 x" for x
    using that refuse(2,3) live_at_mono by (blast intro: order_trans)+
  then show ?thesis
    using assms(2) wf by (auto simp: replay_inv_def refuse(1) e)
next
  case (reload seen')
  have "seen' = rs_seen s"
  proof (cases "length (entries (rs_seen s)) \<le> u32_max")
    case True
    then show ?thesis using seen_reload [of "rs_seen s"] reload(2) assms(2) by (auto simp: replay_inv_def split: if_splits)
  next
    case False
    have "bp_take_u32_le MalformedReplayStore (seen_to_bytes (rs_seen s)) 0 = Inr (of_nat u32_max, 4)"
      using False by (simp add: bp_Inr seen_to_bytes_def holds_at_def usize_max_def)
    moreover have "(of_nat u32_max :: u32) > 65536" by (simp add: u32_max_def)
    ultimately show ?thesis using reload(2) by (simp add: seen_from_bytes_def)
  qed
  then show ?thesis using assms(2) by (simp add: reload(1))
qed

lemma replay_reachable_inv: "replay_reachable s \<Longrightarrow> replay_inv s"
  by (induction rule: replay_reachable.induct) (auto intro: replay_inv_start replay_inv_step)

subsection \<open>Properties\<close>

text \<open>C18. No envelope is accepted twice: in every state a replay store can reach through
  acceptances, refusals and reloads while the clock does not go back, the ids in the store are distinct,
  every accepted envelope that has not expired is in it, and a second \<open>check_and_insert\<close> of an accepted
  id with its expiry is refused as expired or replayed.\<close>

theorem replay_never_accepted_twice:
  assumes "replay_reachable s" "(i, t) \<in> set (rs_accepted s)" "rs_now s \<le> n1" "n1 \<le> n2"
  shows "replay_inv s \<and> fst (check_and_insert n1 n2 (rs_seen s) i t) =
    (if live_at n2 t then err ReplayedEnvelopeId else err ExpiredEnvelope)"
proof -
  have inv: "replay_inv s" by (rule replay_reachable_inv [OF assms(1)])
  obtain r seen' where c: "check_and_insert n1 n2 (rs_seen s) i t = (r, seen')" by fastforce
  have "(i, t) \<in> set (entries (evict_expired n1 (rs_seen s)))" if "live_at n2 t"
    using that inv assms live_at_mono [OF assms(4) that] live_at_mono [OF order_trans [OF assms(3,4)] that]
    by (auto simp: replay_inv_def evict_entries)
  then have "live_at n2 t \<Longrightarrow> i \<in> fst ` set (entries (evict_expired n1 (rs_seen s)))" by force
  then have "r = (if live_at n2 t then err ReplayedEnvelopeId else err ExpiredEnvelope)"
    using c unfolding check_and_insert_cases by auto
  then show ?thesis using inv c by simp
qed

theorem replay_never_accepted_twice_witness:
  "fst (check_and_insert 7 8 \<lparr>entries = [(zeros 16, Some 9)]\<rparr> (zeros 16) (Some 9)) = err ReplayedEnvelopeId"
proof -
  let ?s0 = "\<lparr>rs_now = 5, rs_seen = seen_new, rs_accepted = []\<rparr>"
  let ?s1 = "\<lparr>rs_now = 6, rs_seen = \<lparr>entries = [(zeros 16, Some 9)]\<rparr>, rs_accepted = [(zeros 16, Some 9)]\<rparr>"
  have "replay_step ?s0 \<lparr>rs_now = 6, rs_seen = \<lparr>entries = [(zeros 16, Some 9)]\<rparr>,
      rs_accepted = (zeros 16, Some 9) # rs_accepted ?s0\<rparr>"
    by (rule accept [where ?n1.0 = 5]) (simp_all add: check_and_insert_def seen_new_def evict_expired_def)
  then have "replay_reachable ?s1" using step [OF start] by force
  then show ?thesis
    using replay_never_accepted_twice [of ?s1 "zeros 16" "Some 9" 7 8] by (simp add: live_at_def)
qed

text \<open>The replay store survives a restart: a well-formed store of at most 65536 ids is read
  back unchanged from its bytes, and \<open>from_bytes\<close> accepts no other bytes; but \<open>check_and_insert\<close> knows
  no such limit, and a store that has grown beyond it serializes to bytes that are refused.\<close>

theorem replay_store_persistence:
  assumes "seen_wf s" "length (entries s) \<le> u32_max"
  shows "seen_from_bytes (seen_to_bytes s) =
      (if length (entries s) \<le> 65536 then ok s else err MalformedReplayStore) \<and>
    (\<forall>bs. length bs \<le> usize_max \<and> seen_from_bytes bs = ok s \<longrightarrow> bs = seen_to_bytes s)"
  using seen_reload [OF assms] seen_from_bytes_Inr by blast

theorem replay_store_persistence_witness:
  "seen_from_bytes (seen_to_bytes \<lparr>entries = [(zeros 16, Some 9), (replicate 16 1, None)]\<rparr>) =
    ok \<lparr>entries = [(zeros 16, Some 9), (replicate 16 1, None)]\<rparr>"
proof -
  let ?s = "\<lparr>entries = [(zeros 16, Some 9), (replicate 16 1, None)]\<rparr> :: SeenEnvelopeIds"
  have "zeros 16 \<noteq> replicate 16 1" by code_simp
  then have "seen_wf ?s" by (simp add: seen_wf_def)
  then show ?thesis using replay_store_persistence [of ?s] by (simp add: u32_max_def)
qed

end
