(* ===== verification/Transfer_Envelope.thy ===== *)
theory Transfer_Envelope
  imports Replay_Store Device_Identity
begin

text \<open>
  src/crates/meissnerseal-core/src/transfer/envelope.rs: the transfer envelope, its transcript, its
  creation, opening and wire format, and the two wrappers of keys/device.rs around them. A
  \<open>SecretPayload\<close> (transfer/secret_payload.rs) is its bytes. Creation reads the clock of the world;
  opening draws nothing and takes its three clock readings (validation, eviction, insertion) as
  arguments, like \<open>check_and_insert\<close>.
\<close>

definition TRANSFER_ENVELOPE_SIGNING_DOMAIN :: "byte list" where
  "TRANSFER_ENVELOPE_SIGNING_DOMAIN = bytes_of ''meissnerseal.transfer.envelope.v1'' @ [0]"

definition TRANSFER_TRANSCRIPT_DOMAIN :: "byte list" where
  "TRANSFER_TRANSCRIPT_DOMAIN = bytes_of ''meissnerseal-transfer-transcript-v1''"

definition TRANSFER_ENVELOPE_MAGIC :: "byte list" where
  "TRANSFER_ENVELOPE_MAGIC = bytes_of ''MSENV'' @ [1]"

subsection \<open>Types\<close>

datatype TrustedSender = TrustedSender (signing_public_key: SigningPublicKey)

definition from_verified :: "DeviceIdentity \<Rightarrow> (TransferError, TrustedSender) rs" where
  "from_verified d =
     (if \<not> (di_trust_state d = Verified \<or> di_trust_state d = Approved) then err UntrustedSender
      else
      and_then (ok_or (di_signing_public_key d) UntrustedSender) (\<lambda>spk. ok (TrustedSender spk)))"

record TransferEnvelope =
  te_version :: u16
  te_transfer_profile :: TransferProfileId
  te_envelope_id :: EnvelopeId
  te_sender_device_id :: "byte list"
  te_recipient_device_id :: "byte list option"
  te_classical_ephemeral_public_key :: "byte list"
  te_pqc_ciphertext :: "byte list"
  te_transcript_hash :: "byte list"
  te_encrypted_payload :: "byte list"
  te_nonce :: "byte list"
  te_expires_at :: "Timestamp option"

record TranscriptParams =
  tp_transfer_profile :: TransferProfileId
  tp_sender_device_id :: "byte list"
  tp_sender_ephemeral :: "byte list"
  tp_recipient_device_id :: "byte list option"
  tp_anonymous_recipient :: "byte list option"
  tp_pqc_ciphertext :: "byte list"
  tp_classical_algorithm_id :: u16
  tp_pqc_algorithm_id :: u16
  tp_envelope_id :: EnvelopeId
  tp_expires_at :: "Timestamp option"

record CreateEnvelopeParams =
  ce_sender_device_id :: "byte list"
  ce_recipient_device_id :: "byte list option"
  ce_anonymous_recipient_public_key :: "byte list option"
  ce_recipient_classical_public_key :: "byte list"
  ce_recipient_pqc_public_key :: "byte list"
  ce_sender_signing_private_key :: SigningPrivateKey
  ce_plaintext_payload :: "byte list"
  ce_expires_at :: "Timestamp option"

record OpenEnvelopeParams =
  oe_recipient_classical_private_key :: "byte list"
  oe_recipient_classical_public_key :: "byte list"
  oe_recipient_pqc_private_key :: "byte list"
  oe_sender_signing_public_key :: TrustedSender

subsection \<open>The transcript\<close>

text \<open>\<open>timestamp as i64\<close> keeps the bits, so its bytes are those of the \<open>u64\<close>.\<close>

definition transcript_input :: "TranscriptParams \<Rightarrow> byte list" where
  "transcript_input p =
     TRANSFER_TRANSCRIPT_DOMAIN @ u16_le (profile_to_u16 (tp_transfer_profile p)) @
     tp_sender_device_id p @ tp_sender_ephemeral p @
     (case tp_recipient_device_id p of
        Some recipient_device_id \<Rightarrow> recipient_device_id
      | None \<Rightarrow> (case tp_anonymous_recipient p of Some k \<Rightarrow> k | None \<Rightarrow> [])) @
     u32_le (u32_len_or_max (length (tp_pqc_ciphertext p))) @ tp_pqc_ciphertext p @
     u16_le (tp_classical_algorithm_id p) @ u16_le (tp_pqc_algorithm_id p) @ tp_envelope_id p @
     u64_le (case tp_expires_at p of Some t \<Rightarrow> t | None \<Rightarrow> 0)"

definition compute_transcript_hash :: "prims \<Rightarrow> TranscriptParams \<Rightarrow> byte list" where
  "compute_transcript_hash P p = sha256_digest P (transcript_input p)"

definition envelope_transcript :: "TransferEnvelope \<Rightarrow> byte list option \<Rightarrow> TranscriptParams" where
  "envelope_transcript e anonymous = \<lparr>
     tp_transfer_profile = te_transfer_profile e,
     tp_sender_device_id = te_sender_device_id e,
     tp_sender_ephemeral = te_classical_ephemeral_public_key e,
     tp_recipient_device_id = te_recipient_device_id e,
     tp_anonymous_recipient = anonymous,
     tp_pqc_ciphertext = te_pqc_ciphertext e,
     tp_classical_algorithm_id = CLASSICAL_ALG_ID_X25519,
     tp_pqc_algorithm_id = PQC_ALG_ID_MLKEM768,
     tp_envelope_id = te_envelope_id e,
     tp_expires_at = te_expires_at e\<rparr>"

definition expired_at :: "Timestamp \<Rightarrow> Timestamp option \<Rightarrow> bool" where
  "expired_at now expires_at = (case expires_at of None \<Rightarrow> False | Some expires \<Rightarrow> expires \<le> now)"

definition validate_envelope ::
    "prims \<Rightarrow> Timestamp \<Rightarrow> TransferEnvelope \<Rightarrow> byte list option \<Rightarrow> (TransferError, unit) rs" where
  "validate_envelope P now e anonymous =
     (if te_version e \<noteq> 1 then err UnknownProfile
      else if profile_to_u16 (te_transfer_profile e) \<noteq> TRANSFER_PROFILE_V1_ID then err UnknownProfile
      else if expired_at now (te_expires_at e) then err ExpiredEnvelope
      else if compute_transcript_hash P (envelope_transcript e anonymous) \<noteq> te_transcript_hash e
      then err TranscriptMismatch
      else ok ())"

subsection \<open>The signed payload\<close>

definition encode_signed_payload :: "Signature \<Rightarrow> byte list \<Rightarrow> (TransferError, byte list) rs" where
  "encode_signed_payload signature plaintext_payload =
     and_then (to_u32 (length (sg_bytes signature)) SigningFailed) (\<lambda>signature_len.
     ok (alg_to_le_bytes (sg_algorithm signature) @ u32_le signature_len @ sg_bytes signature @
         plaintext_payload))"

definition decode_signed_payload :: "byte list \<Rightarrow> (TransferError, Signature \<times> byte list) rs" where
  "decode_signed_payload bytes =
     and_then (ok_or (get_range bytes 0 6) VerificationFailed) (\<lambda>header.
     and_then (ok_or (get_range header 0 2) VerificationFailed) (\<lambda>alg_bytes.
     and_then (map_err (alg_from_le_bytes alg_bytes) VerificationFailed) (\<lambda>algorithm.
     and_then (ok_or (get_range header 2 6) VerificationFailed) (\<lambda>len_bytes.
     let signature_len = unat (u32_from_le len_bytes) in
     and_then (ok_or (checked_add 6 signature_len) VerificationFailed) (\<lambda>signature_end.
     and_then (ok_or (get_range bytes 6 signature_end) VerificationFailed) (\<lambda>signature_bytes.
     and_then (ok_or (get_from bytes signature_end) VerificationFailed) (\<lambda>payload.
     ok (\<lparr>sg_algorithm = algorithm, sg_bytes = signature_bytes\<rparr>, payload))))))))"

subsection \<open>Creation and opening\<close>

definition envelope_now :: "(TransferError, Timestamp) act" where
  "envelope_now = (\<lambda>w. (ok (unix_time_millis_at (clock_ms w)), w))"

definition create_envelope ::
    "prims \<Rightarrow> pqc_prims \<Rightarrow> CreateEnvelopeParams \<Rightarrow> (TransferError, TransferEnvelope) act" where
  "create_envelope P Q params =
     bind_act (case ce_expires_at params of None \<Rightarrow> ret ()
       | Some expires \<Rightarrow> bind_act envelope_now (\<lambda>now.
           if expires \<le> now then fail ExpiredEnvelope else ret ())) (\<lambda>_.
     if ce_recipient_device_id params = None \<and> ce_anonymous_recipient_public_key params = None
     then fail MissingAnonymousRecipientPublicKey
     else
     bind_act (random_bytes 16) (\<lambda>id_bytes.
     bind_act (lift_rs (if length id_bytes = 16 then ok id_bytes else err InvalidEnvelopeId)) (\<lambda>envelope_id.
     bind_act (x25519_keypair Q) (\<lambda>(ephemeral_private, ephemeral_public).
     bind_act (map_err_act (encapsulate Q (ce_recipient_pqc_public_key params)) KeyDerivationFailed)
       (\<lambda>(pqc_ciphertext, pqc_shared_secret).
     let transcript_hash = compute_transcript_hash P \<lparr>
           tp_transfer_profile = profile_v1,
           tp_sender_device_id = ce_sender_device_id params,
           tp_sender_ephemeral = ephemeral_public,
           tp_recipient_device_id = ce_recipient_device_id params,
           tp_anonymous_recipient = ce_anonymous_recipient_public_key params,
           tp_pqc_ciphertext = pqc_ciphertext,
           tp_classical_algorithm_id = CLASSICAL_ALG_ID_X25519,
           tp_pqc_algorithm_id = PQC_ALG_ID_MLKEM768,
           tp_envelope_id = envelope_id,
           tp_expires_at = ce_expires_at params\<rparr> in
     bind_act (lift_rs (map_err (derive_transfer_key P Q ephemeral_private ephemeral_public
         (ce_recipient_classical_public_key params) pqc_ciphertext pqc_shared_secret transcript_hash)
         KeyDerivationFailed)) (\<lambda>transfer_key.
     bind_act (lift_rs (map_err (sign_with_domain Q (ce_sender_signing_private_key params)
         TRANSFER_ENVELOPE_SIGNING_DOMAIN transcript_hash) SigningFailed)) (\<lambda>signature.
     bind_act (lift_rs (encode_signed_payload signature (ce_plaintext_payload params))) (\<lambda>sealed_payload.
     bind_act (map_err_act (encrypt P transfer_key sealed_payload transcript_hash) EncryptionFailed)
       (\<lambda>(ciphertext, nonce).
     ret \<lparr>te_version = 1, te_transfer_profile = profile_v1, te_envelope_id = envelope_id,
          te_sender_device_id = ce_sender_device_id params,
          te_recipient_device_id = ce_recipient_device_id params,
          te_classical_ephemeral_public_key = ephemeral_public,
          te_pqc_ciphertext = pqc_ciphertext, te_transcript_hash = transcript_hash,
          te_encrypted_payload = ciphertext, te_nonce = nonce,
          te_expires_at = ce_expires_at params\<rparr>)))))))))"

definition open_before_insert ::
    "prims \<Rightarrow> pqc_prims \<Rightarrow> Timestamp \<Rightarrow> TransferEnvelope \<Rightarrow> OpenEnvelopeParams \<Rightarrow>
     (TransferError, byte list) rs" where
  "open_before_insert P Q now e params =
     (let anonymous = (if te_recipient_device_id e = None
                       then Some (oe_recipient_classical_public_key params) else None) in
     and_then (validate_envelope P now e anonymous) (\<lambda>_.
     and_then (map_err (receive_transfer_key P Q (oe_recipient_classical_private_key params)
         (oe_recipient_classical_public_key params) (te_classical_ephemeral_public_key e)
         (te_pqc_ciphertext e) (oe_recipient_pqc_private_key params) (te_transcript_hash e))
         KeyDerivationFailed) (\<lambda>transfer_key.
     and_then (map_err (decrypt P transfer_key (te_nonce e) (te_encrypted_payload e) (te_transcript_hash e))
         DecryptionFailed) (\<lambda>plaintext.
     and_then (decode_signed_payload plaintext) (\<lambda>(signature, payload).
     and_then (map_err (verify_with_domain Q (signing_public_key (oe_sender_signing_public_key params))
         TRANSFER_ENVELOPE_SIGNING_DOMAIN (te_transcript_hash e) signature) VerificationFailed) (\<lambda>_.
     ok payload))))))"

definition open_envelope ::
    "prims \<Rightarrow> pqc_prims \<Rightarrow> Timestamp \<Rightarrow> Timestamp \<Rightarrow> Timestamp \<Rightarrow> TransferEnvelope \<Rightarrow>
     OpenEnvelopeParams \<Rightarrow> SeenEnvelopeIds \<Rightarrow> (TransferError, byte list) rs \<times> SeenEnvelopeIds" where
  "open_envelope P Q now n1 n2 e params seen =
     (case open_before_insert P Q now e params of
        Inl f \<Rightarrow> (Inl f, seen)
      | Inr payload \<Rightarrow>
         (case check_and_insert n1 n2 seen (te_envelope_id e) (te_expires_at e) of
            (Inl f, seen) \<Rightarrow> (Inl f, seen)
          | (Inr _, seen) \<Rightarrow> (ok payload, seen)))"

text \<open>keys/device.rs: the wrappers that take a device's key pair.\<close>

definition create_signed_transfer_envelope ::
    "prims \<Rightarrow> pqc_prims \<Rightarrow> byte list \<Rightarrow> DeviceKeypair \<Rightarrow> byte list option \<Rightarrow> byte list \<Rightarrow> byte list \<Rightarrow>
     byte list \<Rightarrow> Timestamp option \<Rightarrow> (TransferError, TransferEnvelope) act" where
  "create_signed_transfer_envelope P Q sender_device_id sender_keypair recipient_device_id
       recipient_classical_public_key recipient_pqc_public_key plaintext expires_at =
     create_envelope P Q \<lparr>
       ce_sender_device_id = sender_device_id,
       ce_recipient_device_id = recipient_device_id,
       ce_anonymous_recipient_public_key =
         (if recipient_device_id = None then Some recipient_classical_public_key else None),
       ce_recipient_classical_public_key = recipient_classical_public_key,
       ce_recipient_pqc_public_key = recipient_pqc_public_key,
       ce_sender_signing_private_key =
         \<lparr>ssk_algorithm = ssk_algorithm (dk_signing_private_key sender_keypair),
          ssk_bytes = ssk_bytes (dk_signing_private_key sender_keypair)\<rparr>,
       ce_plaintext_payload = plaintext,
       ce_expires_at = expires_at\<rparr>"

definition open_received_transfer_envelope ::
    "prims \<Rightarrow> pqc_prims \<Rightarrow> Timestamp \<Rightarrow> Timestamp \<Rightarrow> Timestamp \<Rightarrow> TransferEnvelope \<Rightarrow> DeviceKeypair \<Rightarrow>
     byte list \<Rightarrow> TrustedSender \<Rightarrow> SeenEnvelopeIds \<Rightarrow> (TransferError, byte list) rs \<times> SeenEnvelopeIds" where
  "open_received_transfer_envelope P Q now n1 n2 e recipient_keypair recipient_classical_public_key
       sender seen =
     open_envelope P Q now n1 n2 e \<lparr>
       oe_recipient_classical_private_key = dk_classical_private_key recipient_keypair,
       oe_recipient_classical_public_key = recipient_classical_public_key,
       oe_recipient_pqc_private_key = dk_pqc_private_key recipient_keypair,
       oe_sender_signing_public_key = sender\<rparr> seen"

subsection \<open>The wire format\<close>

definition envelope_to_bytes :: "TransferEnvelope \<Rightarrow> byte list" where
  "envelope_to_bytes e =
     TRANSFER_ENVELOPE_MAGIC @ u16_le (te_version e) @ u16_le (profile_to_u16 (te_transfer_profile e)) @
     te_envelope_id e @ te_sender_device_id e @
     (case te_recipient_device_id e of Some recipient_device_id \<Rightarrow> [1] @ recipient_device_id | None \<Rightarrow> [0]) @
     te_classical_ephemeral_public_key e @
     u32_le (u32_len_or_max (length (te_pqc_ciphertext e))) @ te_pqc_ciphertext e @
     te_transcript_hash e @ te_nonce e @
     (case te_expires_at e of Some t \<Rightarrow> [1] @ u64_le t | None \<Rightarrow> [0]) @
     u32_le (u32_len_or_max (length (te_encrypted_payload e))) @ te_encrypted_payload e"

definition take_recipient :: "byte list \<Rightarrow> nat \<Rightarrow> (TransferError, byte list option \<times> nat) rs" where
  "take_recipient bytes c =
     and_then (bp_take_u8 UnknownProfile bytes c) (\<lambda>(tag, c).
     if tag = 0 then ok (None, c)
     else if tag = 1 then and_then (bp_take_array UnknownProfile 16 bytes c) (\<lambda>(i, c). ok (Some i, c))
     else err UnknownProfile)"

definition take_expiry :: "byte list \<Rightarrow> nat \<Rightarrow> (TransferError, Timestamp option \<times> nat) rs" where
  "take_expiry bytes c =
     and_then (bp_take_u8 UnknownProfile bytes c) (\<lambda>(tag, c).
     if tag = 0 then ok (None, c)
     else if tag = 1 then and_then (bp_take_u64_le UnknownProfile bytes c) (\<lambda>(t, c). ok (Some t, c))
     else err UnknownProfile)"

definition parse_envelope_bytes :: "byte list \<Rightarrow> (TransferError, TransferEnvelope) rs" where
  "parse_envelope_bytes bytes =
     and_then (bp_take UnknownProfile bytes 0 (length TRANSFER_ENVELOPE_MAGIC)) (\<lambda>(magic, c).
     if magic \<noteq> TRANSFER_ENVELOPE_MAGIC then err UnknownProfile
     else
     and_then (bp_take_u16_le UnknownProfile bytes c) (\<lambda>(version, c).
     if version \<noteq> 1 then err UnknownProfile
     else
     and_then (bp_take_u16_le UnknownProfile bytes c) (\<lambda>(profile_raw, c).
     and_then (profile_from_u16 profile_raw) (\<lambda>transfer_profile.
     and_then (bp_take_array UnknownProfile 16 bytes c) (\<lambda>(envelope_id, c).
     and_then (bp_take_array UnknownProfile 16 bytes c) (\<lambda>(sender_device_id, c).
     and_then (take_recipient bytes c) (\<lambda>(recipient_device_id, c).
     and_then (bp_take_array UnknownProfile 32 bytes c) (\<lambda>(classical_ephemeral_public_key, c).
     and_then (bp_take_u32_le UnknownProfile bytes c) (\<lambda>(len_raw, c).
     let pqc_ct_len = unat len_raw in
     if pqc_ct_len \<noteq> 1088 then err UnknownProfile
     else
     and_then (bp_take UnknownProfile bytes c pqc_ct_len) (\<lambda>(pqc_ciphertext, c).
     and_then (bp_take_array UnknownProfile 32 bytes c) (\<lambda>(transcript_hash, c).
     and_then (bp_take_array UnknownProfile 24 bytes c) (\<lambda>(nonce, c).
     and_then (take_expiry bytes c) (\<lambda>(expires_at, c).
     and_then (bp_take_u32_le UnknownProfile bytes c) (\<lambda>(payload_len_raw, c).
     let payload_len = unat payload_len_raw in
     if payload_len = 0 then err UnknownProfile
     else
     and_then (bp_take UnknownProfile bytes c payload_len) (\<lambda>(encrypted_payload, c).
     if c \<noteq> length bytes then err UnknownProfile
     else ok \<lparr>te_version = version, te_transfer_profile = transfer_profile,
              te_envelope_id = envelope_id, te_sender_device_id = sender_device_id,
              te_recipient_device_id = recipient_device_id,
              te_classical_ephemeral_public_key = classical_ephemeral_public_key,
              te_pqc_ciphertext = pqc_ciphertext, te_transcript_hash = transcript_hash,
              te_encrypted_payload = encrypted_payload, te_nonce = nonce,
              te_expires_at = expires_at\<rparr>)))))))))))))))"

definition validate_for_open ::
    "prims \<Rightarrow> Timestamp \<Rightarrow> byte list \<Rightarrow> (TransferError, TransferEnvelope) rs" where
  "validate_for_open P now bytes =
     and_then (parse_envelope_bytes bytes) (\<lambda>e.
     and_then (if te_recipient_device_id e \<noteq> None then validate_envelope P now e None
       else if expired_at now (te_expires_at e) then err ExpiredEnvelope
       else ok ()) (\<lambda>_.
     ok e))"

definition envelope_from_bytes ::
    "prims \<Rightarrow> Timestamp \<Rightarrow> byte list \<Rightarrow> (TransferError, TransferEnvelope) rs" where
  "envelope_from_bytes P now bytes = validate_for_open P now bytes"

end
