(* ===== verification/Envelope_Laws.thy ===== *)
theory Envelope_Laws
  imports Transfer_Envelope
begin

text \<open>
  The transfer envelope of the theory Transfer_Envelope: its transcript binds every public field, its wire
  format is canonical, what is created opens, and what opens is authentic and opens once.
\<close>

subsection \<open>The transcript\<close>

definition envelope_sized :: "TransferEnvelope \<Rightarrow> bool" where
  "envelope_sized e \<longleftrightarrow> length (te_sender_device_id e) = 16 \<and> length (te_classical_ephemeral_public_key e) = 32 \<and>
     (\<forall>i. te_recipient_device_id e = Some i \<longrightarrow> length i = 16) \<and> length (te_pqc_ciphertext e) = 1088 \<and>
     length (te_envelope_id e) = 16"

definition anonymous_sized :: "byte list option \<Rightarrow> bool" where
  "anonymous_sized a \<longleftrightarrow> (\<forall>k. a = Some k \<longrightarrow> length k = 32)"

definition expiry_value :: "Timestamp option \<Rightarrow> Timestamp" where
  "expiry_value t = (case t of Some t \<Rightarrow> t | None \<Rightarrow> 0)"

definition transcript_binding :: "byte list option \<Rightarrow> byte list option \<Rightarrow> byte list" where
  "transcript_binding r a = (case r of Some i \<Rightarrow> i | None \<Rightarrow> (case a of Some k \<Rightarrow> k | None \<Rightarrow> []))"

lemma transcript_binding_eq:
  assumes "\<And>i. r1 = Some i \<Longrightarrow> length i = 16" "\<And>i. r2 = Some i \<Longrightarrow> length i = 16" "anonymous_sized a1" "anonymous_sized a2"
  shows "transcript_binding r1 a1 = transcript_binding r2 a2 \<longleftrightarrow> r1 = r2 \<and> (r1 = None \<longrightarrow> a1 = a2)"
  using assms
  by (auto simp: transcript_binding_def anonymous_sized_def split: option.splits)

lemma envelope_transcript_input:
  "transcript_input (envelope_transcript e a) =
    TRANSFER_TRANSCRIPT_DOMAIN @ u16_le (profile_to_u16 (te_transfer_profile e)) @ te_sender_device_id e @
    te_classical_ephemeral_public_key e @ transcript_binding (te_recipient_device_id e) a @
    u32_le (u32_len_or_max (length (te_pqc_ciphertext e))) @ te_pqc_ciphertext e @ u16_le 1 @ u16_le 1 @
    te_envelope_id e @ u64_le (expiry_value (te_expires_at e))"
  by (auto simp: transcript_input_def envelope_transcript_def transcript_binding_def expiry_value_def split: option.split)

lemma profile_eq: "profile_to_u16 p = profile_to_u16 q \<longleftrightarrow> p = q"
  by (cases p; cases q) simp

lemma transcript_input_eq:
  assumes "envelope_sized e1" "envelope_sized e2" "anonymous_sized a1" "anonymous_sized a2"
  shows "transcript_input (envelope_transcript e1 a1) = transcript_input (envelope_transcript e2 a2) \<longleftrightarrow>
    te_transfer_profile e1 = te_transfer_profile e2 \<and> te_sender_device_id e1 = te_sender_device_id e2 \<and>
    te_classical_ephemeral_public_key e1 = te_classical_ephemeral_public_key e2 \<and>
    te_recipient_device_id e1 = te_recipient_device_id e2 \<and> (te_recipient_device_id e1 = None \<longrightarrow> a1 = a2) \<and>
    te_pqc_ciphertext e1 = te_pqc_ciphertext e2 \<and> te_envelope_id e1 = te_envelope_id e2 \<and>
    expiry_value (te_expires_at e1) = expiry_value (te_expires_at e2)" (is "?t1 = ?t2 \<longleftrightarrow> ?r")
proof -
  let ?b1 = "transcript_binding (te_recipient_device_id e1) a1"
  let ?b2 = "transcript_binding (te_recipient_device_id e2) a2"
  have len: "length ?t1 = length ?t2 \<longleftrightarrow> length ?b1 = length ?b2"
    using assms(1,2) by (simp add: envelope_transcript_input envelope_sized_def)
  have "?t1 = ?t2 \<longleftrightarrow> length ?b1 = length ?b2 \<and> ?t1 = ?t2" using len by auto
  also have "\<dots> \<longleftrightarrow> length ?b1 = length ?b2 \<and> profile_to_u16 (te_transfer_profile e1) = profile_to_u16 (te_transfer_profile e2) \<and>
      te_sender_device_id e1 = te_sender_device_id e2 \<and>
      te_classical_ephemeral_public_key e1 = te_classical_ephemeral_public_key e2 \<and> ?b1 = ?b2 \<and>
      te_pqc_ciphertext e1 = te_pqc_ciphertext e2 \<and> te_envelope_id e1 = te_envelope_id e2 \<and>
      expiry_value (te_expires_at e1) = expiry_value (te_expires_at e2)"
    using assms(1,2) unfolding envelope_transcript_input envelope_sized_def
    by (auto simp: append_eq_append_conv)
  also have "\<dots> \<longleftrightarrow> ?r"
    using assms transcript_binding_eq [of "te_recipient_device_id e1" "te_recipient_device_id e2" a1 a2]
    by (auto simp: envelope_sized_def profile_eq)
  finally show ?thesis .
qed

lemma validate_Inr:
  "validate_envelope P now e a = Inr u \<longleftrightarrow> te_version e = 1 \<and> te_transfer_profile e = profile_v1 \<and>
    \<not> expired_at now (te_expires_at e) \<and> te_transcript_hash e = compute_transcript_hash P (envelope_transcript e a)"
  by (cases "te_transfer_profile e") (auto simp: validate_envelope_def profile_v1_def)

lemma not_expired_value:
  "\<not> expired_at n1 t1 \<Longrightarrow> \<not> expired_at n2 t2 \<Longrightarrow> expiry_value t1 = expiry_value t2 \<longleftrightarrow> t1 = t2"
  by (auto simp: expired_at_def expiry_value_def split: option.splits)

subsection \<open>The signed payload\<close>

definition signed_payload :: "Signature \<Rightarrow> byte list \<Rightarrow> byte list" where
  "signed_payload s p = alg_to_le_bytes (sg_algorithm s) @ u32_le (of_nat (length (sg_bytes s))) @ sg_bytes s @ p"

lemma encode_Inr: "encode_signed_payload s p = Inr bs \<longleftrightarrow> length (sg_bytes s) \<le> u32_max \<and> bs = signed_payload s p"
  by (auto simp: encode_signed_payload_def signed_payload_def)

lemma decode_split:
  assumes l: "length ab = 2" "length nb = 4" and b: "length rest + 6 \<le> usize_max"
  shows "decode_signed_payload (ab @ nb @ rest) = Inr (s, p) \<longleftrightarrow>
    ab = alg_to_le_bytes (sg_algorithm s) \<and> unat (u32_from_le nb) = length (sg_bytes s) \<and> rest = sg_bytes s @ p"
proof -
  let ?n = "unat (u32_from_le nb)"
  have g: "get_range (ab @ nb @ rest) 0 6 = Some (ab @ nb)" "get_range (ab @ nb) 0 2 = Some ab"
    "get_range (ab @ nb) 2 6 = Some nb" "get_range (ab @ nb @ rest) 6 (6 + n) = get_range rest 0 n"
    "get_from (ab @ nb @ rest) (6 + n) = get_from rest n" for n
    using l by (simp_all add: get_range_def get_from_def)
  have c: "get_range rest 0 ?n = Some x \<and> get_from rest ?n = Some p \<longleftrightarrow> rest = x @ p \<and> length x = ?n" for x
    by (auto simp: get_range_def get_from_def split: if_splits)
  have "get_range rest 0 ?n = Some x \<Longrightarrow> 6 + ?n \<le> usize_max" for x
    using b by (auto simp: get_range_def split: if_splits)
  then have "decode_signed_payload (ab @ nb @ rest) = Inr (s, p) \<longleftrightarrow>
      alg_from_le_bytes ab = Inr (sg_algorithm s) \<and> get_range rest 0 ?n = Some (sg_bytes s) \<and> get_from rest ?n = Some p"
    by (cases s) (auto simp: decode_signed_payload_def Let_def g)
  then show ?thesis using c [of "sg_bytes s"] l by (auto simp: alg_from_le_bytes_Inr)
qed

lemma decode_Inr:
  assumes b: "length bs \<le> usize_max"
  shows "decode_signed_payload bs = Inr (s, p) \<longleftrightarrow> length (sg_bytes s) \<le> u32_max \<and> bs = signed_payload s p"
proof (cases "6 \<le> length bs")
  case True
  define ab nb rest where "ab = take 2 bs" and "nb = take 4 (drop 2 bs)" and "rest = drop 6 bs"
  have bs: "bs = ab @ nb @ rest"
    using append_take_drop_id [of 2 bs] append_take_drop_id [of 4 "drop 2 bs"]
    by (simp add: ab_def nb_def rest_def)
  have l: "length ab = 2" "length nb = 4" "length rest + 6 \<le> usize_max"
    using True b by (simp_all add: ab_def nb_def rest_def)
  have "unat (u32_from_le nb) = n \<longleftrightarrow> n \<le> u32_max \<and> nb = u32_le (of_nat n)" for n
    using l(2) unat_u32_bound [of "u32_from_le nb"] by (metis u32_le_from u32_roundtrip unat_of_nat_u32 unat_inj)
  then show ?thesis
    using l(1,2) unfolding bs decode_split [OF l] signed_payload_def
    by (auto simp: append_eq_append_conv)
next
  case False
  then show ?thesis
    by (auto simp: decode_signed_payload_def get_range_def signed_payload_def)
qed

subsection \<open>The wire format\<close>

definition envelope_wf :: "TransferEnvelope \<Rightarrow> bool" where
  "envelope_wf e \<longleftrightarrow> te_version e = 1 \<and> te_transfer_profile e = profile_v1 \<and> envelope_sized e \<and>
     length (te_transcript_hash e) = 32 \<and> length (te_nonce e) = 24 \<and> te_encrypted_payload e \<noteq> [] \<and>
     length (te_encrypted_payload e) \<le> u32_max"

definition recipient_bytes :: "byte list option \<Rightarrow> byte list" where
  "recipient_bytes r = (case r of Some i \<Rightarrow> [1] @ i | None \<Rightarrow> [0])"

definition expiry_bytes :: "Timestamp option \<Rightarrow> byte list" where
  "expiry_bytes t = (case t of Some t \<Rightarrow> [1] @ u64_le t | None \<Rightarrow> [0])"

lemma take_recipient_Inr:
  "take_recipient bs c = Inr (r, c') \<longleftrightarrow> (\<forall>i. r = Some i \<longrightarrow> length i = 16) \<and> holds_at bs c (recipient_bytes r) \<and>
    c' = c + length (recipient_bytes r) \<and> c' \<le> usize_max"
proof (cases r)
  case None
  then show ?thesis
    by (auto simp: take_recipient_def bp_Inr recipient_bytes_def split: if_splits intro: exI [of _ 0])
next
  case (Some i)
  have "length i = 16 \<Longrightarrow> i \<noteq> []" by auto
  then show ?thesis
    by (auto simp: Some take_recipient_def bp_Inr recipient_bytes_def holds_at_byte [of i] split: if_splits)
qed

lemma take_expiry_Inr:
  "take_expiry bs c = Inr (t, c') \<longleftrightarrow> holds_at bs c (expiry_bytes t) \<and>
    c' = c + length (expiry_bytes t) \<and> c' \<le> usize_max"
proof (cases t)
  case None
  then show ?thesis
    by (auto simp: take_expiry_def bp_Inr expiry_bytes_def split: if_splits intro: exI [of _ 0])
next
  case (Some x)
  then show ?thesis
    by (auto simp: take_expiry_def bp_Inr expiry_bytes_def holds_at_byte [of "u64_le x"] split: if_splits)
qed

definition wire_bytes :: "TransferEnvelope \<Rightarrow> byte list" where
  "wire_bytes e = TRANSFER_ENVELOPE_MAGIC @ u16_le (te_version e) @ u16_le (profile_to_u16 (te_transfer_profile e)) @
     te_envelope_id e @ te_sender_device_id e @ recipient_bytes (te_recipient_device_id e) @
     te_classical_ephemeral_public_key e @ u32_le (u32_len_or_max (length (te_pqc_ciphertext e))) @
     te_pqc_ciphertext e @ te_transcript_hash e @ te_nonce e @ expiry_bytes (te_expires_at e) @
     u32_le (u32_len_or_max (length (te_encrypted_payload e))) @ te_encrypted_payload e"

lemma envelope_to_bytes_form: "envelope_to_bytes e = wire_bytes e"
  by (simp add: envelope_to_bytes_def wire_bytes_def recipient_bytes_def expiry_bytes_def)

lemma length_envelope_magic [simp]: "length TRANSFER_ENVELOPE_MAGIC = 6"
  by (simp add: TRANSFER_ENVELOPE_MAGIC_def)

lemma profile_from_Inr: "profile_from_u16 v = Inr p \<longleftrightarrow> v = 1 \<and> p = profile_v1"
  by (auto simp: profile_from_u16_def profile_v1_def)

lemma parse_envelope_sound:
  assumes "parse_envelope_bytes bs = Inr e"
  shows "envelope_wf e \<and> bs = envelope_to_bytes e"
proof -
  obtain i sd r c1 ep m ct th nn t c2 n pl where raw: "holds_at bs 0 TRANSFER_ENVELOPE_MAGIC" "holds_at bs 6 (u16_le 1)"
    "holds_at bs 8 (u16_le 1)" "length i = 16" "holds_at bs 10 i" "length sd = 16" "holds_at bs 26 sd"
    "take_recipient bs 42 = Inr (r, c1)" "length ep = 32" "holds_at bs c1 ep" "unat m = 1088" "holds_at bs (c1 + 32) (u32_le m)"
    "length ct = 1088" "holds_at bs (36 + c1) ct" "length th = 32" "holds_at bs (1124 + c1) th"
    "length nn = 24" "holds_at bs (1156 + c1) nn" "take_expiry bs (1180 + c1) = Inr (t, c2)"
    "holds_at bs c2 (u32_le n)" "0 < unat n" "length pl = unat n" "holds_at bs (c2 + 4) pl" "c2 + 4 + unat n = length bs"
    and e: "\<lparr>te_version = 1, te_transfer_profile = profile_v1, te_envelope_id = i, te_sender_device_id = sd,
       te_recipient_device_id = r, te_classical_ephemeral_public_key = ep, te_pqc_ciphertext = ct,
       te_transcript_hash = th, te_encrypted_payload = pl, te_nonce = nn, te_expires_at = t\<rparr> = e"
    using assms unfolding parse_envelope_bytes_def
    by (simp add: bp_Inr profile_from_Inr Let_def split_def split: if_splits) (elim exE conjE, blast)
  note r = raw(8) [unfolded take_recipient_Inr] and t = raw(19) [unfolded take_expiry_Inr]
  have m: "m = 1088" "of_nat (length pl) = n" "length pl \<le> u32_max"
    using raw(11) unat_u32_bound [of n] unat_inj [of m 1088] by (simp_all add: raw(22))
  have wf: "envelope_wf e"
    unfolding e [symmetric] envelope_wf_def envelope_sized_def
    using raw r m by (auto simp: profile_v1_def)
  have "holds_at bs 0 (wire_bytes e)"
    unfolding e [symmetric] wire_bytes_def holds_at_append
    using raw r t m by (simp add: u32_len_or_max_def u32_max_def profile_v1_def add.commute add.left_commute)
  moreover have "length bs = length (wire_bytes e)"
    unfolding e [symmetric] wire_bytes_def raw(24) [symmetric] using raw r t by simp
  ultimately show ?thesis using wf by (simp add: holds_at_whole envelope_to_bytes_form)
qed

lemma parse_envelope_complete:
  assumes wf: "envelope_wf e"
  shows "parse_envelope_bytes (envelope_to_bytes e) = Inr e"
proof -
  let ?b = "wire_bytes e" and ?p = "te_encrypted_payload e"
  let ?r = "length (recipient_bytes (te_recipient_device_id e))" and ?t = "length (expiry_bytes (te_expires_at e))"
  have w: "te_version e = 1" "te_transfer_profile e = profile_v1" "length (te_envelope_id e) = 16"
    "length (te_sender_device_id e) = 16" "\<And>i. te_recipient_device_id e = Some i \<Longrightarrow> length i = 16"
    "length (te_classical_ephemeral_public_key e) = 32" "length (te_pqc_ciphertext e) = 1088"
    "length (te_transcript_hash e) = 32" "length (te_nonce e) = 24" "?p \<noteq> []" "length ?p \<le> u32_max"
    using wf unfolding envelope_wf_def envelope_sized_def by simp_all
  have rt: "?r \<le> 17" "?t \<le> 9"
    using w(5) by (auto simp: recipient_bytes_def expiry_bytes_def split: option.splits)
  have len: "length ?b = 1226 + ?r + ?t + length ?p" using w by (simp add: wire_bytes_def)
  have b: "length ?b \<le> usize_max" using w(11) rt by (simp add: len u32_max_def usize_max_def)
  have f: "holds_at ?b 0 TRANSFER_ENVELOPE_MAGIC" "holds_at ?b 6 (u16_le 1)" "holds_at ?b 8 (u16_le 1)"
    "holds_at ?b 10 (te_envelope_id e)" "holds_at ?b 26 (te_sender_device_id e)"
    "holds_at ?b 42 (recipient_bytes (te_recipient_device_id e))"
    "holds_at ?b (42 + ?r) (te_classical_ephemeral_public_key e)" "holds_at ?b (74 + ?r) (u32_le 1088)"
    "holds_at ?b (78 + ?r) (te_pqc_ciphertext e)" "holds_at ?b (1166 + ?r) (te_transcript_hash e)"
    "holds_at ?b (1198 + ?r) (te_nonce e)" "holds_at ?b (1222 + ?r) (expiry_bytes (te_expires_at e))"
    "holds_at ?b (1222 + ?r + ?t) (u32_le (of_nat (length ?p)))" "holds_at ?b (1226 + ?r + ?t) ?p"
    using holds_at_self [of ?b] unfolding wire_bytes_def [of e] holds_at_append
    using w by (simp_all add: ac_simps u32_len_or_max_def u32_max_def profile_v1_def)
  have r: "bp_take UnknownProfile ?b 0 6 = Inr (TRANSFER_ENVELOPE_MAGIC, 6)"
    "bp_take_u16_le UnknownProfile ?b 6 = Inr (1, 8)" "bp_take_u16_le UnknownProfile ?b 8 = Inr (1, 10)"
    "bp_take_array UnknownProfile 16 ?b 10 = Inr (te_envelope_id e, 26)"
    "bp_take_array UnknownProfile 16 ?b 26 = Inr (te_sender_device_id e, 42)"
    "take_recipient ?b 42 = Inr (te_recipient_device_id e, 42 + ?r)"
    "bp_take_array UnknownProfile 32 ?b (42 + ?r) = Inr (te_classical_ephemeral_public_key e, 74 + ?r)"
    "bp_take_u32_le UnknownProfile ?b (74 + ?r) = Inr (1088, 78 + ?r)"
    "bp_take UnknownProfile ?b (78 + ?r) 1088 = Inr (te_pqc_ciphertext e, 1166 + ?r)"
    "bp_take_array UnknownProfile 32 ?b (1166 + ?r) = Inr (te_transcript_hash e, 1198 + ?r)"
    "bp_take_array UnknownProfile 24 ?b (1198 + ?r) = Inr (te_nonce e, 1222 + ?r)"
    "take_expiry ?b (1222 + ?r) = Inr (te_expires_at e, 1222 + ?r + ?t)"
    "bp_take_u32_le UnknownProfile ?b (1222 + ?r + ?t) = Inr (of_nat (length ?p), 1226 + ?r + ?t)"
    "bp_take UnknownProfile ?b (1226 + ?r + ?t) (length ?p) = Inr (?p, 1226 + ?r + ?t + length ?p)"
    using f w b len by (simp_all add: bp_Inr take_recipient_Inr take_expiry_Inr)
  have p: "profile_from_u16 1 = Inr profile_v1" by (simp add: profile_from_Inr)
  have rec: "\<lparr>te_version = 1, te_transfer_profile = profile_v1, te_envelope_id = te_envelope_id e,
      te_sender_device_id = te_sender_device_id e, te_recipient_device_id = te_recipient_device_id e,
      te_classical_ephemeral_public_key = te_classical_ephemeral_public_key e,
      te_pqc_ciphertext = te_pqc_ciphertext e, te_transcript_hash = te_transcript_hash e,
      te_encrypted_payload = ?p, te_nonce = te_nonce e, te_expires_at = te_expires_at e\<rparr> = e"
    using w(1,2) by simp
  show ?thesis
    unfolding parse_envelope_bytes_def envelope_to_bytes_form
    using w(10,11) by (simp add: r p len Let_def rec)
qed

interpretation envelope_fmt: canonical_codec "\<lambda>e. ok (envelope_to_bytes e)" parse_envelope_bytes envelope_wf
proof
  fix e bs assume "envelope_wf e" "ok (envelope_to_bytes e) = Inr bs"
  then show "parse_envelope_bytes bs = Inr e" using parse_envelope_complete [of e] by auto
next
  fix bs e assume "parse_envelope_bytes bs = Inr e"
  then show "envelope_wf e \<and> ok (envelope_to_bytes e) = Inr bs" using parse_envelope_sound [of bs e] by auto
qed

end
