(* ===== verification/Envelope_Security.thy ===== *)
theory Envelope_Security
  imports Envelope_Laws
begin

text \<open>
  What creating, sending and opening an envelope (theory Transfer_Envelope) achieves end to end,
  and the life of a receiver that opens envelopes against its replay store.
\<close>

subsection \<open>Creating\<close>

definition sha_sized :: "prims \<Rightarrow> bool" where
  "sha_sized P \<longleftrightarrow> (\<forall>x. length (sha256_digest P x) = 32)"

text \<open>The ephemeral private key that \<open>create_envelope\<close> draws after the envelope id.\<close>

definition ephemeral_of :: "world \<Rightarrow> byte list" where
  "ephemeral_of w = next_random (w\<lparr>drawn := drawn w + 16\<rparr>) 32"

definition exchange_usable :: "pqc_prims \<Rightarrow> byte list \<Rightarrow> byte list \<Rightarrow> bool" where
  "exchange_usable Q eph rpk \<longleftrightarrow> \<not> list_all (\<lambda>b. b = 0xff) rpk \<and>
     \<not> list_all (\<lambda>b. b = 0xff) (x25519_public Q eph) \<and> x25519_contributory Q (x25519_dh Q eph rpk)"

definition create_params_ok :: "CreateEnvelopeParams \<Rightarrow> bool" where
  "create_params_ok c \<longleftrightarrow> length (ce_sender_device_id c) = 16 \<and>
     (\<forall>i. ce_recipient_device_id c = Some i \<longrightarrow> length i = 16) \<and>
     (ce_recipient_device_id c = None \<longrightarrow>
        ce_anonymous_recipient_public_key c = Some (ce_recipient_classical_public_key c)) \<and>
     length (ce_plaintext_payload c) \<le> 2147483000"

lemma derive_transfer_ok:
  assumes "kdf_total P" "exchange_usable Q eph rpk"
  shows "\<exists>k. derive_transfer_key P Q eph ep rpk ct ss th = Inr k \<and> length k = 32"
  using assms kdf_expandD [OF assms(1) kdf_extractD [OF assms(1)]]
  by (fastforce simp: derive_transfer_key_def x25519_shared_secret_def exchange_usable_def
      derive_transfer_key_from_shared_parts_def Let_def)

lemma length_ephemeral [simp]: "length (ephemeral_of w) = 32"
  by (simp add: ephemeral_of_def)

lemma expiry_guard:
  "\<not> expired_at (unix_time_millis_at (clock_ms w)) t \<Longrightarrow>
    bind_act (case t of None \<Rightarrow> ret ()
      | Some expires \<Rightarrow> bind_act envelope_now (\<lambda>now. if expires \<le> now then fail ExpiredEnvelope else ret ())) f w = f () w"
  by (auto simp: expired_at_def envelope_now_def bind_act_def split: option.splits)

lemma expiry_guard_fails:
  "expired_at (unix_time_millis_at (clock_ms w)) t \<Longrightarrow>
    bind_act (case t of None \<Rightarrow> ret ()
      | Some expires \<Rightarrow> bind_act envelope_now (\<lambda>now. if expires \<le> now then fail ExpiredEnvelope else ret ())) f w =
    (err ExpiredEnvelope, w)"
  by (auto simp: expired_at_def envelope_now_def bind_act_def split: option.splits)

text \<open>What \<open>create_envelope\<close> put into an envelope.\<close>

definition sealed_for ::
    "prims \<Rightarrow> pqc_prims \<Rightarrow> CreateEnvelopeParams \<Rightarrow> byte list \<Rightarrow> byte list \<Rightarrow> TransferEnvelope \<Rightarrow> bool" where
  "sealed_for P Q c psk eph e \<longleftrightarrow>
     te_version e = 1 \<and> te_transfer_profile e = profile_v1 \<and> length (te_envelope_id e) = 16 \<and>
     te_sender_device_id e = ce_sender_device_id c \<and> te_recipient_device_id e = ce_recipient_device_id c \<and>
     te_classical_ephemeral_public_key e = x25519_public Q eph \<and> te_expires_at e = ce_expires_at c \<and>
     te_transcript_hash e = compute_transcript_hash P (envelope_transcript e (ce_anonymous_recipient_public_key c)) \<and>
     length (te_nonce e) = 24 \<and> length (te_pqc_ciphertext e) = 1088 \<and>
     (\<exists>ss k s. decapsulate Q psk (te_pqc_ciphertext e) = Inr ss \<and>
        derive_transfer_key P Q eph (x25519_public Q eph) (ce_recipient_classical_public_key c)
          (te_pqc_ciphertext e) ss (te_transcript_hash e) = Inr k \<and> length k = 32 \<and>
        sign_with_domain Q (ce_sender_signing_private_key c) TRANSFER_ENVELOPE_SIGNING_DOMAIN
          (te_transcript_hash e) = Inr s \<and> length (sg_bytes s) = 64 \<and>
        xchacha_seal P k (te_nonce e) (te_transcript_hash e) (signed_payload s (ce_plaintext_payload c)) =
          Some (te_encrypted_payload e))"

lemma create_envelope_run:
  assumes P: "aead_total P" "kdf_total P" "sig_correct Q" "kem_correct Q"
    and c: "create_params_ok c" "\<not> expired_at (unix_time_millis_at (clock_ms w)) (ce_expires_at c)"
    and keys: "mlkem_pair Q (ce_recipient_pqc_public_key c) psk" "ed25519_pair Q spk (ce_sender_signing_private_key c)"
    and ex: "exchange_usable Q (ephemeral_of w) (ce_recipient_classical_public_key c)"
  shows "\<exists>e w'. create_envelope P Q c w = (Inr e, w') \<and> sealed_for P Q c psk (ephemeral_of w) e"
proof -
  define w1 where "w1 = w\<lparr>drawn := drawn w + 16\<rparr>"
  define w2 where "w2 = w1\<lparr>drawn := drawn w1 + 32\<rparr>"
  define w3 where "w3 = w2\<lparr>drawn := drawn w2 + 32\<rparr>"
  let ?ep = "x25519_public Q (ephemeral_of w)"
  obtain ct ss where kem: "encapsulate Q (ce_recipient_pqc_public_key c) w2 = (Inr (ct, ss), w3)" "length ct = 1088"
    "decapsulate Q psk ct = Inr ss"
    using encapsulate_pair [OF P(4) keys(1), of w2] unfolding w3_def by blast
  define th where "th = compute_transcript_hash P \<lparr>tp_transfer_profile = profile_v1,
       tp_sender_device_id = ce_sender_device_id c, tp_sender_ephemeral = ?ep,
       tp_recipient_device_id = ce_recipient_device_id c,
       tp_anonymous_recipient = ce_anonymous_recipient_public_key c, tp_pqc_ciphertext = ct,
       tp_classical_algorithm_id = CLASSICAL_ALG_ID_X25519, tp_pqc_algorithm_id = PQC_ALG_ID_MLKEM768,
       tp_envelope_id = next_random w 16, tp_expires_at = ce_expires_at c\<rparr>"
  obtain k where k: "derive_transfer_key P Q (ephemeral_of w) ?ep (ce_recipient_classical_public_key c) ct ss th = Inr k"
    "length k = 32"
    using derive_transfer_ok [OF P(2) ex] by blast
  obtain s where s: "sign_with_domain Q (ce_sender_signing_private_key c) TRANSFER_ENVELOPE_SIGNING_DOMAIN th = Inr s"
    "length (sg_bytes s) = 64"
    using sig_correctD [OF P(3)] keys(2) by (auto simp: sign_with_domain_def sign_ok [OF keys(2)] ed25519_pair_def)
  let ?m = "signed_payload s (ce_plaintext_payload c)"
  obtain ctx where seal: "xchacha_seal P k (next_random w3 24) th ?m = Some ctx"
    using aead_totalD [OF P(1) k(2), of "next_random w3 24" ?m th] s(2) c(1)
    by (auto simp: signed_payload_def create_params_ok_def)
  have steps: "random_bytes 16 w = (Inr (next_random w 16), w1)" "x25519_keypair Q w1 = (Inr (ephemeral_of w, ?ep), w2)"
    "encode_signed_payload s (ce_plaintext_payload c) = Inr ?m"
    "encrypt P k ?m th w3 = (Inr (ctx, next_random w3 24), w3\<lparr>drawn := drawn w3 + 24\<rparr>)"
    using s(2) seal by (simp_all add: x25519_keypair_def random_key_def bind_act_def random_bytes_def
        w1_def w2_def ephemeral_of_def encode_Inr encrypt_Inr u32_max_def)
  have "\<not> (ce_recipient_device_id c = None \<and> ce_anonymous_recipient_public_key c = None)"
    using c(1) by (auto simp: create_params_ok_def)
  then have "create_envelope P Q c w = (Inr \<lparr>te_version = 1, te_transfer_profile = profile_v1,
      te_envelope_id = next_random w 16, te_sender_device_id = ce_sender_device_id c,
      te_recipient_device_id = ce_recipient_device_id c, te_classical_ephemeral_public_key = ?ep,
      te_pqc_ciphertext = ct, te_transcript_hash = th, te_encrypted_payload = ctx,
      te_nonce = next_random w3 24, te_expires_at = ce_expires_at c\<rparr>, w3\<lparr>drawn := drawn w3 + 24\<rparr>)"
    unfolding create_envelope_def expiry_guard [OF c(2)]
    by (simp add: map_err_act_def bind_act_def steps kem(1) th_def [symmetric] k(1) s(1))
  then show ?thesis
    using kem k s seal by (auto simp: sealed_for_def envelope_transcript_def th_def)
qed

subsection \<open>Opening what was created\<close>

lemma signed_payload_length: "length (signed_payload s p) = 6 + length (sg_bytes s) + length p"
  by (simp add: signed_payload_def)

lemma sealed_for_wf:
  assumes "aead_correct P" "sha_sized P" "dh_correct Q" "create_params_ok c" "length eph = 32" "sealed_for P Q c psk eph e"
  shows "envelope_wf e"
proof -
  obtain k s where k: "length k = 32" "length (te_nonce e) = 24" "length (sg_bytes s) = 64"
    and seal: "xchacha_seal P k (te_nonce e) (te_transcript_hash e) (signed_payload s (ce_plaintext_payload c)) =
      Some (te_encrypted_payload e)"
    using assms(6) unfolding sealed_for_def by blast
  have "length (te_encrypted_payload e) = 86 + length (ce_plaintext_payload c)"
    using aead_correctD [OF assms(1) k(1,2) seal] k(3) by (simp add: signed_payload_length)
  moreover have "length (te_transcript_hash e) = 32"
    using assms(2,6) by (simp add: sealed_for_def sha_sized_def compute_transcript_hash_def)
  ultimately show ?thesis
    using assms(3-6) by (auto simp: envelope_wf_def envelope_sized_def sealed_for_def create_params_ok_def u32_max_def)
qed

definition recipient_anonymous :: "TransferEnvelope \<Rightarrow> byte list \<Rightarrow> byte list option" where
  "recipient_anonymous e rpk = (if te_recipient_device_id e = None then Some rpk else None)"

lemma sealed_for_transcript:
  assumes "create_params_ok c" "sealed_for P Q c psk eph e" "rpk = ce_recipient_classical_public_key c"
  shows "te_transcript_hash e = compute_transcript_hash P (envelope_transcript e (recipient_anonymous e rpk))"
proof -
  have "transcript_binding (te_recipient_device_id e) (ce_anonymous_recipient_public_key c) =
      transcript_binding (te_recipient_device_id e) (recipient_anonymous e rpk)"
    using assms by (auto simp: transcript_binding_def sealed_for_def create_params_ok_def recipient_anonymous_def
        split: option.splits)
  then show ?thesis
    using assms(2) unfolding sealed_for_def compute_transcript_hash_def envelope_transcript_input by metis
qed

lemma sealed_for_parses:
  assumes P: "aead_correct P" "sha_sized P" "dh_correct Q" and c: "create_params_ok c" and eph: "length eph = 32"
    and e: "sealed_for P Q c psk eph e"
  shows "envelope_from_bytes P now (envelope_to_bytes e) =
    (if expired_at now (ce_expires_at c) then err ExpiredEnvelope else ok e)"
proof -
  have ex: "te_expires_at e = ce_expires_at c" "te_version e = 1" "te_transfer_profile e = profile_v1"
    using e by (auto simp: sealed_for_def)
  have parse: "parse_envelope_bytes (envelope_to_bytes e) = Inr e"
    using sealed_for_wf [OF P c eph e] by (simp add: parse_envelope_complete)
  have "validate_envelope P now e None = (if expired_at now (ce_expires_at c) then err ExpiredEnvelope else ok ())"
    if "te_recipient_device_id e \<noteq> None"
    using that sealed_for_transcript [OF c e, of "ce_recipient_classical_public_key c"] ex
    by (cases "te_recipient_device_id e") (simp_all add: validate_envelope_def profile_v1_def recipient_anonymous_def)
  then show ?thesis
    using ex(1) by (auto simp: envelope_from_bytes_def validate_for_open_def parse)
qed

text \<open>The recipient and the sender whose keys belong together.\<close>

definition key_match :: "pqc_prims \<Rightarrow> CreateEnvelopeParams \<Rightarrow> OpenEnvelopeParams \<Rightarrow> bool" where
  "key_match Q c p \<longleftrightarrow> length (oe_recipient_classical_private_key p) = 32 \<and>
     ce_recipient_classical_public_key c = x25519_public Q (oe_recipient_classical_private_key p) \<and>
     oe_recipient_classical_public_key p = ce_recipient_classical_public_key c \<and>
     mlkem_pair Q (ce_recipient_pqc_public_key c) (oe_recipient_pqc_private_key p) \<and>
     ed25519_pair Q (signing_public_key (oe_sender_signing_public_key p)) (ce_sender_signing_private_key c)"

lemma sealed_for_opens:
  assumes P: "aead_correct P" "sig_correct Q" "dh_correct Q" and c: "create_params_ok c" "key_match Q c p"
    and eph: "length eph = 32" "exchange_usable Q eph (ce_recipient_classical_public_key c)"
    and e: "sealed_for P Q c (oe_recipient_pqc_private_key p) eph e"
  shows "open_before_insert P Q now e p =
    (if expired_at now (te_expires_at e) then err ExpiredEnvelope else ok (ce_plaintext_payload c))"
proof -
  let ?rpk = "oe_recipient_classical_public_key p" and ?th = "te_transcript_hash e"
  note km = c(2) [unfolded key_match_def]
  obtain ss k s where o: "decapsulate Q (oe_recipient_pqc_private_key p) (te_pqc_ciphertext e) = Inr ss"
    "derive_transfer_key P Q eph (x25519_public Q eph) (ce_recipient_classical_public_key c) (te_pqc_ciphertext e) ss ?th = Inr k"
    "length k = 32" "sign_with_domain Q (ce_sender_signing_private_key c) TRANSFER_ENVELOPE_SIGNING_DOMAIN ?th = Inr s"
    "length (sg_bytes s) = 64"
    "xchacha_seal P k (te_nonce e) ?th (signed_payload s (ce_plaintext_payload c)) = Some (te_encrypted_payload e)"
    using e unfolding sealed_for_def by blast
  have f: "te_version e = 1" "te_transfer_profile e = profile_v1" "te_classical_ephemeral_public_key e = x25519_public Q eph"
    "length (te_nonce e) = 24"
    using e unfolding sealed_for_def by blast+
  have v: "validate_envelope P now e (recipient_anonymous e ?rpk) =
      (if expired_at now (te_expires_at e) then err ExpiredEnvelope else ok ())"
    using sealed_for_transcript [OF c(1) e, of ?rpk] km f(1,2) by (simp add: validate_envelope_def profile_v1_def)
  have k: "receive_transfer_key P Q (oe_recipient_classical_private_key p) ?rpk (te_classical_ephemeral_public_key e)
      (te_pqc_ciphertext e) (oe_recipient_pqc_private_key p) ?th = Inr k"
    unfolding f(3) using km eph(2) o(1,2)
    by (intro transfer_keys_agree [OF P(3) eph(1)]) (auto simp: exchange_usable_def)
  have d: "decrypt P k (te_nonce e) (te_encrypted_payload e) ?th = Inr (signed_payload s (ce_plaintext_payload c))"
    by (rule decrypt_sealed [OF P(1) o(3) f(4) o(6)])
  have sp: "decode_signed_payload (signed_payload s (ce_plaintext_payload c)) = Inr (s, ce_plaintext_payload c)"
    using c(1) o(5) by (simp add: decode_Inr signed_payload_length create_params_ok_def usize_max_def u32_max_def)
  have sig: "verify_with_domain Q (signing_public_key (oe_sender_signing_public_key p))
      TRANSFER_ENVELOPE_SIGNING_DOMAIN ?th s = Inr ()"
    using km verify_signed [OF P(2) _ o(4)] by blast
  show ?thesis
    unfolding open_before_insert_def Let_def recipient_anonymous_def [symmetric]
    by (simp add: v k d sp sig)
qed

lemma open_envelope_Inr:
  "open_envelope P Q now n1 n2 e p seen = (Inr x, seen') \<longleftrightarrow>
    open_before_insert P Q now e p = Inr x \<and>
    check_and_insert n1 n2 seen (te_envelope_id e) (te_expires_at e) = (ok (), seen')"
  by (auto simp: open_envelope_def split: sum.splits prod.splits)

lemma open_before_insert_Inr:
  "open_before_insert P Q now e p = Inr x \<longleftrightarrow>
    validate_envelope P now e (recipient_anonymous e (oe_recipient_classical_public_key p)) = Inr () \<and>
    (\<exists>k m s. receive_transfer_key P Q (oe_recipient_classical_private_key p) (oe_recipient_classical_public_key p)
        (te_classical_ephemeral_public_key e) (te_pqc_ciphertext e) (oe_recipient_pqc_private_key p)
        (te_transcript_hash e) = Inr k \<and>
      decrypt P k (te_nonce e) (te_encrypted_payload e) (te_transcript_hash e) = Inr m \<and>
      decode_signed_payload m = Inr (s, x) \<and>
      verify_with_domain Q (signing_public_key (oe_sender_signing_public_key p)) TRANSFER_ENVELOPE_SIGNING_DOMAIN
        (te_transcript_hash e) s = Inr ())"
  unfolding open_before_insert_def Let_def recipient_anonymous_def [symmetric] by auto

lemma no_panic_open_before_insert [simp]: "no_panic (open_before_insert P Q now e p)"
proof -
  have "no_panic (validate_envelope P now e a)" for a by (simp add: validate_envelope_def)
  moreover have "no_panic (decode_signed_payload m)" for m
    unfolding decode_signed_payload_def Let_def alg_from_le_bytes_def alg_from_u16_def
    by (intro no_panic_intros; simp)
  ultimately show ?thesis
    unfolding open_before_insert_def Let_def by (intro no_panic_intros; simp)
qed

lemma open_envelope_store:
  "open_envelope P Q now n1 n2 e p seen = (Inl f, seen') \<Longrightarrow>
    seen' = seen \<or> check_and_insert n1 n2 seen (te_envelope_id e) (te_expires_at e) = (Inl f, seen')"
  by (auto simp: open_envelope_def split: sum.splits prod.splits)

subsection \<open>The life of a receiver\<close>

text \<open>
  A receiver that trusts one sender: it opens envelopes at readings of the clock that never go
  back, keeps its replay store and may write it out and read it again; \<open>rc_delivered\<close> collects what
  \<open>open_envelope\<close> returned, newest first. Its abstraction is the replay store's life.
\<close>

record receiver =
  rc_now :: Timestamp
  rc_seen :: SeenEnvelopeIds
  rc_delivered :: "(TransferEnvelope \<times> byte list) list"

definition receiver_keys :: "TrustedSender \<Rightarrow> OpenEnvelopeParams \<Rightarrow> bool" where
  "receiver_keys t p \<longleftrightarrow> oe_sender_signing_public_key p = t"

inductive receiver_step :: "prims \<Rightarrow> pqc_prims \<Rightarrow> TrustedSender \<Rightarrow> receiver \<Rightarrow> receiver \<Rightarrow> bool"
  for P Q t where
  deliver: "rc_now s \<le> now \<Longrightarrow> now \<le> n1 \<Longrightarrow> n1 \<le> n2 \<Longrightarrow> length (te_envelope_id e) = 16 \<Longrightarrow> receiver_keys t p \<Longrightarrow>
     open_envelope P Q now n1 n2 e p (rc_seen s) = (ok x, seen') \<Longrightarrow>
     receiver_step P Q t s \<lparr>rc_now = n2, rc_seen = seen', rc_delivered = (e, x) # rc_delivered s\<rparr>"
| reject: "rc_now s \<le> now \<Longrightarrow> now \<le> n1 \<Longrightarrow> n1 \<le> n2 \<Longrightarrow> length (te_envelope_id e) = 16 \<Longrightarrow> receiver_keys t p \<Longrightarrow>
     open_envelope P Q now n1 n2 e p (rc_seen s) = (err f, seen') \<Longrightarrow>
     receiver_step P Q t s \<lparr>rc_now = n2, rc_seen = seen', rc_delivered = rc_delivered s\<rparr>"
| restart: "seen_from_bytes (seen_to_bytes (rc_seen s)) = ok seen' \<Longrightarrow> receiver_step P Q t s (s\<lparr>rc_seen := seen'\<rparr>)"

inductive receiver_reachable :: "prims \<Rightarrow> pqc_prims \<Rightarrow> TrustedSender \<Rightarrow> receiver \<Rightarrow> bool" for P Q t where
  fresh: "receiver_reachable P Q t \<lparr>rc_now = now, rc_seen = seen_new, rc_delivered = []\<rparr>"
| go: "receiver_reachable P Q t s \<Longrightarrow> receiver_step P Q t s s' \<Longrightarrow> receiver_reachable P Q t s'"

definition accepted_id :: "TransferEnvelope \<times> byte list \<Rightarrow> EnvelopeId \<times> Timestamp option" where
  "accepted_id d = (te_envelope_id (fst d), te_expires_at (fst d))"

definition replay_view :: "receiver \<Rightarrow> replay_state" where
  "replay_view s = \<lparr>rs_now = rc_now s, rs_seen = rc_seen s, rs_accepted = map accepted_id (rc_delivered s)\<rparr>"

lemma replay_inv_later: "replay_inv s \<Longrightarrow> rs_now s \<le> n \<Longrightarrow> replay_inv (s\<lparr>rs_now := n\<rparr>)"
  using live_at_mono by (fastforce simp: replay_inv_def)

lemma receiver_inv_step:
  assumes "receiver_step P Q t s s'" "replay_inv (replay_view s)"
  shows "replay_inv (replay_view s')"
  using assms(1)
proof cases
  case (deliver now n1 n2 e p x seen')
  have "replay_step (replay_view s) \<lparr>rs_now = n2, rs_seen = seen',
      rs_accepted = (te_envelope_id e, te_expires_at e) # rs_accepted (replay_view s)\<rparr>"
    using deliver by (intro replay_step.accept [of _ n1]) (auto simp: replay_view_def open_envelope_Inr)
  then show ?thesis
    using replay_inv_step assms(2) by (simp add: deliver(1) replay_view_def accepted_id_def)
next
  case (reject now n1 n2 e p f seen')
  from open_envelope_store [OF reject(7)] show ?thesis
  proof
    assume "seen' = rc_seen s"
    then show ?thesis
      using replay_inv_later [OF assms(2), of n2] reject(2-4) by (simp add: reject(1) replay_view_def)
  next
    assume "check_and_insert n1 n2 (rc_seen s) (te_envelope_id e) (te_expires_at e) = (err f, seen')"
    then have "replay_step (replay_view s) \<lparr>rs_now = n2, rs_seen = seen', rs_accepted = rs_accepted (replay_view s)\<rparr>"
      using reject by (intro replay_step.refuse [of _ n1]) (auto simp: replay_view_def)
    then show ?thesis using replay_inv_step assms(2) by (simp add: reject(1) replay_view_def)
  qed
next
  case (restart seen')
  have "replay_step (replay_view s) ((replay_view s)\<lparr>rs_seen := seen'\<rparr>)"
    using restart by (intro replay_step.reload) (simp add: replay_view_def)
  then show ?thesis using replay_inv_step assms(2) by (simp add: restart(1) replay_view_def)
qed

lemma receiver_reachable_inv: "receiver_reachable P Q t s \<Longrightarrow> replay_inv (replay_view s)"
proof (induction rule: receiver_reachable.induct)
  case (fresh now)
  then show ?case using replay_inv_start [of now] by (simp add: replay_view_def)
next
  case (go s s')
  then show ?case using receiver_inv_step by blast
qed

text \<open>A delivery is new: the pair of id and expiry has not been delivered before.\<close>

lemma delivery_is_new:
  assumes "replay_inv (replay_view s)" "rc_now s \<le> n1" "n1 \<le> n2"
    and "check_and_insert n1 n2 (rc_seen s) i t = (ok (), seen')"
  shows "(i, t) \<notin> set (map accepted_id (rc_delivered s))"
proof
  assume "(i, t) \<in> set (map accepted_id (rc_delivered s))"
  moreover have live: "live_at n2 t" "i \<notin> fst ` set (entries (evict_expired n1 (rc_seen s)))"
    using assms(4) by (auto simp: check_and_insert_cases)
  moreover have "live_at (rc_now s) t" "live_at n1 t"
    using live(1) assms(2,3) live_at_mono by (blast intro: order_trans)+
  ultimately have "(i, t) \<in> set (entries (evict_expired n1 (rc_seen s)))"
    using assms(1) by (auto simp: replay_inv_def replay_view_def evict_entries)
  then show False using live(2) by force
qed

definition signed_by :: "pqc_prims \<Rightarrow> TrustedSender \<Rightarrow> TransferEnvelope \<Rightarrow> bool" where
  "signed_by Q t e \<longleftrightarrow> (\<exists>s. verify_with_domain Q (signing_public_key t) TRANSFER_ENVELOPE_SIGNING_DOMAIN
     (te_transcript_hash e) s = ok ())"

subsection \<open>Sample instances\<close>

definition sample_create :: CreateEnvelopeParams where
  "sample_create = \<lparr>ce_sender_device_id = zeros 16, ce_recipient_device_id = None,
     ce_anonymous_recipient_public_key = Some (zeros 32), ce_recipient_classical_public_key = zeros 32,
     ce_recipient_pqc_public_key = zeros 1184,
     ce_sender_signing_private_key = \<lparr>ssk_algorithm = Ed25519V1, ssk_bytes = zeros 32\<rparr>,
     ce_plaintext_payload = [1, 2, 3], ce_expires_at = Some 2000000000000\<rparr>"

definition sample_sender :: TrustedSender where
  "sample_sender = TrustedSender \<lparr>spk_algorithm = Ed25519V1, spk_bytes = zeros 32\<rparr>"

definition sample_open :: OpenEnvelopeParams where
  "sample_open = \<lparr>oe_recipient_classical_private_key = zeros 32, oe_recipient_classical_public_key = zeros 32,
     oe_recipient_pqc_private_key = zeros 2400, oe_sender_signing_public_key = sample_sender\<rparr>"

lemma take_zeros: "take n (zeros m) = zeros (min n m)"
  by (simp add: zeros_def)

lemma zeros_append: "zeros m @ zeros n = zeros (m + n)"
  by (simp add: zeros_def replicate_add)

lemma toy_sha: "sha_sized toy_prims"
  by (simp add: sha_sized_def toy_prims_def min_def del: take_append)

lemma sample_transfer:
  "create_params_ok sample_create" "key_match toy_pqc sample_create sample_open"
  "\<not> expired_at (unix_time_millis_at (clock_ms sample_world)) (ce_expires_at sample_create)"
  "exchange_usable toy_pqc (ephemeral_of sample_world) (ce_recipient_classical_public_key sample_create)"
proof -
  show "create_params_ok sample_create" by (simp add: create_params_ok_def sample_create_def)
  have "mlkem_pair toy_pqc (zeros 1184) (zeros 2400)"
    unfolding mlkem_pair_def
    by (intro exI [of _ "zeros 64"]) (simp add: toy_pqc_def take_zeros zeros_append del: take_append)
  then show "key_match toy_pqc sample_create sample_open"
    by (simp add: key_match_def sample_create_def sample_open_def sample_sender_def ed25519_pair_def)
       (simp add: toy_pqc_def)
  show "\<not> expired_at (unix_time_millis_at (clock_ms sample_world)) (ce_expires_at sample_create)"
    by (simp add: expired_at_def unix_time_millis_at_def sample_world_def sample_create_def usize_max_def)
  show "exchange_usable toy_pqc (ephemeral_of sample_world) (ce_recipient_classical_public_key sample_create)"
  proof -
    have "ephemeral_of sample_world ! 0 = 16" "zeros 32 ! 0 = 0"
      by (simp_all add: ephemeral_of_def next_random_def sample_world_def zeros_def)
    then have "\<not> list_all (\<lambda>b. b = 0xff) (ephemeral_of sample_world)" "\<not> list_all (\<lambda>b. b = 0xff) (zeros 32)"
      by (auto simp: list_all_length intro!: exI [of _ 0])
    then show ?thesis by (simp add: exchange_usable_def sample_create_def toy_pqc_def)
  qed
qed

lemma sample_delivery:
  "\<exists>e. open_envelope toy_prims toy_pqc 5 5 5 e sample_open seen_new =
      (ok [1, 2, 3], \<lparr>entries = [(te_envelope_id e, Some 2000000000000)]\<rparr>) \<and> envelope_wf e"
proof -
  note km = sample_transfer(2) [unfolded key_match_def]
  obtain e w' where e: "create_envelope toy_prims toy_pqc sample_create sample_world = (Inr e, w')"
    "sealed_for toy_prims toy_pqc sample_create (oe_recipient_pqc_private_key sample_open) (ephemeral_of sample_world) e"
    using create_envelope_run [OF toy_prims_aead(3) toy_prims_kdf toy_pqc_correct(1,3) sample_transfer(1,3) _ _
      sample_transfer(4)] km by blast
  have t: "te_expires_at e = Some 2000000000000"
    using e(2) by (simp add: sealed_for_def sample_create_def)
  have "open_before_insert toy_prims toy_pqc 5 e sample_open = ok [1, 2, 3]"
    using sealed_for_opens [OF toy_prims_aead(1) toy_pqc_correct(1,2) sample_transfer(1,2) _ sample_transfer(4) e(2), of 5] t
    by (simp add: expired_at_def sample_create_def)
  then show ?thesis
    using sealed_for_wf [OF toy_prims_aead(1) toy_sha toy_pqc_correct(2) sample_transfer(1) _ e(2)] t
    by (intro exI [of _ e]) (simp add: open_envelope_def check_and_insert_def seen_new_def evict_expired_def)
qed

subsection \<open>Properties\<close>

text \<open>C7. End to end: under the documented laws of the primitives and with keys that belong together,
  \<open>create_envelope\<close> succeeds; the envelope's bytes are read back to the envelope until it expires; and
  \<open>open_envelope\<close> returns exactly the plaintext, subject only to expiry and to the replay store.\<close>

theorem transfer_end_to_end:
  assumes "aead_correct P" "aead_total P" "kdf_total P" "sha_sized P" "sig_correct Q" "dh_correct Q" "kem_correct Q"
    and "create_params_ok c" "key_match Q c p" "\<not> expired_at (unix_time_millis_at (clock_ms w)) (ce_expires_at c)"
    and "exchange_usable Q (ephemeral_of w) (ce_recipient_classical_public_key c)"
  shows "\<exists>e w'. create_envelope P Q c w = (Inr e, w') \<and> (\<forall>now n1 n2 seen.
    envelope_from_bytes P now (envelope_to_bytes e) = (if expired_at now (ce_expires_at c) then err ExpiredEnvelope else ok e) \<and>
    open_envelope P Q now n1 n2 e p seen = (if expired_at now (ce_expires_at c) then (err ExpiredEnvelope, seen)
      else case check_and_insert n1 n2 seen (te_envelope_id e) (ce_expires_at c) of
        (Inr _, seen') \<Rightarrow> (ok (ce_plaintext_payload c), seen') | (Inl f, seen') \<Rightarrow> (Inl f, seen')))"
proof -
  have km: "mlkem_pair Q (ce_recipient_pqc_public_key c) (oe_recipient_pqc_private_key p)"
    "ed25519_pair Q (signing_public_key (oe_sender_signing_public_key p)) (ce_sender_signing_private_key c)"
    using assms(9) by (auto simp: key_match_def)
  obtain e w' where e: "create_envelope P Q c w = (Inr e, w')"
    "sealed_for P Q c (oe_recipient_pqc_private_key p) (ephemeral_of w) e"
    using create_envelope_run [OF assms(2,3,5,7,8,10) km assms(11)] by blast
  have ex: "te_expires_at e = ce_expires_at c" using e(2) by (simp add: sealed_for_def)
  have "envelope_from_bytes P now (envelope_to_bytes e) =
      (if expired_at now (ce_expires_at c) then err ExpiredEnvelope else ok e)" for now
    by (rule sealed_for_parses [OF assms(1,4,6,8) _ e(2)]) simp
  moreover have "open_before_insert P Q now e p =
      (if expired_at now (ce_expires_at c) then err ExpiredEnvelope else ok (ce_plaintext_payload c))" for now
    using sealed_for_opens [OF assms(1,5,6,8,9) _ assms(11) e(2)] ex by simp
  ultimately show ?thesis
    using e(1) ex by (intro exI [of _ e] exI [of _ w']) (auto simp: open_envelope_def)
qed

theorem transfer_end_to_end_witness:
  "\<exists>e w'. create_envelope toy_prims toy_pqc sample_create sample_world = (Inr e, w') \<and>
    envelope_from_bytes toy_prims 5 (envelope_to_bytes e) = ok e \<and>
    fst (open_envelope toy_prims toy_pqc 5 5 5 e sample_open seen_new) = ok [1, 2, 3]"
proof -
  have d: "ce_expires_at sample_create = Some 2000000000000" "ce_plaintext_payload sample_create = [1, 2, 3]"
    by (simp_all add: sample_create_def)
  obtain e w' where "create_envelope toy_prims toy_pqc sample_create sample_world = (Inr e, w')"
    "envelope_from_bytes toy_prims 5 (envelope_to_bytes e) = ok e"
    "fst (open_envelope toy_prims toy_pqc 5 5 5 e sample_open seen_new) = ok [1, 2, 3]"
    using transfer_end_to_end [OF toy_prims_aead(1,3) toy_prims_kdf toy_sha toy_pqc_correct sample_transfer]
    unfolding d by (auto simp: expired_at_def check_and_insert_def seen_new_def evict_expired_def)
  then show ?thesis by blast
qed

text \<open>C12. What opens is authentic: if \<open>open_envelope\<close> returns a payload then the envelope is a version 1,
  profile v1 envelope that had not expired, its hash is the hash of its own transcript (bound to the
  recipient's public key when no recipient is named), the payload and a signature are what the sealing of the
  transfer key produced over that hash, Ed25519 accepts the signature under the trusted sender's key, and the id was not
  in the store, to which it has been added.\<close>

theorem opened_is_authentic:
  assumes "aead_correct P" "aead_tight P" "kdf_total P" "length (te_nonce e) = 24" "length (te_encrypted_payload e) \<le> isize_max"
    and "open_envelope P Q now n1 n2 e p seen = (ok x, seen')"
  shows "te_version e = 1 \<and> te_transfer_profile e = profile_v1 \<and> \<not> expired_at now (te_expires_at e) \<and>
    te_transcript_hash e = compute_transcript_hash P
      (envelope_transcript e (recipient_anonymous e (oe_recipient_classical_public_key p))) \<and>
    (\<exists>k s. receive_transfer_key P Q (oe_recipient_classical_private_key p) (oe_recipient_classical_public_key p)
        (te_classical_ephemeral_public_key e) (te_pqc_ciphertext e) (oe_recipient_pqc_private_key p)
        (te_transcript_hash e) = ok k \<and>
      xchacha_seal P k (te_nonce e) (te_transcript_hash e) (signed_payload s x) = Some (te_encrypted_payload e) \<and>
      ed25519_verify_strict Q (spk_bytes (signing_public_key (oe_sender_signing_public_key p)))
        (TRANSFER_ENVELOPE_SIGNING_DOMAIN @ te_transcript_hash e) (sg_bytes s)) \<and>
    te_envelope_id e \<notin> fst ` set (entries (evict_expired n1 seen)) \<and>
    entries seen' = entries (evict_expired n1 seen) @ [(te_envelope_id e, te_expires_at e)]"
proof -
  have o: "open_before_insert P Q now e p = Inr x"
    "check_and_insert n1 n2 seen (te_envelope_id e) (te_expires_at e) = (ok (), seen')"
    using assms(6) by (simp_all add: open_envelope_Inr)
  obtain k m s where s: "receive_transfer_key P Q (oe_recipient_classical_private_key p)
      (oe_recipient_classical_public_key p) (te_classical_ephemeral_public_key e) (te_pqc_ciphertext e)
      (oe_recipient_pqc_private_key p) (te_transcript_hash e) = Inr k"
    "decrypt P k (te_nonce e) (te_encrypted_payload e) (te_transcript_hash e) = Inr m"
    "decode_signed_payload m = Inr (s, x)"
    "verify_with_domain Q (signing_public_key (oe_sender_signing_public_key p)) TRANSFER_ENVELOPE_SIGNING_DOMAIN
      (te_transcript_hash e) s = Inr ()"
    using o(1) unfolding open_before_insert_Inr by blast
  have k: "length k = 32" by (rule receive_transfer_key_length [OF assms(3) s(1)])
  have seal: "xchacha_seal P k (te_nonce e) (te_transcript_hash e) m = Some (te_encrypted_payload e)"
    by (rule decrypt_tight [OF assms(2) k assms(4) s(2)])
  have "length m \<le> usize_max"
    using aead_correctD [OF assms(1) k assms(4) seal] assms(5) by (simp add: isize_max_def usize_max_def)
  then have "m = signed_payload s x" using s(3) by (simp add: decode_Inr)
  then show ?thesis
    using o s(1,4) seal
    by (auto simp: open_before_insert_Inr validate_Inr verify_with_domain_def verify_Inr check_and_insert_cases)
qed

theorem opened_is_authentic_witness:
  "\<exists>(e :: TransferEnvelope) s. te_version e = 1 \<and>
    ed25519_verify_strict toy_pqc (zeros 32) (TRANSFER_ENVELOPE_SIGNING_DOMAIN @ te_transcript_hash e) s"
proof -
  obtain e where e: "open_envelope toy_prims toy_pqc 5 5 5 e sample_open seen_new =
      (ok [1, 2, 3], \<lparr>entries = [(te_envelope_id e, Some 2000000000000)]\<rparr>)" "envelope_wf e"
    using sample_delivery by blast
  then have "length (te_nonce e) = 24" "length (te_encrypted_payload e) \<le> isize_max"
    by (simp_all add: envelope_wf_def u32_max_def isize_max_def)
  then show ?thesis
    using opened_is_authentic [OF toy_prims_aead(1,2) toy_prims_kdf _ _ e(1)]
    unfolding sample_open_def sample_sender_def OpenEnvelopeParams.simps TrustedSender.sel SigningPublicKey.simps
    by blast
qed

text \<open>C8. A receiver delivers each envelope at most once: in every state it can reach by opening any
  envelopes whatsoever, refusing them and restarting from its stored replay ids while its clock does not go
  back, no two deliveries have the same envelope id and expiry, and every delivered envelope carries the
  trusted sender's signature over its transcript hash.\<close>

theorem receiver_delivers_once:
  assumes "receiver_reachable P Q t s"
  shows "distinct (map accepted_id (rc_delivered s)) \<and> list_all (\<lambda>d. signed_by Q t (fst d)) (rc_delivered s)"
  using assms
proof (induction rule: receiver_reachable.induct)
  case (fresh now)
  then show ?case by simp
next
  case (go s s')
  note inv = receiver_reachable_inv [OF go(1)]
  from go(2) show ?case
  proof cases
    case (deliver now n1 n2 e p x seen')
    have o: "open_before_insert P Q now e p = Inr x"
      "check_and_insert n1 n2 (rc_seen s) (te_envelope_id e) (te_expires_at e) = (ok (), seen')"
      using deliver(7) by (simp_all add: open_envelope_Inr)
    have "signed_by Q t e"
      using o(1) deliver(6) by (auto simp: open_before_insert_Inr signed_by_def receiver_keys_def)
    moreover have "accepted_id (e, x) \<notin> set (map accepted_id (rc_delivered s))"
      using delivery_is_new [OF inv _ deliver(4) o(2)] deliver(2,3) by (simp add: accepted_id_def)
    ultimately show ?thesis using go(3) by (simp add: deliver(1))
  qed (use go(3) in auto)
qed

theorem receiver_delivers_once_witness:
  "\<exists>e. signed_by toy_pqc sample_sender e \<and> envelope_wf e"
proof -
  obtain e where e: "open_envelope toy_prims toy_pqc 5 5 5 e sample_open seen_new =
      (ok [1, 2, 3], \<lparr>entries = [(te_envelope_id e, Some 2000000000000)]\<rparr>)" "envelope_wf e"
    using sample_delivery by blast
  let ?s = "\<lparr>rc_now = 0, rc_seen = seen_new, rc_delivered = []\<rparr>"
  have "receiver_step toy_prims toy_pqc sample_sender ?s
      \<lparr>rc_now = 5, rc_seen = \<lparr>entries = [(te_envelope_id e, Some 2000000000000)]\<rparr>,
       rc_delivered = (e, [1, 2, 3]) # rc_delivered ?s\<rparr>"
    by (rule receiver_step.deliver [where now = 5 and ?n1.0 = 5 and p = sample_open])
      (use e in \<open>simp_all add: receiver_keys_def sample_open_def envelope_wf_def envelope_sized_def\<close>)
  then have "receiver_reachable toy_prims toy_pqc sample_sender
      \<lparr>rc_now = 5, rc_seen = \<lparr>entries = [(te_envelope_id e, Some 2000000000000)]\<rparr>, rc_delivered = [(e, [1, 2, 3])]\<rparr>"
    using receiver_reachable.go [OF receiver_reachable.fresh] by force
  then show ?thesis using receiver_delivers_once e(2) by force
qed


definition sample_envelope :: "byte list \<Rightarrow> TransferEnvelope" where
  "sample_envelope sender = \<lparr>te_version = 1, te_transfer_profile = profile_v1, te_envelope_id = zeros 16,
     te_sender_device_id = sender, te_recipient_device_id = Some (zeros 16),
     te_classical_ephemeral_public_key = zeros 32, te_pqc_ciphertext = zeros 1088,
     te_transcript_hash = take 32 TRANSFER_TRANSCRIPT_DOMAIN, te_encrypted_payload = [1], te_nonce = zeros 24,
     te_expires_at = None\<rparr>"


end
