(* ===== verification/Pairing.thy ===== *)
theory Pairing
  imports Envelope_Security
begin

text \<open>
  src/crates/meissnerseal-core/src/keys/pairing.rs: the out-of-band pairing payload, its transcript
  and short authentication string, and the trust-state machine of a device.
\<close>

abbreviation (input) PAIRING_PROTOCOL_VERSION_V1 :: u16 where "PAIRING_PROTOCOL_VERSION_V1 \<equiv> 0x0001"
abbreviation (input) PAIRING_NONCE_LEN :: nat where "PAIRING_NONCE_LEN \<equiv> 32"

definition DEVICE_PAIRING_SIGNING_DOMAIN :: "byte list" where
  "DEVICE_PAIRING_SIGNING_DOMAIN = bytes_of ''meissnerseal.device.pairing.v1'' @ [0]"

record PairingPayload =
  pp_protocol_version :: u16
  pp_device_id :: "byte list"
  pp_display_name :: "byte list"
  pp_classical_fingerprint :: "byte list"
  pp_pqc_fingerprint :: "byte list"
  pp_signing_fingerprint :: "byte list"
  pp_capabilities :: u32
  pp_pairing_nonce :: "byte list"

record PairingTranscript =
  pt_payload :: PairingPayload
  pt_transcript_hash :: "byte list"

datatype PairingError =
    PairUnimplemented
  | UnknownProtocolVersion
  | MissingSigningPublicKey
  | PairEmptyDisplayName
  | ZeroPairingNonce
  | NonceGenerationFailed
  | InvalidTrustTransition

subsection \<open>Operations\<close>

definition random_nonce_candidate :: "(PairingError, byte list) act" where
  "random_nonce_candidate =
     bind_act (random_bytes PAIRING_NONCE_LEN) (\<lambda>bytes.
     lift_rs (if length bytes = 32 then ok bytes else err NonceGenerationFailed))"

definition generate_pairing_nonce :: "(PairingError, byte list) act" where
  "generate_pairing_nonce =
     bind_act random_nonce_candidate (\<lambda>first_nonce.
     if list_ex (\<lambda>b. b \<noteq> 0) first_nonce then ret first_nonce
     else
     bind_act random_nonce_candidate (\<lambda>second_nonce.
     if list_ex (\<lambda>b. b \<noteq> 0) second_nonce then ret second_nonce
     else fail NonceGenerationFailed))"

definition build_pairing_payload ::
    "prims \<Rightarrow> DeviceIdentity \<Rightarrow> u32 \<Rightarrow> (PairingError, PairingPayload) act" where
  "build_pairing_payload P d capabilities =
     bind_act (lift_rs (ok_or (di_signing_public_key d) MissingSigningPublicKey)) (\<lambda>signing_public_key.
     if di_display_name d = [] then fail PairEmptyDisplayName
     else
     bind_act generate_pairing_nonce (\<lambda>pairing_nonce.
     ret \<lparr>pp_protocol_version = PAIRING_PROTOCOL_VERSION_V1, pp_device_id = di_device_id d,
          pp_display_name = di_display_name d,
          pp_classical_fingerprint = sha256_digest P (di_classical_public_key d),
          pp_pqc_fingerprint = sha256_digest P (di_pqc_public_key d),
          pp_signing_fingerprint = sha256_digest P (spk_bytes signing_public_key),
          pp_capabilities = capabilities, pp_pairing_nonce = pairing_nonce\<rparr>))"

definition validate_pairing_payload :: "PairingPayload \<Rightarrow> (PairingError, unit) rs" where
  "validate_pairing_payload p =
     (if pp_protocol_version p \<noteq> PAIRING_PROTOCOL_VERSION_V1 then err UnknownProtocolVersion
      else if list_all (\<lambda>b. b = 0) (pp_pairing_nonce p) then err ZeroPairingNonce
      else if pp_display_name p = [] then err PairEmptyDisplayName
      else ok ())"

definition pairing_transcript_input :: "PairingPayload \<Rightarrow> u32 \<Rightarrow> byte list" where
  "pairing_transcript_input p display_name_len =
     u16_le (pp_protocol_version p) @ pp_device_id p @ u32_le display_name_len @ pp_display_name p @
     pp_classical_fingerprint p @ pp_pqc_fingerprint p @ pp_signing_fingerprint p @
     u32_le (pp_capabilities p) @ pp_pairing_nonce p"

definition compute_pairing_transcript :: "prims \<Rightarrow> PairingPayload \<Rightarrow> (PairingError, PairingTranscript) rs" where
  "compute_pairing_transcript P p =
     and_then (validate_pairing_payload p) (\<lambda>_.
     and_then (to_u32 (length (pp_display_name p)) PairEmptyDisplayName) (\<lambda>display_name_len.
     ok \<lparr>pt_payload = p,
         pt_transcript_hash = sha256_digest P (pairing_transcript_input p display_name_len)\<rparr>))"

definition derive_short_authentication_string ::
    "prims \<Rightarrow> byte list \<Rightarrow> byte list \<Rightarrow> (PairingError, string) rs" where
  "derive_short_authentication_string P pairing_nonce transcript_hash =
     (let digest = sha256_digest P (pairing_nonce @ transcript_hash) in
      ok (hex_of (take 3 digest)))"

fun validate_trust_transition ::
    "DeviceTrustState \<Rightarrow> DeviceTrustState \<Rightarrow> (PairingError, unit) rs" where
  "validate_trust_transition Untrusted PendingInbound = ok ()"
| "validate_trust_transition Untrusted PendingOutbound = ok ()"
| "validate_trust_transition PendingInbound Verified = ok ()"
| "validate_trust_transition PendingOutbound Verified = ok ()"
| "validate_trust_transition Verified Approved = ok ()"
| "validate_trust_transition Untrusted Revoked = ok ()"
| "validate_trust_transition PendingInbound Revoked = ok ()"
| "validate_trust_transition PendingOutbound Revoked = ok ()"
| "validate_trust_transition Verified Revoked = ok ()"
| "validate_trust_transition Approved Revoked = ok ()"
| "validate_trust_transition Revoked Revoked = ok ()"
| "validate_trust_transition Untrusted Expired = ok ()"
| "validate_trust_transition PendingInbound Expired = ok ()"
| "validate_trust_transition PendingOutbound Expired = ok ()"
| "validate_trust_transition Verified Expired = ok ()"
| "validate_trust_transition Approved Expired = ok ()"
| "validate_trust_transition Expired Expired = ok ()"
| "validate_trust_transition _ _ = err InvalidTrustTransition"

definition sign_pairing_message ::
    "pqc_prims \<Rightarrow> SigningPrivateKey \<Rightarrow> byte list \<Rightarrow> (PairingError, Signature) rs" where
  "sign_pairing_message Q k msg =
     map_err (sign_with_domain Q k DEVICE_PAIRING_SIGNING_DOMAIN msg) PairUnimplemented"

definition verify_pairing_message :: "pqc_prims \<Rightarrow> SigningPublicKey \<Rightarrow> byte list \<Rightarrow> Signature \<Rightarrow> bool" where
  "verify_pairing_message Q k msg sig =
     is_ok (verify_with_domain Q k DEVICE_PAIRING_SIGNING_DOMAIN msg sig)"

subsection \<open>Domain separation of the three signing domains\<close>

lemma signing_domains_distinct:
  assumes "d1 \<in> {DEVICE_PAIRING_SIGNING_DOMAIN, DEVICE_ENROLLMENT_SIGNING_DOMAIN, TRANSFER_ENVELOPE_SIGNING_DOMAIN}"
    and "d2 \<in> {DEVICE_PAIRING_SIGNING_DOMAIN, DEVICE_ENROLLMENT_SIGNING_DOMAIN, TRANSFER_ENVELOPE_SIGNING_DOMAIN}"
    and "d1 \<noteq> d2"
  shows "d1 @ m1 \<noteq> d2 @ m2"
proof
  assume "d1 @ m1 = d2 @ m2"
  then have "take 30 (d1 @ m1) = take 30 (d2 @ m2)" by simp
  moreover have "30 \<le> length d1" "30 \<le> length d2"
    using assms(1,2) by (auto simp: DEVICE_PAIRING_SIGNING_DOMAIN_def DEVICE_ENROLLMENT_SIGNING_DOMAIN_def
        TRANSFER_ENVELOPE_SIGNING_DOMAIN_def)
  ultimately have "take 30 d1 = take 30 d2" by simp
  moreover have "take 30 DEVICE_PAIRING_SIGNING_DOMAIN \<noteq> take 30 DEVICE_ENROLLMENT_SIGNING_DOMAIN"
    "take 30 DEVICE_PAIRING_SIGNING_DOMAIN \<noteq> take 30 TRANSFER_ENVELOPE_SIGNING_DOMAIN"
    "take 30 DEVICE_ENROLLMENT_SIGNING_DOMAIN \<noteq> take 30 TRANSFER_ENVELOPE_SIGNING_DOMAIN"
    by code_simp+
  ultimately show False using assms by auto
qed

subsection \<open>The nonce\<close>

lemma random_nonce_candidate_apply [simp]:
  "random_nonce_candidate w = (Inr (next_random w 32), w\<lparr>drawn := drawn w + 32\<rparr>)"
  by (simp add: random_nonce_candidate_def bind_act_def random_bytes_def)

lemma next_random_add:
  "next_random w (m + n) = next_random w m @ next_random (w\<lparr>drawn := drawn w + m\<rparr>) n"
  by (intro nth_equalityI) (auto simp: next_random_def nth_append)

lemma generate_pairing_nonce_apply:
  "generate_pairing_nonce w =
    (let n1 = next_random w 32; n2 = next_random (w\<lparr>drawn := drawn w + 32\<rparr>) 32 in
     if n1 \<noteq> zeros 32 then (ok n1, w\<lparr>drawn := drawn w + 32\<rparr>)
     else if n2 \<noteq> zeros 32 then (ok n2, w\<lparr>drawn := drawn w + 64\<rparr>)
     else (err NonceGenerationFailed, w\<lparr>drawn := drawn w + 64\<rparr>))"
proof -
  have "list_ex (\<lambda>b. b \<noteq> 0) xs \<longleftrightarrow> xs \<noteq> zeros (length xs)" for xs :: "byte list"
    by (induction xs) (auto simp: zeros_def)
  then show ?thesis by (simp add: generate_pairing_nonce_def bind_act_def Let_def)
qed

subsection \<open>The transcript\<close>

definition payload_sized :: "PairingPayload \<Rightarrow> bool" where
  "payload_sized p \<longleftrightarrow> length (pp_device_id p) = 16 \<and> length (pp_classical_fingerprint p) = 32 \<and>
     length (pp_pqc_fingerprint p) = 32 \<and> length (pp_signing_fingerprint p) = 32 \<and> length (pp_pairing_nonce p) = 32"

lemma pairing_input_inj:
  assumes "payload_sized p" "payload_sized q" "length (pp_display_name p) \<le> u32_max" "length (pp_display_name q) \<le> u32_max"
  shows "pairing_transcript_input p (of_nat (length (pp_display_name p))) =
      pairing_transcript_input q (of_nat (length (pp_display_name q))) \<longleftrightarrow> p = q" (is "?l \<longleftrightarrow> _")
proof
  assume l: ?l
  then have n: "(of_nat (length (pp_display_name p)) :: u32) = of_nat (length (pp_display_name q))"
    using assms(1,2) by (simp add: pairing_transcript_input_def payload_sized_def)
  then have "length (pp_display_name p) = length (pp_display_name q)"
    using assms(3,4) by (metis unat_of_nat_u32)
  then show "p = q" using l assms(1,2) by (simp add: pairing_transcript_input_def payload_sized_def)
qed simp

lemma compute_pairing_Inr:
  "compute_pairing_transcript P p = Inr t \<longleftrightarrow> pp_protocol_version p = 1 \<and>
    \<not> list_all (\<lambda>b. b = 0) (pp_pairing_nonce p) \<and> pp_display_name p \<noteq> [] \<and> length (pp_display_name p) \<le> u32_max \<and>
    t = \<lparr>pt_payload = p, pt_transcript_hash = sha256_digest P (pairing_transcript_input p (of_nat (length (pp_display_name p))))\<rparr>"
  by (auto simp: compute_pairing_transcript_def validate_pairing_payload_def)

lemma hex_of_chars: "set (hex_of bs) \<subseteq> set ''0123456789abcdef''"
proof -
  have d: "hex_digit n \<in> set ''0123456789abcdef''" if "n < 16" for n
    using that nth_mem [of n "''0123456789abcdef''"] by (simp add: hex_digit_def del: set_simps)
  have "set (hex_byte b) \<subseteq> set ''0123456789abcdef''" for b
  proof -
    have "unat b div 16 < 16" "unat b mod 16 < 16" using unat_byte_lt [of b] by simp_all
    from d [OF this(1)] d [OF this(2)] show ?thesis unfolding hex_byte_def list.set by blast
  qed
  then show ?thesis unfolding hex_of_def set_concat set_map by blast
qed

subsection \<open>The trust-state machine\<close>

text \<open>The states a device has been in, newest first: every change passes \<open>validate_trust_transition\<close>.\<close>

inductive trust_history :: "DeviceTrustState list \<Rightarrow> bool" where
  enrolled: "trust_history [Untrusted]"
| change: "trust_history (s # h) \<Longrightarrow> validate_trust_transition s s' = ok () \<Longrightarrow> trust_history (s' # s # h)"

definition earned :: "DeviceTrustState list \<Rightarrow> bool" where
  "earned h \<longleftrightarrow> (case h of [] \<Rightarrow> False | s # past \<Rightarrow>
     (s = Untrusted \<longrightarrow> past = []) \<and>
     (s = PendingInbound \<or> s = PendingOutbound \<longrightarrow> past = [Untrusted]) \<and>
     (s = Verified \<longrightarrow> (\<exists>p \<in> {PendingInbound, PendingOutbound}. past = [p, Untrusted])) \<and>
     (s = Approved \<longrightarrow> (\<exists>p \<in> {PendingInbound, PendingOutbound}. past = [Verified, p, Untrusted])) \<and>
     (s = Revoked \<longrightarrow> Expired \<notin> set past) \<and> (s = Expired \<longrightarrow> Revoked \<notin> set past))"

lemma trust_history_earned: "trust_history h \<Longrightarrow> earned h"
proof (induction rule: trust_history.induct)
  case enrolled
  then show ?case by (simp add: earned_def)
next
  case (change s h s')
  then show ?case by (cases s; cases s') (auto simp: earned_def)
qed

subsection \<open>Properties\<close>



text \<open>The pairing transcript binds the whole payload: two payloads of the right sizes for which
  \<open>compute_pairing_transcript\<close> yields the same hash are the same payload, or the two transcripts are a
  SHA-256 collision; the short authentication string of a transcript is six lowercase hex digits.\<close>

theorem pairing_transcript_binds:
  assumes "sha_sized P" "payload_sized p" "payload_sized q"
    and "compute_pairing_transcript P p = ok t" "compute_pairing_transcript P q = ok u"
    and "pt_transcript_hash t = pt_transcript_hash u"
  shows "(let x = pairing_transcript_input p (of_nat (length (pp_display_name p)));
       y = pairing_transcript_input q (of_nat (length (pp_display_name q))) in
     if x = y then p = q else sha256_digest P x = sha256_digest P y) \<and>
    (\<exists>sas. derive_short_authentication_string P (pp_pairing_nonce p) (pt_transcript_hash t) = ok sas \<and>
      length sas = 6 \<and> set sas \<subseteq> set ''0123456789abcdef'')"
  using assms pairing_input_inj [OF assms(2,3)] hex_of_chars
  by (auto simp: compute_pairing_Inr derive_short_authentication_string_def sha_sized_def Let_def)

definition sample_pairing :: "u32 \<Rightarrow> PairingPayload" where
  "sample_pairing capabilities = \<lparr>pp_protocol_version = 1, pp_device_id = zeros 16, pp_display_name = [97],
     pp_classical_fingerprint = zeros 32, pp_pqc_fingerprint = zeros 32, pp_signing_fingerprint = zeros 32,
     pp_capabilities = capabilities, pp_pairing_nonce = 1 # zeros 31\<rparr>"

theorem pairing_transcript_binds_witness:
  "sha256_digest toy_prims (pairing_transcript_input (sample_pairing 0) 1) =
    sha256_digest toy_prims (pairing_transcript_input (sample_pairing 7) 1) \<and>
   (\<exists>sas. derive_short_authentication_string toy_prims (1 # zeros 31)
      (sha256_digest toy_prims (pairing_transcript_input (sample_pairing 0) 1)) = ok sas \<and> length sas = 6)"
proof -
  have s: "payload_sized (sample_pairing c)" for c by (simp add: payload_sized_def sample_pairing_def)
  have t: "compute_pairing_transcript toy_prims (sample_pairing c) = ok \<lparr>pt_payload = sample_pairing c,
      pt_transcript_hash = sha256_digest toy_prims (pairing_transcript_input (sample_pairing c) 1)\<rparr>" for c
    by (simp add: compute_pairing_Inr sample_pairing_def u32_max_def)
  have "sha256_digest toy_prims (pairing_transcript_input (sample_pairing 0) 1) =
      sha256_digest toy_prims (pairing_transcript_input (sample_pairing 7) 1)"
    by (simp add: toy_prims_def pairing_transcript_input_def sample_pairing_def)
  moreover have "pp_pairing_nonce (sample_pairing 0) = 1 # zeros 31" by (simp add: sample_pairing_def)
  ultimately show ?thesis
    using pairing_transcript_binds [OF toy_sha s [of 0] s [of 7] t t] by auto
qed

text \<open>Pairing payloads: \<open>build_pairing_payload\<close> fails exactly for an identity without signing key, with an
  empty name, or when two draws of the nonce are zero; otherwise its payload has the fingerprints
  of the identity's keys, validates and has a transcript (if the name fits the \<open>u32\<close> length).\<close>

theorem pairing_payload_outcomes:
  "case build_pairing_payload P d capabilities w of
     (Inr p, w') \<Rightarrow> validate_pairing_payload p = ok () \<and> pp_device_id p = di_device_id d \<and>
       pp_display_name p = di_display_name d \<and> pp_capabilities p = capabilities \<and>
       (\<exists>spk. di_signing_public_key d = Some spk \<and> pp_signing_fingerprint p = sha256_digest P (spk_bytes spk)) \<and>
       pp_classical_fingerprint p = sha256_digest P (di_classical_public_key d) \<and>
       pp_pqc_fingerprint p = sha256_digest P (di_pqc_public_key d) \<and>
       is_ok (compute_pairing_transcript P p) = (length (di_display_name d) \<le> u32_max)
   | (Inl f, w') \<Rightarrow> f = Err (if di_signing_public_key d = None then MissingSigningPublicKey
       else if di_display_name d = [] then PairEmptyDisplayName else NonceGenerationFailed) \<and>
       (if di_signing_public_key d = None \<or> di_display_name d = [] then w' = w
        else next_random w 64 = zeros 64)"
proof -
  have z: "list_all (\<lambda>b. b = 0) xs \<longleftrightarrow> xs = zeros (length xs)" for xs :: "byte list"
    by (induction xs) (auto simp: zeros_def)
  have nr: "next_random w 64 = next_random w 32 @ next_random (w\<lparr>drawn := drawn w + 32\<rparr>) 32"
    using next_random_add [of w 32 32] by simp
  have zz: "zeros 64 = zeros 32 @ zeros 32" by (simp add: zeros_append)
  show ?thesis
    unfolding nr zz
    by (cases "di_signing_public_key d")
      (auto simp: build_pairing_payload_def bind_act_def generate_pairing_nonce_apply Let_def
        validate_pairing_payload_def z is_ok_iff compute_pairing_Inr)
qed

end
