(* ===== verification/Command_Line.thy ===== *)
theory Command_Line
  imports Console Pairing
begin

text \<open>
  src/crates/meissnerseal-cli/src/main.rs: the commands, over a console (theory Console). Argument
  parsing is the clap package's; \<open>run_command\<close> takes the parsed command. Receiving reads the
  clock four times; these readings are an argument \<open>clk\<close>.
\<close>

subsection \<open>Arguments\<close>

datatype TransferCommands =
    TransferCreate path path path path u64
  | TransferReceive path path path "path option" "path option"

datatype DeviceCommands = DevicePair "byte list" path path path | DeviceList | DeviceRevoke

datatype Commands =
    CmdInit path
  | CmdAdd "byte list" "byte list" path
  | CmdList path
  | CmdGet "byte list" path
  | CmdExport path path
  | CmdImport path path
  | CmdLock
  | CmdTransfer TransferCommands
  | CmdDevice DeviceCommands

definition line_of :: "string \<Rightarrow> byte list" where
  "line_of s = bytes_of s @ [10]"

definition display_path :: "path \<Rightarrow> string" where
  "display_path p = (if p_dir p = [] then p_name p else p_dir p @ ''/'' @ p_name p)"

definition parse_item_kind :: "byte list \<Rightarrow> ItemKind res" where
  "parse_item_kind kind =
     (if kind = bytes_of ''password'' then ok Password
      else if kind = bytes_of ''seed-phrase'' then ok SeedPhrase
      else if kind = bytes_of ''ssh-key'' then ok SshPrivateKey
      else if kind = bytes_of ''api-token'' then ok ApiToken
      else if kind = bytes_of ''secure-note'' then ok SecureNote
      else err (InvalidState (''unknown item kind: '' @ map (\<lambda>b. char_of (unat b)) kind @
        '' (expected password|seed-phrase|ssh-key|api-token|secure-note)'')))"

text \<open>\<open>str::get\<close> is None off the boundaries of characters.\<close>

definition is_char_boundary :: "byte list \<Rightarrow> nat \<Rightarrow> bool" where
  "is_char_boundary s i \<longleftrightarrow> i = 0 \<or> i = length s \<or> (i < length s \<and> \<not> in_rng 0x80 0xBF (s ! i))"

definition str_get :: "byte list \<Rightarrow> nat \<Rightarrow> nat \<Rightarrow> byte list option" where
  "str_get s a b = (if is_char_boundary s a \<and> is_char_boundary s b then get_range s a b else None)"

primrec hex_id_slots :: "byte list \<Rightarrow> nat \<Rightarrow> nat \<Rightarrow> byte list res" where
  "hex_id_slots s i 0 = ok []"
| "hex_id_slots s i (Suc n) =
     and_then (ok_or (checked_mul i 2) (InvalidState ''item id offset overflow'')) (\<lambda>start_at.
     and_then (ok_or (checked_add start_at 2) (InvalidState ''item id offset overflow'')) (\<lambda>end_at.
     and_then (ok_or (str_get s start_at end_at) (InvalidState ''item id truncated'')) (\<lambda>pair.
     and_then (ok_or (parse_uint 16 255 pair)
                 (InvalidState ''item id contains non-hex characters'')) (\<lambda>slot.
     and_then (hex_id_slots s (i + 1) n) (\<lambda>slots. ok (of_nat slot # slots))))))"

definition hex_decode_id :: "byte list \<Rightarrow> byte list res" where
  "hex_decode_id s =
     (if length s \<noteq> 32 then err (InvalidState ''item id must be 32 hexadecimal characters'')
      else hex_id_slots s 0 16)"

definition hex_id :: "byte list \<Rightarrow> string" where
  "hex_id i = hex_of i"

primrec item_kind_name :: "ItemKind \<Rightarrow> string" where
  "item_kind_name Password = ''Password''"
| "item_kind_name SeedPhrase = ''SeedPhrase''"
| "item_kind_name SshPrivateKey = ''SshPrivateKey''"
| "item_kind_name ApiToken = ''ApiToken''"
| "item_kind_name SecureNote = ''SecureNote''"

definition render_item_summary :: "ItemSummary \<Rightarrow> byte list" where
  "render_item_summary s =
     bytes_of (hex_id (is_id s)) @ [9] @ bytes_of (escape_default (is_label s)) @ [9] @
     bytes_of (item_kind_name (is_kind s)) @ [10]"

primrec render_item_summaries :: "ItemSummary list \<Rightarrow> byte list" where
  "render_item_summaries [] = []"
| "render_item_summaries (s # summaries) = render_item_summary s @ render_item_summaries summaries"

subsection \<open>Prompts\<close>

definition read_password_from_stdin :: "byte list cli" where
  "read_password_from_stdin = bind_cli read_line (\<lambda>line. lift_cli (ok (trim_line_end line)))"

definition prompt_password :: "bool \<Rightarrow> byte list cli" where
  "prompt_password from_stdin = (if from_stdin then read_password_from_stdin else prompt_tty)"

subsection \<open>Vault commands\<close>

definition unlock_session :: "prims \<Rightarrow> path \<Rightarrow> byte list \<Rightarrow> UnlockedVault io" where
  "unlock_session P vault_path password =
     bind_act (lift_rs (vault_open vault_path)) (\<lambda>locked.
     unlock P locked \<lparr>up_path = vault_path, up_password = password\<rparr>)"

definition init_vault_with_passwords :: "prims \<Rightarrow> path \<Rightarrow> byte list \<Rightarrow> byte list \<Rightarrow> unit cli" where
  "init_vault_with_passwords P p password confirm =
     (if password \<noteq> confirm then lift_cli (err (InvalidState ''password confirmation mismatch''))
      else
     bind_cli (do_io (create P \<lparr>cp_path = p, cp_password = password\<rparr>)) (\<lambda>locked.
     write_stdout (line_of (''Created vault: '' @ display_path (lv_path locked)))))"

definition init_vault :: "prims \<Rightarrow> path \<Rightarrow> bool \<Rightarrow> unit cli" where
  "init_vault P p stdin =
     bind_cli (prompt_password stdin) (\<lambda>password.
     bind_cli (prompt_password stdin) (\<lambda>confirm.
     init_vault_with_passwords P p password confirm))"

definition add_item :: "prims \<Rightarrow> path \<Rightarrow> byte list \<Rightarrow> PlainItem \<Rightarrow> unit cli" where
  "add_item P vault_path password it =
     bind_cli (do_io (unlock_session P vault_path password)) (\<lambda>session.
     bind_cli (do_io (add P session it)) (\<lambda>i.
     write_stdout (line_of (''Item ID: '' @ hex_id i))))"

definition add_command :: "prims \<Rightarrow> byte list \<Rightarrow> byte list \<Rightarrow> path \<Rightarrow> bool \<Rightarrow> unit cli" where
  "add_command P label kind_text vault stdin =
     bind_cli (lift_cli (parse_item_kind kind_text)) (\<lambda>kind.
     bind_cli (prompt_password stdin) (\<lambda>password.
     bind_cli (prompt_password stdin) (\<lambda>secret.
     add_item P vault password \<lparr>pi_kind = kind, pi_label = label, pi_tags = [], pi_secret = secret\<rparr>)))"

text \<open>The callback of \<open>with_item\<close> prints; it is the last thing \<open>with_item\<close> does.\<close>

definition get_item :: "prims \<Rightarrow> path \<Rightarrow> byte list \<Rightarrow> byte list \<Rightarrow> unit cli" where
  "get_item P vault_path password i =
     bind_cli (do_io (unlock_session P vault_path password)) (\<lambda>session.
     bind_cli (do_io (with_item P session i (\<lambda>view. ok (pi_secret view)))) (\<lambda>secret.
     bind_cli (write_stdout (line_of ''NOTE: secret printed to stdout'')) (\<lambda>_.
     bind_cli (write_stdout secret) (\<lambda>_.
     write_stdout [10]))))"

definition get_command :: "prims \<Rightarrow> byte list \<Rightarrow> path \<Rightarrow> bool \<Rightarrow> unit cli" where
  "get_command P item_id vault stdin =
     bind_cli (lift_cli (hex_decode_id item_id)) (\<lambda>i.
     bind_cli (prompt_password stdin) (\<lambda>password.
     get_item P vault password i))"

definition list_vault :: "prims \<Rightarrow> path \<Rightarrow> byte list \<Rightarrow> byte list io" where
  "list_vault P vault_path password =
     bind_act (unlock_session P vault_path password) (\<lambda>session.
     bind_act (list_items P session) (\<lambda>summaries.
     ret (render_item_summaries summaries)))"

definition list_command :: "prims \<Rightarrow> path \<Rightarrow> bool \<Rightarrow> unit cli" where
  "list_command P vault_path stdin =
     bind_cli (prompt_password stdin) (\<lambda>password.
     bind_cli (do_io (list_vault P vault_path password)) (\<lambda>output.
     write_stdout output))"

definition export_bundle_to :: "prims \<Rightarrow> path \<Rightarrow> byte list \<Rightarrow> byte list \<Rightarrow> path \<Rightarrow> unit cli" where
  "export_bundle_to P vault_path password passphrase output =
     bind_cli (do_io (unlock_session P vault_path password)) (\<lambda>session.
     bind_cli (do_io (export_bundle P session passphrase)) (\<lambda>bytes.
     bind_cli (do_io (fs_create_new output)) (\<lambda>_.
     bind_cli (do_io (fs_write_all output bytes)) (\<lambda>_.
     write_stdout (line_of (''Exported encrypted bundle to '' @ display_path output))))))"

definition export_command :: "prims \<Rightarrow> path \<Rightarrow> path \<Rightarrow> bool \<Rightarrow> unit cli" where
  "export_command P output vault stdin =
     bind_cli (prompt_password stdin) (\<lambda>password.
     bind_cli (prompt_password stdin) (\<lambda>passphrase.
     if length passphrase < 12
     then lift_cli (err (InvalidState ''export passphrase must be at least 12 characters (P-02)''))
     else export_bundle_to P vault password passphrase output))"

primrec print_ids :: "byte list list \<Rightarrow> unit cli" where
  "print_ids [] = lift_cli (ok ())"
| "print_ids (i # ids) = bind_cli (write_stdout (line_of (hex_id i))) (\<lambda>_. print_ids ids)"

definition import_bundle_from :: "prims \<Rightarrow> path \<Rightarrow> byte list \<Rightarrow> byte list \<Rightarrow> path \<Rightarrow> unit cli" where
  "import_bundle_from P vault_path password passphrase input =
     bind_cli (do_io (unlock_session P vault_path password)) (\<lambda>session.
     bind_cli (do_io (fs_read input)) (\<lambda>bytes.
     bind_cli (do_io (import_bundle P session bytes passphrase)) (\<lambda>ids.
     print_ids ids)))"

definition import_command :: "prims \<Rightarrow> path \<Rightarrow> path \<Rightarrow> bool \<Rightarrow> unit cli" where
  "import_command P input vault stdin =
     bind_cli (prompt_password stdin) (\<lambda>password.
     bind_cli (prompt_password stdin) (\<lambda>passphrase.
     import_bundle_from P vault password passphrase input))"

subsection \<open>Device key files\<close>

definition KEYPAIR_FILE_KDF_PARAMS :: Argon2Params where
  "KEYPAIR_FILE_KDF_PARAMS = \<lparr>m_cost_kib = 65536, t_cost = 3, p_lanes = 4, output_len = 32\<rparr>"

abbreviation (input) KEYPAIR_FILE_SALT_LEN :: nat where "KEYPAIR_FILE_SALT_LEN \<equiv> 32"

definition device_parse_error :: core_error where
  "device_parse_error = InvalidState ''device file is invalid''"

definition derive_dkek :: "prims \<Rightarrow> byte list \<Rightarrow> byte list \<Rightarrow> key res" where
  "derive_dkek P passphrase salt =
     map_err (derive_device_keypair_key P passphrase salt KEYPAIR_FILE_KDF_PARAMS) Crypto"

definition open_keypair_bytes ::
    "prims \<Rightarrow> pqc_prims \<Rightarrow> byte list \<Rightarrow> byte list \<Rightarrow> (DeviceIdentity \<times> DeviceKeypair) res" where
  "open_keypair_bytes P Q passphrase bytes =
     (if length bytes < KEYPAIR_FILE_SALT_LEN
      then err (InvalidState ''device keypair file is too short'')
      else
     and_then (derive_dkek P passphrase (take 32 bytes)) (\<lambda>dkek.
     map_err (open_keyfile P Q (drop 32 bytes) dkek) device_parse_error))"

definition load_sealed_keypair ::
    "prims \<Rightarrow> pqc_prims \<Rightarrow> path \<Rightarrow> byte list \<Rightarrow> (DeviceIdentity \<times> DeviceKeypair) io" where
  "load_sealed_keypair P Q p passphrase =
     bind_act (fs_read p) (\<lambda>bytes. lift_rs (open_keypair_bytes P Q passphrase bytes))"

definition save_sealed_keypair ::
    "prims \<Rightarrow> path \<Rightarrow> DeviceIdentity \<Rightarrow> DeviceKeypair \<Rightarrow> byte list \<Rightarrow> unit io" where
  "save_sealed_keypair P p d kp passphrase =
     bind_act (random_bytes KEYPAIR_FILE_SALT_LEN) (\<lambda>salt_vec.
     bind_act (lift_rs (if length salt_vec = 32 then ok salt_vec
                        else err (InvalidState ''keypair file salt generation error''))) (\<lambda>salt.
     bind_act (lift_rs (derive_dkek P passphrase salt)) (\<lambda>dkek.
     bind_act (map_err_act (seal_keyfile P d kp dkek) device_parse_error) (\<lambda>sealed.
     fs_write p (salt @ sealed)))))"

definition restrict_owner_only :: "path \<Rightarrow> unit io" where
  "restrict_owner_only p = bind_act (fs_metadata p) (\<lambda>_. fs_set_permissions p)"

subsection \<open>Transfer commands\<close>

definition cli_unix_now_millis :: "u64 io" where
  "cli_unix_now_millis = (\<lambda>w.
     let millis = (if clock_ms w < 0 then 0 else nat (clock_ms w)) in
     (to_u64 millis (InvalidState ''timestamp overflow''), w))"

definition transfer_create_command ::
    "prims \<Rightarrow> pqc_prims \<Rightarrow> path \<Rightarrow> path \<Rightarrow> path \<Rightarrow> path \<Rightarrow> u64 \<Rightarrow> byte list \<Rightarrow> unit cli" where
  "transfer_create_command P Q sender_keypair recipient_identity input output expires_in
       keypair_passphrase =
     bind_cli (do_io (load_sealed_keypair P Q sender_keypair keypair_passphrase))
       (\<lambda>(sender_identity, sender_keypair).
     bind_cli (do_io (fs_read_to_string recipient_identity)) (\<lambda>recipient_text.
     bind_cli (lift_cli (map_err (deserialize_identity_text recipient_text) device_parse_error)) (\<lambda>recipient.
     bind_cli (do_io (fs_read input)) (\<lambda>plaintext.
     bind_cli (do_io cli_unix_now_millis) (\<lambda>now.
     bind_cli (lift_cli (ok_or (checked_mul (unat expires_in) 1000) (InvalidState ''expiry overflow'')))
       (\<lambda>millis.
     bind_cli (lift_cli (ok_or (checked_add (unat now) millis) (InvalidState ''expiry overflow'')))
       (\<lambda>expires_at.
     bind_cli (do_io (map_err_act (create_signed_transfer_envelope P Q (di_device_id sender_identity)
         sender_keypair (Some (di_device_id recipient)) (di_classical_public_key recipient)
         (di_pqc_public_key recipient) plaintext (Some (of_nat expires_at))) Crypto)) (\<lambda>envelope.
     bind_cli (do_io (fs_write output (envelope_to_bytes envelope))) (\<lambda>_.
     write_stdout (line_of (''Transfer envelope written to '' @ display_path output @ ''.'')))))))))))"

definition add_seen :: "path \<Rightarrow> path" where
  "add_seen p = p\<lparr>p_name := p_name p @ ''.seen''\<rparr>"

definition default_seen_ids_path :: "path \<Rightarrow> path option \<Rightarrow> path" where
  "default_seen_ids_path envelope output_path =
     (case output_path of Some p \<Rightarrow> add_seen p | None \<Rightarrow> add_seen envelope)"

definition load_seen_ids :: "path \<Rightarrow> SeenEnvelopeIds io" where
  "load_seen_ids p =
     catch_act (fs_read p) (\<lambda>r. case r of
       Inr bytes \<Rightarrow> lift_rs (map_err (seen_from_bytes bytes) Crypto)
     | Inl f \<Rightarrow> if f = Err (Io IoNotFound) then ret seen_new else lift_rs (Inl f))"

definition release_plaintext :: "path option \<Rightarrow> byte list \<Rightarrow> unit cli" where
  "release_plaintext output_path plaintext =
     (case output_path of
        Some p \<Rightarrow> do_io (fs_write p plaintext)
      | None \<Rightarrow> write_stdout plaintext)"

definition load_trusted_sender :: "path \<Rightarrow> TrustedSender io" where
  "load_trusted_sender sender_identity =
     bind_act (fs_read_to_string sender_identity) (\<lambda>text.
     bind_act (lift_rs (map_err (deserialize_identity_text text) device_parse_error)) (\<lambda>s.
     lift_rs (map_err (from_verified (s\<lparr>di_trust_state := Verified\<rparr>))
       (InvalidState ''sender identity is not in a trusted state''))))"

definition transfer_receive_command ::
    "prims \<Rightarrow> pqc_prims \<Rightarrow> (nat \<Rightarrow> Timestamp) \<Rightarrow> path \<Rightarrow> path \<Rightarrow> path \<Rightarrow> path option \<Rightarrow> path option \<Rightarrow>
     byte list \<Rightarrow> unit cli" where
  "transfer_receive_command P Q clk envelope recipient_keypair sender_identity output_path seen_ids
       keypair_passphrase =
     (let seen_ids_path = (case seen_ids of Some p \<Rightarrow> p
                           | None \<Rightarrow> default_seen_ids_path envelope output_path) in
     bind_cli (do_io (load_seen_ids seen_ids_path)) (\<lambda>seen.
     bind_cli (do_io (fs_read envelope)) (\<lambda>bytes.
     bind_cli (lift_cli (map_err (envelope_from_bytes P (clk 0) bytes) Crypto)) (\<lambda>e.
     bind_cli (do_io (load_sealed_keypair P Q recipient_keypair keypair_passphrase))
       (\<lambda>(recipient_identity, recipient_keypair).
     bind_cli (do_io (load_trusted_sender sender_identity)) (\<lambda>trusted_sender.
     case open_received_transfer_envelope P Q (clk 1) (clk 2) (clk 3) e recipient_keypair
         (di_classical_public_key recipient_identity) trusted_sender seen of
       (r, seen) \<Rightarrow>
     bind_cli (lift_cli (map_err r Crypto)) (\<lambda>plaintext.
     bind_cli (do_io (fs_write seen_ids_path (seen_to_bytes seen))) (\<lambda>_.
     bind_cli (do_io (restrict_owner_only seen_ids_path)) (\<lambda>_.
     release_plaintext output_path plaintext)))))))))"

definition transfer_command ::
    "prims \<Rightarrow> pqc_prims \<Rightarrow> (nat \<Rightarrow> Timestamp) \<Rightarrow> TransferCommands \<Rightarrow> bool \<Rightarrow> unit cli" where
  "transfer_command P Q clk action stdin =
     (case action of
        TransferCreate sender_keypair recipient_identity input output expires_in \<Rightarrow>
          bind_cli (prompt_password stdin) (\<lambda>passphrase.
          transfer_create_command P Q sender_keypair recipient_identity input output expires_in passphrase)
      | TransferReceive envelope recipient_keypair sender_identity output seen_ids \<Rightarrow>
          bind_cli (prompt_password stdin) (\<lambda>passphrase.
          transfer_receive_command P Q clk envelope recipient_keypair sender_identity output seen_ids
            passphrase))"

subsection \<open>Device commands\<close>

definition synthetic_pairing_payload ::
    "prims \<Rightarrow> DeviceIdentity \<Rightarrow> byte list \<Rightarrow> PairingPayload io" where
  "synthetic_pairing_payload P identity pairing_nonce =
     bind_act (map_err_act (build_pairing_payload P identity 1) (InvalidState ''pairing payload failed''))
       (\<lambda>payload.
     ret (payload\<lparr>pp_protocol_version := PAIRING_PROTOCOL_VERSION_V1, pp_pairing_nonce := pairing_nonce\<rparr>))"

text \<open>The loop runs once per line; \<open>n\<close> bounds the number of lines of the input that is left.\<close>

primrec read_lines_until_blank :: "nat \<Rightarrow> byte list \<Rightarrow> byte list cli" where
  "read_lines_until_blank 0 out = lift_cli (ok out)"
| "read_lines_until_blank (Suc n) out =
     bind_cli lines_next (\<lambda>next. case next of
       None \<Rightarrow> lift_cli (ok out)
     | Some line \<Rightarrow>
         if trim_chars (utf8_chars line) = [] then lift_cli (ok out)
         else read_lines_until_blank n (out @ line @ [10]))"

definition read_until_blank_line :: "byte list cli" where
  "read_until_blank_line = (\<lambda>c. read_lines_until_blank (length (cn_stdin c) + 1) [] c)"

text \<open>The dash of the messages is U+2014, here as its UTF-8 bytes.\<close>

definition em_dash :: "byte list" where
  "em_dash = [0xE2, 0x80, 0x94]"

definition pairing_not_confirmed :: core_error where
  "pairing_not_confirmed = InvalidState (''pairing aborted '' @ map (\<lambda>b. char_of (unat b)) em_dash @ '' SAS not confirmed'')"

definition device_pair_command ::
    "prims \<Rightarrow> pqc_prims \<Rightarrow> byte list \<Rightarrow> path \<Rightarrow> path \<Rightarrow> path \<Rightarrow> bool \<Rightarrow> unit cli" where
  "device_pair_command P Q name self_keypair self_identity peer_identity stdin =
     bind_cli (do_io (map_err_act (generate Q name) device_parse_error)) (\<lambda>(identity, keypair).
     let identity_text = serialize_identity_text identity in
     bind_cli (write_stderr (line_of ''=== YOUR IDENTITY (share this with peer) ===''  @ identity_text @
       line_of ''=== PASTE PEER IDENTITY, then blank line ==='')) (\<lambda>_.
     bind_cli read_until_blank_line (\<lambda>peer_block.
     bind_cli (lift_cli (map_err (deserialize_identity_text peer_block) device_parse_error)) (\<lambda>peer.
     bind_cli (do_io (map_err_act (build_pairing_payload P identity 1)
       (InvalidState ''pairing payload failed''))) (\<lambda>payload.
     bind_cli (do_io (synthetic_pairing_payload P peer (pp_pairing_nonce payload))) (\<lambda>peer_payload.
     bind_cli (lift_cli (map_err (compute_pairing_transcript P peer_payload)
       (InvalidState ''pairing transcript failed''))) (\<lambda>transcript.
     bind_cli (lift_cli (map_err (derive_short_authentication_string P (pp_pairing_nonce peer_payload)
       (pt_transcript_hash transcript)) (InvalidState ''pairing SAS failed''))) (\<lambda>sas.
     bind_cli (write_stderr (bytes_of (''SAS: '' @ sas @ '' '') @ em_dash @
       line_of '' verify this matches the other device'' @ bytes_of ''Confirm SAS match? [y/N]: '')) (\<lambda>_.
     bind_cli read_line (\<lambda>confirm.
     if trim_chars (utf8_chars confirm) \<notin> {[121], [89]}
     then lift_cli (err pairing_not_confirmed)
     else
     bind_cli (prompt_password stdin) (\<lambda>passphrase.
     bind_cli (do_io (save_sealed_keypair P self_keypair identity keypair passphrase)) (\<lambda>_.
     bind_cli (do_io (restrict_owner_only self_keypair)) (\<lambda>_.
     bind_cli (do_io (fs_write self_identity identity_text)) (\<lambda>_.
     bind_cli (do_io (fs_write peer_identity (serialize_identity_text peer))) (\<lambda>_.
     bind_cli (write_stderr (line_of (''Device keypair sealed and written to '' @
       display_path self_keypair @ '' (chmod 600 already applied).''))) (\<lambda>_.
     write_stdout (line_of ''Pairing complete.'')))))))))))))))))"

definition device_command ::
    "prims \<Rightarrow> pqc_prims \<Rightarrow> DeviceCommands \<Rightarrow> bool \<Rightarrow> unit cli" where
  "device_command P Q action stdin =
     (case action of
        DevicePair name self_keypair self_identity peer_identity \<Rightarrow>
          device_pair_command P Q name self_keypair self_identity peer_identity stdin
      | DeviceList \<Rightarrow> lift_cli (err (InvalidState ''command is not wired in MVP-0 CLI yet''))
      | DeviceRevoke \<Rightarrow> lift_cli (err (InvalidState ''command is not wired in MVP-0 CLI yet'')))"

subsection \<open>Dispatch\<close>

definition run_command ::
    "prims \<Rightarrow> pqc_prims \<Rightarrow> (nat \<Rightarrow> Timestamp) \<Rightarrow> Commands \<Rightarrow> bool \<Rightarrow> unit cli" where
  "run_command P Q clk command stdin =
     (case command of
        CmdInit p \<Rightarrow> init_vault P p stdin
      | CmdAdd label kind vault \<Rightarrow> add_command P label kind vault stdin
      | CmdList vault \<Rightarrow> list_command P vault stdin
      | CmdGet item_id vault \<Rightarrow> get_command P item_id vault stdin
      | CmdExport output vault \<Rightarrow> export_command P output vault stdin
      | CmdImport input vault \<Rightarrow> import_command P input vault stdin
      | CmdLock \<Rightarrow> write_stdout (line_of ''Vault is locked.'')
      | CmdTransfer action \<Rightarrow> transfer_command P Q clk action stdin
      | CmdDevice action \<Rightarrow> device_command P Q action stdin)"

end
