(* ===== verification/Row_Laws.thy ===== *)
theory Row_Laws
  imports Command_Line
begin

text \<open>
  What the command line prints: item ids in hexadecimal are read back, and the rows of a listing
  stay one per item whatever the labels contain.
\<close>

subsection \<open>Item ids\<close>

lemma ascii_boundary: "list_all (\<lambda>b. unat b < 128) s \<Longrightarrow> i \<le> length s \<Longrightarrow> is_char_boundary s i"
  by (auto simp: is_char_boundary_def in_rng_def list_all_length not_less dest!: spec [of _ i])

lemma hex_encode_ascii: "list_all (\<lambda>b. unat b < 128) (hex_encode i)"
  by (induction i) (simp_all add: hex_encode_Cons hex_pair_ascii)

lemma hex_pair_at:
  assumes "n < length i"
  shows "str_get (hex_encode i) (n * 2) (n * 2 + 2) = Some (bytes_of (hex_byte (i ! n)))"
proof -
  have "take 2 (drop (n * 2) (hex_encode i)) = bytes_of (hex_byte (i ! n))"
    using assms by (induction i arbitrary: n) (auto simp: hex_encode_Cons less_Suc_eq_0_disj)
  then show ?thesis
    using assms ascii_boundary [OF hex_encode_ascii, of _ i]
    by (simp add: str_get_def get_range_def)
qed

lemma hex_id_slots_encode:
  "m + n = length i \<Longrightarrow> length i \<le> 16 \<Longrightarrow> hex_id_slots (hex_encode i) m n = Inr (drop m i)"
proof (induction n arbitrary: m)
  case 0
  then show ?case by simp
next
  case (Suc n)
  then have "m < length i" "checked_mul m 2 = Some (m * 2)" "checked_add (m * 2) 2 = Some (m * 2 + 2)"
    by (simp_all add: usize_max_def)
  then show ?case
    using Suc hex_pair_at [of m i] by (simp add: hex_pair Cons_nth_drop_Suc)
qed

lemma hex_decode_hex_id: "length i = 16 \<Longrightarrow> hex_decode_id (bytes_of (hex_id i)) = Inr i"
  using hex_id_slots_encode [of 0 16 i] by (simp add: hex_decode_id_def hex_id_def hex_encode_def [symmetric])

subsection \<open>Code points\<close>

text \<open>The encoder that \<open>utf8_chars\<close> inverts.\<close>

definition utf8_encode :: "nat \<Rightarrow> byte list" where
  "utf8_encode c =
     (if c < 0x80 then [of_nat c]
      else if c < 0x800 then [of_nat (0xC0 + c div 64), of_nat (0x80 + c mod 64)]
      else if c < 0x10000 then
        [of_nat (0xE0 + c div 4096), of_nat (0x80 + c div 64 mod 64), of_nat (0x80 + c mod 64)]
      else [of_nat (0xF0 + c div 262144), of_nat (0x80 + c div 4096 mod 64),
            of_nat (0x80 + c div 64 mod 64), of_nat (0x80 + c mod 64)])"

lemma byte_is: "unat a = n \<Longrightarrow> of_nat n = (a :: byte)"
  by auto

lemma in_rng_split: "in_rng lo hi a \<Longrightarrow> \<exists>x. unat a = lo + x \<and> lo + x \<le> hi"
  using le_Suc_ex [of lo "unat a"] by (auto simp: in_rng_def)

lemma div_mod_64: "c < 64 \<Longrightarrow> (k * 64 + c) div 64 = k" "c < 64 \<Longrightarrow> (k * 64 + c) mod 64 = (c :: nat)"
  by simp_all

lemma code_point_parts:
  assumes "b < 64" "c < (64 :: nat)"
  shows "(a * 64 + b) div 64 = a" "(a * 64 + b) mod 64 = b"
    and "(a * 4096 + b * 64 + c) div 4096 = a" "(a * 4096 + b * 64 + c) div 64 = a * 64 + b"
    "(a * 4096 + b * 64 + c) mod 64 = c"
proof -
  show "(a * 64 + b) div 64 = a" "(a * 64 + b) mod 64 = b" using assms by simp_all
  have e: "a * 4096 + b * 64 + c = (a * 64 + b) * 64 + c" by simp
  show d: "(a * 4096 + b * 64 + c) div 64 = a * 64 + b" "(a * 4096 + b * 64 + c) mod 64 = c"
    unfolding e using assms(2) by (rule div_mod_64)+
  have "(a * 4096 + b * 64 + c) div 4096 = (a * 4096 + b * 64 + c) div 64 div 64" by (simp add: div_mult2_eq [symmetric])
  then show "(a * 4096 + b * 64 + c) div 4096 = a" unfolding d using assms by simp
qed

lemma utf8_two:
  assumes "in_rng 0xC2 0xDF a" "in_rng 0x80 0xBF b"
  shows "utf8_encode ((unat a - 0xC0) * 64 + (unat b - 0x80)) = [a, b]"
proof -
  obtain x y where x: "unat a = 0xC0 + x" "2 \<le> x" "x < 32" and y: "unat b = 0x80 + y" "y < 64"
    using in_rng_split [OF assms(1)] in_rng_split [OF assms(2)] le_Suc_ex [of "0xC0" "unat a"] by force
  show ?thesis using x(2,3) y(2) byte_is [OF x(1)] byte_is [OF y(1)]
    by (simp add: utf8_encode_def x(1) y(1) code_point_parts)
qed

lemma utf8_three:
  assumes "in_rng 0xE0 0xEF a" "in_rng (if unat a = 0xE0 then 0xA0 else 0x80) hi b" "hi \<le> 0xBF" "in_rng 0x80 0xBF c"
  shows "utf8_encode ((unat a - 0xE0) * 4096 + (unat b - 0x80) * 64 + (unat c - 0x80)) = [a, b, c]"
proof -
  obtain x where x: "unat a = 0xE0 + x" "x < 16"
    using in_rng_split [OF assms(1)] by auto
  obtain z where z: "unat c = 0x80 + z" "z < 64"
    using in_rng_split [OF assms(4)] by auto
  obtain y where y: "unat b = 0x80 + y" "y < 64" "x = 0 \<Longrightarrow> 32 \<le> y"
    using le_Suc_ex [of "0x80" "unat b"] assms(2,3) x(1) by (fastforce simp: in_rng_def split: if_splits)
  have "2048 \<le> x * 4096 + y * 64 + z" "x * 4096 + y * 64 + z < 65536"
    using x(2) y z(2) by (cases "x = 0"; simp)+
  then show ?thesis using x(2) y(2) z(2) byte_is [OF x(1)] byte_is [OF y(1)] byte_is [OF z(1)]
    by (simp add: utf8_encode_def x(1) y(1) z(1) code_point_parts)
qed

lemma utf8_four:
  assumes "in_rng 0xF0 0xF4 a" "in_rng (if unat a = 0xF0 then 0x90 else 0x80) hi b" "hi \<le> 0xBF"
    and "in_rng 0x80 0xBF c" "in_rng 0x80 0xBF d"
  shows "utf8_encode ((unat a - 0xF0) * 262144 + (unat b - 0x80) * 4096 + (unat c - 0x80) * 64 + (unat d - 0x80)) =
    [a, b, c, d]"
proof -
  obtain x where x: "unat a = 0xF0 + x" "x < 5" using in_rng_split [OF assms(1)] by auto
  obtain z where z: "unat c = 0x80 + z" "z < 64" using in_rng_split [OF assms(4)] by auto
  obtain v where v: "unat d = 0x80 + v" "v < 64" using in_rng_split [OF assms(5)] by auto
  obtain y where y: "unat b = 0x80 + y" "y < 64" "x = 0 \<Longrightarrow> 16 \<le> y"
    using le_Suc_ex [of "0x80" "unat b"] assms(2,3) x(1) by (fastforce simp: in_rng_def split: if_splits)
  define n where "n = x * 262144 + y * 4096 + z * 64 + v"
  have n: "65536 \<le> n" unfolding n_def using y by (cases "x = 0") simp_all
  have e: "n = (x * 64 + y) * 4096 + z * 64 + v" by (simp add: n_def)
  have d: "n div 4096 = x * 64 + y" "n div 64 = (x * 64 + y) * 64 + z" "n mod 64 = v"
    unfolding e using z(2) v(2) by (rule code_point_parts)+
  have "n div 262144 = n div 4096 div 64" by (simp add: div_mult2_eq [symmetric])
  then have "n div 262144 = x" "n div 4096 mod 64 = y" "n div 64 mod 64 = z"
    unfolding d by (simp_all only: div_mod_64 y(2) z(2))
  then show ?thesis using n d byte_is [OF x(1)] byte_is [OF y(1)] byte_is [OF z(1)] byte_is [OF v(1)]
    by (simp add: utf8_encode_def x(1) y(1) z(1) v(1) n_def [symmetric])
qed

lemma utf8_encode_chars: "utf8_valid bs \<Longrightarrow> concat (map utf8_encode (utf8_chars bs)) = bs"
proof (induction bs rule: utf8_valid.induct)
  case 1
  then show ?case by simp
next
  case (2 a bs)
  note v = "2.prems"
  consider "unat a < 0x80" | "in_rng 0xC2 0xDF a" | "in_rng 0xE0 0xEF a" | "in_rng 0xF0 0xF4 a"
    using v by (fastforce simp: in_rng_def split: if_splits)
  then show ?case
  proof cases
    assume a: "unat a < 0x80"
    then show ?thesis using "2.IH"(1) v by (simp add: in_rng_def utf8_encode_def)
  next
    assume a: "in_rng 0xC2 0xDF a"
    then have na: "\<not> in_rng 0 0x7F a" by (simp add: in_rng_def)
    obtain b r where b: "bs = b # r" "in_rng 0x80 0xBF b" "utf8_valid r"
      using v a na by (auto split: list.splits)
    show ?thesis
      using "2.IH"(2) [OF na a b(1)] b a utf8_two [OF a b(2)] by (simp add: in_rng_def)
  next
    assume a: "in_rng 0xE0 0xEF a"
    then have na: "\<not> in_rng 0 0x7F a" "\<not> in_rng 0xC2 0xDF a" by (simp_all add: in_rng_def)
    obtain b c r where b: "bs = b # c # r" "in_rng (if unat a = 0xE0 then 0xA0 else 0x80) (if unat a = 0xED then 0x9F else 0xBF) b"
      "in_rng 0x80 0xBF c" "utf8_valid r"
      using v a na by (auto split: list.splits)
    show ?thesis
      using "2.IH"(3) [OF na a b(1) refl] b(1,4) a utf8_three [OF a b(2) _ b(3)] by (simp add: in_rng_def)
  next
    assume a: "in_rng 0xF0 0xF4 a"
    then have na: "\<not> in_rng 0 0x7F a" "\<not> in_rng 0xC2 0xDF a" "\<not> in_rng 0xE0 0xEF a" by (simp_all add: in_rng_def)
    obtain b c d r where b: "bs = b # c # d # r" "in_rng (if unat a = 0xF0 then 0x90 else 0x80) (if unat a = 0xF4 then 0x8F else 0xBF) b"
      "in_rng 0x80 0xBF c" "in_rng 0x80 0xBF d" "utf8_valid r"
      using v a na by (auto split: list.splits)
    show ?thesis
      using "2.IH"(4) [OF na a b(1) refl refl] b(1,5) a utf8_four [OF a b(2) _ b(3,4)] by (simp add: in_rng_def)
  qed
qed

lemma utf8_chars_single: "list_all (\<lambda>b. unat b < 128) s \<Longrightarrow> utf8_chars s = map unat s"
  by (induction s) simp_all

lemma utf8_chars_inj: "utf8_valid s \<Longrightarrow> utf8_valid t \<Longrightarrow> utf8_chars s = utf8_chars t \<longleftrightarrow> s = t"
  by (metis utf8_encode_chars)

lemma utf8_valid_append: "utf8_valid s \<Longrightarrow> utf8_valid (s @ t) \<longleftrightarrow> utf8_valid t"
proof (induction s rule: utf8_valid.induct)
  case 1
  then show ?case by simp
next
  case (2 a bs)
  note v = "2.prems"
  consider "in_rng 0 0x7F a" | "in_rng 0xC2 0xDF a" | "in_rng 0xE0 0xEF a" | "in_rng 0xF0 0xF4 a"
    using v by (fastforce split: if_splits)
  then show ?case
  proof cases
    assume a: "in_rng 0 0x7F a"
    then show ?thesis using "2.IH"(1) v by simp
  next
    assume a: "in_rng 0xC2 0xDF a"
    then have na: "\<not> in_rng 0 0x7F a" by (simp add: in_rng_def)
    obtain b r where b: "bs = b # r" "in_rng 0x80 0xBF b" "utf8_valid r"
      using v a na by (auto split: list.splits)
    show ?thesis using "2.IH"(2) [OF na a b(1) b(3)] b(1,2) a na by simp
  next
    assume a: "in_rng 0xE0 0xEF a"
    then have na: "\<not> in_rng 0 0x7F a" "\<not> in_rng 0xC2 0xDF a" by (simp_all add: in_rng_def)
    obtain b c r where b: "bs = b # c # r" "in_rng (if unat a = 0xE0 then 0xA0 else 0x80) (if unat a = 0xED then 0x9F else 0xBF) b"
      "in_rng 0x80 0xBF c" "utf8_valid r"
      using v a na by (auto split: list.splits)
    show ?thesis using "2.IH"(3) [OF na a b(1) refl b(4)] b(1,2,3) a na by simp
  next
    assume a: "in_rng 0xF0 0xF4 a"
    then have na: "\<not> in_rng 0 0x7F a" "\<not> in_rng 0xC2 0xDF a" "\<not> in_rng 0xE0 0xEF a" by (simp_all add: in_rng_def)
    obtain b c d r where b: "bs = b # c # d # r" "in_rng (if unat a = 0xF0 then 0x90 else 0x80) (if unat a = 0xF4 then 0x8F else 0xBF) b"
      "in_rng 0x80 0xBF c" "in_rng 0x80 0xBF d" "utf8_valid r"
      using v a na by (auto split: list.splits)
    show ?thesis using "2.IH"(4) [OF na a b(1) refl refl b(5)] b(1-4) a na by simp
  qed
qed

subsection \<open>Escapes\<close>

definition hex_char_val :: "char \<Rightarrow> nat" where
  "hex_char_val c = the (digit_val (of_char c))"

lemma hex_char_val: "n < 16 \<Longrightarrow> hex_char_val (hex_digit n) = n"
  by (simp add: hex_char_val_def hex_digit_lower)

definition hex_chars :: "char set" where
  "hex_chars = set ''0123456789abcdef''"

lemma hex_digit_char: "n < 16 \<Longrightarrow> hex_digit n \<in> hex_chars"
  unfolding hex_digit_def hex_chars_def by (rule nth_mem) simp

lemma hex_num_val: "foldl (\<lambda>a c. a * 16 + hex_char_val c) 0 (hex_num n) = n"
proof (induction n rule: hex_num.induct)
  case (1 n)
  show ?case
  proof (cases "n < 16")
    case True
    then show ?thesis by (subst hex_num.simps) (simp add: hex_char_val)
  next
    case False
    then show ?thesis using 1 by (subst hex_num.simps) (simp add: hex_char_val)
  qed
qed

lemma hex_num_chars: "set (hex_num n) \<subseteq> hex_chars"
proof (induction n rule: hex_num.induct)
  case (1 n)
  then show ?case
    by (subst hex_num.simps) (simp add: hex_digit_char)
qed

text \<open>The reader of one escaped character.\<close>

definition unescape :: "string \<Rightarrow> nat \<times> string" where
  "unescape s =
     (if hd s \<noteq> CHR 0x5C then (of_char (hd s), tl s)
      else if hd (tl s) = CHR ''t'' then (9, tl (tl s))
      else if hd (tl s) = CHR ''r'' then (13, tl (tl s))
      else if hd (tl s) = CHR ''n'' then (10, tl (tl s))
      else if hd (tl s) = CHR ''u'' then
        (foldl (\<lambda>a c. a * 16 + hex_char_val c) 0 (takeWhile (\<lambda>c. c \<noteq> CHR 0x7D) (drop 3 s)),
         tl (dropWhile (\<lambda>c. c \<noteq> CHR 0x7D) (drop 3 s)))
      else (of_char (hd (tl s)), tl (tl s)))"

lemma char_of_eq: "c < 256 \<Longrightarrow> of_char (char_of c :: char) = (c :: nat)"
  by simp

lemma char_ne: "c < 256 \<Longrightarrow> of_char k \<noteq> (c :: nat) \<Longrightarrow> (char_of c :: char) \<noteq> k"
  by auto

lemma unescape_plain: "k \<noteq> CHR 0x5C \<Longrightarrow> unescape (k # s) = (of_char k, s)"
  by (simp add: unescape_def)

lemma unescape_unicode:
  assumes "CHR 0x7D \<notin> set h"
  shows "unescape ([CHR 0x5C, CHR ''u'', CHR 0x7B] @ h @ [CHR 0x7D] @ s) =
    (foldl (\<lambda>a c. a * 16 + hex_char_val c) 0 h, s)"
proof -
  have "takeWhile (\<lambda>x. x \<noteq> CHR 0x7D) (h @ CHR 0x7D # s) = h"
    "dropWhile (\<lambda>x. x \<noteq> CHR 0x7D) (h @ CHR 0x7D # s) = CHR 0x7D # s"
    using assms by (induction h) auto
  then show ?thesis by (simp add: unescape_def)
qed

lemma unescape_escape: "unescape (escape_char c @ s) = (c, s)"
proof -
  consider "c \<in> {9, 13, 10}" | "c \<in> {39, 34, 92}" | "c \<notin> {39, 34, 92}" "0x20 \<le> c" "c \<le> 0x7E"
    | "c \<notin> {9, 13, 10, 39, 34, 92}" "\<not> (0x20 \<le> c \<and> c \<le> 0x7E)" by blast
  then show ?thesis
  proof cases
    case 1
    then show ?thesis by (elim insertE emptyE) (simp_all add: escape_char_def unescape_def)
  next
    case 2
    moreover have "(char_of (39 :: nat) :: char) = CHR 0x27" "(char_of (34 :: nat) :: char) = CHR 0x22"
      "(char_of (92 :: nat) :: char) = CHR 0x5C" by code_simp+
    ultimately show ?thesis by (elim insertE emptyE) (simp_all add: escape_char_def unescape_def)
  next
    case 3
    then have "(char_of c :: char) \<noteq> CHR 0x5C" by (intro char_ne) auto
    moreover have "escape_char c = [char_of c]" using 3 by (auto simp: escape_char_def)
    ultimately show ?thesis using 3 by (simp add: unescape_plain)
  next
    case 4
    have "CHR 0x7D \<notin> set (hex_num c)" using hex_num_chars [of c] by (auto simp: hex_chars_def)
    moreover have "escape_char c = [CHR 0x5C, CHR ''u'', CHR 0x7B] @ hex_num c @ [CHR 0x7D]"
      using 4 by (simp add: escape_char_def)
    ultimately show ?thesis using unescape_unicode [of "hex_num c" s] by (simp add: hex_num_val)
  qed
qed

lemma escape_char_not_Nil: "escape_char c \<noteq> []"
  by (simp add: escape_char_def)

lemma escape_char_inj: "escape_char c @ x = escape_char d @ y \<longleftrightarrow> c = d \<and> x = y"
  by (metis unescape_escape Pair_inject)

lemma escape_chars_inj: "concat (map escape_char cs) = concat (map escape_char ds) \<longleftrightarrow> cs = ds"
proof (induction cs arbitrary: ds)
  case Nil
  then show ?case using escape_char_not_Nil by (cases ds) auto
next
  case (Cons c cs)
  then show ?case by (cases ds) (simp_all add: escape_char_not_Nil escape_char_inj)
qed

lemma escape_default_inj: "utf8_valid s \<Longrightarrow> utf8_valid t \<Longrightarrow> escape_default s = escape_default t \<longleftrightarrow> s = t"
  by (simp add: escape_default_def escape_chars_inj utf8_chars_inj)

definition printable :: "string \<Rightarrow> bool" where
  "printable s \<longleftrightarrow> list_all (\<lambda>c. 32 \<le> (of_char c :: nat) \<and> (of_char c :: nat) \<le> 126) s"

lemma printable_simps [simp]: "printable []" "printable (s @ t) \<longleftrightarrow> printable s \<and> printable t"
  "printable (c # s) \<longleftrightarrow> 32 \<le> (of_char c :: nat) \<and> (of_char c :: nat) \<le> 126 \<and> printable s"
  by (simp_all add: printable_def)

lemma printable_hex: "set s \<subseteq> hex_chars \<Longrightarrow> printable s"
proof -
  have "\<forall>c \<in> hex_chars. 32 \<le> (of_char c :: nat) \<and> (of_char c :: nat) \<le> 126"
    unfolding hex_chars_def by simp
  then show "set s \<subseteq> hex_chars \<Longrightarrow> printable s" unfolding printable_def list_all_iff by blast
qed

lemma escape_printable: "printable (escape_default s)"
proof -
  have "printable (escape_char c)" for c
    using printable_hex [OF hex_num_chars, of c] by (simp add: escape_char_def)
  then have "printable (concat (map escape_char cs))" for cs by (induction cs) simp_all
  then show ?thesis by (simp add: escape_default_def)
qed

subsection \<open>Rows\<close>

lemma unat_of_char: "unat (of_char c :: byte) = of_char c"
proof -
  have "(of_char c :: byte) = of_nat (of_char c)" by (simp only: of_nat_of_char)
  moreover have "(of_char c :: nat) < 256" using of_char_mod_256 [of c, where ?'a = nat] by (simp add: mod_eq_self_iff_div_eq_0 div_eq_0_iff)
  ultimately show ?thesis by (simp only: unat_of_nat) simp
qed

lemma bytes_of_inj: "bytes_of s = bytes_of t \<longleftrightarrow> s = t"
proof -
  have "inj (of_char :: char \<Rightarrow> byte)" by (rule injI) (metis unat_of_char of_char_eq_iff)
  then show ?thesis by (simp add: bytes_of_def inj_map_eq_map)
qed

lemma printable_bytes: "printable s \<Longrightarrow> b \<in> set (bytes_of s) \<Longrightarrow> b \<noteq> 9 \<and> b \<noteq> 10"
proof -
  assume p: "printable s" "b \<in> set (bytes_of s)"
  then obtain c where c: "c \<in> set s" "b = of_char c" by (auto simp: bytes_of_def)
  then have "unat b = of_char c" by (simp add: unat_of_char)
  moreover have "32 \<le> (of_char c :: nat)" using p(1) c(1) by (simp add: printable_def list_all_iff)
  ultimately have "32 \<le> unat b" by simp
  then show ?thesis by auto
qed

lemma split_at_mark: "k \<notin> set xs \<Longrightarrow> k \<notin> set ys \<Longrightarrow> xs @ k # us = ys @ k # vs \<longleftrightarrow> xs = ys \<and> us = vs"
proof (induction xs arbitrary: ys)
  case Nil
  then show ?case by (cases ys) auto
next
  case (Cons x xs)
  then show ?case by (cases ys) auto
qed

lemma item_kind_name_inj: "item_kind_name k = item_kind_name l \<longleftrightarrow> k = l"
  by (cases k; cases l) simp_all

lemma item_kind_name_printable: "printable (item_kind_name k)"
  by (cases k) simp_all

definition summary_fields :: "ItemSummary \<Rightarrow> byte list \<times> byte list \<times> ItemKind" where
  "summary_fields s = (is_id s, is_label s, is_kind s)"

definition listable :: "ItemSummary \<Rightarrow> bool" where
  "listable s \<longleftrightarrow> length (is_id s) = 16 \<and> utf8_valid (is_label s)"

lemma render_row_inj:
  assumes "listable s" "listable t"
  shows "render_item_summary s @ us = render_item_summary t @ vs \<longleftrightarrow> summary_fields s = summary_fields t \<and> us = vs"
proof -
  have n: "9 \<notin> set (bytes_of (escape_default l))" "10 \<notin> set (bytes_of (item_kind_name k))" for l k
    using printable_bytes [OF escape_printable] printable_bytes [OF item_kind_name_printable] by blast+
  have "length (bytes_of (hex_id (is_id s))) = length (bytes_of (hex_id (is_id t)))"
    using assms by (simp add: listable_def hex_id_def)
  then show ?thesis
    using assms unfolding render_item_summary_def listable_def summary_fields_def
    by (simp add: append_eq_append_conv split_at_mark n bytes_of_inj escape_default_inj item_kind_name_inj hex_id_def hex_of_inj)
qed

lemma render_row_not_Nil [simp]: "render_item_summary s \<noteq> []"
  by (simp add: render_item_summary_def)

lemma render_inj:
  assumes "list_all listable ss" "list_all listable ts"
  shows "render_item_summaries ss = render_item_summaries ts \<longleftrightarrow> map summary_fields ss = map summary_fields ts"
  using assms
proof (induction ss arbitrary: ts)
  case Nil
  then show ?case by (cases ts) simp_all
next
  case (Cons s ss)
  then show ?case by (cases ts) (simp_all add: render_row_inj)
qed

end
