(* ===== verification/Item_Laws.thy ===== *)
theory Item_Laws
  imports Item_Store
begin

text \<open>
  The item payload format and the frames of items: exactly which bytes decode to which item, and
  that \<open>read_item\<close> reads what \<open>build_item_frame\<close> writes (\<open>item_frame\<close>).
\<close>

subsection \<open>Payload round trip\<close>

definition payload_ok :: "PlainItem \<Rightarrow> bool" where
  "payload_ok it \<longleftrightarrow> length (pi_label it) \<le> 1024 \<and> utf8_valid (pi_label it) \<and>
     length (pi_tags it) \<le> 64 \<and> list_all (\<lambda>t. length t \<le> 256 \<and> utf8_valid t) (pi_tags it) \<and>
     length (pi_secret it) \<le> 65536"

lemma item_kind_roundtrip [simp]: "item_kind_from_u16 (item_kind_as_u16 k) = Inr k"
  by (cases k) (simp_all add: item_kind_from_u16_def)

lemma item_kind_from_u16_Inr: "item_kind_from_u16 v = Inr k \<longleftrightarrow> v = item_kind_as_u16 k"
  by (cases k) (auto simp: item_kind_from_u16_def split: if_splits)

lemma u32_len_Inr [simp]: "u32_len n e = Inr x \<longleftrightarrow> n \<le> u32_max \<and> x = of_nat n"
  by (simp add: u32_len_def)

lemma take_u32_Inr:
  "take_u32 bs c = Inr (n, c') \<longleftrightarrow> n \<le> u32_max \<and> holds_at bs c (u32_le (of_nat n)) \<and> c' = c + 4 \<and> c + 4 \<le> usize_max"
proof -
  have "take_u32 bs c = Inr (n, c') \<longleftrightarrow> (\<exists>x. n = unat x \<and> holds_at bs c (u32_le x) \<and> c' = c + 4 \<and> c + 4 \<le> usize_max)"
    by (fastforce simp: take_u32_def get_range_holds_at split: if_splits)
  also have "\<dots> \<longleftrightarrow> n \<le> u32_max \<and> holds_at bs c (u32_le (of_nat n)) \<and> c' = c + 4 \<and> c + 4 \<le> usize_max"
    by (auto simp: unat_u32_bound intro!: exI [of _ "of_nat n"])
  finally show ?thesis .
qed

lemma take_bytes_Inr:
  "take_bytes bs c n = Inr (x, c') \<longleftrightarrow> holds_at bs c x \<and> length x = n \<and> c' = c + n \<and> c + n \<le> usize_max"
  by (auto simp: take_bytes_def get_range_holds_at)

definition tag_bytes :: "byte list \<Rightarrow> byte list" where
  "tag_bytes t = u32_le (of_nat (length t)) @ t"

lemma length_tag_bytes [simp]: "length (tag_bytes t) = 4 + length t"
  by (simp add: tag_bytes_def)

lemma serialize_tags_Inr:
  "serialize_tags out ts = Inr out' \<longleftrightarrow>
    list_all (\<lambda>t. length t \<le> u32_max) ts \<and> out' = out @ concat (map tag_bytes ts)"
  by (induction ts arbitrary: out) (auto simp: tag_bytes_def)

lemma take_tags_Inr:
  "length bs \<le> usize_max \<Longrightarrow> c \<le> length bs \<Longrightarrow>
    take_tags bs n c tags = Inr (out, c') \<longleftrightarrow>
    (\<exists>ts. out = tags @ ts \<and> length ts = n \<and> list_all (\<lambda>t. length t \<le> 256 \<and> utf8_valid t) ts \<and>
      holds_at bs c (concat (map tag_bytes ts)) \<and> c' = c + length (concat (map tag_bytes ts)))"
proof (induction n arbitrary: c tags)
  case 0
  then show ?case by auto
next
  case (Suc n)
  show ?case (is "?l \<longleftrightarrow> ?r")
  proof
    assume ?l
    then obtain t where t: "length t \<le> 256" "utf8_valid t" "holds_at bs c (u32_le (of_nat (length t)))"
      "holds_at bs (c + 4) t"
      and tl: "take_tags bs n (c + 4 + length t) (tags @ [t]) = Inr (out, c')"
      by (auto simp: take_u32_Inr take_bytes_Inr not_less split: if_splits)
    have b: "c + 4 + length t \<le> length bs" using holds_at_bound [OF t(4)] by simp
    obtain ts where "out = (tags @ [t]) @ ts" "length ts = n"
      "list_all (\<lambda>t. length t \<le> 256 \<and> utf8_valid t) ts"
      "holds_at bs (c + 4 + length t) (concat (map tag_bytes ts))"
      "c' = c + 4 + length t + length (concat (map tag_bytes ts))"
      using tl Suc.IH [OF Suc.prems(1) b, of "tags @ [t]"] by blast
    then show ?r
      using t by (intro exI [of _ "t # ts"]) (simp add: holds_at_append tag_bytes_def [of t] add.assoc)
  next
    assume ?r
    then obtain t ts where r: "out = tags @ t # ts" "length ts = n" "length t \<le> 256" "utf8_valid t"
      "list_all (\<lambda>t. length t \<le> 256 \<and> utf8_valid t) ts"
      "holds_at bs c (tag_bytes t @ concat (map tag_bytes ts))"
      "c' = c + length (tag_bytes t @ concat (map tag_bytes ts))"
      by (auto simp: length_Suc_conv)
    then have h: "holds_at bs c (u32_le (of_nat (length t)))" "holds_at bs (c + 4) t"
      "holds_at bs (c + 4 + length t) (concat (map tag_bytes ts))"
      by (simp_all add: holds_at_append tag_bytes_def [of t] add.assoc)
    have b: "c + 4 + length t \<le> length bs" using holds_at_bound [OF h(2)] by simp
    have 1: "take_u32 bs c = Inr (length t, c + 4)" "take_bytes bs (c + 4) (length t) = Inr (t, c + 4 + length t)"
      using h b r(3) Suc.prems by (simp_all add: take_u32_Inr take_bytes_Inr u32_max_def)
    have 2: "take_tags bs n (c + 4 + length t) (tags @ [t]) = Inr (out, c')"
      using Suc.IH [OF Suc.prems(1) b, of "tags @ [t]"] r h(3) by (simp add: add.assoc)
    show ?l using 1 2 r(3,4) by (simp add: from_utf8_def)
  qed
qed

lemma u16_from_le_eq: "length a = 2 \<Longrightarrow> u16_from_le a = x \<longleftrightarrow> a = u16_le x"
  using u16_le_from [of a] by auto

definition payload_bytes :: "PlainItem \<Rightarrow> byte list" where
  "payload_bytes it = u16_le (item_kind_as_u16 (pi_kind it)) @ tag_bytes (pi_label it) @
     u32_le (of_nat (length (pi_tags it))) @ concat (map tag_bytes (pi_tags it)) @
     tag_bytes (pi_secret it)"

lemma serialize_item_payload_Inr:
  "serialize_item_payload it = Inr bs \<longleftrightarrow>
    length (pi_label it) \<le> u32_max \<and> length (pi_tags it) \<le> u32_max \<and>
    list_all (\<lambda>t. length t \<le> u32_max) (pi_tags it) \<and> length (pi_secret it) \<le> u32_max \<and>
    bs = payload_bytes it"
  by (auto simp: serialize_item_payload_def serialize_tags_Inr payload_bytes_def tag_bytes_def)

lemma deserialize_item_payload_Inr:
  assumes b: "length bs \<le> usize_max"
  shows "deserialize_item_payload bs = Inr it \<longleftrightarrow> payload_ok it \<and> bs = payload_bytes it"
  (is "?l \<longleftrightarrow> ?r")
proof
  assume ?l
  then obtain c1 c2 where h: "holds_at bs 0 (u16_le (item_kind_as_u16 (pi_kind it)))"
    "holds_at bs 2 (u32_le (of_nat (length (pi_label it))))" "holds_at bs 6 (pi_label it)"
    "length (pi_label it) \<le> 1024" "utf8_valid (pi_label it)"
    and tags: "c1 \<le> 64" "holds_at bs (6 + length (pi_label it)) (u32_le (of_nat c1))"
    "take_tags bs c1 (10 + length (pi_label it)) [] = Inr (pi_tags it, c2)"
    and sec: "holds_at bs c2 (u32_le (of_nat (length (pi_secret it))))" "holds_at bs (c2 + 4) (pi_secret it)"
    "length (pi_secret it) \<le> 65536" "c2 + 4 + length (pi_secret it) = length bs"
    unfolding deserialize_item_payload_def
    by (auto simp: take_u32_Inr take_bytes_Inr item_kind_from_u16_Inr not_less ac_simps
        u16_from_le_eq numeral_2_eq_2 [symmetric] split: if_splits)
  have c: "10 + length (pi_label it) \<le> length bs" using holds_at_bound [OF tags(2)] by simp
  have t: "length (pi_tags it) = c1" "list_all (\<lambda>t. length t \<le> 256 \<and> utf8_valid t) (pi_tags it)"
    "holds_at bs (10 + length (pi_label it)) (concat (map tag_bytes (pi_tags it)))"
    "c2 = 10 + length (pi_label it) + length (concat (map tag_bytes (pi_tags it)))"
    using tags(3) unfolding take_tags_Inr [OF b c] by auto
  have "holds_at bs 0 (payload_bytes it)"
    unfolding payload_bytes_def tag_bytes_def [of "pi_label it"] tag_bytes_def [of "pi_secret it"]
      holds_at_append
    using h tags(2) t(1,3) sec(1,2) unfolding t(4)
    by (simp add: ac_simps numeral_2_eq_2 [symmetric])
  moreover have "length bs = length (payload_bytes it)"
    using sec(4) unfolding t(4) by (simp add: payload_bytes_def)
  ultimately have "bs = payload_bytes it" by (rule holds_at_whole)
  then show ?r using h tags(1) t sec by (simp add: payload_ok_def)
next
  assume r: ?r
  then have ok: "payload_ok it" and bs: "bs = payload_bytes it" by simp_all
  let ?n = "length (pi_label it)" and ?t = "concat (map tag_bytes (pi_tags it))"
  have len: "length bs = 14 + ?n + length ?t + length (pi_secret it)"
    using bs by (simp add: payload_bytes_def)
  have h0: "holds_at bs 0 (payload_bytes it)" using bs by simp
  have h: "holds_at bs 0 (u16_le (item_kind_as_u16 (pi_kind it)))"
    "holds_at bs 2 (u32_le (of_nat ?n))" "holds_at bs 6 (pi_label it)"
    "holds_at bs (6 + ?n) (u32_le (of_nat (length (pi_tags it))))"
    "holds_at bs (10 + ?n) ?t" "holds_at bs (10 + ?n + length ?t) (u32_le (of_nat (length (pi_secret it))))"
    "holds_at bs (14 + ?n + length ?t) (pi_secret it)"
    using h0 unfolding payload_bytes_def holds_at_append tag_bytes_def [of "pi_label it"] tag_bytes_def [of "pi_secret it"]
    by (simp_all add: ac_simps numeral_2_eq_2 [symmetric])
  have o: "?n \<le> 1024" "utf8_valid (pi_label it)" "length (pi_tags it) \<le> 64" "length (pi_secret it) \<le> 65536"
    "list_all (\<lambda>t. length t \<le> 256 \<and> utf8_valid t) (pi_tags it)"
    using ok by (simp_all add: payload_ok_def)
  have s: "take_bytes bs 0 2 = Inr (u16_le (item_kind_as_u16 (pi_kind it)), 2)"
    "take_u32 bs 2 = Inr (?n, 6)" "take_bytes bs 6 ?n = Inr (pi_label it, 6 + ?n)"
    "take_u32 bs (6 + ?n) = Inr (length (pi_tags it), 10 + ?n)"
    "take_tags bs (length (pi_tags it)) (10 + ?n) [] = Inr (pi_tags it, 10 + ?n + length ?t)"
    "take_u32 bs (10 + ?n + length ?t) = Inr (length (pi_secret it), 14 + ?n + length ?t)"
    "take_bytes bs (14 + ?n + length ?t) (length (pi_secret it)) =
      Inr (pi_secret it, 14 + ?n + length ?t + length (pi_secret it))"
    using h o len b
    by (simp_all add: take_bytes_Inr take_u32_Inr take_tags_Inr u32_max_def)
  show ?l
    unfolding deserialize_item_payload_def using o
    by (simp add: s len not_less)
qed

subsection \<open>Item frames\<close>

definition item_frame :: "prims \<Rightarrow> key \<Rightarrow> VaultHeader \<Rightarrow> PendingRecord \<Rightarrow> PlainItem \<Rightarrow> bool" where
  "item_frame P k h r it \<longleftrightarrow> (\<exists>f env rek.
     let aad = item_record_aad h (pr_record_id r) (pr_revision_id r) RECORD_KIND_ITEM in
     stored_frame_wf f \<and> serialize_record_frame f (rf_stored_aad f) = Inr (pr_frame_bytes r) \<and>
     rf_record_id f = pr_record_id r \<and> rf_revision_id f = pr_revision_id r \<and>
     envelope_wf env \<and> serialize_item_record_frame_envelope env = Inr (rf_ciphertext f) \<and>
     length rek = 32 \<and> length (payload_bytes it) \<le> u32_max \<and>
     decrypt P k (ie_rek_wrap_nonce env) (ie_wrapped_rek env) aad = Inr rek \<and>
     decrypt P rek (ie_payload_nonce env) (ie_encrypted_payload env) aad = Inr (payload_bytes it))"

text \<open>\<open>quiet w w'\<close>: only the random stream has moved.\<close>

definition quiet :: "world \<Rightarrow> world \<Rightarrow> bool" where
  "quiet w w' \<longleftrightarrow> (\<exists>d. w' = w\<lparr>drawn := d\<rparr>)"

lemma quiet_upd [simp]: "quiet w (w\<lparr>drawn := d\<rparr>)" "quiet w w"
  unfolding quiet_def by (blast, metis world.surjective world.update_convs(2))

lemma quiet_fields:
  "quiet w w' \<Longrightarrow> files w' = files w \<and> faults w' = faults w \<and> calls w' = calls w \<and>
    history w' = history w \<and> clock_ms w' = clock_ms w"
  by (auto simp: quiet_def)

lemma length_item_aad [simp]:
  "header_wf h \<Longrightarrow> length rid = 16 \<Longrightarrow> length rid2 = 16 \<Longrightarrow> length (item_record_aad h rid rid2 k) = 79"
  by (simp add: item_record_aad_def header_wf_def)

lemma build_record_frame_Inr:
  "build_record_frame rid rid2 ct aad w = (Inr fb, w') \<longleftrightarrow>
    length ct \<le> u32_max \<and> w' = w\<lparr>drawn := drawn w + 24\<rparr> \<and>
    serialize_record_frame (wrk_frame rid rid2 (next_random w 24) aad ct) aad = Inr fb"
  by (auto simp: build_record_frame_def bind_act_eq_Inr random_nonce_xchacha20_def wrk_frame_def)

text \<open>What \<open>build_item_frame\<close> seals, with the lengths.\<close>

lemma build_item_frame_run:
  assumes P: "aead_correct P" and k: "length k = 32" and h: "header_wf h"
    and ids: "length rid = 16" "length rid2 = 16"
    and run: "build_item_frame P it k h rid rid2 w = (Inr fb, w')"
  obtains rek pn wn n pct wct eb where "length rek = 32" "length pn = 24" "length wn = 24" "length n = 24"
    "xchacha_seal P rek pn (item_record_aad h rid rid2 RECORD_KIND_ITEM) (payload_bytes it) = Some pct"
    "xchacha_seal P k wn (item_record_aad h rid rid2 RECORD_KIND_ITEM) rek = Some wct"
    "serialize_item_record_frame_envelope
       \<lparr>ie_rek_wrap_nonce = wn, ie_wrapped_rek = wct, ie_payload_nonce = pn, ie_encrypted_payload = pct\<rparr> = Inr eb"
    "serialize_record_frame (wrk_frame rid rid2 n (item_record_aad h rid rid2 RECORD_KIND_ITEM) eb)
       (item_record_aad h rid rid2 RECORD_KIND_ITEM) = Inr fb"
    "quiet w w'" "length eb = 120 + length (payload_bytes it)" "length fb = 268 + length (payload_bytes it)"
proof -
  define aad where "aad = item_record_aad h rid rid2 RECORD_KIND_ITEM"
  define rek where "rek = next_random w 32"
  define pn where "pn = next_random (w\<lparr>drawn := drawn w + 32\<rparr>) 24"
  define wn where "wn = next_random (w\<lparr>drawn := 56 + drawn w\<rparr>) 24"
  define n where "n = next_random (w\<lparr>drawn := 80 + drawn w\<rparr>) 24"
  have l: "length rek = 32" "length pn = 24" "length wn = 24" "length n = 24"
    by (simp_all add: rek_def pn_def wn_def n_def)
  obtain pct wct eb where e1: "xchacha_seal P rek pn aad (payload_bytes it) = Some pct"
    and e2: "xchacha_seal P k wn aad rek = Some wct"
    and env: "serialize_item_record_frame_envelope
        \<lparr>ie_rek_wrap_nonce = wn, ie_wrapped_rek = wct, ie_payload_nonce = pn,
         ie_encrypted_payload = pct\<rparr> = Inr eb"
    and fr: "build_record_frame rid rid2 eb aad (w\<lparr>drawn := 80 + drawn w\<rparr>) = (Inr fb, w')"
    using run
    by (auto simp: build_item_frame_def Let_def bind_act_eq_Inr random_bytes_def encrypt_Inr
        serialize_item_payload_Inr aad_def [symmetric] rek_def [symmetric] pn_def [symmetric]
        wn_def [symmetric] split: prod.splits)
  have fs: "serialize_record_frame (wrk_frame rid rid2 n aad eb) aad = Inr fb" "w' = w\<lparr>drawn := 104 + drawn w\<rparr>"
    using fr by (simp_all add: build_record_frame_Inr n_def)
  have "length aad = 79" unfolding aad_def by (rule length_item_aad [OF h ids])
  moreover have "length pct = length (payload_bytes it) + 16" "length wct = 48"
    using aead_correctD [OF P l(1,2) e1] aead_correctD [OF P k l(3) e2] l by simp_all
  then have eb: "length eb = 120 + length (payload_bytes it)"
    using env l by (auto simp: serialize_item_envelope_Inr)
  ultimately have "length fb = 268 + length (payload_bytes it)"
    using fs(1) ids by (auto simp: serialize_record_frame_Inr wrk_frame_def)
  moreover have "quiet w w'" using fs(2) by (auto simp: quiet_def)
  ultimately show thesis using that l e1 e2 env fs(1) eb unfolding aad_def by blast
qed

lemma build_item_frame_spec:
  assumes P: "aead_correct P" and k: "length k = 32" and h: "header_wf h"
    and ids: "length rid = 16" "length rid2 = 16"
    and run: "build_item_frame P it k h rid rid2 w = (Inr fb, w')" and len: "length fb \<le> u32_max"
  shows "quiet w w' \<and> item_frame P k h \<lparr>pr_record_id = rid, pr_record_kind = RECORD_KIND_ITEM,
    pr_revision_id = rid2, pr_frame_bytes = fb\<rparr> it"
proof -
  let ?aad = "item_record_aad h rid rid2 RECORD_KIND_ITEM"
  obtain rek pn wn n pct wct eb where l: "length rek = 32" "length pn = 24" "length wn = 24" "length n = 24"
    and e1: "xchacha_seal P rek pn ?aad (payload_bytes it) = Some pct"
    and e2: "xchacha_seal P k wn ?aad rek = Some wct"
    and env: "serialize_item_record_frame_envelope
       \<lparr>ie_rek_wrap_nonce = wn, ie_wrapped_rek = wct, ie_payload_nonce = pn, ie_encrypted_payload = pct\<rparr> = Inr eb"
    and fs: "serialize_record_frame (wrk_frame rid rid2 n ?aad eb) ?aad = Inr fb" "quiet w w'"
    and eb: "length eb = 120 + length (payload_bytes it)" "length fb = 268 + length (payload_bytes it)"
    by (rule build_item_frame_run [OF P k h ids run])
  let ?env = "\<lparr>ie_rek_wrap_nonce = wn, ie_wrapped_rek = wct, ie_payload_nonce = pn, ie_encrypted_payload = pct\<rparr>"
  let ?f = "wrk_frame rid rid2 n ?aad eb"
  have "stored_frame_wf ?f"
    using ids length_item_aad [OF h ids] len eb l by (simp add: stored_frame_wf_def frame_wf_def wrk_frame_def)
  moreover have "rf_stored_aad ?f = ?aad" "rf_record_id ?f = rid" "rf_revision_id ?f = rid2"
    "rf_ciphertext ?f = eb" by (simp_all add: wrk_frame_def)
  moreover have "envelope_wf ?env" using l by (simp add: envelope_wf_def)
  moreover have "decrypt P k wn wct ?aad = Inr rek" by (rule decrypt_sealed [OF P k l(3) e2])
  moreover have "decrypt P rek pn pct ?aad = Inr (payload_bytes it)" by (rule decrypt_sealed [OF P l(1,2) e1])
  moreover have "length (payload_bytes it) \<le> u32_max" using len eb(2) by simp
  ultimately show ?thesis
    unfolding item_frame_def Let_def using fs env l(1)
    by (intro conjI exI [of _ ?f] exI [of _ ?env] exI [of _ rek]) simp_all
qed

lemma read_item_spec:
  assumes fr: "item_frame P (uk_item_wrap_key (uv_keys s)) h r it" and h: "header_wf h"
    and ld: "ld_header ld = h" "ld_bytes ld = bs"
    and e: "te_record_id e = pr_record_id r" "te_revision_id e = pr_revision_id r"
      "unat (te_frame_len e) = length (pr_frame_bytes r)"
      "holds_at bs (unat (te_frame_offset e)) (pr_frame_bytes r)"
  shows "read_item P s ld e = deserialize_item_payload (payload_bytes it)"
proof -
  let ?aad = "item_record_aad h (pr_record_id r) (pr_revision_id r) RECORD_KIND_ITEM"
  obtain f env rek where f: "stored_frame_wf f"
      "serialize_record_frame f (rf_stored_aad f) = Inr (pr_frame_bytes r)"
      "rf_record_id f = pr_record_id r" "rf_revision_id f = pr_revision_id r"
    and env: "envelope_wf env" "serialize_item_record_frame_envelope env = Inr (rf_ciphertext f)"
    and d: "length rek = 32"
      "decrypt P (uk_item_wrap_key (uv_keys s)) (ie_rek_wrap_nonce env) (ie_wrapped_rek env) ?aad = Inr rek"
      "decrypt P rek (ie_payload_nonce env) (ie_encrypted_payload env) ?aad = Inr (payload_bytes it)"
    using fr unfolding item_frame_def Let_def by blast
  have off: "unat (te_frame_offset e) \<le> length bs" using holds_at_bound [OF e(4)] by simp
  obtain rest where rest: "drop (unat (te_frame_offset e)) bs = pr_frame_bytes r @ rest"
    using e(4) unfolding holds_at_def by (metis append_take_drop_id)
  have pf: "parse_record_frame (drop (unat (te_frame_offset e)) bs) (te_frame_len e) 1 = Inr f"
    unfolding rest by (rule parse_record_frame_complete [OF f(1,2) e(3)])
  have pe: "parse_item_record_frame_envelope (rf_ciphertext f) = Inr env"
    by (rule parse_item_envelope_complete [OF env])
  have prof: "vh_aead_profile h = 1" using h by (simp add: header_wf_def suite_pinned_def)
  show ?thesis
    unfolding read_item_def Let_def
    using ld e(1,2) off pf pe prof f(3,4) d by (simp add: get_from_def)
qed

end
