(* ===== verification/Item_Records.thy ===== *)
theory Item_Records
  imports Item_Laws
begin

text \<open>
  Lists of records in a vault file: how \<open>layout_records\<close> places their frames, what
  \<open>load_vault\<close> and \<open>unlock_bytes\<close> read back from a file that represents such a list
  (\<open>vault_repr\<close>), and that \<open>rewrite_vault\<close> writes a file that represents the staged list.
\<close>

subsection \<open>The records of a vault file\<close>

text \<open>Where the frames of a list of records lie, one behind the other from an offset on.\<close>

definition entry_at :: "nat \<Rightarrow> PendingRecord \<Rightarrow> RecordTableEntry" where
  "entry_at off r = \<lparr>te_record_id = pr_record_id r, te_record_kind = pr_record_kind r,
     te_revision_id = pr_revision_id r, te_frame_offset = of_nat off,
     te_frame_len = of_nat (length (pr_frame_bytes r))\<rparr>"

primrec lay :: "nat \<Rightarrow> PendingRecord list \<Rightarrow> RecordTableEntry list" where
  "lay off [] = []"
| "lay off (r # rs) = entry_at off r # lay (off + length (pr_frame_bytes r)) rs"

definition frames_of :: "PendingRecord list \<Rightarrow> byte list" where
  "frames_of rs = concat (map pr_frame_bytes rs)"

definition rec_ok :: "PendingRecord \<Rightarrow> bool" where
  "rec_ok r \<longleftrightarrow> length (pr_record_id r) = 16 \<and> length (pr_revision_id r) = 16 \<and>
     pr_record_kind r \<noteq> 0 \<and> pr_record_kind r \<noteq> RECORD_KIND_WRAPPED_ROOT_KEY \<and>
     length (pr_frame_bytes r) \<le> u32_max"

lemma frames_of_simps [simp]:
  "frames_of [] = []" "frames_of (r # rs) = pr_frame_bytes r @ frames_of rs"
  "frames_of (rs @ rs') = frames_of rs @ frames_of rs'"
  by (simp_all add: frames_of_def)

lemma length_lay [simp]: "length (lay off rs) = length rs"
  by (induction rs arbitrary: off) simp_all

lemma lay_ids [simp]: "map te_record_id (lay off rs) = map pr_record_id rs"
  by (induction rs arbitrary: off) (simp_all add: entry_at_def)

lemma layout_records_Inr:
  assumes "off \<le> usize_max"
  shows "layout_records rs off es fc = Inr (es', fc') \<longleftrightarrow>
    list_all (\<lambda>r. length (pr_frame_bytes r) \<le> u32_max) rs \<and> off + length (frames_of rs) \<le> usize_max \<and>
    es' = es @ lay off rs \<and> fc' = fc @ frames_of rs"
  using assms
proof (induction rs arbitrary: off es fc)
  case Nil
  then show ?case by auto
next
  case (Cons r rs)
  show ?case
  proof (cases "off + length (pr_frame_bytes r) \<le> usize_max")
    case True
    then show ?thesis
      using Cons.prems by (auto simp: Cons.IH [OF True] entry_at_def add.assoc)
  next
    case False
    then show ?thesis by auto
  qed
qed

lemma lay_props:
  assumes "list_all rec_ok rs" "lo \<le> off" "off + length (frames_of rs) \<le> hi" "hi \<le> usize_max"
  shows "list_all (\<lambda>e. entry_wf e \<and> sealable e \<and> placed lo hi e) (lay off rs) \<and>
    sorted_wrt (\<lambda>x y. snd x \<le> fst y) (map extent (lay off rs)) \<and>
    (\<forall>x \<in> set (map extent (lay off rs)). off \<le> fst x)"
  using assms
proof (induction rs arbitrary: off)
  case Nil
  then show ?case by simp
next
  case (Cons r rs)
  let ?off = "off + length (pr_frame_bytes r)"
  have e: "extent (entry_at off r) = (off, ?off)"
    using Cons.prems by (simp add: extent_def entry_at_def rec_ok_def)
  have IH: "list_all (\<lambda>e. entry_wf e \<and> sealable e \<and> placed lo hi e) (lay ?off rs)"
    "sorted_wrt (\<lambda>x y. snd x \<le> fst y) (map extent (lay ?off rs))"
    "\<forall>x \<in> set (map extent (lay ?off rs)). ?off \<le> fst x"
    using Cons.IH [of ?off] Cons.prems by simp_all
  have "entry_wf (entry_at off r)" "sealable (entry_at off r)"
    using Cons.prems by (simp_all add: entry_wf_def sealable_def entry_at_def rec_ok_def)
  moreover have "placed lo hi (entry_at off r)" using Cons.prems by (simp add: placed_def e)
  moreover have "\<forall>x \<in> set (map extent (lay ?off rs)). off \<le> fst x"
    using IH(3) by (meson add_leD1)
  ultimately show ?case using IH by (simp add: e)
qed

lemma lay_ok:
  assumes "list_all rec_ok rs" "distinct (map pr_record_id rs)"
    "lo \<le> off" "off + length (frames_of rs) \<le> hi" "hi \<le> usize_max"
  shows "entries_ok lo hi (lay off rs)" and "overlap_free (sort_key fst (map extent (lay off rs)))"
proof -
  note p = lay_props [OF assms(1,3-5)]
  show "entries_ok lo hi (lay off rs)" using p assms(2) by (simp add: entries_ok_def)
  have "sorted_wrt (\<lambda>x y. fst x \<le> fst y) (map extent (lay off rs))"
    using conjunct1 [OF conjunct2 [OF p]]
    by (rule sorted_wrt_mono_rel [rotated]) (auto simp: extent_def)
  then have s: "sort_key fst (map extent (lay off rs)) = map extent (lay off rs)"
    by (intro sort_key_id_if_sorted) (simp add: sorted_wrt_map)
  have "list_all (\<lambda>(a, b). a \<le> b) (map extent (lay off rs))"
    by (auto simp: list_all_iff extent_def)
  then show "overlap_free (sort_key fst (map extent (lay off rs)))"
    using p by (simp add: s overlap_free_sorted_wrt)
qed

lemma lay_frame:
  assumes "list_all rec_ok rs" "holds_at bs off (frames_of rs)" "length bs \<le> usize_max" "i < length rs"
  shows "holds_at bs (unat (te_frame_offset (lay off rs ! i))) (pr_frame_bytes (rs ! i)) \<and>
    unat (te_frame_len (lay off rs ! i)) = length (pr_frame_bytes (rs ! i)) \<and>
    te_record_id (lay off rs ! i) = pr_record_id (rs ! i) \<and>
    te_record_kind (lay off rs ! i) = pr_record_kind (rs ! i) \<and>
    te_revision_id (lay off rs ! i) = pr_revision_id (rs ! i)"
  using assms
proof (induction rs arbitrary: off i)
  case Nil
  then show ?case by simp
next
  case (Cons r rs)
  have h: "holds_at bs off (pr_frame_bytes r)" "holds_at bs (off + length (pr_frame_bytes r)) (frames_of rs)"
    using Cons.prems(2) by (simp_all add: holds_at_append)
  have "off \<le> usize_max" using holds_at_bound [OF h(1)] Cons.prems(3) by simp
  then show ?case
    using Cons h by (cases i) (simp_all add: entry_at_def rec_ok_def)
qed

subsection \<open>Vault files that represent records\<close>

definition vault_repr ::
    "prims \<Rightarrow> byte list \<Rightarrow> UnlockedKeys \<Rightarrow> byte list \<Rightarrow> VaultHeader \<Rightarrow> byte list \<Rightarrow> PendingRecord list \<Rightarrow> bool" where
  "vault_repr P pw keys bs h fb recs \<longleftrightarrow> (\<exists>f n sec.
     vault_layout bs h f fb sec (frames_of recs) \<and> rf_stored_aad f = wrk_aad h f \<and>
     derive_session_keys P pw (vh_vault_id h) (vh_header_nonce h) 1 (vh_kdf_params h)
       (rf_ciphertext f) (rf_nonce f) (wrk_aad h f) = Inr keys \<and> keys_wf keys \<and>
     list_all rec_ok recs \<and> distinct (map pr_record_id recs) \<and> length recs \<le> u32_max \<and>
     length n = 24 \<and> sealed_section P (lay (173 + length fb + length sec) recs)
       (uk_metadata_key keys) (vh_vault_id h) n sec)"

definition table_start :: "byte list \<Rightarrow> PendingRecord list \<Rightarrow> nat" where
  "table_start fb recs = 173 + length fb + (48 + 46 * bucket (length recs))"

definition loaded_vault :: "byte list \<Rightarrow> VaultHeader \<Rightarrow> byte list \<Rightarrow> PendingRecord list \<Rightarrow> LoadedVault" where
  "loaded_vault bs h fb recs = \<lparr>ld_bytes = bs, ld_header = h, ld_wrk_frame_offset = 173,
     ld_wrk_frame_len = length fb, ld_entries = lay (table_start fb recs) recs\<rparr>"

lemma rec_ok_entries: "list_all rec_ok recs \<Longrightarrow> list_all entry_wf (lay off recs)"
  by (induction recs arbitrary: off) (simp_all add: rec_ok_def entry_wf_def entry_at_def)

lemma vault_repr_open:
  assumes P: "aead_correct P" and r: "vault_repr P pw keys bs h fb recs"
  obtains f sec where "vault_layout bs h f fb sec (frames_of recs)" "rf_stored_aad f = wrk_aad h f"
    "derive_session_keys P pw (vh_vault_id h) (vh_header_nonce h) 1 (vh_kdf_params h)
       (rf_ciphertext f) (rf_nonce f) (wrk_aad h f) = Inr keys"
    "length sec = 48 + 46 * bucket (length recs)"
    "holds_at bs (table_start fb recs) (frames_of recs)"
    "open_sealed_record_table_v2 P bs (173 + length fb) (length sec) (uk_metadata_key keys)
      (vh_vault_id h) 2 (173 + length fb) (length bs) = Inr (lay (table_start fb recs) recs)"
proof -
  obtain f n sec where v: "vault_layout bs h f fb sec (frames_of recs)" "rf_stored_aad f = wrk_aad h f"
    and k: "derive_session_keys P pw (vh_vault_id h) (vh_header_nonce h) 1 (vh_kdf_params h)
       (rf_ciphertext f) (rf_nonce f) (wrk_aad h f) = Inr keys" "keys_wf keys"
    and o: "list_all rec_ok recs" "distinct (map pr_record_id recs)" "length recs \<le> u32_max" "length n = 24"
    and s: "sealed_section P (lay (173 + length fb + length sec) recs) (uk_metadata_key keys) (vh_vault_id h) n sec"
    using r unfolding vault_repr_def by blast
  have ls: "length sec = 48 + 46 * bucket (length recs)"
    using length_sealed_section [OF P _ o(4) rec_ok_entries [OF o(1)] s] k(2) by (simp add: keys_wf_def)
  then have ts: "173 + length fb + length sec = table_start fb recs" by (simp add: table_start_def)
  note f = vault_layout_facts [OF v(1)]
  have b: "length bs \<le> usize_max" using v(1) unfolding vault_layout_def by blast
  have "entries_ok (max (173 + length fb) (173 + length fb + length sec)) (length bs)
      (lay (173 + length fb + length sec) recs)"
    "overlap_free (sort_key fst (map extent (lay (173 + length fb + length sec) recs)))"
    using lay_ok [OF o(1,2), of "max (173 + length fb) (173 + length fb + length sec)"
        "173 + length fb + length sec" "length bs"] f(1) b by simp_all
  then have "open_sealed_record_table_v2 P bs (173 + length fb) (length sec) (uk_metadata_key keys)
      (vh_vault_id h) 2 (173 + length fb) (length bs) = Inr (lay (table_start fb recs) recs)"
    using k(2) o(3) b unfolding ts
    by (intro open_sealed_complete [OF P _ o(4) s [unfolded ts] f(6)]) (simp_all add: keys_wf_def ts)
  then show ?thesis using that v k(1) ls f(7) ts by metis
qed

lemma read_prefix_u32_at: "holds_at bs off (u32_le x) \<Longrightarrow> off + 4 \<le> usize_max \<Longrightarrow> read_prefix_u32 bs off = Inr (unat x)"
proof -
  assume h: "holds_at bs off (u32_le x)" "off + 4 \<le> usize_max"
  have "get_range bs off (off + 4) = Some (u32_le x)" using h by (simp add: get_range_holds_at)
  then show ?thesis using h by (simp add: read_prefix_u32_def)
qed

lemma load_repr:
  assumes P: "aead_correct P" and r: "vault_repr P pw keys bs h fb recs"
  shows "load_bytes P keys bs = Inr (loaded_vault bs h fb recs)"
proof -
  obtain f sec where v: "vault_layout bs h f fb sec (frames_of recs)"
    and op: "open_sealed_record_table_v2 P bs (173 + length fb) (length sec) (uk_metadata_key keys)
      (vh_vault_id h) 2 (173 + length fb) (length bs) = Inr (lay (table_start fb recs) recs)"
    using vault_repr_open [OF assms] by metis
  note f = vault_layout_facts [OF v]
  have b: "length bs \<le> usize_max" "length sec \<le> u32_max" "vh_schema_profile h = 2"
    using v unfolding vault_layout_def header_wf_def suite_pinned_def by blast+
  have r: "read_prefix_u32 bs 10 = Inr 147" "read_prefix_u32 bs 14 = Inr (length sec)"
    using read_prefix_u32_at [OF f(2)] read_prefix_u32_at [OF f(3)] b by (simp_all add: usize_max_def)
  have u: "173 + length fb \<le> usize_max" using f(1) b by simp
  show ?thesis
    unfolding load_bytes_def using f(8,9,10) r op b u
    by (simp add: loaded_vault_def usize_max_def)
qed

lemma unlock_repr:
  assumes P: "aead_correct P" and r: "vault_repr P pw keys bs h fb recs" and len: "length bs \<le> 67108864"
  shows "unlock_bytes P p pw bs = Inr (session_of p h keys)"
proof -
  obtain f sec where v: "vault_layout bs h f fb sec (frames_of recs)" "rf_stored_aad f = wrk_aad h f"
    "derive_session_keys P pw (vh_vault_id h) (vh_header_nonce h) 1 (vh_kdf_params h)
       (rf_ciphertext f) (rf_nonce f) (wrk_aad h f) = Inr keys"
    "open_sealed_record_table_v2 P bs (173 + length fb) (length sec) (uk_metadata_key keys)
      (vh_vault_id h) 2 (173 + length fb) (length bs) = Inr (lay (table_start fb recs) recs)"
    using vault_repr_open [OF assms(1,2)] by metis
  then show ?thesis by (intro unlock_bytes_layout [OF v(1) len])
qed

subsection \<open>Staging\<close>

lemma existing_frame_lay:
  assumes "length (ld_bytes ld) \<le> usize_max"
    and "holds_at (ld_bytes ld) off (pr_frame_bytes r)" "length (pr_frame_bytes r) \<le> u32_max"
  shows "existing_frame_bytes ld (entry_at off r) = Inr (pr_frame_bytes r)"
proof -
  have "off + length (pr_frame_bytes r) \<le> usize_max" using assms holds_at_bound by fastforce
  moreover have "get_range (ld_bytes ld) off (off + length (pr_frame_bytes r)) = Some (pr_frame_bytes r)"
    using assms by (simp add: get_range_holds_at)
  ultimately show ?thesis
    using assms(3) by (simp add: existing_frame_bytes_def entry_at_def to_usize_def u32_slack)
qed

lemma stage_loop_lay:
  assumes "list_all rec_ok rs" "holds_at (ld_bytes ld) off (frames_of rs)" "length (ld_bytes ld) \<le> usize_max"
  shows "stage_loop ld None (lay off rs) j repl acc = Inr (repl, acc @ rs)"
    and "i < j \<Longrightarrow> stage_loop ld (Some i) (lay off rs) j repl acc = Inr (repl, acc @ rs)"
    and "j \<le> i \<Longrightarrow> i < j + length rs \<Longrightarrow>
      stage_loop ld (Some i) (lay off rs) j (Some r) acc = Inr (None, acc @ rs[i - j := r])"
  using assms
proof (induction rs arbitrary: off j acc repl)
  case Nil
  { case 1 then show ?case by simp next case 2 then show ?case by simp next case 3 then show ?case by simp }
next
  case (Cons x rs)
  have e: "\<lparr>pr_record_id = te_record_id (entry_at off x), pr_record_kind = te_record_kind (entry_at off x),
      pr_revision_id = te_revision_id (entry_at off x), pr_frame_bytes = pr_frame_bytes x\<rparr> = x" for off
    by (simp add: entry_at_def)
  have st: "list_all rec_ok rs \<and> holds_at (ld_bytes ld) (off + length (pr_frame_bytes x)) (frames_of rs) \<and>
      existing_frame_bytes ld (entry_at off x) = Inr (pr_frame_bytes x)"
    if "list_all rec_ok (x # rs)" "holds_at (ld_bytes ld) off (frames_of (x # rs))" "length (ld_bytes ld) \<le> usize_max" for off
    using that by (simp add: holds_at_append existing_frame_lay rec_ok_def)
  { case 1
    then show ?case using st [OF 1] Cons.IH(1) by (simp add: e) }
  { case 2
    then show ?case using st [OF 2(2-)] Cons.IH(2) by (simp add: e) }
  { case 3
    show ?case
    proof (cases "i = j")
      case True
      then show ?thesis using 3 st [OF 3(3-)] Cons.IH(2) by simp
    next
      case False
      then have "i - j = Suc (i - Suc j)" using 3 by simp
      then show ?thesis using 3 False st [OF 3(3-)] Cons.IH(3) by (simp add: e)
    qed }
qed

lemma position_from_Some:
  "position_from Q xs j = Some i \<longleftrightarrow> j \<le> i \<and> i < j + length xs \<and> Q (xs ! (i - j)) \<and> (\<forall>k < i - j. \<not> Q (xs ! k))"
proof (induction xs arbitrary: j)
  case Nil
  then show ?case by simp
next
  case (Cons x xs)
  show ?case
  proof (cases "Q x")
    case True
    then show ?thesis by (auto simp: nth_Cons' )
  next
    case False
    have "(j \<le> i \<and> i < j + length (x # xs) \<and> Q ((x # xs) ! (i - j)) \<and> (\<forall>k < i - j. \<not> Q ((x # xs) ! k))) \<longleftrightarrow>
      (Suc j \<le> i \<and> i < Suc j + length xs \<and> Q (xs ! (i - Suc j)) \<and> (\<forall>k < i - Suc j. \<not> Q (xs ! k)))"
      (is "?l \<longleftrightarrow> ?r")
    proof
      assume l: ?l
      then have "i \<noteq> j" using False by auto
      then obtain m where "i = Suc j + m" using l by (metis less_natE nat_less_le add_Suc_shift add_Suc_right add.commute)
      then show ?r using l by (auto simp: nth_Cons')
    next
      assume r: ?r
      then obtain m where m: "i = Suc j + m" using le_Suc_ex by blast
      have "\<not> Q ((x # xs) ! k)" if "k < Suc m" for k
        using that r False m by (cases k) auto
      then show ?l using r m by auto
    qed
    then show ?thesis using False Cons.IH by simp
  qed
qed

lemma position_from_None: "position_from Q xs j = None \<longleftrightarrow> (\<forall>x \<in> set xs. \<not> Q x)"
  by (induction xs arbitrary: j) auto

lemma position_from_lay:
  "(\<And>off r. Q (entry_at off r) = R r) \<Longrightarrow> position_from Q (lay off rs) j = position_from R rs j"
  by (induction rs arbitrary: off j) simp_all

subsection \<open>Rewriting\<close>

text \<open>Only the random stream and the log of calls have moved.\<close>

definition settled :: "world \<Rightarrow> world \<Rightarrow> bool" where
  "settled w w' \<longleftrightarrow> evolves (\<lambda>s. s = files w) w w'"

lemma settled_files: "settled w w' \<Longrightarrow> files w' = files w"
  by (simp add: settled_def evolves_def)

lemma settled_trans: "settled w v \<Longrightarrow> settled v u \<Longrightarrow> settled w u"
  using settled_files [of w v] unfolding settled_def by (auto intro: evolves_trans)

lemma bind_act_assoc: "bind_act (bind_act m f) g = bind_act m (\<lambda>x. bind_act (f x) g)"
  by (auto simp: bind_act_def fun_eq_iff split: prod.splits sum.splits)

text \<open>The bytes \<open>rewrite_vault\<close> writes, and the seed of its temporary file.\<close>

definition rewrite_image ::
    "prims \<Rightarrow> UnlockedVault \<Rightarrow> LoadedVault \<Rightarrow> PendingRecord list \<Rightarrow> (byte list \<times> byte list) io" where
  "rewrite_image P session loaded records =
     bind_act (lift_rs (ok_or (get_range (ld_bytes loaded) HEADER_MIN_LEN (ld_wrk_frame_offset loaded))
                 (Format ''header section out of bounds''))) (\<lambda>header_bytes.
     bind_act (lift_rs (ok_or (checked_add (ld_wrk_frame_offset loaded) (ld_wrk_frame_len loaded))
                 (Format ''WRK frame bounds overflow''))) (\<lambda>wrk_end.
     bind_act (lift_rs (ok_or (get_range (ld_bytes loaded) (ld_wrk_frame_offset loaded) wrk_end)
                 (Format ''WRK frame out of bounds''))) (\<lambda>wrk_bytes.
     bind_act (lift_rs (sealed_record_table_padded_plaintext_len (length records))) (\<lambda>padded_plaintext_len.
     bind_act (lift_rs (ok_or (checked_add SEALED_TABLE_SECTION_OVERHEAD padded_plaintext_len)
                 (Format ''sealed table length overflow''))) (\<lambda>table_section_len.
     bind_act (lift_rs (ok_or (checked_add wrk_end table_section_len)
                 (Format ''frame offset overflow''))) (\<lambda>next_offset.
     bind_act (lift_rs (layout_records records next_offset [] [])) (\<lambda>(entries, frames_concat).
     bind_act (serialize_sealed_record_table_v2 P entries (uk_metadata_key (uv_keys session))
                 (vh_vault_id (ld_header loaded)) (vh_schema_profile (ld_header loaded))) (\<lambda>table_bytes.
     bind_act (lift_rs (if length table_bytes \<noteq> table_section_len
                 then err (Format ''sealed table section length mismatch'') else ok ())) (\<lambda>_.
     bind_act (lift_rs (ok_or (Option.bind (checked_add (length wrk_bytes) (length table_bytes))
                           (\<lambda>l. checked_add l (length frames_concat)))
                 (Format ''body length overflow''))) (\<lambda>body_len.
     bind_act (lift_rs (u32_len (length header_bytes) ''header length overflow'')) (\<lambda>hl.
     bind_act (lift_rs (u32_len (length table_bytes) ''record table length overflow'')) (\<lambda>tl.
     bind_act (lift_rs (to_u64 body_len (Format ''body length overflow''))) (\<lambda>bl.
     bind_act (lift_rs (serialize_prefix FORMAT_VERSION hl tl bl)) (\<lambda>prefix.
     bind_act fresh_id (\<lambda>unique_seed.
     ret (prefix @ header_bytes @ wrk_bytes @ table_bytes @ frames_concat, unique_seed))))))))))))))))"

lemma rewrite_vault_image:
  "rewrite_vault P s ld recs = bind_act (rewrite_image P s ld recs)
     (\<lambda>(bs, seed). persist_vault_mutation_v2 (uv_path s) bs seed)"
  unfolding rewrite_vault_def rewrite_image_def Let_def bind_act_assoc
  by (simp add: bind_act_assoc case_prod_unfold)

lemma within_fresh_id [simp]: "within Q fresh_id"
  by (simp add: fresh_id_def)

lemma within_rewrite_image [simp]: "within Q (rewrite_image P s ld recs)"
  unfolding rewrite_image_def
  by (intro within_bind within_lift within_seal_table within_fresh_id; simp split: prod.split)
     (intro allI impI within_bind within_lift within_seal_table within_fresh_id)

lemma rewrite_image_repr:
  assumes P: "aead_correct P" and r: "vault_repr P pw keys bs h fb recs"
    and k: "uv_keys s = keys"
    and ids: "list_all (\<lambda>r. length (pr_record_id r) = 16 \<and> length (pr_revision_id r) = 16 \<and>
      pr_record_kind r \<notin> {0, RECORD_KIND_WRAPPED_ROOT_KEY}) recs'"
    and run: "rewrite_image P s (loaded_vault bs h fb recs) recs' w = (Inr (bs', seed), w')"
  shows "list_all rec_ok recs'" and "distinct (map pr_record_id recs') \<Longrightarrow> vault_repr P pw keys bs' h fb recs'"
proof -
  obtain f sec where v: "vault_layout bs h f fb sec (frames_of recs)" "rf_stored_aad f = wrk_aad h f"
    "derive_session_keys P pw (vh_vault_id h) (vh_header_nonce h) 1 (vh_kdf_params h)
       (rf_ciphertext f) (rf_nonce f) (wrk_aad h f) = Inr keys"
    using vault_repr_open [OF P r] by metis
  have kw: "keys_wf keys" using r unfolding vault_repr_def by blast
  note f = vault_layout_facts [OF v(1)]
  have b: "length bs \<le> usize_max" "vh_schema_profile h = 2" "header_wf h"
    using v(1) unfolding vault_layout_def header_wf_def suite_pinned_def by blast+
  have lh: "length (header_tlvs h) = 147" using b(3) length_header_tlvs by blast
  have g: "get_range bs 26 173 = Some (header_tlvs h)" "get_range bs 173 (173 + length fb) = Some fb"
    using f(4,5) lh by (simp_all add: get_range_holds_at)
  let ?off = "table_start fb recs'"
  obtain sec' w1 where q: "4 + 46 * bucket (length recs') \<le> usize_max" "?off \<le> usize_max"
    and lay: "layout_records recs' ?off [] [] = Inr (lay ?off recs', frames_of recs')"
      "list_all (\<lambda>r. length (pr_frame_bytes r) \<le> u32_max) recs'" "?off + length (frames_of recs') \<le> usize_max"
    and sl: "serialize_sealed_record_table_v2 P (lay ?off recs') (uk_metadata_key keys) (vh_vault_id h) 2 w = (Inr sec', w1)"
    and ls: "length sec' = 48 + 46 * bucket (length recs')" "length sec' \<le> u32_max"
    and bs': "bs' = MAGIC @ u16_le 1 @ u32_le (of_nat 147) @ u32_le (of_nat (length sec')) @
      u64_le (of_nat (length fb + length sec' + length (frames_of recs'))) @ header_tlvs h @ fb @ sec' @ frames_of recs'"
    using run unfolding rewrite_image_def
    by (auto simp: bind_act_eq_Inr loaded_vault_def g padded_len_Inr layout_records_Inr table_start_def k b
        lh bind_eq_Some_conv  split: prod.splits if_splits simp del: of_nat_add)
  show ok: "list_all rec_ok recs'"
    using ids lay(2) by (auto simp: rec_ok_def list_all_iff)
  note wf = rec_ok_entries [OF ok, of ?off]
  have sec: "sealed_section P (lay ?off recs') (uk_metadata_key keys) (vh_vault_id h) (next_random w 24) sec'"
    "length recs' \<le> u32_max"
    using sl unfolding serialize_sealed_Inr [OF wf] by simp_all
  have ts: "173 + length fb + length sec' = ?off" by (simp add: table_start_def ls)
  assume d: "distinct (map pr_record_id recs')"
  have "vault_layout bs' h f fb sec' (frames_of recs')"
    unfolding vault_layout_def
  proof (intro conjI)
    show "bs' = prefix_bytes 147 (length sec') (length fb + length sec' + length (frames_of recs')) @
      header_tlvs h @ fb @ sec' @ frames_of recs'"
      unfolding bs' prefix_bytes_def by simp
    then show "length bs' \<le> usize_max" using lay(3) lh ts by simp
    show "header_wf h" "stored_frame_wf f" "serialize_record_frame f (rf_stored_aad f) = Inr fb"
      using v(1) unfolding vault_layout_def by blast+
  qed (rule ls(2))
  then show "vault_repr P pw keys bs' h fb recs'"
    unfolding vault_repr_def using v(2,3) kw ok d sec ts
    by (intro exI [of _ f] exI [of _ "next_random w 24"] exI [of _ sec']) simp
qed

end
