(* ===== verification/Item_Refinement.thy ===== *)
theory Item_Refinement
  imports Item_Records
begin

text \<open>
  The item operations refine operations on a table of items (\<open>stores\<close>): \<open>add\<close> appends,
  \<open>update\<close> replaces, \<open>delete\<close> removes, \<open>list_items\<close> and \<open>with_item\<close> read, under every pattern of
  I/O failures (\<open>atomic_update\<close>); the locale \<open>atomic_store\<close> lifts this to sequences of
  operations.
\<close>

subsection \<open>Vault files that store items\<close>

text \<open>The items of a vault: an id and the item, or \<open>None\<close> once it is deleted.\<close>

type_synonym item_table = "(byte list \<times> PlainItem option) list"

definition rec_item :: "prims \<Rightarrow> key \<Rightarrow> VaultHeader \<Rightarrow> PendingRecord \<Rightarrow> byte list \<times> PlainItem option \<Rightarrow> bool" where
  "rec_item P k h r x \<longleftrightarrow> pr_record_id r = fst x \<and>
     (case snd x of Some it \<Rightarrow> pr_record_kind r = RECORD_KIND_ITEM \<and> item_frame P k h r it
      | None \<Rightarrow> pr_record_kind r = RECORD_KIND_TOMBSTONE)"

definition stores ::
    "prims \<Rightarrow> byte list \<Rightarrow> UnlockedKeys \<Rightarrow> VaultHeader \<Rightarrow> byte list \<Rightarrow> item_table \<Rightarrow> bool" where
  "stores P pw keys h bs tbl \<longleftrightarrow> (\<exists>fb recs. vault_repr P pw keys bs h fb recs \<and>
     list_all2 (rec_item P (uk_item_wrap_key keys) h) recs tbl)"

definition live :: "item_table \<Rightarrow> (byte list \<times> PlainItem) list" where
  "live tbl = concat (map (\<lambda>(i, x). case x of None \<Rightarrow> [] | Some it \<Rightarrow> [(i, it)]) tbl)"

definition put :: "byte list \<Rightarrow> PlainItem option \<Rightarrow> item_table \<Rightarrow> item_table" where
  "put i x tbl = map (\<lambda>(j, y). (j, if j = i then x else y)) tbl"

definition summary :: "byte list \<times> PlainItem \<Rightarrow> ItemSummary" where
  "summary x = \<lparr>is_id = fst x, is_kind = pi_kind (snd x), is_label = pi_label (snd x),
     is_tags = pi_tags (snd x)\<rparr>"

lemma live_simps [simp]:
  "live [] = []" "live ((i, None) # tbl) = live tbl" "live ((i, Some it) # tbl) = (i, it) # live tbl"
  "live (tbl @ tbl') = live tbl @ live tbl'"
  by (simp_all add: live_def)

lemma set_live: "(i, it) \<in> set (live tbl) \<longleftrightarrow> (i, Some it) \<in> set tbl"
  by (force simp: live_def split: option.splits)

lemma map_of_live: "distinct (map fst tbl) \<Longrightarrow> map_of (live tbl) i = Some it \<longleftrightarrow> (i, Some it) \<in> set tbl"
proof (induction tbl)
  case Nil
  then show ?case by simp
next
  case (Cons x tbl)
  then show ?case
    by (cases x; cases "snd x") (auto simp: rev_image_eqI set_live)
qed

lemma map_fst_put [simp]: "map fst (put i x tbl) = map fst tbl"
  by (induction tbl) (auto simp: put_def)

lemma stores_ids:
  assumes "stores P pw keys h bs tbl"
  shows "distinct (map fst tbl)" and "list_all (\<lambda>x. length (fst x) = 16) tbl"
proof -
  obtain fb recs where r: "vault_repr P pw keys bs h fb recs"
    "list_all2 (rec_item P (uk_item_wrap_key keys) h) recs tbl"
    using assms unfolding stores_def by blast
  have "map fst tbl = map pr_record_id recs"
    using r(2) by (induction rule: list_all2_induct) (simp_all add: rec_item_def)
  moreover have "distinct (map pr_record_id recs)" "list_all rec_ok recs"
    using r(1) unfolding vault_repr_def by blast+
  ultimately show "distinct (map fst tbl)" "list_all (\<lambda>x. length (fst x) = 16) tbl"
    by (simp_all add: list_all_iff rec_ok_def flip: list.set_map [of fst] image_image)
       (metis (no_types, lifting) imageE image_eqI list.set_map rec_ok_def)
qed

subsection \<open>Operations on such files\<close>

text \<open>
  \<open>atomic_update p G m w\<close>: at every moment of running \<open>m\<close> from \<open>w\<close>, whatever system calls fail,
  the vault file holds what it held, or complete new bytes that satisfy \<open>G\<close>, and no other file
  but one temporary file has changed; if \<open>m\<close> succeeds, the new bytes are in place.
\<close>

definition updating :: "path \<Rightarrow> path \<Rightarrow> (byte list \<Rightarrow> bool) \<Rightarrow> fs_state \<Rightarrow> fs_state \<Rightarrow> bool" where
  "updating tmp p G s0 s \<longleftrightarrow> same_except {tmp, p} s0 s \<and> (s p = s0 p \<or> (\<exists>bs. s p = Some bs \<and> G bs))"

definition atomic_update :: "path \<Rightarrow> (byte list \<Rightarrow> bool) \<Rightarrow> 'a io \<Rightarrow> world \<Rightarrow> bool" where
  "atomic_update p G m w \<longleftrightarrow>
     (\<exists>seed. evolves (updating (unique_tmp_path p seed) p G (files w)) w (snd (m w))) \<and>
     (\<forall>x w'. m w = (Inr x, w') \<longrightarrow> (\<exists>bs. files w' p = Some bs \<and> G bs))"

lemma atomic_persist:
  assumes "G bs"
  shows "atomic_update p G (persist_vault_mutation_v2 p bs seed) w"
proof -
  let ?tmp = "unique_tmp_path p seed"
  have ne: "?tmp \<noteq> p" by (rule tmp_differs)
  have q: "updating ?tmp p G (files w) s" if "published ?tmp p bs (files w) s" for s
    using that published_target [OF that ne] assms by (auto simp: updating_def published_def same_except_def)
  have "evolves (updating ?tmp p G (files w)) w (snd (persist_vault_mutation_v2 p bs seed w))"
    by (rule evolves_mono [OF persist_mutation_cases(1) q])
  moreover have "\<exists>bs. files w' p = Some bs \<and> G bs" if "persist_vault_mutation_v2 p bs seed w = (Inr x, w')" for x w'
    using persist_mutation_cases(2) [of p bs seed w] assms that by simp
  ultimately show ?thesis unfolding atomic_update_def by blast
qed

lemma settled_updating: "settled w w' \<Longrightarrow> evolves (updating tmp p G (files w)) w w'"
  unfolding settled_def by (erule evolves_mono) (simp add: updating_def)

lemma atomic_fail: "settled w w' \<Longrightarrow> m w = (Inl e, w') \<Longrightarrow> atomic_update p G m w"
  unfolding atomic_update_def by (simp add: settled_updating)

lemma atomic_bind:
  assumes q: "\<And>Q. within Q m"
    and k: "\<And>x w'. m w = (Inr x, w') \<Longrightarrow> settled w w' \<Longrightarrow> atomic_update p G (f x) w'"
  shows "atomic_update p G (bind_act m f) w"
proof -
  obtain r w1 where m: "m w = (r, w1)" by fastforce
  have st: "settled w w1"
    unfolding settled_def by (rule withinD [OF q _ m]) simp
  show ?thesis
  proof (cases r)
    case (Inl e)
    then show ?thesis by (intro atomic_fail [OF st]) (simp add: m bind_act_Inl)
  next
    case (Inr x)
    then have a: "atomic_update p G (f x) w1" and b: "bind_act m f w = f x w1"
      using k st m by (simp_all add: bind_act_Inr)
    obtain seed where e: "evolves (updating (unique_tmp_path p seed) p G (files w)) w1 (snd (f x w1))"
      using a unfolding atomic_update_def settled_files [OF st] by blast
    show ?thesis
      using a evolves_trans [OF settled_updating [OF st] e] unfolding atomic_update_def b by blast
  qed
qed

lemma atomic_ret: "atomic_update p G m w \<Longrightarrow> atomic_update p G (bind_act m (\<lambda>_. ret y)) w"
proof -
  assume a: "atomic_update p G m w"
  have "snd (bind_act m (\<lambda>_. ret y) w) = snd (m w)"
    by (cases "m w"; cases "fst (m w)") (auto simp: bind_act_def)
  then show ?thesis using a unfolding atomic_update_def by (auto simp: bind_act_eq_Inr)
qed

lemma atomic_lift:
  "(\<And>x. r = Inr x \<Longrightarrow> atomic_update p G (f x) w) \<Longrightarrow> atomic_update p G (bind_act (lift_rs r) f) w"
  by (rule atomic_bind) auto

lemma within_load_vault [simp]: "within Q (load_vault P s)"
  by (simp add: load_vault_def within_bind)

lemma within_build_record_frame [simp]: "within Q (build_record_frame rid rid2 ct aad)"
  by (simp add: build_record_frame_def within_bind)

lemma within_build_item_frame [simp]: "within Q (build_item_frame P it k h rid rid2)"
  unfolding build_item_frame_def Let_def
  by (intro within_bind; simp add: within_map_err split: prod.split)
     (auto intro!: within_bind within_map_err)

lemma load_stores:
  assumes P: "aead_correct P" and r: "vault_repr P pw (uv_keys s) bs h fb recs"
    and f: "files w (uv_path s) = Some bs"
  shows "load_vault P s w = (Inr ld, w') \<longleftrightarrow> faults w (calls w) = None \<and> ld = loaded_vault bs h fb recs \<and> w' = snapshot w"
  using f load_repr [OF P r] by (auto simp: load_vault_def bind_act_eq_Inr fs_read_Inr)

lemma atomic_rewrite:
  assumes P: "aead_correct P" and r: "vault_repr P pw keys bs h fb recs" and k: "uv_keys s = keys"
    and ids: "list_all (\<lambda>r. length (pr_record_id r) = 16 \<and> length (pr_revision_id r) = 16 \<and>
      pr_record_kind r \<notin> {0, RECORD_KIND_WRAPPED_ROOT_KEY}) recs'" "distinct (map pr_record_id recs')"
    and items: "list_all rec_ok recs' \<Longrightarrow> list_all2 (rec_item P (uk_item_wrap_key keys) h) recs' tbl'"
  shows "atomic_update (uv_path s) (\<lambda>bs'. stores P pw keys h bs' tbl')
    (rewrite_vault P s (loaded_vault bs h fb recs) recs') w"
  unfolding rewrite_vault_image
proof (rule atomic_bind)
  fix x w' assume run: "rewrite_image P s (loaded_vault bs h fb recs) recs' w = (Inr x, w')"
  obtain bs' seed where x: "x = (bs', seed)" by fastforce
  note i = rewrite_image_repr [OF P r k ids(1) run [unfolded x]]
  have "stores P pw keys h bs' tbl'"
    using i(1) i(2) [OF ids(2)] items unfolding stores_def by blast
  then show "atomic_update (uv_path s) (\<lambda>bs'. stores P pw keys h bs' tbl')
    (case x of (bs, seed) \<Rightarrow> persist_vault_mutation_v2 (uv_path s) bs seed) w'"
    unfolding x by (simp add: atomic_persist)
qed simp

lemma fresh_id_Inr: "fresh_id w = (Inr x, w') \<longleftrightarrow> x = next_random w 16 \<and> w' = w\<lparr>drawn := drawn w + 16\<rparr>"
  by (auto simp: fresh_id_def random_bytes_def)

lemma next_random_snapshot [simp]: "next_random (snapshot w) n = next_random w n"
  by (simp add: next_random_def snapshot_def)

lemma repr_header: "aead_correct P \<Longrightarrow> vault_repr P pw keys bs h fb recs \<Longrightarrow>
    header_wf h \<and> length bs \<le> usize_max \<and> keys_wf keys \<and> list_all rec_ok recs \<and> distinct (map pr_record_id recs) \<and>
    holds_at bs (table_start fb recs) (frames_of recs)"
proof -
  assume P: "aead_correct P" and r: "vault_repr P pw keys bs h fb recs"
  have "holds_at bs (table_start fb recs) (frames_of recs)"
    using vault_repr_open [OF P r] by metis
  then show ?thesis using r unfolding vault_repr_def vault_layout_def by blast
qed

lemma stage_repr:
  assumes P: "aead_correct P" and r: "vault_repr P pw keys bs h fb recs"
  shows "stage_records (loaded_vault bs h fb recs) None (Some r) = Inr (recs @ [r])"
    and "i < length recs \<Longrightarrow> stage_records (loaded_vault bs h fb recs) (Some i) (Some r) = Inr (recs[i := r])"
proof -
  note h = repr_header [OF P r]
  have e: "ld_entries (loaded_vault bs h fb recs) = lay (table_start fb recs) recs"
    "ld_bytes (loaded_vault bs h fb recs) = bs" by (simp_all add: loaded_vault_def)
  note sl = stage_loop_lay [where ld = "loaded_vault bs h fb recs" and rs = recs and off = "table_start fb recs",
      unfolded e]
  show "stage_records (loaded_vault bs h fb recs) None (Some r) = Inr (recs @ [r])"
    using sl(1) h by (simp add: stage_records_def e)
  show "stage_records (loaded_vault bs h fb recs) (Some i) (Some r) = Inr (recs[i := r])" if "i < length recs"
    using sl(3) [of 0 i r "[]"] h that by (simp add: stage_records_def e)
qed

lemma ids_of_records:
  "list_all2 (rec_item P k h) recs tbl \<Longrightarrow> map pr_record_id recs = map fst tbl"
  by (induction rule: list_all2_induct) (simp_all add: rec_item_def)

lemma rec_ok_ids:
  "list_all rec_ok recs \<Longrightarrow> list_all (\<lambda>r. length (pr_record_id r) = 16 \<and> length (pr_revision_id r) = 16 \<and>
      pr_record_kind r \<notin> {0, RECORD_KIND_WRAPPED_ROOT_KEY}) recs"
  by (simp add: list_all_iff rec_ok_def)

lemma list_all_update: "list_all Q xs \<Longrightarrow> Q x \<Longrightarrow> list_all Q (xs[i := x])"
  by (auto simp: list_all_iff dest: set_update_subset_insert [THEN subsetD])

lemma add_atomic:
  assumes P: "aead_correct P" and st: "stores P pw keys h bs tbl"
    and s: "uv_path s = p" "uv_keys s = keys" "files w p = Some bs"
    and new: "next_random w 16 \<notin> fst ` set tbl"
  shows "atomic_update p (\<lambda>bs'. stores P pw keys h bs' (tbl @ [(next_random w 16, Some it)])) (add P s it) w \<and>
    (\<forall>i w'. add P s it w = (Inr i, w') \<longrightarrow> i = next_random w 16)"
proof (intro conjI allI impI)
  obtain fb recs where r: "vault_repr P pw keys bs h fb recs"
    and items: "list_all2 (rec_item P (uk_item_wrap_key keys) h) recs tbl"
    using st unfolding stores_def by blast
  note rh = repr_header [OF P r]
  show "atomic_update p (\<lambda>bs'. stores P pw keys h bs' (tbl @ [(next_random w 16, Some it)])) (add P s it) w"
    unfolding add_def
  proof (rule atomic_bind)
    fix ld w1 assume "load_vault P s w = (Inr ld, w1)"
    then have ld: "ld = loaded_vault bs h fb recs" "w1 = snapshot w"
      using load_stores [OF P, of pw s bs h fb recs w ld w1] r s by simp_all
    have hd: "ld_header ld = h" by (simp add: ld loaded_vault_def)
    show "atomic_update p (\<lambda>bs'. stores P pw keys h bs' (tbl @ [(next_random w 16, Some it)]))
      (bind_act fresh_id (\<lambda>record_id. bind_act fresh_id (\<lambda>revision_id.
       bind_act (build_item_frame P it (uk_item_wrap_key (uv_keys s)) (ld_header ld) record_id revision_id) (\<lambda>frame_bytes.
       bind_act (lift_rs (stage_records ld None (Some \<lparr>pr_record_id = record_id, pr_record_kind = 1,
         pr_revision_id = revision_id, pr_frame_bytes = frame_bytes\<rparr>))) (\<lambda>records.
       bind_act (rewrite_vault P s ld records) (\<lambda>_. ret record_id)))))) w1"
    proof (rule atomic_bind [OF within_fresh_id], rule atomic_bind [OF within_fresh_id],
        rule atomic_bind [OF within_build_item_frame], rule atomic_lift)
      fix rid w2 rev w3 fr w4 records
      let ?r = "\<lparr>pr_record_id = rid, pr_record_kind = 1, pr_revision_id = rev, pr_frame_bytes = fr\<rparr>"
      assume f: "fresh_id w1 = (Inr rid, w2)" "fresh_id w2 = (Inr rev, w3)"
        and b: "build_item_frame P it (uk_item_wrap_key (uv_keys s)) (ld_header ld) rid rev w3 = (Inr fr, w4)"
        and "stage_records ld None (Some ?r) = Inr records"
      then have recs': "records = recs @ [?r]"
        using stage_repr(1) [OF P r, of ?r] by (simp add: ld)
      have rid: "rid = next_random w 16" "length rid = 16" "length rev = 16"
        using f by (simp_all add: fresh_id_Inr ld)
      have it: "item_frame P (uk_item_wrap_key keys) h ?r it" if "length fr \<le> u32_max"
        using build_item_frame_spec [OF P _ _ rid(2,3) b that] rh by (simp add: hd s keys_wf_def)
      have "atomic_update p (\<lambda>bs'. stores P pw keys h bs' (tbl @ [(rid, Some it)])) (rewrite_vault P s ld records) w4"
        unfolding s(1) [symmetric] ld recs'
      proof (rule atomic_rewrite [OF P r s(2)])
        show "list_all (\<lambda>r. length (pr_record_id r) = 16 \<and> length (pr_revision_id r) = 16 \<and>
          pr_record_kind r \<notin> {0, 2}) (recs @ [?r])"
          using rec_ok_ids [of recs] rh rid by simp
        show "distinct (map pr_record_id (recs @ [?r]))"
          using rh new rid(1) list.set_map [of fst tbl] by (simp add: ids_of_records [OF items])
        show "list_all2 (rec_item P (uk_item_wrap_key keys) h) (recs @ [?r]) (tbl @ [(rid, Some it)])"
          if "list_all rec_ok (recs @ [?r])"
          using items it that by (auto intro!: list_all2_appendI simp: rec_item_def rec_ok_def)
      qed
      then show "atomic_update p (\<lambda>bs'. stores P pw keys h bs' (tbl @ [(next_random w 16, Some it)]))
        (bind_act (rewrite_vault P s ld records) (\<lambda>_. ret rid)) w4"
        using rid(1) by (simp add: atomic_ret)
    qed
  qed simp
  fix i w' assume "add P s it w = (Inr i, w')"
  then show "i = next_random w 16"
    using load_stores [OF P, of pw s bs h fb recs w] r s
    by (auto simp: add_def bind_act_eq_Inr fresh_id_Inr)
qed

lemma position_live:
  assumes items: "list_all2 (rec_item P k h) recs tbl" and d: "distinct (map fst tbl)"
  shows "live_item_position (loaded_vault bs h fb recs) i = Some n \<longleftrightarrow>
      n < length tbl \<and> (\<exists>it. tbl ! n = (i, Some it))"
    and "live_item_position (loaded_vault bs h fb recs) i = None \<longleftrightarrow> (\<forall>it. (i, Some it) \<notin> set tbl)"
proof -
  let ?R = "\<lambda>r. pr_record_id r = i \<and> pr_record_kind r = 1"
  have pos: "live_item_position (loaded_vault bs h fb recs) i = position_from ?R recs 0"
    unfolding live_item_position_def loaded_vault_def
    by (simp add: position_from_lay [where R = ?R] is_live_item_def entry_at_def)
  have len: "length recs = length tbl" using items by (rule list_all2_lengthD)
  have R: "?R (recs ! n) \<longleftrightarrow> (\<exists>it. tbl ! n = (i, Some it))" if "n < length tbl" for n
    using list_all2_nthD2 [OF items that] by (cases "tbl ! n"; cases "snd (tbl ! n)") (auto simp: rec_item_def)
  show "live_item_position (loaded_vault bs h fb recs) i = Some n \<longleftrightarrow>
      n < length tbl \<and> (\<exists>it. tbl ! n = (i, Some it))" (is "_ \<longleftrightarrow> ?r")
  proof
    assume "live_item_position (loaded_vault bs h fb recs) i = Some n"
    then show ?r using R [of n] by (simp add: pos position_from_Some len)
  next
    assume r: ?r
    have "\<not> ?R (recs ! m)" if "m < n" for m
    proof
      assume "?R (recs ! m)"
      then have "fst (tbl ! m) = fst (tbl ! n)" using R [of m] that r by auto
      then show False using d that r by (simp add: distinct_conv_nth)
    qed
    then show "live_item_position (loaded_vault bs h fb recs) i = Some n"
      using r R [of n] by (simp add: pos position_from_Some len)
  qed
  show "live_item_position (loaded_vault bs h fb recs) i = None \<longleftrightarrow> (\<forall>it. (i, Some it) \<notin> set tbl)"
    unfolding pos position_from_None
    using R len by (metis in_set_conv_nth)
qed

lemma put_nth:
  assumes "distinct (map fst tbl)" "n < length tbl" "fst (tbl ! n) = i"
  shows "put i x tbl = tbl[n := (i, x)]"
proof (rule nth_equalityI)
  fix m assume m: "m < length (put i x tbl)"
  then have m': "m < length tbl" by (simp add: put_def)
  have "fst (tbl ! m) = i \<longleftrightarrow> m = n"
    using assms m' by (auto simp: distinct_conv_nth)
  then show "put i x tbl ! m = tbl[n := (i, x)] ! m"
    using m' by (auto simp: put_def nth_list_update split: prod.splits)
qed (simp add: put_def)

text \<open>What \<open>update\<close> and \<open>delete\<close> share: the record of a live item is replaced.\<close>

lemma atomic_replace:
  assumes P: "aead_correct P" and r: "vault_repr P pw keys bs h fb recs"
    and items: "list_all2 (rec_item P (uk_item_wrap_key keys) h) recs tbl"
    and s: "uv_path s = p" "uv_keys s = keys"
    and n: "n < length tbl" "tbl ! n = (i, Some old)"
    and x: "pr_record_id x = i" "length (pr_revision_id x) = 16" "pr_record_kind x \<notin> {0, 2}"
      "rec_ok x \<Longrightarrow> rec_item P (uk_item_wrap_key keys) h x (i, y)"
    and stage: "stage_records (loaded_vault bs h fb recs) (Some n) (Some x) = Inr recs'"
  shows "atomic_update p (\<lambda>bs'. stores P pw keys h bs' (put i y tbl))
    (rewrite_vault P s (loaded_vault bs h fb recs) recs') w"
  unfolding s(1) [symmetric]
proof (rule atomic_rewrite [OF P r s(2)])
  note rh = repr_header [OF P r]
  have len: "length recs = length tbl" using items by (rule list_all2_lengthD)
  have recs': "recs' = recs[n := x]" using stage stage_repr(2) [OF P r] n(1) len by simp
  have d: "distinct (map fst tbl)" using rh ids_of_records [OF items] by simp
  have id: "pr_record_id (recs ! n) = i"
    using list_all2_nthD2 [OF items n(1)] n(2) by (simp add: rec_item_def)
  have "length i = 16" using rh id n(1) len by (auto simp: list_all_length rec_ok_def)
  then show "list_all (\<lambda>r. length (pr_record_id r) = 16 \<and> length (pr_revision_id r) = 16 \<and>
      pr_record_kind r \<notin> {0, 2}) recs'"
    unfolding recs' using x rh by (intro list_all_update rec_ok_ids) simp_all
  show "distinct (map pr_record_id recs')"
    using rh id x(1) n(1) len by (metis list_update_id map_update recs')
  show "list_all2 (rec_item P (uk_item_wrap_key keys) h) recs' (put i y tbl)" if "list_all rec_ok recs'"
  proof -
    have "x \<in> set recs'" unfolding recs' using n(1) len by (simp add: set_update_memI)
    then have "rec_ok x" using that by (simp add: list_all_iff)
    then show ?thesis
      unfolding recs' put_nth [OF d n(1), of i y, unfolded n(2), simplified]
      using items x(4) by (intro list_all2_update_cong) simp_all
  qed
qed

lemma stores_repr:
  assumes "stores P pw keys h bs tbl"
  obtains fb recs where "vault_repr P pw keys bs h fb recs"
    and "list_all2 (rec_item P (uk_item_wrap_key keys) h) recs tbl" and "distinct (map fst tbl)"
  using assms stores_ids(1) unfolding stores_def by blast

lemma nth_id_length:
  assumes "stores P pw keys h bs tbl" "n < length tbl" "tbl ! n = (i, x)"
  shows "length i = 16"
  using stores_ids(2) [OF assms(1)] assms(2,3) by (fastforce simp: list_all_length)

lemma update_atomic:
  assumes P: "aead_correct P" and st: "stores P pw keys h bs tbl"
    and s: "uv_path s = p" "uv_keys s = keys" "files w p = Some bs"
  shows "atomic_update p (\<lambda>bs'. (\<exists>old. (i, Some old) \<in> set tbl) \<and> stores P pw keys h bs' (put i (Some it) tbl))
    (update P s i it) w"
proof -
  obtain fb recs where r: "vault_repr P pw keys bs h fb recs"
    and items: "list_all2 (rec_item P (uk_item_wrap_key keys) h) recs tbl" and d: "distinct (map fst tbl)"
    using stores_repr [OF st] by blast
  note rh = repr_header [OF P r]
  show ?thesis
    unfolding update_def
  proof (rule atomic_bind [OF within_load_vault], rule atomic_lift, rule atomic_bind [OF within_fresh_id],
      rule atomic_bind [OF within_build_item_frame], rule atomic_lift)
    fix ld w1 n rev w2 fr w3 recs'
    let ?r = "\<lparr>pr_record_id = i, pr_record_kind = 1, pr_revision_id = rev, pr_frame_bytes = fr\<rparr>"
    assume "load_vault P s w = (Inr ld, w1)"
      and pos: "ok_or (live_item_position ld i) (NotFound (id_hex i)) = Inr n"
      and f: "fresh_id w1 = (Inr rev, w2)"
      and b: "build_item_frame P it (uk_item_wrap_key (uv_keys s)) (ld_header ld) i rev w2 = (Inr fr, w3)"
      and sg: "stage_records ld (Some n) (Some ?r) = Inr recs'"
    then have ld: "ld = loaded_vault bs h fb recs" "ld_header ld = h"
      using load_stores [OF P, of pw s bs h fb recs w ld w1] r s by (simp_all add: loaded_vault_def)
    obtain old where n: "n < length tbl" "tbl ! n = (i, Some old)"
      using pos position_live(1) [OF items d] by (auto simp: ld(1))
    have rev: "length rev = 16" using f by (simp add: fresh_id_Inr)
    have it: "item_frame P (uk_item_wrap_key keys) h ?r it" if "length fr \<le> u32_max"
      using build_item_frame_spec [OF P _ _ nth_id_length [OF st n] rev b that] rh
      unfolding ld(2) s(2) by (simp add: keys_wf_def)
    have "atomic_update p (\<lambda>bs'. stores P pw keys h bs' (put i (Some it) tbl)) (rewrite_vault P s ld recs') w3"
      unfolding ld(1)
      using atomic_replace [OF P r items s(1,2) n, of ?r "Some it" recs' w3] sg rev it
      by (simp add: ld(1) rec_item_def rec_ok_def)
    moreover have "\<exists>old. (i, Some old) \<in> set tbl" using n by (metis nth_mem)
    ultimately show "atomic_update p (\<lambda>bs'. (\<exists>old. (i, Some old) \<in> set tbl) \<and>
      stores P pw keys h bs' (put i (Some it) tbl)) (rewrite_vault P s ld recs') w3" by simp
  qed
qed

lemma update_missing:
  assumes P: "aead_correct P" and st: "stores P pw keys h bs tbl"
    and s: "uv_path s = p" "uv_keys s = keys" "files w p = Some bs" "faults w (calls w) = None"
    and no: "\<And>old. (i, Some old) \<notin> set tbl"
  shows "update P s i it w = (err (NotFound (hex_of i)), snapshot w)"
proof -
  obtain fb recs where r: "vault_repr P pw keys bs h fb recs"
    and items: "list_all2 (rec_item P (uk_item_wrap_key keys) h) recs tbl" and d: "distinct (map fst tbl)"
    using stores_repr [OF st] by blast
  have "load_vault P s w = (Inr (loaded_vault bs h fb recs), snapshot w)"
    using load_stores [OF P, of pw s bs h fb recs w] r s by simp
  moreover have "live_item_position (loaded_vault bs h fb recs) i = None"
    using position_live(2) [OF items d] no by blast
  ultimately show ?thesis by (simp add: update_def bind_act_Inr id_hex_def)
qed

lemma delete_atomic:
  assumes P: "aead_correct P" and st: "stores P pw keys h bs tbl"
    and s: "uv_path s = p" "uv_keys s = keys" "files w p = Some bs"
  shows "atomic_update p (\<lambda>bs'. i \<in> fst ` set tbl \<and> stores P pw keys h bs' (put i None tbl)) (delete P s i) w"
proof -
  obtain fb recs where r: "vault_repr P pw keys bs h fb recs"
    and items: "list_all2 (rec_item P (uk_item_wrap_key keys) h) recs tbl" and d: "distinct (map fst tbl)"
    using stores_repr [OF st] by blast
  let ?G = "\<lambda>bs'. i \<in> fst ` set tbl \<and> stores P pw keys h bs' (put i None tbl)"
  show ?thesis
    unfolding delete_def
  proof (rule atomic_bind [OF within_load_vault])
    fix ld w1 assume l: "load_vault P s w = (Inr ld, w1)" "settled w w1"
    then have ld: "ld = loaded_vault bs h fb recs" "ld_header ld = h"
      using load_stores [OF P, of pw s bs h fb recs w ld w1] r s by (simp_all add: loaded_vault_def)
    show "atomic_update p ?G (case live_item_position ld i of
        None \<Rightarrow> if list_ex (\<lambda>e. te_record_id e = i \<and> te_record_kind e = 6) (ld_entries ld)
          then ret () else fail (NotFound (id_hex i))
      | Some position \<Rightarrow> bind_act fresh_id (\<lambda>revision_id.
         let aad = item_record_aad (ld_header ld) i revision_id 6 in
         bind_act (build_record_frame i revision_id [] aad) (\<lambda>tombstone_frame.
         bind_act (lift_rs (stage_records ld (Some position) (Some
            \<lparr>pr_record_id = i, pr_record_kind = 6, pr_revision_id = revision_id,
             pr_frame_bytes = tombstone_frame\<rparr>))) (rewrite_vault P s ld)))) w1"
    proof (cases "live_item_position ld i")
      case None
      have "stores P pw keys h bs (put i None tbl)" if e: "list_ex (\<lambda>e. te_record_id e = i \<and> te_record_kind e = 6) (ld_entries ld)"
      proof -
        have "put i None tbl = tbl"
        proof -
          have "(j, y) \<in> set tbl \<Longrightarrow> j = i \<Longrightarrow> y = None" for j y
            using None position_live(2) [OF items d] by (cases y) (auto simp: ld(1))
          then show ?thesis unfolding put_def by (intro map_idI) (fastforce split: prod.splits)
        qed
        then show ?thesis using st by simp
      qed
      moreover have "i \<in> fst ` set tbl" if "list_ex (\<lambda>e. te_record_id e = i \<and> te_record_kind e = 6) (ld_entries ld)"
      proof -
        have "i \<in> set (map te_record_id (ld_entries ld))" using that by (auto simp: list_ex_iff)
        then show ?thesis by (simp add: ld(1) loaded_vault_def ids_of_records [OF items])
      qed
      moreover have "files w1 p = Some bs" using settled_files [OF l(2)] s(3) by simp
      ultimately show ?thesis
        using None by (auto simp: atomic_update_def evolves_refl updating_def)
    next
      case (Some n)
      obtain old where n: "n < length tbl" "tbl ! n = (i, Some old)"
        using Some position_live(1) [OF items d] by (auto simp: ld(1))
      have "i \<in> fst ` set tbl" using n by (metis fst_conv imageI nth_mem)
      moreover have "atomic_update p (\<lambda>bs'. stores P pw keys h bs' (put i None tbl)) (bind_act fresh_id (\<lambda>revision_id.
         bind_act (build_record_frame i revision_id [] (item_record_aad (ld_header ld) i revision_id 6)) (\<lambda>tombstone_frame.
         bind_act (lift_rs (stage_records ld (Some n) (Some
            \<lparr>pr_record_id = i, pr_record_kind = 6, pr_revision_id = revision_id,
             pr_frame_bytes = tombstone_frame\<rparr>))) (rewrite_vault P s ld)))) w1"
      proof (rule atomic_bind [OF within_fresh_id], rule atomic_bind [OF within_build_record_frame],
          rule atomic_lift)
        fix rev w2 fr w3 recs'
        let ?r = "\<lparr>pr_record_id = i, pr_record_kind = 6, pr_revision_id = rev, pr_frame_bytes = fr\<rparr>"
        assume f: "fresh_id w1 = (Inr rev, w2)" and sg: "stage_records ld (Some n) (Some ?r) = Inr recs'"
        have "length rev = 16" using f by (simp add: fresh_id_Inr)
        then show "atomic_update p (\<lambda>bs'. stores P pw keys h bs' (put i None tbl)) (rewrite_vault P s ld recs') w3"
          using atomic_replace [OF P r items s(1,2) n, of ?r None recs' w3] sg
          by (simp add: ld(1) rec_item_def)
      qed
      ultimately show ?thesis by (simp add: Some)
    qed
  qed
qed

subsection \<open>Reading\<close>

lemma read_item_stored:
  assumes P: "aead_correct P" and r: "vault_repr P pw keys bs h fb recs"
    and items: "list_all2 (rec_item P (uk_item_wrap_key keys) h) recs tbl" and k: "uv_keys s = keys"
    and n: "n < length tbl" "tbl ! n = (i, Some it)"
  shows "read_item P s (loaded_vault bs h fb recs) (lay (table_start fb recs) recs ! n) =
    deserialize_item_payload (payload_bytes it)"
proof -
  note rh = repr_header [OF P r]
  have len: "length recs = length tbl" using items by (rule list_all2_lengthD)
  have "item_frame P (uk_item_wrap_key (uv_keys s)) h (recs ! n) it"
    using list_all2_nthD2 [OF items n(1)] n(2) k by (simp add: rec_item_def)
  then show ?thesis
    using lay_frame [of recs bs "table_start fb recs" n] rh n(1) len
    by (intro read_item_spec [where h = h and r = "recs ! n" and bs = bs]) (simp_all add: loaded_vault_def)
qed

lemma item_frame_payload:
  "item_frame P k h r it \<Longrightarrow> length (payload_bytes it) \<le> u32_max"
  unfolding item_frame_def Let_def by blast

lemma tag_bytes_inj:
  assumes "length s \<le> u32_max" "length t \<le> u32_max"
  shows "tag_bytes s @ xs = tag_bytes t @ ys \<longleftrightarrow> s = t \<and> xs = ys"
  using assms by (auto simp: tag_bytes_def append_eq_append_len) (metis append_eq_append_conv unat_of_nat_u32)+

lemma tags_inj:
  "length ss = length ts \<Longrightarrow> \<forall>t \<in> set ss \<union> set ts. length t \<le> u32_max \<Longrightarrow>
    concat (map tag_bytes ss) @ xs = concat (map tag_bytes ts) @ ys \<longleftrightarrow> ss = ts \<and> xs = ys"
  by (induction ss ts rule: list_induct2) (auto simp: tag_bytes_inj)

lemma length_tags:
  "length ts \<le> length (concat (map tag_bytes ts)) \<and> (\<forall>t \<in> set ts. length t \<le> length (concat (map tag_bytes ts)))"
  by (induction ts) auto

lemma deserialize_stored:
  assumes "length (payload_bytes it) \<le> u32_max"
  shows "deserialize_item_payload (payload_bytes it) = Inr x \<longleftrightarrow> payload_ok it \<and> x = it"
proof -
  have u: "length (payload_bytes it) \<le> usize_max" using assms by (simp add: u32_slack)
  have "x = it" if ok: "payload_ok x" and eq: "payload_bytes it = payload_bytes x"
  proof -
    have b: "length (pi_label it) \<le> u32_max" "length (pi_tags it) \<le> u32_max" "length (pi_secret it) \<le> u32_max"
      "\<forall>t \<in> set (pi_tags it). length t \<le> u32_max"
      using assms length_tags [of "pi_tags it"] by (auto simp: payload_bytes_def)
    have c: "length (pi_label x) \<le> u32_max" "length (pi_tags x) \<le> u32_max" "length (pi_secret x) \<le> u32_max"
      "\<forall>t \<in> set (pi_tags x). length t \<le> u32_max"
      using ok by (auto simp: payload_ok_def list_all_iff u32_max_def)
    have k: "pi_kind it = pi_kind x" "pi_label it = pi_label x"
      and r: "u32_le (of_nat (length (pi_tags it))) = u32_le (of_nat (length (pi_tags x)))"
      "concat (map tag_bytes (pi_tags it)) @ tag_bytes (pi_secret it) =
        concat (map tag_bytes (pi_tags x)) @ tag_bytes (pi_secret x)"
      using eq b c unfolding payload_bytes_def
      by (auto simp: append_eq_append_len tag_bytes_inj) (metis item_kind_roundtrip sum.inject(2))
    have "length (pi_tags it) = length (pi_tags x)"
      using r(1) b(2) c(2) by (metis u32_le_inj unat_of_nat_u32)
    then have "pi_tags it = pi_tags x \<and> tag_bytes (pi_secret it) = tag_bytes (pi_secret x)"
      using tags_inj [of "pi_tags it" "pi_tags x"] r(2) b(4) c(4) by blast
    then show ?thesis
      using k tag_bytes_inj [of "pi_secret it" "pi_secret x" "[]" "[]"] b(3) c(3) by simp
  qed
  then show ?thesis using deserialize_item_payload_Inr [OF u] by auto
qed

lemma list_loop_spec:
  assumes "list_all2 (\<lambda>e x. te_record_id e = fst x \<and>
      (case snd x of None \<Rightarrow> te_record_kind e \<noteq> 1
       | Some it \<Rightarrow> te_record_kind e = 1 \<and> read_item P s ld e = deserialize_item_payload (payload_bytes it) \<and>
           length (payload_bytes it) \<le> u32_max)) es tbl"
  shows "list_loop P s ld es acc = Inr out \<longleftrightarrow>
    list_all (\<lambda>x. payload_ok (snd x)) (live tbl) \<and> out = acc @ map summary (live tbl)"
  using assms
proof (induction arbitrary: acc rule: list_all2_induct)
  case Nil
  then show ?case by auto
next
  case (Cons e es x tbl)
  then show ?case
    by (cases x; cases "snd x") (auto simp: deserialize_stored summary_def)
qed

lemma list_items_spec:
  assumes P: "aead_correct P" and st: "stores P pw keys h bs tbl"
    and s: "uv_path s = p" "uv_keys s = keys" "files w p = Some bs" "faults w (calls w) = None"
  shows "fst (list_items P s w) = Inr out \<longleftrightarrow>
    list_all (\<lambda>x. payload_ok (snd x)) (live tbl) \<and> out = map summary (live tbl)"
proof -
  obtain fb recs where r: "vault_repr P pw keys bs h fb recs"
    and items: "list_all2 (rec_item P (uk_item_wrap_key keys) h) recs tbl" and d: "distinct (map fst tbl)"
    using stores_repr [OF st] by blast
  note rh = repr_header [OF P r]
  have l: "load_vault P s w = (Inr (loaded_vault bs h fb recs), snapshot w)"
    using load_stores [OF P, of pw s bs h fb recs w] r s by simp
  have len: "length recs = length tbl" using items by (rule list_all2_lengthD)
  have "list_all2 (\<lambda>e x. te_record_id e = fst x \<and>
      (case snd x of None \<Rightarrow> te_record_kind e \<noteq> 1
       | Some it \<Rightarrow> te_record_kind e = 1 \<and>
           read_item P s (loaded_vault bs h fb recs) e = deserialize_item_payload (payload_bytes it) \<and>
           length (payload_bytes it) \<le> u32_max)) (lay (table_start fb recs) recs) tbl"
  proof (rule list_all2_all_nthI)
    fix n assume "n < length (lay (table_start fb recs) recs)"
    then have n: "n < length recs" "n < length tbl" using len by simp_all
    obtain i x where x: "tbl ! n = (i, x)" by fastforce
    have f: "te_record_id (lay (table_start fb recs) recs ! n) = pr_record_id (recs ! n)"
      "te_record_kind (lay (table_start fb recs) recs ! n) = pr_record_kind (recs ! n)"
      using lay_frame [of recs bs "table_start fb recs" n] rh n(1) by simp_all
    show "te_record_id (lay (table_start fb recs) recs ! n) = fst (tbl ! n) \<and>
      (case snd (tbl ! n) of None \<Rightarrow> te_record_kind (lay (table_start fb recs) recs ! n) \<noteq> 1
       | Some it \<Rightarrow> te_record_kind (lay (table_start fb recs) recs ! n) = 1 \<and>
           read_item P s (loaded_vault bs h fb recs) (lay (table_start fb recs) recs ! n) =
             deserialize_item_payload (payload_bytes it) \<and>
           length (payload_bytes it) \<le> u32_max)"
    proof (cases x)
      case None
      then show ?thesis using list_all2_nthD2 [OF items n(2)] f x by (simp add: rec_item_def)
    next
      case (Some it)
      have "item_frame P (uk_item_wrap_key keys) h (recs ! n) it" "pr_record_kind (recs ! n) = 1"
        "pr_record_id (recs ! n) = i"
        using list_all2_nthD2 [OF items n(2)] x Some by (simp_all add: rec_item_def)
      then show ?thesis
        using f x Some read_item_stored [OF P r items s(2) n(2), of i it] item_frame_payload by simp
    qed
  qed (simp add: len)
  then show ?thesis
    using l list_loop_spec [of P s "loaded_vault bs h fb recs" "lay (table_start fb recs) recs" tbl "[]" out]
    by (simp add: list_items_def bind_act_Inr loaded_vault_def)
qed

lemma find_lay:
  assumes "position_from Q xs 0 = Some n"
  shows "List.find Q xs = Some (xs ! n)"
  using assms by (subst find_Some_iff) (auto simp: position_from_Some)

lemma position_from_find: "position_from Q xs 0 = None \<Longrightarrow> List.find Q xs = None"
  by (simp add: position_from_None find_None_iff)

lemma with_item_spec:
  assumes P: "aead_correct P" and st: "stores P pw keys h bs tbl"
    and s: "uv_path s = p" "uv_keys s = keys" "files w p = Some bs" "faults w (calls w) = None"
  shows "with_item P s i f w = (case map_of (live tbl) i of
      None \<Rightarrow> err (NotFound (hex_of i))
    | Some it \<Rightarrow> and_then (deserialize_item_payload (payload_bytes it)) f, snapshot w)"
proof -
  obtain fb recs where r: "vault_repr P pw keys bs h fb recs"
    and items: "list_all2 (rec_item P (uk_item_wrap_key keys) h) recs tbl" and d: "distinct (map fst tbl)"
    using stores_repr [OF st] by blast
  have l: "load_vault P s w = (Inr (loaded_vault bs h fb recs), snapshot w)"
    using load_stores [OF P, of pw s bs h fb recs w] r s by simp
  let ?ld = "loaded_vault bs h fb recs"
  have e: "ld_entries ?ld = lay (table_start fb recs) recs" by (simp add: loaded_vault_def)
  show ?thesis
  proof (cases "live_item_position ?ld i")
    case None
    then have "map_of (live tbl) i = None"
      using position_live(2) [OF items d] by (auto simp: map_of_eq_None_iff set_live image_iff)
    moreover have "List.find (is_live_item i) (ld_entries ?ld) = None"
      using None unfolding live_item_position_def by (rule position_from_find)
    ultimately show ?thesis by (simp add: with_item_def bind_act_Inr l id_hex_def)
  next
    case (Some n)
    then obtain it where n: "n < length tbl" "tbl ! n = (i, Some it)"
      using position_live(1) [OF items d] by blast
    have "map_of (live tbl) i = Some it" using map_of_live [OF d] n by (metis nth_mem)
    moreover have "List.find (is_live_item i) (ld_entries ?ld) = Some (lay (table_start fb recs) recs ! n)"
      using Some find_lay unfolding live_item_position_def e by blast
    ultimately show ?thesis
      using read_item_stored [OF P r items s(2) n] by (simp add: with_item_def bind_act_Inr l)
  qed
qed

subsection \<open>Progress\<close>

lemma rewrite_image_ok:
  assumes P: "aead_correct P" "aead_total P" and r: "vault_repr P pw keys bs h fb recs"
    and k: "uv_keys s = keys" and recs': "list_all rec_ok recs'"
    and len: "length recs' \<le> 16777216" "length (frames_of recs') \<le> 4611686018427387904"
  shows "\<exists>bs' seed. rewrite_image P s (loaded_vault bs h fb recs) recs' w = (Inr (bs', seed), w\<lparr>drawn := drawn w + 40\<rparr>)"
proof -
  obtain f sec where v: "vault_layout bs h f fb sec (frames_of recs)"
    using vault_repr_open [OF P(1) r] by metis
  note f = vault_layout_facts [OF v]
  have b: "length bs \<le> usize_max" "vh_schema_profile h = 2" "header_wf h"
    using v unfolding vault_layout_def header_wf_def suite_pinned_def by blast+
  have lk: "length (uk_metadata_key keys) = 32" using r unfolding vault_repr_def keys_wf_def by blast
  have lh: "length (header_tlvs h) = 147" using b(3) length_header_tlvs by blast
  have g: "get_range bs 26 173 = Some (header_tlvs h)" "get_range bs 173 (173 + length fb) = Some fb"
    using f(4,5) lh by (simp_all add: get_range_holds_at)
  let ?n = "bucket (length recs')" and ?off = "table_start fb recs'"
  have n: "?n \<le> 33554432"
    using bucket_spec [of "length recs'"] len(1) by auto
  have lfb: "length fb \<le> 4294967295" using f(10) by (simp add: u32_max_def)
  have q: "?off + length (frames_of recs') \<le> usize_max" "4 + 46 * ?n \<le> usize_max" "?off \<le> usize_max"
    "length recs' \<le> u32_max" "length fb + (48 + 46 * ?n) + length (frames_of recs') \<le> usize_max"
    "length fb + (48 + 46 * ?n) \<le> usize_max"
    using n lfb len by (simp_all add: table_start_def usize_max_def u32_max_def)
  have lay: "layout_records recs' ?off [] [] = Inr (lay ?off recs', frames_of recs')"
    using q recs' by (simp add: layout_records_Inr rec_ok_def list_all_iff)
  note wf = rec_ok_entries [OF recs', of ?off]
  have sealed: "list_all sealable (lay ?off recs')"
    using lay_props [OF recs', of 0 ?off usize_max] q by (simp add: list_all_iff)
  obtain c where c: "xchacha_seal P (uk_metadata_key keys) (next_random w 24) (vh_vault_id h @ u16_le 2)
      (padded_table (lay ?off recs')) = Some c"
    using aead_totalD [OF P(2) lk, of "next_random w 24" "padded_table (lay ?off recs')" "vh_vault_id h @ u16_le 2"]
      wf n by auto
  have lc: "length c = 20 + 46 * ?n" using aead_correctD [OF P(1) lk _ c] wf by simp
  let ?sec = "u32_le (of_nat (24 + length c)) @ next_random w 24 @ c"
  have sl: "serialize_sealed_record_table_v2 P (lay ?off recs') (uk_metadata_key keys) (vh_vault_id h) 2 w =
      (Inr ?sec, w\<lparr>drawn := drawn w + 24\<rparr>)"
    unfolding serialize_sealed_Inr [OF wf] sealed_section_def
    using c q sealed lc n by (simp add: u32_max_def)
  have ls: "length ?sec = 48 + 46 * ?n" using lc by simp
  have pl: "sealed_record_table_padded_plaintext_len (length recs') = Inr (4 + 46 * ?n)"
    using q by (simp add: padded_len_Inr)
  have ca: "checked_add 173 (length fb) = Some (173 + length fb)"
    "checked_add SEALED_TABLE_SECTION_OVERHEAD (4 + 46 * ?n) = Some (48 + 46 * ?n)"
    "checked_add (173 + length fb) (48 + 46 * ?n) = Some ?off"
    "checked_add (length fb) (48 + 46 * ?n) = Some (length fb + (48 + 46 * ?n))"
    "checked_add (length fb + (48 + 46 * ?n)) (length (frames_of recs')) =
      Some (length fb + (48 + 46 * ?n) + length (frames_of recs'))"
    using q by (simp_all add: table_start_def)
  have u: "u32_len 147 e = Inr (of_nat 147)" "u32_len (48 + 46 * ?n) e = Inr (of_nat (48 + 46 * ?n))"
    "to_u64 (length fb + (48 + 46 * ?n) + length (frames_of recs')) e' =
      Inr (of_nat (length fb + (48 + 46 * ?n) + length (frames_of recs')))" for e e'
    using q n unfolding u32_len_Inr to_u64_Inr by (simp_all add: u32_max_def)
  have sp: "serialize_prefix 1 a b c = Inr (MAGIC @ u16_le 1 @ u32_le a @ u32_le b @ u64_le c)" for a b c
    unfolding serialize_prefix_Inr by simp
  have ld: "ld_bytes (loaded_vault bs h fb recs) = bs" "ld_header (loaded_vault bs h fb recs) = h"
    "ld_wrk_frame_offset (loaded_vault bs h fb recs) = 173" "ld_wrk_frame_len (loaded_vault bs h fb recs) = length fb"
    by (simp_all add: loaded_vault_def)
  show ?thesis
    unfolding rewrite_image_def ld g ca pl ok_or_simps bind_act_ret lay k b(2)
    by (simp add: bind_act_def sl ls lc lh u sp ca fresh_id_def random_bytes_def del: of_nat_add)
qed

lemma build_record_frame_ok:
  assumes "length ct \<le> 2147483648 + 120" "length aad = 79" "length rid = 16" "length rid2 = 16"
  shows "\<exists>fb. build_record_frame rid rid2 ct aad w = (Inr fb, w\<lparr>drawn := drawn w + 24\<rparr>) \<and>
    length fb = 148 + length ct"
  using assms by (auto simp: build_record_frame_Inr serialize_record_frame_Inr wrk_frame_def u32_max_def usize_max_def)

lemma payload_fits:
  assumes "length (payload_bytes it) \<le> u32_max"
  shows "serialize_item_payload it = Inr (payload_bytes it)"
proof -
  have "length (concat (map tag_bytes (pi_tags it))) \<le> u32_max" "length (pi_label it) \<le> u32_max"
    "length (pi_secret it) \<le> u32_max"
    using assms by (simp_all add: payload_bytes_def)
  then show ?thesis
    using length_tags [of "pi_tags it"] by (fastforce simp: serialize_item_payload_Inr list_all_iff)
qed

lemma build_item_frame_ok:
  assumes P: "aead_correct P" "aead_total P" and k: "length k = 32" and h: "header_wf h"
    and ids: "length rid = 16" "length rid2 = 16" and len: "length (payload_bytes it) \<le> 2147483648"
  shows "\<exists>fb. build_item_frame P it k h rid rid2 w = (Inr fb, w\<lparr>drawn := drawn w + 104\<rparr>) \<and>
    length fb = 268 + length (payload_bytes it)"
proof -
  define aad where "aad = item_record_aad h rid rid2 1"
  define rek where "rek = next_random w 32"
  define pn where "pn = next_random (w\<lparr>drawn := drawn w + 32\<rparr>) 24"
  define wn where "wn = next_random (w\<lparr>drawn := drawn w + 56\<rparr>) 24"
  have l: "length rek = 32" "length pn = 24" "length wn = 24" "length aad = 79"
    using length_item_aad [OF h ids] by (simp_all add: rek_def pn_def wn_def aad_def)
  obtain pct where p: "xchacha_seal P rek pn aad (payload_bytes it) = Some pct"
    using aead_totalD [OF P(2) l(1,2) len] by blast
  obtain wct where wr: "xchacha_seal P k wn aad rek = Some wct"
    using aead_totalD [OF P(2) k l(3), of rek aad] l(1) by auto
  have lp: "length pct = length (payload_bytes it) + 16" "length wct = 48"
    using aead_correctD [OF P(1) l(1,2) p] aead_correctD [OF P(1) k l(3) wr] l(1) by simp_all
  then have ne: "wct \<noteq> []" "pct \<noteq> []" by auto
  let ?env = "\<lparr>ie_rek_wrap_nonce = wn, ie_wrapped_rek = wct, ie_payload_nonce = pn,
         ie_encrypted_payload = pct\<rparr>"
  obtain eb where eb: "serialize_item_record_frame_envelope ?env = Inr eb"
    "length eb = 120 + length (payload_bytes it)"
    using lp l len ne by (auto simp: serialize_item_envelope_Inr u32_max_def usize_max_def)
  obtain fb where fb: "build_record_frame rid rid2 eb aad (w\<lparr>drawn := drawn w + 80\<rparr>) =
      (Inr fb, w\<lparr>drawn := drawn w + 104\<rparr>)" "length fb = 268 + length (payload_bytes it)"
    using build_record_frame_ok [of eb aad rid rid2 "w\<lparr>drawn := drawn w + 80\<rparr>"] eb l(4) ids len by auto
  have e1: "encrypt P rek (payload_bytes it) aad (w\<lparr>drawn := drawn w + 32\<rparr>) =
      (Inr (pct, pn), w\<lparr>drawn := drawn w + 56\<rparr>)"
    and e2: "encrypt P k rek aad (w\<lparr>drawn := drawn w + 56\<rparr>) = (Inr (wct, wn), w\<lparr>drawn := drawn w + 80\<rparr>)"
    using p wr by (simp_all add: encrypt_Inr pn_def wn_def)
  have rb: "random_bytes 32 w = (Inr rek, w\<lparr>drawn := drawn w + 32\<rparr>)"
    by (simp add: random_bytes_def rek_def)
  have sp: "serialize_item_payload it = Inr (payload_bytes it)"
    using len by (intro payload_fits) (simp add: u32_max_def)
  show ?thesis
    using fb by (intro exI [of _ fb])
      (simp add: build_item_frame_def Let_def bind_act_def map_err_act_def sp rb aad_def [symmetric] e1 e2 eb(1))
qed

lemma rewrite_ok:
  assumes P: "aead_correct P" "aead_total P" and r: "vault_repr P pw keys bs h fb recs"
    and k: "uv_keys s = keys" and recs': "list_all rec_ok recs'"
    and len: "length recs' \<le> 16777216" "length (frames_of recs') \<le> 4611686018427387904"
    and fs: "no_faults w" "\<And>seed. files w (unique_tmp_path (uv_path s) seed) = None"
  shows "\<exists>w'. rewrite_vault P s (loaded_vault bs h fb recs) recs' w = (Inr (), w')"
proof -
  obtain bs' seed where i: "rewrite_image P s (loaded_vault bs h fb recs) recs' w =
      (Inr (bs', seed), w\<lparr>drawn := drawn w + 40\<rparr>)"
    using rewrite_image_ok [OF P r k recs' len] by blast
  obtain w' where "write_and_rename (unique_tmp_path (uv_path s) seed) (uv_path s) bs' (w\<lparr>drawn := drawn w + 40\<rparr>) = (Inr (), w')"
    using write_and_rename_ok [of "w\<lparr>drawn := drawn w + 40\<rparr>" "unique_tmp_path (uv_path s) seed" "uv_path s" bs'] fs tmp_differs
    by (auto simp: no_faults_def)
  then show ?thesis
    by (simp add: rewrite_vault_image bind_act_Inr [of _ _ "(bs', seed)"] i persist_vault_mutation_v2_def Let_def catch_act_def)
qed

lemma add_ok:
  assumes P: "aead_correct P" "aead_total P" and st: "stores P pw keys h bs tbl"
    and s: "uv_path s = p" "uv_keys s = keys" "files w p = Some bs"
    and fs: "no_faults w" "\<And>seed. files w (unique_tmp_path p seed) = None"
    and len: "length tbl < 16777216" "length bs \<le> 2305843009213693952" "length (payload_bytes it) \<le> 2147483648"
  shows "\<exists>w'. add P s it w = (Inr (next_random w 16), w')"
proof -
  obtain fb recs where r: "vault_repr P pw keys bs h fb recs"
    and items: "list_all2 (rec_item P (uk_item_wrap_key keys) h) recs tbl"
    using stores_repr [OF st] by blast
  note rh = repr_header [OF P(1) r]
  have l: "load_vault P s w = (Inr (loaded_vault bs h fb recs), snapshot w)"
    using load_stores [OF P(1), of pw s bs h fb recs w] r s fs by (simp add: no_faults_def)
  let ?w1 = "snapshot w" and ?rid = "next_random w 16"
  let ?w2 = "?w1\<lparr>drawn := drawn w + 16\<rparr>"
  let ?rev = "next_random ?w2 16" and ?w3 = "?w1\<lparr>drawn := drawn w + 32\<rparr>"
  have f: "fresh_id ?w1 = (Inr ?rid, ?w2)" "fresh_id ?w2 = (Inr ?rev, ?w3)"
    by (simp_all add: fresh_id_Inr)
  obtain fr where b: "build_item_frame P it (uk_item_wrap_key keys) h ?rid ?rev ?w3 =
      (Inr fr, ?w1\<lparr>drawn := drawn w + 136\<rparr>)" "length fr = 268 + length (payload_bytes it)"
    using build_item_frame_ok [OF P, of "uk_item_wrap_key keys" h ?rid ?rev it ?w3] rh len(3)
    by (auto simp: keys_wf_def)
  let ?r = "\<lparr>pr_record_id = ?rid, pr_record_kind = 1, pr_revision_id = ?rev, pr_frame_bytes = fr\<rparr>"
  have "list_all rec_ok (recs @ [?r])" using rh b(2) len(3) by (simp add: rec_ok_def u32_max_def)
  moreover have "length (recs @ [?r]) \<le> 16777216" using list_all2_lengthD [OF items] len(1) by simp
  moreover have "length (frames_of (recs @ [?r])) \<le> 4611686018427387904"
    using holds_at_bound [of bs "table_start fb recs" "frames_of recs"] rh len(2,3) b(2) by simp
  moreover have "no_faults (?w1\<lparr>drawn := drawn w + 136\<rparr>)"
    "files (?w1\<lparr>drawn := drawn w + 136\<rparr>) (unique_tmp_path (uv_path s) seed) = None" for seed
    using fs s(1) by (simp_all add: no_faults_def)
  ultimately obtain w' where rw: "rewrite_vault P s (loaded_vault bs h fb recs) (recs @ [?r]) (?w1\<lparr>drawn := drawn w + 136\<rparr>) = (Inr (), w')"
    using rewrite_ok [OF P r s(2), of "recs @ [?r]" "?w1\<lparr>drawn := drawn w + 136\<rparr>"] by blast
  have hd: "ld_header (loaded_vault bs h fb recs) = h" by (simp add: loaded_vault_def)
  show ?thesis
    by (intro exI [of _ w'])
       (simp add: add_def bind_act_def l f s(2) hd b(1) stage_repr(1) [OF P(1) r] rw)
qed

subsection \<open>Sequences of operations\<close>

text \<open>
  A store whose operations are atomic updates of one file. \<open>effect\<close> says what an operation does
  to the abstract content; it may depend on the next 16 random bytes (a new id). The lemmas say
  what a whole sequence of operations, each of which may fail, leaves behind.
\<close>

primrec run_log :: "('o \<Rightarrow> unit io) \<Rightarrow> 'o list \<Rightarrow> world \<Rightarrow> ('o \<times> byte list \<times> unit res) list \<times> world" where
  "run_log exec [] w = ([], w)"
| "run_log exec (x # xs) w =
     (case exec x w of (r, w1) \<Rightarrow> case run_log exec xs w1 of (log, w2) \<Rightarrow> ((x, next_random w 16, r) # log, w2))"

text \<open>\<open>explains effect log a a'\<close>: every operation that succeeded took effect, a failed one may have.\<close>

inductive explains ::
    "('o \<Rightarrow> byte list \<Rightarrow> 'a \<Rightarrow> 'a) \<Rightarrow> ('o \<times> byte list \<times> unit res) list \<Rightarrow> 'a \<Rightarrow> 'a \<Rightarrow> bool"
  for effect where
  explains_Nil: "explains effect [] a a"
| explains_took: "explains effect log (effect x i a) a' \<Longrightarrow> explains effect ((x, i, r) # log) a a'"
| explains_lost: "r \<noteq> Inr () \<Longrightarrow> explains effect log a a' \<Longrightarrow> explains effect ((x, i, r) # log) a a'"

inductive_simps explains_simps [simp]: "explains effect [] a a'" "explains effect ((x, i, r) # log) a a'"

text \<open>Every operation was admissible in every content the file may have had before it.\<close>

inductive admitted ::
    "('o \<Rightarrow> byte list \<Rightarrow> 'a \<Rightarrow> 'a) \<Rightarrow> ('o \<Rightarrow> byte list \<Rightarrow> 'a \<Rightarrow> bool) \<Rightarrow>
     ('o \<times> byte list \<times> unit res) list \<Rightarrow> 'a \<Rightarrow> bool"
  for effect admissible where
  "admitted effect admissible [] a"
| "admissible x i a \<Longrightarrow> admitted effect admissible log a \<Longrightarrow> admitted effect admissible log (effect x i a) \<Longrightarrow>
     admitted effect admissible ((x, i, r) # log) a"

inductive_simps admitted_simps [simp]:
  "admitted effect admissible [] a" "admitted effect admissible ((x, i, r) # log) a"

locale atomic_store =
  fixes repr :: "byte list \<Rightarrow> 'a \<Rightarrow> bool"
    and vfile :: path
    and exec :: "'o \<Rightarrow> unit io"
    and effect :: "'o \<Rightarrow> byte list \<Rightarrow> 'a \<Rightarrow> 'a"
    and admissible :: "'o \<Rightarrow> byte list \<Rightarrow> 'a \<Rightarrow> bool"
  assumes atomic: "repr bs a \<Longrightarrow> files w vfile = Some bs \<Longrightarrow> admissible x (next_random w 16) a \<Longrightarrow>
    atomic_update vfile (\<lambda>bs'. repr bs' (effect x (next_random w 16) a)) (exec x) w"
begin

definition intact :: "fs_state \<Rightarrow> bool" where
  "intact s \<longleftrightarrow> (\<exists>bs a. s vfile = Some bs \<and> repr bs a)"

lemma exec_step:
  assumes "repr bs a" "files w vfile = Some bs" "admissible x (next_random w 16) a" "exec x w = (r, w')"
  shows "evolves intact w w'"
    and "\<exists>bs' a'. files w' vfile = Some bs' \<and> repr bs' a' \<and>
      (a' = effect x (next_random w 16) a \<or> r \<noteq> Inr () \<and> a' = a)"
proof -
  have a: "atomic_update vfile (\<lambda>bs'. repr bs' (effect x (next_random w 16) a)) (exec x) w"
    by (rule atomic [OF assms(1-3)])
  then obtain seed where e: "evolves (updating (unique_tmp_path vfile seed) vfile
      (\<lambda>bs'. repr bs' (effect x (next_random w 16) a)) (files w)) w w'"
    unfolding atomic_update_def using assms(4) by auto
  then show "evolves intact w w'"
    by (rule evolves_mono) (use assms(1,2) in \<open>auto simp: updating_def intact_def\<close>)
  have "updating (unique_tmp_path vfile seed) vfile (\<lambda>bs'. repr bs' (effect x (next_random w 16) a)) (files w) (files w')"
    using e by (simp add: evolves_def)
  then have u: "files w' vfile = Some bs \<or> (\<exists>bs'. files w' vfile = Some bs' \<and> repr bs' (effect x (next_random w 16) a))"
    using assms(2) by (simp add: updating_def)
  show "\<exists>bs' a'. files w' vfile = Some bs' \<and> repr bs' a' \<and>
      (a' = effect x (next_random w 16) a \<or> r \<noteq> Inr () \<and> a' = a)"
  proof (cases "r = Inr ()")
    case True
    then show ?thesis using a assms(4) unfolding atomic_update_def by fastforce
  next
    case False
    then show ?thesis using u assms(1) by blast
  qed
qed

lemma run_explained:
  assumes "repr bs a" "files w vfile = Some bs" "run_log exec xs w = (log, w')"
    and "admitted effect admissible log a"
  shows "\<exists>bs' a'. files w' vfile = Some bs' \<and> repr bs' a' \<and> explains effect log a a' \<and> evolves intact w w'"
  using assms
proof (induction xs arbitrary: bs a w log)
  case Nil
  then have "evolves intact w w" by (intro evolves_refl) (auto simp: intact_def)
  then show ?case using Nil by auto
next
  case (Cons x xs)
  obtain r w1 where x: "exec x w = (r, w1)" by fastforce
  obtain l where l: "run_log exec xs w1 = (l, w')" "log = (x, next_random w 16, r) # l"
    using Cons.prems(3) by (auto simp: x split: prod.splits)
  have adm: "admissible x (next_random w 16) a" "admitted effect admissible l a"
    "admitted effect admissible l (effect x (next_random w 16) a)"
    using Cons.prems(4) by (simp_all add: l(2))
  obtain bs1 a1 where s: "files w1 vfile = Some bs1" "repr bs1 a1"
    "a1 = effect x (next_random w 16) a \<or> r \<noteq> Inr () \<and> a1 = a"
    using exec_step(2) [OF Cons.prems(1,2) adm(1) x] by blast
  have "admitted effect admissible l a1" using s(3) adm by blast
  then obtain bs' a' where f: "files w' vfile = Some bs'" "repr bs' a'" "explains effect l a1 a'" "evolves intact w1 w'"
    using Cons.IH [OF s(2,1) l(1)] by blast
  then show ?case
    using s(3) evolves_trans [OF exec_step(1) [OF Cons.prems(1,2) adm(1) x]] by (auto simp: l(2))
qed

end

subsection \<open>Item operations as such a store\<close>

datatype item_op = OpAdd PlainItem | OpUpdate "byte list" PlainItem | OpDelete "byte list"

primrec item_exec :: "prims \<Rightarrow> UnlockedVault \<Rightarrow> item_op \<Rightarrow> unit io" where
  "item_exec P s (OpAdd it) = bind_act (add P s it) (\<lambda>_. ret ())"
| "item_exec P s (OpUpdate i it) = update P s i it"
| "item_exec P s (OpDelete i) = delete P s i"

primrec item_effect :: "item_op \<Rightarrow> byte list \<Rightarrow> item_table \<Rightarrow> item_table" where
  "item_effect (OpAdd it) new tbl = tbl @ [(new, Some it)]"
| "item_effect (OpUpdate i it) new tbl = put i (Some it) tbl"
| "item_effect (OpDelete i) new tbl = put i None tbl"

primrec item_admissible :: "item_op \<Rightarrow> byte list \<Rightarrow> item_table \<Rightarrow> bool" where
  "item_admissible (OpAdd it) new tbl \<longleftrightarrow> new \<notin> fst ` set tbl"
| "item_admissible (OpUpdate i it) new tbl \<longleftrightarrow> True"
| "item_admissible (OpDelete i) new tbl \<longleftrightarrow> True"

lemma atomic_weaken:
  "atomic_update p G m w \<Longrightarrow> (\<And>bs. G bs \<Longrightarrow> H bs) \<Longrightarrow> atomic_update p H m w"
proof -
  assume a: "atomic_update p G m w" and GH: "\<And>bs. G bs \<Longrightarrow> H bs"
  have "updating tmp p H s0 s" if "updating tmp p G s0 s" for tmp s0 s
    using that GH by (auto simp: updating_def)
  then show ?thesis
    using a GH unfolding atomic_update_def by (blast intro: evolves_mono)
qed

lemma items_atomic:
  assumes P: "aead_correct P" and st: "stores P pw (uv_keys s) h bs tbl"
    and w: "files w (uv_path s) = Some bs" and adm: "item_admissible x (next_random w 16) tbl"
  shows "atomic_update (uv_path s) (\<lambda>bs'. stores P pw (uv_keys s) h bs' (item_effect x (next_random w 16) tbl))
    (item_exec P s x) w"
proof (cases x)
  case (OpAdd it)
  then show ?thesis using add_atomic [OF P st refl refl w] adm by (simp add: atomic_ret)
next
  case (OpUpdate i it)
  then show ?thesis using update_atomic [OF P st refl refl w, of i it] by (auto intro: atomic_weaken)
next
  case (OpDelete i)
  then show ?thesis using delete_atomic [OF P st refl refl w, of i] by (auto intro: atomic_weaken)
qed

text \<open>The ids that the additions of a log drew.\<close>

fun added_ids :: "(item_op \<times> byte list \<times> unit res) list \<Rightarrow> byte list list" where
  "added_ids [] = []"
| "added_ids ((OpAdd it, i, r) # log) = i # added_ids log"
| "added_ids (_ # log) = added_ids log"

lemma admitted_distinct:
  "distinct (map fst tbl @ added_ids log) \<Longrightarrow> admitted item_effect item_admissible log tbl"
proof (induction log arbitrary: tbl)
  case Nil
  then show ?case by simp
next
  case (Cons e log)
  obtain x i r where e: "e = (x, i, r)" by (cases e)
  show ?case
  proof (cases x)
    case (OpAdd it)
    then show ?thesis
      using Cons.prems Cons.IH [of tbl] Cons.IH [of "tbl @ [(i, Some it)]"] by (auto simp: e image_iff)
  next
    case (OpUpdate j it)
    have "distinct (map fst (put j (Some it) tbl) @ added_ids log)" using Cons.prems by (simp add: e OpUpdate)
    then show ?thesis using Cons.IH [of tbl] Cons.IH [of "put j (Some it) tbl"] Cons.prems by (simp add: e OpUpdate)
  next
    case (OpDelete j)
    have "distinct (map fst (put j None tbl) @ added_ids log)" using Cons.prems by (simp add: e OpDelete)
    then show ?thesis using Cons.IH [of tbl] Cons.IH [of "put j None tbl"] Cons.prems by (simp add: e OpDelete)
  qed
qed

definition item_repr :: "prims \<Rightarrow> byte list \<Rightarrow> UnlockedVault \<Rightarrow> VaultHeader \<Rightarrow> byte list \<Rightarrow> item_table \<Rightarrow> bool" where
  "item_repr P pw s h bs tbl \<longleftrightarrow> aead_correct P \<and> stores P pw (uv_keys s) h bs tbl"

interpretation items: atomic_store "item_repr P pw s h" "uv_path s" "item_exec P s" item_effect item_admissible
  for P pw s h
  by unfold_locales (use items_atomic in \<open>auto simp: item_repr_def intro: atomic_weaken\<close>)

lemma deserialize_bound: "deserialize_item_payload bs = Inr it \<Longrightarrow> length bs \<le> usize_max"
  unfolding deserialize_item_payload_def
  by (auto simp: take_bytes_Inr take_u32_Inr not_less split: if_splits prod.splits)

lemma payload_lengths: "payload_ok it \<Longrightarrow> length (payload_bytes it) \<le> 2147483648"
proof -
  assume ok: "payload_ok it"
  have "length (concat (map tag_bytes ts)) \<le> 260 * length ts" if "list_all (\<lambda>t. length t \<le> 256 \<and> utf8_valid t) ts" for ts
    using that by (induction ts) auto
  from this [of "pi_tags it"] show ?thesis using ok by (simp add: payload_ok_def payload_bytes_def)
qed

interpretation payload: canonical_codec serialize_item_payload deserialize_item_payload payload_ok
proof
  fix it bs assume ok: "payload_ok it" and "serialize_item_payload it = Inr bs"
  then have "bs = payload_bytes it" by (simp add: serialize_item_payload_Inr)
  then show "deserialize_item_payload bs = Inr it"
    using ok payload_lengths [OF ok] by (simp add: deserialize_item_payload_Inr usize_max_def)
next
  fix bs it assume d: "deserialize_item_payload bs = Inr it"
  then have "payload_ok it \<and> bs = payload_bytes it"
    using deserialize_item_payload_Inr [OF deserialize_bound [OF d]] by blast
  then show "payload_ok it \<and> serialize_item_payload it = Inr bs"
    using payload_fits [of it] payload_lengths [of it] by (simp add: u32_max_def)
qed

subsection \<open>A vault to apply the properties to\<close>

lemma created_stores:
  assumes "aead_correct P" "created_file P pw u bs"
  shows "\<exists>h. stores P pw u h bs [] \<and> length bs = 463"
  using assms(2) unfolding created_file_def stores_def vault_repr_def
  by (fastforce intro: exI [of _ "[]"])

abbreviation (input) vault_v :: path where
  "vault_v \<equiv> \<lparr>p_dir = [], p_name = ''v''\<rparr>"

definition holding :: "UnlockedVault \<Rightarrow> VaultHeader \<Rightarrow> byte list \<Rightarrow> world \<Rightarrow> item_table \<Rightarrow> bool" where
  "holding s h bs w tbl \<longleftrightarrow> stores toy_prims [1] (uv_keys s) h bs tbl \<and> files w (uv_path s) = Some bs \<and>
     no_faults w \<and> (\<forall>seed. files w (unique_tmp_path (uv_path s) seed) = None) \<and> length bs \<le> 463"

lemma sample_empty: "\<exists>s h bs w. holding s h bs w [] \<and> next_random w 16 = next_random sample_world 16"
proof -
  obtain u bs where "created_file toy_prims [1] u bs" using sample_created by blast
  then obtain h where "stores toy_prims [1] u h bs []" "length bs = 463"
    using created_stores toy_prims_aead(1) by blast
  then show ?thesis
    using tmp_differs [of vault_v]
    by (intro exI [of _ "session_of vault_v h u"] exI [of _ h] exI [of _ bs]
        exI [of _ "sample_world\<lparr>files := (\<lambda>_. None)(vault_v := Some bs)\<rparr>"])
       (simp add: holding_def session_of_def no_faults_def sample_world_def next_random_def)
qed

lemma sample_one:
  assumes "length (payload_bytes it) \<le> 2147483648"
  shows "\<exists>(s :: UnlockedVault) h bs (w :: world) i. stores toy_prims [1] (uv_keys s) h bs [(i, Some it)] \<and>
    files w (uv_path s) = Some bs \<and> faults w (calls w) = None"
proof -
  obtain s h bs w where e: "holding s h bs w []" using sample_empty by blast
  note e = e [unfolded holding_def]
  obtain w' where a: "add toy_prims s it w = (Inr (next_random w 16), w')"
    using add_ok [OF toy_prims_aead(1,3), of "[1]" "uv_keys s" h bs "[]" s "uv_path s" w it] e assms by auto
  have at: "atomic_update (uv_path s) (\<lambda>bs'. stores toy_prims [1] (uv_keys s) h bs' ([] @ [(next_random w 16, Some it)])) (add toy_prims s it) w"
    using add_atomic [OF toy_prims_aead(1), of "[1]" "uv_keys s" h bs "[]" s "uv_path s" w it] e by simp
  then obtain bs' where "files w' (uv_path s) = Some bs'" "stores toy_prims [1] (uv_keys s) h bs' [(next_random w 16, Some it)]"
    unfolding atomic_update_def using a by auto
  moreover have "faults w' = faults w"
    using at unfolding atomic_update_def evolves_def using a by auto
  ultimately show ?thesis using e by (intro exI [of _ s] exI [of _ h] exI [of _ bs'] exI [of _ w'] exI [of _ "next_random w 16"]) (simp add: no_faults_def)
qed

subsection \<open>Properties\<close>

text \<open>The payload format is canonical: \<open>deserialize_item_payload\<close> accepts exactly the bytes
  that \<open>serialize_item_payload\<close> writes for an item within the limits (label, tags and secret sizes,
  valid UTF-8), and returns that item.\<close>

theorem item_payload_canonical:
  "deserialize_item_payload bs = Inr it \<longleftrightarrow> payload_ok it \<and> serialize_item_payload it = Inr bs"
  by (rule payload.par_iff)

text \<open>A new vault is empty and can be reopened: the file that a successful \<open>create\<close> leaves
  stores no items, and any file that stores a table of items and is at most 64 MiB long is
  unlocked with the password to the session of the same keys.\<close>

theorem created_vault_is_empty:
  assumes "aead_correct P" "kdf_total P"
    and "create P \<lparr>cp_path = p, cp_password = pw\<rparr> w = (Inr lv, w')"
  shows "\<exists>bs h keys. files w' p = Some bs \<and> stores P pw keys h bs [] \<and>
    unlock_bytes P p pw bs = Inr (session_of p h keys)"
proof -
  obtain u bs where c: "files w' p = Some bs" "created_file P pw u bs"
    using create_file [OF assms] by blast
  then obtain h where h: "stores P pw u h bs []" "length bs = 463"
    using created_stores [OF assms(1)] by blast
  then obtain fb recs where "vault_repr P pw u bs h fb recs" using stores_repr by blast
  then show ?thesis using c h unlock_repr [OF assms(1)] by fastforce
qed

theorem created_vault_is_empty_witness:
  "\<exists>(w' :: world) bs h keys. files w' vault_v = Some bs \<and> stores toy_prims [1] keys h bs [] \<and>
    unlock_bytes toy_prims vault_v [1] bs = Inr (session_of vault_v h keys)"
proof -
  obtain w' where "create toy_prims \<lparr>cp_path = vault_v, cp_password = [1]\<rparr> sample_world = (Inr \<lparr>lv_path = vault_v\<rparr>, w')"
    using create_ok [OF toy_prims_aead(1,3) toy_prims_kdf, of "[1]" sample_world vault_v]
    by (auto simp: sample_world_def no_faults_def usize_max_def)
  then have "\<exists>bs h keys. files w' vault_v = Some bs \<and> stores toy_prims [1] keys h bs [] \<and>
    unlock_bytes toy_prims vault_v [1] bs = Inr (session_of vault_v h keys)"
    by (rule created_vault_is_empty [OF toy_prims_aead(1) toy_prims_kdf])
  then show ?thesis by (rule exI [of _ w'])
qed

text \<open>C9. \<open>add\<close> appends: for a vault file that stores a table of items, whatever system calls
  fail, the file holds at every moment either the old bytes or complete new bytes that store the
  table with the new item appended under the id \<open>add\<close> drew, provided that id is not taken; if
  \<open>add\<close> returns an id, it is that id and the new bytes are in place.\<close>

theorem add_refines_append:
  assumes "aead_correct P" "stores P pw (uv_keys s) h bs tbl" "files w (uv_path s) = Some bs"
    and "next_random w 16 \<notin> fst ` set tbl"
  shows "atomic_update (uv_path s)
      (\<lambda>bs'. stores P pw (uv_keys s) h bs' (tbl @ [(next_random w 16, Some it)])) (add P s it) w \<and>
    (\<forall>i w'. add P s it w = (Inr i, w') \<longrightarrow> i = next_random w 16)"
  using add_atomic [OF assms(1,2) refl refl assms(3,4)] .

theorem add_refines_append_witness:
  "\<exists>s h bs w. stores toy_prims [1] (uv_keys s) h bs [] \<and>
    atomic_update (uv_path s) (\<lambda>bs'. stores toy_prims [1] (uv_keys s) h bs'
      ([] @ [(next_random w 16, Some \<lparr>pi_kind = ApiToken, pi_label = [97], pi_tags = [], pi_secret = [1, 2]\<rparr>)]))
      (add toy_prims s \<lparr>pi_kind = ApiToken, pi_label = [97], pi_tags = [], pi_secret = [1, 2]\<rparr>) w"
proof -
  obtain s h bs w where e: "holding s h bs w []" using sample_empty by blast
  note e = e [unfolded holding_def]
  show ?thesis
    using e add_refines_append [OF toy_prims_aead(1), of "[1]" s h bs "[]" w] by auto
qed

text \<open>C23. \<open>update\<close> replaces: at every moment the file holds the old bytes or complete new bytes
  that store the table with the item of this id replaced, the latter only if the id is that of a
  live item; for any other id the result is \<open>NotFound\<close> and nothing is written.\<close>

theorem update_refines_replace:
  assumes "aead_correct P" "stores P pw (uv_keys s) h bs tbl" "files w (uv_path s) = Some bs"
  shows "atomic_update (uv_path s) (\<lambda>bs'. (\<exists>old. (i, Some old) \<in> set tbl) \<and>
      stores P pw (uv_keys s) h bs' (put i (Some it) tbl)) (update P s i it) w \<and>
    (faults w (calls w) = None \<and> (\<nexists>old. (i, Some old) \<in> set tbl) \<longrightarrow>
      update P s i it w = (err (NotFound (hex_of i)), snapshot w))"
  using update_atomic [OF assms(1,2) refl refl assms(3), of i it]
    update_missing [OF assms(1,2) refl refl assms(3), of i it] by blast

theorem update_refines_replace_witness:
  "\<exists>s h bs w. stores toy_prims [1] (uv_keys s) h bs [] \<and>
    update toy_prims s [7] \<lparr>pi_kind = ApiToken, pi_label = [97], pi_tags = [], pi_secret = [1, 2]\<rparr> w =
      (err (NotFound ''07''), snapshot w)"
proof -
  obtain s h bs w where e: "holding s h bs w []" using sample_empty by blast
  note e = e [unfolded holding_def]
  have "hex_of [7] = ''07''" by code_simp
  then show ?thesis
    using e update_refines_replace [OF toy_prims_aead(1), of "[1]" s h bs "[]" w "[7]"]
    by (auto simp: no_faults_def)
qed

text \<open>C24. \<open>delete\<close> removes: at every moment the file holds the old bytes or complete new bytes
  that store the table with the item of this id gone, the latter only for an id of the table; a
  second deletion succeeds as well.\<close>

theorem delete_refines_removal:
  assumes "aead_correct P" "stores P pw (uv_keys s) h bs tbl" "files w (uv_path s) = Some bs"
  shows "atomic_update (uv_path s) (\<lambda>bs'. i \<in> fst ` set tbl \<and>
      stores P pw (uv_keys s) h bs' (put i None tbl)) (delete P s i) w"
  using delete_atomic [OF assms(1,2) refl refl assms(3)] .

theorem delete_refines_removal_witness:
  "\<exists>s h bs w i it. stores toy_prims [1] (uv_keys s) h bs [(i, Some it)] \<and>
    atomic_update (uv_path s) (\<lambda>bs'. i \<in> fst ` set [(i, Some it)] \<and>
      stores toy_prims [1] (uv_keys s) h bs' (put i None [(i, Some it)])) (delete toy_prims s i) w"
proof -
  obtain s :: UnlockedVault and h bs and w :: world and i where e: "stores toy_prims [1] (uv_keys s) h bs
      [(i, Some \<lparr>pi_kind = ApiToken, pi_label = [97], pi_tags = [], pi_secret = [1, 2]\<rparr>)]"
    "files w (uv_path s) = Some bs"
    using sample_one [of "\<lparr>pi_kind = ApiToken, pi_label = [97], pi_tags = [], pi_secret = [1, 2]\<rparr>"]
    by (auto simp: payload_bytes_def)
  show ?thesis using e(1) delete_refines_removal [OF toy_prims_aead(1) e] by blast
qed

text \<open>\<open>list_items\<close> lists exactly the live items, in order, without their secrets; it succeeds
  exactly when every live item is within the payload limits.\<close>

theorem list_items_refines:
  assumes "aead_correct P" "stores P pw (uv_keys s) h bs tbl" "files w (uv_path s) = Some bs"
    and "faults w (calls w) = None"
  shows "fst (list_items P s w) = Inr out \<longleftrightarrow>
    list_all (\<lambda>x. payload_ok (snd x)) (live tbl) \<and> out = map summary (live tbl)"
  using list_items_spec [OF assms(1,2) refl refl assms(3,4)] .

theorem list_items_refines_witness:
  "\<exists>s w i. fst (list_items toy_prims s w) =
    Inr [\<lparr>is_id = i, is_kind = ApiToken, is_label = [97], is_tags = [[98]]\<rparr>]"
proof -
  let ?it = "\<lparr>pi_kind = ApiToken, pi_label = [97], pi_tags = [[98]], pi_secret = [1, 2]\<rparr>"
  obtain s :: UnlockedVault and h bs and w :: world and i where e: "stores toy_prims [1] (uv_keys s) h bs [(i, Some ?it)]"
    "files w (uv_path s) = Some bs" "faults w (calls w) = None"
    using sample_one [of ?it] by (auto simp: payload_bytes_def tag_bytes_def)
  have "utf8_valid [97]" "utf8_valid [98]" by code_simp+
  then have "payload_ok ?it" by (simp add: payload_ok_def)
  then show ?thesis
    using list_items_refines [OF toy_prims_aead(1) e] by (auto simp: summary_def)
qed

text \<open>\<open>with_item\<close> gives the callback the live item of the id, or answers \<open>NotFound\<close> without
  calling it, for unknown and deleted ids alike; nothing is written.\<close>

theorem with_item_refines:
  assumes "aead_correct P" "stores P pw (uv_keys s) h bs tbl" "files w (uv_path s) = Some bs"
    and "faults w (calls w) = None"
  shows "with_item P s i f w = (case map_of (live tbl) i of
      None \<Rightarrow> err (NotFound (hex_of i))
    | Some it \<Rightarrow> and_then (deserialize_item_payload (payload_bytes it)) f, snapshot w)"
  using with_item_spec [OF assms(1,2) refl refl assms(3,4)] .

theorem with_item_refines_witness:
  "\<exists>s w i. with_item toy_prims s i (\<lambda>it. ok (pi_secret it)) w = (Inr [1, 2], snapshot w)"
proof -
  let ?it = "\<lparr>pi_kind = ApiToken, pi_label = [97], pi_tags = [[98]], pi_secret = [1, 2]\<rparr>"
  obtain s :: UnlockedVault and h bs and w :: world and i where e: "stores toy_prims [1] (uv_keys s) h bs [(i, Some ?it)]"
    "files w (uv_path s) = Some bs" "faults w (calls w) = None"
    using sample_one [of ?it] by (auto simp: payload_bytes_def tag_bytes_def)
  have "utf8_valid [97]" "utf8_valid [98]" by code_simp+
  then have "deserialize_item_payload (payload_bytes ?it) = Inr ?it"
    by (subst deserialize_stored) (simp_all add: payload_ok_def, simp add: payload_bytes_def tag_bytes_def u32_max_def)
  then show ?thesis
    using with_item_refines [OF toy_prims_aead(1) e, of i "\<lambda>it. ok (pi_secret it)"] by auto
qed

text \<open>C31. \<open>add\<close> makes progress: when no system call fails and no temporary name is taken, adding
  an item of up to 2 GiB to a vault of fewer than 2^24 records succeeds.\<close>

theorem add_succeeds:
  assumes "aead_correct P" "aead_total P" "stores P pw (uv_keys s) h bs tbl" "files w (uv_path s) = Some bs"
    and "no_faults w" "\<And>seed. files w (unique_tmp_path (uv_path s) seed) = None"
    and "length tbl < 16777216" "length bs \<le> 2305843009213693952" "length (payload_bytes it) \<le> 2147483648"
  shows "fst (add P s it w) = Inr (next_random w 16)"
  using add_ok [OF assms(1-3) refl refl assms(4-9)] by auto

theorem add_succeeds_witness:
  "\<exists>s w. fst (add toy_prims s \<lparr>pi_kind = ApiToken, pi_label = [97], pi_tags = [], pi_secret = [1, 2]\<rparr> w) =
    Inr (next_random w 16)"
proof -
  obtain s h bs w where e: "holding s h bs w []" using sample_empty by blast
  note e = e [unfolded holding_def]
  have "fst (add toy_prims s \<lparr>pi_kind = ApiToken, pi_label = [97], pi_tags = [], pi_secret = [1, 2]\<rparr> w) =
      Inr (next_random w 16)"
    by (rule add_succeeds [OF toy_prims_aead(1,3), of "[1]" s h bs "[]"])
       (use e in \<open>auto simp: payload_bytes_def tag_bytes_def\<close>)
  then show ?thesis by blast
qed





end
