(* ===== verification/Export_Laws.thy ===== *)
theory Export_Laws
  imports Export_Bundle Item_Refinement
begin

text \<open>
  The .msexp format and its use: the container and the item set inside it are canonical
  formats (locale \<open>canonical_codec\<close>), a container made by \<open>export_bundle\<close> authenticates to
  the live items of the vault, and \<open>import_bundle\<close> either adds all items or removes what it added.
\<close>

subsection \<open>Field readers\<close>

lemma exp_read_u16_Inr:
  "exp_read_u16 bs c = Inr x \<longleftrightarrow> holds_at bs c (u16_le x) \<and> c + 2 \<le> usize_max"
  by (fastforce simp: exp_read_u16_def get_range_holds_at split: if_splits)

lemma exp_read_u32_Inr:
  "exp_read_u32 bs c = Inr x \<longleftrightarrow> holds_at bs c (u32_le x) \<and> c + 4 \<le> usize_max"
  by (fastforce simp: exp_read_u32_def get_range_holds_at split: if_splits)

lemma exp_take_u16_Inr:
  "exp_take_u16 bs c = Inr (x, c') \<longleftrightarrow> holds_at bs c (u16_le x) \<and> c' = c + 2 \<and> c + 2 \<le> usize_max"
  by (auto simp: exp_take_u16_def exp_read_u16_Inr)

lemma exp_take_u32_Inr:
  "exp_take_u32 bs c = Inr (n, c') \<longleftrightarrow>
    n \<le> u32_max \<and> holds_at bs c (u32_le (of_nat n)) \<and> c' = c + 4 \<and> c + 4 \<le> usize_max"
proof -
  have "exp_take_u32 bs c = Inr (n, c') \<longleftrightarrow>
      (\<exists>x. n = unat x \<and> holds_at bs c (u32_le x) \<and> c' = c + 4 \<and> c + 4 \<le> usize_max)"
    by (auto simp: exp_take_u32_def exp_read_u32_Inr)
  then show ?thesis
    by (auto simp: unat_u32_bound intro!: exI [of _ "of_nat n"])
qed

lemma take_vec_Inr:
  "take_vec bs c = Inr (x, c') \<longleftrightarrow> length x \<le> u32_max \<and> holds_at bs c (tag_bytes x) \<and>
    c' = c + length (tag_bytes x) \<and> c' \<le> usize_max"
  by (auto simp: take_vec_def exp_take_u32_Inr get_range_holds_at tag_bytes_def holds_at_append add.assoc
      dest: holds_at_bound)

lemma take_utf8_Inr:
  "take_utf8 bs c = Inr (x, c') \<longleftrightarrow> utf8_valid x \<and> length x \<le> u32_max \<and> holds_at bs c (tag_bytes x) \<and>
    c' = c + length (tag_bytes x) \<and> c' \<le> usize_max"
  by (auto simp: take_utf8_def take_vec_Inr)

lemma write_len_bytes_Inr:
  "write_len_bytes out x e = Inr out' \<longleftrightarrow> length x \<le> u32_max \<and> out' = out @ tag_bytes x"
  by (auto simp: write_len_bytes_def tag_bytes_def)

lemma write_tags_Inr:
  "write_tags out ts = Inr out' \<longleftrightarrow>
    list_all (\<lambda>t. length t \<le> u32_max) ts \<and> out' = out @ concat (map tag_bytes ts)"
  by (induction ts arbitrary: out) (auto simp: write_len_bytes_Inr)

lemma no_panic_export_readers [simp]:
  "no_panic (exp_read_u16 bs c)" "no_panic (exp_read_u32 bs c)" "no_panic (exp_take_u16 bs c)"
  "no_panic (exp_take_u32 bs c)" "no_panic (take_vec bs c)" "no_panic (take_utf8 bs c)"
proof -
  show 1: "no_panic (exp_read_u16 bs c)" "no_panic (exp_read_u32 bs c)"
    unfolding exp_read_u16_def exp_read_u32_def by (intro no_panic_intros; simp)+
  show "no_panic (exp_take_u16 bs c)"
    unfolding exp_take_u16_def by (intro no_panic_intros; simp add: 1)
  show 2: "no_panic (exp_take_u32 bs c)"
    unfolding exp_take_u32_def by (intro no_panic_intros; simp add: 1)
  show 3: "no_panic (take_vec bs c)"
    unfolding take_vec_def by (intro no_panic_intros; simp add: 2)
  show "no_panic (take_utf8 bs c)"
    unfolding take_utf8_def by (intro no_panic_intros; simp add: 3)
qed

subsection \<open>The item set\<close>

text \<open>Sizes that the length fields can hold.\<close>

definition item_fits :: "PlainItem \<Rightarrow> bool" where
  "item_fits it \<longleftrightarrow> length (pi_label it) \<le> u32_max \<and> length (pi_tags it) \<le> u32_max \<and>
     list_all (\<lambda>t. length t \<le> u32_max) (pi_tags it) \<and> length (pi_secret it) \<le> u32_max"

text \<open>Items the import side accepts: only the number of tags is limited.\<close>

definition export_item_ok :: "PlainItem \<Rightarrow> bool" where
  "export_item_ok it \<longleftrightarrow> item_fits it \<and> utf8_valid (pi_label it) \<and> length (pi_tags it) \<le> 64 \<and>
     list_all utf8_valid (pi_tags it)"

lemma write_item_Inr: "write_item out it = Inr out' \<longleftrightarrow> item_fits it \<and> out' = out @ payload_bytes it"
  by (auto simp: write_item_def write_len_bytes_Inr write_tags_Inr item_fits_def payload_bytes_def)

lemma read_tags_Inr:
  "c + length (concat (map tag_bytes ts)) \<le> length bs \<Longrightarrow> length bs \<le> usize_max \<Longrightarrow>
    holds_at bs c (concat (map tag_bytes ts)) \<Longrightarrow> list_all (\<lambda>t. length t \<le> u32_max \<and> utf8_valid t) ts \<Longrightarrow>
    read_tags bs (length ts) c tags = Inr (tags @ ts, c + length (concat (map tag_bytes ts)))"
proof (induction ts arbitrary: c tags)
  case Nil
  then show ?case by simp
next
  case (Cons t ts)
  have h: "holds_at bs c (tag_bytes t)" "holds_at bs (c + length (tag_bytes t)) (concat (map tag_bytes ts))"
    using Cons.prems(3) by (simp_all add: holds_at_append)
  have "take_utf8 bs c = Inr (t, c + length (tag_bytes t))"
    using h holds_at_bound [OF h(1)] Cons.prems by (simp add: take_utf8_Inr)
  then show ?case
    using Cons.IH [of "c + length (tag_bytes t)" "tags @ [t]"] Cons.prems h by (simp add: add.assoc)
qed

lemma read_tags_sound:
  "read_tags bs n c tags = Inr (out, c') \<Longrightarrow> c \<le> length bs \<Longrightarrow> \<exists>ts. out = tags @ ts \<and> length ts = n \<and>
    list_all (\<lambda>t. length t \<le> u32_max \<and> utf8_valid t) ts \<and> holds_at bs c (concat (map tag_bytes ts)) \<and>
    c' = c + length (concat (map tag_bytes ts))"
proof (induction n arbitrary: c tags)
  case 0
  then show ?case by simp
next
  case (Suc n)
  obtain t where t: "utf8_valid t" "length t \<le> u32_max" "holds_at bs c (tag_bytes t)"
    and r: "read_tags bs n (c + length (tag_bytes t)) (tags @ [t]) = Inr (out, c')"
    using Suc.prems by (auto simp: take_utf8_Inr)
  obtain ts where "out = (tags @ [t]) @ ts" "length ts = n"
    "list_all (\<lambda>t. length t \<le> u32_max \<and> utf8_valid t) ts"
    "holds_at bs (c + length (tag_bytes t)) (concat (map tag_bytes ts))"
    "c' = c + length (tag_bytes t) + length (concat (map tag_bytes ts))"
    using Suc.IH [OF r] holds_at_bound [OF t(3)] by auto
  then show ?case
    using t by (intro exI [of _ "t # ts"]) (simp add: holds_at_append)
qed

lemma read_export_item_sound:
  assumes "read_export_item bs c = Inr (it, c')"
  shows "export_item_ok it \<and> holds_at bs c (payload_bytes it) \<and> c' = c + length (payload_bytes it)"
proof -
  obtain c2 where h: "holds_at bs c (u16_le (item_kind_as_u16 (pi_kind it)))"
    "utf8_valid (pi_label it)" "length (pi_label it) \<le> u32_max" "holds_at bs (c + 2) (tag_bytes (pi_label it))"
    and n: "holds_at bs (c + 2 + length (tag_bytes (pi_label it))) (u32_le (of_nat (length (pi_tags it))))"
    "length (pi_tags it) \<le> 64"
    and ts: "list_all (\<lambda>t. length t \<le> u32_max \<and> utf8_valid t) (pi_tags it)"
      "holds_at bs (c + 2 + length (tag_bytes (pi_label it)) + 4) (concat (map tag_bytes (pi_tags it)))"
      "c2 = c + 2 + length (tag_bytes (pi_label it)) + 4 + length (concat (map tag_bytes (pi_tags it)))"
    and sec: "length (pi_secret it) \<le> u32_max" "holds_at bs c2 (tag_bytes (pi_secret it))"
      "c' = c2 + length (tag_bytes (pi_secret it))"
    using assms unfolding read_export_item_def
    by (clarsimp simp: exp_take_u16_Inr exp_take_u32_Inr take_utf8_Inr take_vec_Inr item_kind_from_u16_Inr not_less
        split: if_splits)
       (drule read_tags_sound, auto dest: holds_at_bound)
  have "holds_at bs c (payload_bytes it)"
    unfolding payload_bytes_def holds_at_append
    using h n ts(2) sec(2) unfolding ts(3) by (simp add: ac_simps)
  then show ?thesis
    using h n ts sec by (auto simp: export_item_ok_def item_fits_def u32_max_def payload_bytes_def list_all_iff)
qed

lemma read_export_item_complete:
  assumes ok: "export_item_ok it" and h: "holds_at bs c (payload_bytes it)" and b: "length bs \<le> usize_max"
  shows "read_export_item bs c = Inr (it, c + length (payload_bytes it))"
proof -
  let ?l = "tag_bytes (pi_label it)" and ?ts = "concat (map tag_bytes (pi_tags it))"
  have p: "holds_at bs c (u16_le (item_kind_as_u16 (pi_kind it)))" "holds_at bs (c + 2) ?l"
    "holds_at bs (c + 2 + length ?l) (u32_le (of_nat (length (pi_tags it))))"
    "holds_at bs (c + 2 + length ?l + 4) ?ts"
    "holds_at bs (c + 2 + length ?l + 4 + length ?ts) (tag_bytes (pi_secret it))"
    using h unfolding payload_bytes_def holds_at_append by (simp_all add: ac_simps)
  note bd = p [THEN holds_at_bound]
  have o: "length (pi_tags it) \<le> 64" "list_all (\<lambda>t. length t \<le> u32_max \<and> utf8_valid t) (pi_tags it)"
    "utf8_valid (pi_label it)" "length (pi_label it) \<le> u32_max" "length (pi_secret it) \<le> u32_max"
    using ok by (auto simp: export_item_ok_def item_fits_def list_all_iff)
  have 1: "exp_take_u16 bs c = Inr (item_kind_as_u16 (pi_kind it), c + 2)"
    using p(1) bd(1) b by (simp add: exp_take_u16_Inr)
  have 2: "take_utf8 bs (c + 2) = Inr (pi_label it, c + 2 + length ?l)"
    using p(2) bd(2) b o by (simp add: take_utf8_Inr)
  have 3: "exp_take_u32 bs (c + 2 + length ?l) = Inr (length (pi_tags it), c + 2 + length ?l + 4)"
    using p(3) bd(3) b o(1) by (simp add: exp_take_u32_Inr u32_max_def)
  have 4: "read_tags bs (length (pi_tags it)) (c + 2 + length ?l + 4) [] =
      Inr (pi_tags it, c + 2 + length ?l + 4 + length ?ts)"
    using read_tags_Inr [OF bd(4) b p(4) o(2), of "[]"] by simp
  have 5: "take_vec bs (c + 2 + length ?l + 4 + length ?ts) =
      Inr (pi_secret it, c + 2 + length ?l + 4 + length ?ts + length (tag_bytes (pi_secret it)))"
    using p(5) bd(5) b o(5) by (simp only: take_vec_Inr) simp
  show ?thesis
    unfolding read_export_item_def using o(1)
    by (simp only: 1 2 3 4 5 and_then_simps item_kind_roundtrip split)
       (simp add: payload_bytes_def)
qed

definition item_set_bytes :: "PlainItem list \<Rightarrow> byte list" where
  "item_set_bytes its = u32_le (of_nat (length its)) @ concat (map payload_bytes its)"

lemma read_export_items_sound:
  "read_export_items bs n c items = Inr (out, c') \<Longrightarrow> c \<le> length bs \<Longrightarrow> \<exists>its. out = items @ its \<and>
    length its = n \<and> list_all export_item_ok its \<and> holds_at bs c (concat (map payload_bytes its)) \<and>
    c' = c + length (concat (map payload_bytes its))"
proof (induction n arbitrary: c items)
  case 0
  then show ?case by simp
next
  case (Suc n)
  obtain it c1 where "read_export_item bs c = Inr (it, c1)" and r: "read_export_items bs n c1 (items @ [it]) = Inr (out, c')"
    using Suc.prems by auto
  then have it: "export_item_ok it" "holds_at bs c (payload_bytes it)" "c1 = c + length (payload_bytes it)"
    using read_export_item_sound by blast+
  obtain its where "out = (items @ [it]) @ its" "length its = n" "list_all export_item_ok its"
    "holds_at bs c1 (concat (map payload_bytes its))" "c' = c1 + length (concat (map payload_bytes its))"
    using Suc.IH [OF r] holds_at_bound [OF it(2)] it(3) by auto
  then show ?case
    using it by (intro exI [of _ "it # its"]) (simp add: holds_at_append)
qed

lemma read_export_items_complete:
  "list_all export_item_ok its \<Longrightarrow> holds_at bs c (concat (map payload_bytes its)) \<Longrightarrow> length bs \<le> usize_max \<Longrightarrow>
    read_export_items bs (length its) c items = Inr (items @ its, c + length (concat (map payload_bytes its)))"
proof (induction its arbitrary: c items)
  case Nil
  then show ?case by simp
next
  case (Cons it its)
  then show ?case
    using read_export_item_complete [of it bs c] by (simp add: holds_at_append add.assoc)
qed

lemma deserialize_item_set_Inr:
  assumes b: "length bs \<le> usize_max"
  shows "deserialize_item_set bs = Inr its \<longleftrightarrow>
    length its \<le> 4096 \<and> list_all export_item_ok its \<and> bs = item_set_bytes its" (is "?l \<longleftrightarrow> ?r")
proof
  assume ?l
  then obtain n c where h: "n \<le> 4096" "holds_at bs 0 (u32_le (of_nat n))" "read_export_items bs n 4 [] = Inr (its, c)"
    "c = length bs"
    by (auto simp: deserialize_item_set_def exp_take_u32_Inr not_less split: if_splits)
  have "length its = n" "list_all export_item_ok its" "holds_at bs 4 (concat (map payload_bytes its))"
    "c = 4 + length (concat (map payload_bytes its))"
    using read_export_items_sound [OF h(3)] holds_at_bound [OF h(2)] by auto
  moreover from this have "bs = item_set_bytes its"
    using h by (intro holds_at_whole) (auto simp: item_set_bytes_def holds_at_append)
  ultimately show ?r using h(1) by simp
next
  assume r: ?r
  then have s: "bs = item_set_bytes its" by simp
  have h: "holds_at bs 0 (u32_le (of_nat (length its)))" "holds_at bs 4 (concat (map payload_bytes its))"
    using holds_at_self [of bs] unfolding s by (simp_all add: item_set_bytes_def holds_at_append)
  have "exp_take_u32 bs 0 = Inr (length its, 4)"
    using h(1) r by (simp add: exp_take_u32_Inr u32_max_def usize_max_def)
  moreover have "read_export_items bs (length its) 4 [] = Inr (its, length bs)"
    using read_export_items_complete [of its bs 4 "[]"] h(2) r b by (simp add: s item_set_bytes_def)
  ultimately show ?l using r by (simp add: deserialize_item_set_def)
qed

subsection \<open>The container\<close>

definition bundle_wf :: "ParsedBundle \<Rightarrow> bool" where
  "bundle_wf pb \<longleftrightarrow> pb_version pb = 1 \<and> length (pb_source_vault_id pb) = 16 \<and> length (pb_nonce pb) = 24"

definition serialize_parsed :: "ParsedBundle \<Rightarrow> byte list res" where
  "serialize_parsed pb = serialize_bundle (pb_source_vault_id pb) (pb_kdf_params pb) (pb_nonce pb)
     (pb_ciphertext_and_tag pb)"

definition bundle_bytes :: "ParsedBundle \<Rightarrow> byte list" where
  "bundle_bytes pb = MSEXP_MAGIC @ u16_le 1 @ pb_source_vault_id pb @ tag_bytes (pb_kdf_params pb) @
     pb_nonce pb @ tag_bytes (pb_ciphertext_and_tag pb)"

lemma length_magic [simp]: "length MSEXP_MAGIC = 8"
  by (simp add: MSEXP_MAGIC_def)

lemma serialize_parsed_Inr:
  assumes "bundle_wf pb"
  shows "serialize_parsed pb = Inr bs \<longleftrightarrow> bs = bundle_bytes pb \<and> length (pb_kdf_params pb) \<le> u32_max \<and>
    length (pb_ciphertext_and_tag pb) \<le> u32_max"
  using assms
  by (auto simp: serialize_parsed_def serialize_bundle_def bundle_bytes_def bundle_wf_def tag_bytes_def
      u32_max_def usize_max_def)

lemma length_bundle_bytes: "bundle_wf pb \<Longrightarrow> length (bundle_bytes pb) =
    58 + length (pb_kdf_params pb) + length (pb_ciphertext_and_tag pb)"
  by (simp add: bundle_bytes_def bundle_wf_def)

lemma bundle_fields:
  assumes "bundle_wf pb"
  shows "holds_at bs 0 (bundle_bytes pb) \<longleftrightarrow>
    holds_at bs 0 MSEXP_MAGIC \<and> holds_at bs 8 (u16_le 1) \<and> holds_at bs 10 (pb_source_vault_id pb) \<and>
    holds_at bs 26 (u32_le (of_nat (length (pb_kdf_params pb)))) \<and> holds_at bs 30 (pb_kdf_params pb) \<and>
    holds_at bs (30 + length (pb_kdf_params pb)) (pb_nonce pb) \<and>
    holds_at bs (54 + length (pb_kdf_params pb)) (u32_le (of_nat (length (pb_ciphertext_and_tag pb)))) \<and>
    holds_at bs (58 + length (pb_kdf_params pb)) (pb_ciphertext_and_tag pb)"
  using assms
  by (simp add: bundle_bytes_def bundle_wf_def holds_at_append tag_bytes_def ac_simps)

lemma parse_bundle_sound:
  assumes "parse_bundle bs = Inr pb"
  shows "bundle_wf pb \<and> bs = bundle_bytes pb \<and> length (pb_kdf_params pb) \<le> u32_max \<and>
    length (pb_ciphertext_and_tag pb) \<le> u32_max"
proof -
  let ?k = "length (pb_kdf_params pb)"
  obtain k c where wf: "bundle_wf pb"
    and f: "holds_at bs 0 MSEXP_MAGIC" "holds_at bs 8 (u16_le 1)" "holds_at bs 10 (pb_source_vault_id pb)"
    "holds_at bs 26 (u32_le k)" "unat k = ?k" "holds_at bs 30 (pb_kdf_params pb)"
    "holds_at bs (30 + ?k) (pb_nonce pb)" "holds_at bs (54 + ?k) (u32_le c)"
    "unat c = length (pb_ciphertext_and_tag pb)"
    "holds_at bs (58 + ?k) (pb_ciphertext_and_tag pb)"
    "58 + ?k + length (pb_ciphertext_and_tag pb) = length bs"
    using assms unfolding parse_bundle_def
    by (clarsimp simp: exp_read_u16_Inr exp_read_u32_Inr get_range_holds_at not_less bundle_wf_def
        split: if_splits)
  have l: "length (pb_kdf_params pb) \<le> u32_max" "length (pb_ciphertext_and_tag pb) \<le> u32_max"
    using unat_u32_bound [of k] unat_u32_bound [of c] f(5,9) by simp_all
  have w: "of_nat ?k = k" "of_nat (length (pb_ciphertext_and_tag pb)) = c"
    unfolding f(5,9) [symmetric] by simp_all
  have "holds_at bs 0 (bundle_bytes pb)"
    unfolding bundle_fields [OF wf] w using f by simp
  then have "bs = bundle_bytes pb"
    using f(11) by (intro holds_at_whole) (simp_all add: length_bundle_bytes [OF wf])
  then show ?thesis using wf l by blast
qed

lemma parse_bundle_complete:
  assumes wf: "bundle_wf pb" and l: "length (pb_kdf_params pb) \<le> u32_max" "length (pb_ciphertext_and_tag pb) \<le> u32_max"
  shows "parse_bundle (bundle_bytes pb) = Inr pb"
proof -
  let ?b = "bundle_bytes pb"
  note f = iffD1 [OF bundle_fields [OF wf] holds_at_self]
  note len = length_bundle_bytes [OF wf]
  have w: "length (pb_source_vault_id pb) = 16" "length (pb_nonce pb) = 24" "pb_version pb = 1"
    using wf by (simp_all add: bundle_wf_def)
  have fit: "58 + length (pb_kdf_params pb) + length (pb_ciphertext_and_tag pb) \<le> usize_max"
    using l by (simp add: u32_max_def usize_max_def)
  have g: "get_range ?b 0 8 = Some MSEXP_MAGIC" "get_range ?b 10 26 = Some (pb_source_vault_id pb)"
    "get_range ?b 30 (30 + length (pb_kdf_params pb)) = Some (pb_kdf_params pb)"
    "get_range ?b (30 + length (pb_kdf_params pb)) (54 + length (pb_kdf_params pb)) = Some (pb_nonce pb)"
    "get_range ?b (58 + length (pb_kdf_params pb))
       (58 + length (pb_kdf_params pb) + length (pb_ciphertext_and_tag pb)) = Some (pb_ciphertext_and_tag pb)"
    using f w by (simp_all add: get_range_holds_at)
  have r: "exp_read_u16 ?b 8 = Inr 1"
    "exp_read_u32 ?b 26 = Inr (of_nat (length (pb_kdf_params pb)))"
    "exp_read_u32 ?b (54 + length (pb_kdf_params pb)) = Inr (of_nat (length (pb_ciphertext_and_tag pb)))"
    using f fit by (simp_all add: exp_read_u16_Inr exp_read_u32_Inr usize_max_def)
  have a: "checked_add 26 4 = Some 30" "checked_add 30 (length (pb_kdf_params pb)) = Some (30 + length (pb_kdf_params pb))"
    "checked_add (30 + length (pb_kdf_params pb)) 24 = Some (54 + length (pb_kdf_params pb))"
    "checked_add (54 + length (pb_kdf_params pb)) 4 = Some (58 + length (pb_kdf_params pb))"
    "checked_add (58 + length (pb_kdf_params pb)) (length (pb_ciphertext_and_tag pb)) =
      Some (58 + length (pb_kdf_params pb) + length (pb_ciphertext_and_tag pb))"
    using fit by (simp_all add: usize_max_def)
  show ?thesis
    unfolding parse_bundle_def
    by (simp add: len g r a l w)
qed

interpretation msexp: canonical_codec serialize_parsed parse_bundle bundle_wf
proof
  fix pb bs assume "bundle_wf pb" "serialize_parsed pb = Inr bs"
  then show "parse_bundle bs = Inr pb"
    using parse_bundle_complete by (simp add: serialize_parsed_Inr)
next
  fix bs pb assume "parse_bundle bs = Inr pb"
  then show "bundle_wf pb \<and> serialize_parsed pb = Inr bs"
    using parse_bundle_sound [of bs pb] by (simp add: serialize_parsed_Inr)
qed

lemma serialize_bundle_parsed:
  "serialize_bundle v k n c = Inr bs \<Longrightarrow> length v = 16 \<Longrightarrow> parse_bundle bs = Inr
    \<lparr>pb_version = 1, pb_source_vault_id = v, pb_kdf_params = k, pb_nonce = n, pb_ciphertext_and_tag = c\<rparr>"
  by (rule msexp.par_ser) (auto simp: bundle_wf_def serialize_parsed_def serialize_bundle_def split: if_splits)

subsection \<open>Export\<close>

lemma derive_export_key_length:
  assumes "kdf_total P" "derive_export_key P pp v kp = Inr k"
  shows "length k = 32"
proof -
  obtain muk where m: "derive P pp v (kp_argon2 kp) = Inr muk" and
    e: "hkdf_expand P 32 muk (bytes_of ''meissnerseal:export-bundle:v1'') = Inr k"
    using assms(2) by (auto simp: derive_export_key_def derive_export_bundle_key_def)
  have "argon2_in_profile (kp_argon2 kp)"
    using m argon2_rejected_iff by (auto simp: derive_def split: if_splits)
  then have "length muk = 32" using derive_ok [OF assms(1), of "kp_argon2 kp" pp v] m by auto
  then show ?thesis
    using kdf_expandD [OF assms(1), of muk "bytes_of ''meissnerseal:export-bundle:v1''"] e
    by (auto simp: hkdf_expand_def)
qed

text \<open>What \<open>authenticate\<close> accepts, on a container that parses.\<close>

lemma authenticate_parsed:
  assumes "pp \<noteq> []" "parse_bundle bs = Inr pb" "parse_kdf_profile_params (pb_kdf_params pb) = Inr kp"
    and "derive_export_key P pp (pb_source_vault_id pb) kp = Inr k"
  shows "authenticate P bs pp =
    and_then (map_err (decrypt P k (pb_nonce pb) (pb_ciphertext_and_tag pb)
        (export_aad (pb_source_vault_id pb) (pb_version pb))) Auth) deserialize_item_set"
  using assms by (simp add: authenticate_def)

lemma settled_list_items: "list_items P s w = (r, w') \<Longrightarrow> settled w w'"
  unfolding settled_def
  by (rule withinD [of _ "list_items P s"]) (simp_all add: list_items_def within_bind)

lemma load_vault_faultless:
  "load_vault P s w = (Inr ld, w') \<Longrightarrow> faults w (calls w) = None \<and> w' = snapshot w"
  by (auto simp: load_vault_def bind_act_eq_Inr fs_read_Inr)

lemma list_items_faultless:
  "list_items P s w = (Inr out, w') \<Longrightarrow> faults w (calls w) = None \<and> w' = snapshot w"
  by (auto simp: list_items_def bind_act_eq_Inr dest: load_vault_faultless)

lemma with_item_faultless:
  "with_item P s i f w = (Inr x, w') \<Longrightarrow> faults w (calls w) = None \<and> w' = snapshot w"
  by (auto simp: with_item_def bind_act_eq_Inr dest: load_vault_faultless)

lemma payload_ok_export: "payload_ok it \<Longrightarrow> export_item_ok it"
  by (auto simp: payload_ok_def export_item_ok_def item_fits_def list_all_iff u32_max_def)

lemma deserialize_payload_ok: "payload_ok it \<Longrightarrow> deserialize_item_payload (payload_bytes it) = Inr it"
  using deserialize_item_payload_Inr [of "payload_bytes it" it] payload_lengths [of it]
  by (simp add: usize_max_def)

lemma is_id_summary [simp]: "is_id (summary x) = fst x"
  by (simp add: summary_def)

lemma write_summaries_spec:
  assumes P: "aead_correct P" and st: "stores P pw (uv_keys s) h bs tbl"
    and ok: "list_all (\<lambda>x. map_of (live tbl) (fst x) = Some (snd x) \<and> payload_ok (snd x)) xs"
    and f: "files w (uv_path s) = Some bs" and r: "write_summaries P s out (map summary xs) w = (Inr out', w')"
  shows "out' = out @ concat (map (payload_bytes \<circ> snd) xs) \<and> files w' = files w"
  using ok f r
proof (induction xs arbitrary: out w)
  case Nil
  then show ?case by simp
next
  case (Cons x xs)
  obtain out1 w1 where w: "with_item P s (fst x) (write_item out) w = (Inr out1, w1)"
    and r: "write_summaries P s out1 (map summary xs) w1 = (Inr out', w')"
    using Cons.prems(3) by (auto simp: bind_act_eq_Inr)
  note q = with_item_faultless [OF w]
  have "write_item out (snd x) = Inr out1"
    using with_item_spec [OF P st refl refl Cons.prems(2), of "fst x" "write_item out"] q w Cons.prems(1)
    by (simp add: deserialize_payload_ok)
  then have "out1 = out @ payload_bytes (snd x)" by (simp add: write_item_Inr)
  then show ?case
    using Cons.IH [OF _ _ r] Cons.prems(1,2) q by (simp add: snapshot_def)
qed

lemma write_summaries_ok:
  assumes P: "aead_correct P" and st: "stores P pw (uv_keys s) h bs tbl"
    and ok: "list_all (\<lambda>x. map_of (live tbl) (fst x) = Some (snd x) \<and> payload_ok (snd x)) xs"
    and f: "files w (uv_path s) = Some bs" "no_faults w"
  shows "\<exists>w'. write_summaries P s out (map summary xs) w =
    (Inr (out @ concat (map (payload_bytes \<circ> snd) xs)), w')"
  using ok f
proof (induction xs arbitrary: out w)
  case Nil
  then show ?case by simp
next
  case (Cons x xs)
  have fit: "item_fits (snd x)" using payload_ok_export Cons.prems(1) by (simp add: export_item_ok_def)
  then have wi: "write_item out (snd x) = Inr (out @ payload_bytes (snd x))" by (simp add: write_item_Inr)
  have w: "with_item P s (fst x) (write_item out) w = (Inr (out @ payload_bytes (snd x)), snapshot w)"
    using with_item_spec [OF P st refl refl Cons.prems(2), of "fst x" "write_item out"] Cons.prems(1,3)
    by (simp add: no_faults_def deserialize_payload_ok wi)
  show ?case
    using Cons.IH [of "snapshot w" "out @ payload_bytes (snd x)"] Cons.prems
    by (simp add: bind_act_Inr [of _ _ "out @ payload_bytes (snd x)"] w no_faults_def snapshot_def)
qed

text \<open>The plaintext of an export is the item set of the live items.\<close>

lemma live_lookup:
  assumes "distinct (map fst tbl)" "list_all (\<lambda>x. payload_ok (snd x)) (live tbl)"
  shows "list_all (\<lambda>x. map_of (live tbl) (fst x) = Some (snd x) \<and> payload_ok (snd x)) (live tbl)"
  using assms map_of_live [OF assms(1)] by (auto simp: list_all_iff set_live [symmetric])

lemma serialize_live_spec:
  assumes P: "aead_correct P" and st: "stores P pw (uv_keys s) h bs tbl"
    and f: "files w (uv_path s) = Some bs" and r: "serialize_live_item_set P s w = (Inr out, w')"
  shows "out = item_set_bytes (map snd (live tbl)) \<and> list_all (\<lambda>x. payload_ok (snd x)) (live tbl) \<and>
    length (live tbl) \<le> u32_max \<and> files w' = files w"
proof -
  have d: "distinct (map fst tbl)" using stores_repr [OF st] by blast
  obtain ss w1 where l: "list_items P s w = (Inr ss, w1)"
    and n: "length ss \<le> u32_max" and r: "write_summaries P s (u32_le (of_nat (length ss))) ss w1 = (Inr out, w')"
    using r by (auto simp: serialize_live_item_set_def bind_act_eq_Inr)
  note q = list_items_faultless [OF l]
  have ss: "list_all (\<lambda>x. payload_ok (snd x)) (live tbl)" "ss = map summary (live tbl)"
    using list_items_spec [OF P st refl refl f, of ss] q l by simp_all
  have fw: "files w1 = files w" using q by (simp add: snapshot_def)
  show ?thesis
    using write_summaries_spec [OF P st live_lookup [OF d ss(1)], of w1 "u32_le (of_nat (length ss))" out w'] r f ss n fw
    by (simp add: item_set_bytes_def)
qed

lemma serialize_live_ok:
  assumes P: "aead_correct P" and st: "stores P pw (uv_keys s) h bs tbl"
    and f: "files w (uv_path s) = Some bs" "no_faults w"
    and ok: "list_all (\<lambda>x. payload_ok (snd x)) (live tbl)" "length (live tbl) \<le> u32_max"
  shows "\<exists>w'. serialize_live_item_set P s w = (Inr (item_set_bytes (map snd (live tbl))), w')"
proof -
  have d: "distinct (map fst tbl)" using stores_repr [OF st] by blast
  have "fst (list_items P s w) = Inr (map summary (live tbl))"
    using list_items_spec [OF P st refl refl f(1)] f(2) ok(1) by (simp add: no_faults_def)
  then obtain w1 where l: "list_items P s w = (Inr (map summary (live tbl)), w1)" by (metis prod.collapse)
  note q = list_items_faultless [OF l]
  obtain w' where "write_summaries P s (u32_le (of_nat (length (live tbl)))) (map summary (live tbl)) w1 =
      (Inr (item_set_bytes (map snd (live tbl))), w')"
    using write_summaries_ok [OF P st live_lookup [OF d ok(1)], of w1 "u32_le (of_nat (length (live tbl)))"] f q
    by (auto simp: item_set_bytes_def snapshot_def no_faults_def)
  then show ?thesis
    using l ok(2) by (simp add: serialize_live_item_set_def bind_act_Inr to_u32_def)
qed

lemma export_spec:
  assumes P: "aead_correct P" "kdf_total P" and st: "stores P pw (uv_keys s) h bs tbl"
    and f: "files w (uv_path s) = Some bs" and v: "length (cx_vault_id (uv_context s)) = 16"
    and r: "export_bundle P s pp w = (Inr b, w')"
  shows "\<exists>k n c kb. pp \<noteq> [] \<and> derive_export_key P pp (cx_vault_id (uv_context s)) canonical_argon2id_v1 = Inr k \<and>
    length k = 32 \<and> length n = 24 \<and>
    xchacha_seal P k n (export_aad (cx_vault_id (uv_context s)) 1) (item_set_bytes (map snd (live tbl))) = Some c \<and>
    parse_kdf_profile_params kb = Inr canonical_argon2id_v1 \<and>
    parse_bundle b = Inr \<lparr>pb_version = 1, pb_source_vault_id = cx_vault_id (uv_context s), pb_kdf_params = kb,
      pb_nonce = n, pb_ciphertext_and_tag = c\<rparr> \<and>
    list_all (\<lambda>x. payload_ok (snd x)) (live tbl) \<and> length (live tbl) \<le> u32_max \<and>
    length (item_set_bytes (map snd (live tbl))) \<le> u32_max \<and> files w' = files w"
proof -
  let ?v = "cx_vault_id (uv_context s)"
  obtain kb out w1 k n c where kb: "serialize_kdf_profile_params canonical_argon2id_v1 = Inr kb" and pp: "pp \<noteq> []"
    and o: "serialize_live_item_set P s w = (Inr out, w1)"
    and k: "derive_export_key P pp ?v canonical_argon2id_v1 = Inr k"
    and e: "n = next_random w1 24" "xchacha_seal P k n (export_aad ?v 1) out = Some c"
    and b: "serialize_bundle ?v kb n c = Inr b" and w': "w' = w1\<lparr>drawn := drawn w1 + 24\<rparr>"
    using r by (auto simp: export_bundle_def Let_def bind_act_eq_Inr encrypt_Inr split: if_splits)
  note s = serialize_live_spec [OF P(1) st f o]
  have lk: "length k = 32" by (rule derive_export_key_length [OF P(2) k])
  have "length c \<le> u32_max" using b by (auto simp: serialize_bundle_def split: if_splits)
  then have "length out \<le> u32_max" using aead_correctD [OF P(1) lk _ e(2)] by (simp add: e(1))
  then show ?thesis
    using pp k lk e s kdf_fmt.par_ser [OF _ kb] serialize_bundle_parsed [OF b v] w' by auto
qed

lemma deserialize_item_set_large:
  assumes "4096 < length its" "length its \<le> u32_max"
  shows "deserialize_item_set (item_set_bytes its) = err (Format ''export item count exceeds maximum'')"
proof -
  have "holds_at (item_set_bytes its) 0 (u32_le (of_nat (length its)))"
    using holds_at_self [of "item_set_bytes its"] unfolding item_set_bytes_def [of its] holds_at_append by blast
  then have "exp_take_u32 (item_set_bytes its) 0 = Inr (length its, 4)"
    using assms(2) by (simp add: exp_take_u32_Inr usize_max_def)
  then show ?thesis using assms(1) by (simp add: deserialize_item_set_def)
qed

lemma canonical_kdf_bytes: "\<exists>kb. serialize_kdf_profile_params canonical_argon2id_v1 = Inr kb \<and> length kb \<le> u32_max"
  by (auto simp: serialize_kdf_profile_params_Inr u32_max_def)

subsection \<open>Import\<close>

lemma rollback_spec:
  assumes P: "aead_correct P" and f: "files w (uv_path s) = Some bs" and st: "stores P pw (uv_keys s) h bs tbl"
    and r: "rollback P s ids w = (r, w')"
  shows "\<exists>bs' gone. files w' (uv_path s) = Some bs' \<and> gone \<subseteq> set ids \<and> (r = Inr True \<longrightarrow> gone = set ids) \<and>
    stores P pw (uv_keys s) h bs' (map (\<lambda>(i, x). (i, if i \<in> gone then None else x)) tbl)"
  using f st r
proof (induction ids arbitrary: w bs tbl)
  case Nil
  then show ?case by (auto intro!: exI [of _ bs] exI [of _ "{}"])
next
  case (Cons i ids)
  obtain rd w1 where d: "delete P s i w = (rd, w1)" by fastforce
  have "item_repr P pw s h bs tbl" using P Cons.prems(2) by (simp add: item_repr_def)
  then obtain bs1 tbl1 where s1: "files w1 (uv_path s) = Some bs1" "stores P pw (uv_keys s) h bs1 tbl1"
    "tbl1 = put i None tbl \<or> rd \<noteq> Inr () \<and> tbl1 = tbl"
    using items.exec_step(2) [OF _ Cons.prems(1), of P pw h tbl "OpDelete i" rd w1] d
    by (auto simp: item_repr_def)
  have one: "\<exists>gone. gone \<subseteq> set (i # ids) \<and> tbl1 = map (\<lambda>(j, x). (j, if j \<in> gone then None else x)) tbl"
    using s1(3)
  proof
    assume "tbl1 = put i None tbl"
    then show ?thesis by (intro exI [of _ "{i}"]) (simp add: put_def cong: if_cong)
  next
    assume "rd \<noteq> Inr () \<and> tbl1 = tbl"
    then show ?thesis by (intro exI [of _ "{}"]) simp
  qed
  show ?case
  proof (cases rd)
    case (Inr u)
    then have t1: "tbl1 = put i None tbl" and r1: "rollback P s ids w1 = (r, w')"
      using s1(3) Cons.prems(3) by (simp_all add: catch_act_def d)
    obtain bs' gone where g: "files w' (uv_path s) = Some bs'" "gone \<subseteq> set ids" "r = Inr True \<longrightarrow> gone = set ids"
      "stores P pw (uv_keys s) h bs' (map (\<lambda>(i, x). (i, if i \<in> gone then None else x)) tbl1)"
      using Cons.IH [OF s1(1,2) r1] by blast
    have "map (\<lambda>(i, x). (i, if i \<in> gone then None else x)) tbl1 =
        map (\<lambda>(j, x). (j, if j \<in> insert i gone then None else x)) tbl"
      by (simp add: t1 put_def split_def)
    then have st': "stores P pw (uv_keys s) h bs' (map (\<lambda>(j, x). (j, if j \<in> insert i gone then None else x)) tbl)"
      using g(4) by simp
    show ?thesis
    proof (intro exI [of _ bs'] exI [of _ "insert i gone"] conjI)
      show "insert i gone \<subseteq> set (i # ids)" using g(2) by auto
      show "r = Inr True \<longrightarrow> insert i gone = set (i # ids)" using g(3) by auto
    qed (fact g(1), fact st')
  next
    case (Inl e)
    have "rollback P s (i # ids) w = (case e of Err _ \<Rightarrow> Inr False | Panic \<Rightarrow> panic, w1)"
      by (simp add: catch_act_def d Inl split: fault.split)
    then have "w' = w1" "r \<noteq> Inr True"
      using Cons.prems(3) by (auto split: fault.splits)
    moreover obtain gone where "gone \<subseteq> set (i # ids)" "tbl1 = map (\<lambda>(j, x). (j, if j \<in> gone then None else x)) tbl"
      using one by blast
    ultimately show ?thesis
      using s1(1,2) by (intro exI [of _ bs1] exI [of _ gone] conjI) simp_all
  qed
qed

text \<open>The ids that the additions of an import draw.\<close>

primrec import_draws :: "prims \<Rightarrow> UnlockedVault \<Rightarrow> PlainItem list \<Rightarrow> world \<Rightarrow> byte list list" where
  "import_draws P s [] w = []"
| "import_draws P s (it # items) w = next_random w 16 #
     (case add P s it w of (Inr _, w1) \<Rightarrow> import_draws P s items w1 | (Inl _, w1) \<Rightarrow> [])"

text \<open>A table whose entries in \<open>gone\<close> are deleted.\<close>

abbreviation (input) without :: "byte list set \<Rightarrow> item_table \<Rightarrow> item_table" where
  "without gone tbl \<equiv> map (\<lambda>(i, x). (i, if i \<in> gone then None else x)) tbl"

lemma without_disjoint: "fst ` set tbl \<inter> gone = {} \<Longrightarrow> without gone tbl = tbl"
  by (induction tbl) auto

lemma live_without_all: "set ids \<subseteq> gone \<Longrightarrow> live (without gone (zip ids ys)) = []"
proof (induction ids arbitrary: ys)
  case Nil
  then show ?case by simp
next
  case (Cons i ids)
  then show ?case by (cases ys) simp_all
qed

lemma live_without_items: "snd ` set (live (without gone (zip ids (map Some xs)))) \<subseteq> set xs"
proof (induction ids arbitrary: xs)
  case Nil
  then show ?case by simp
next
  case (Cons i ids)
  then show ?case by (cases xs) auto
qed

lemma rolled_back:
  assumes "set ids \<inter> fst ` set tbl = {}" "gone \<subseteq> set ids" "set ids \<inter> fst ` set rest = {}"
    and "length (live rest) \<le> 1" "snd ` set (live rest) \<subseteq> set ys"
  shows "\<exists>extra. live (without gone ((tbl @ zip ids (map Some xs)) @ rest)) = live tbl @ extra \<and>
    snd ` set extra \<subseteq> set (xs @ ys) \<and> (gone = set ids \<longrightarrow> length extra \<le> 1)"
proof -
  have t: "without gone tbl = tbl" "without gone rest = rest"
    using assms(1,2,3) by (intro without_disjoint; blast)+
  show ?thesis
    using assms(4,5) live_without_items [of gone ids xs]
    by (intro exI [of _ "live (without gone (zip ids (map Some xs))) @ live rest"])
       (auto simp: t live_without_all)
qed

lemma rollback_Inl: "rollback P s ids w = (Inl e, w') \<Longrightarrow> e = Panic"
  by (induction ids arbitrary: w)
     (auto simp: catch_act_def split: prod.splits sum.splits fault.splits)

lemma import_items_spec:
  assumes P: "aead_correct P" and f: "files w (uv_path s) = Some bs"
    and st: "stores P pw (uv_keys s) h bs (tbl @ zip ids (map Some xs))" and l: "length ids = length xs"
    and fresh: "distinct (map fst tbl @ ids @ import_draws P s items w)"
    and r: "import_items P s items ids w = (r, w')"
  shows "\<exists>bs' tbl'. files w' (uv_path s) = Some bs' \<and> stores P pw (uv_keys s) h bs' tbl' \<and>
    (\<forall>out. r = Inr out \<longrightarrow> (\<exists>new. length new = length items \<and> out = ids @ new \<and>
       tbl' = tbl @ zip out (map Some (xs @ items)))) \<and>
    (\<forall>e. r = Inl e \<longrightarrow> (\<exists>extra. live tbl' = live tbl @ extra \<and> snd ` set extra \<subseteq> set (xs @ items) \<and>
       (e \<noteq> Err PartialImport \<and> e \<noteq> Panic \<longrightarrow> length extra \<le> 1)))"
  using f st l fresh r
proof (induction items arbitrary: w bs ids xs)
  case Nil
  then show ?case by auto
next
  case (Cons it items)
  let ?T = "tbl @ zip ids (map Some xs)" and ?new = "next_random w 16"
  obtain ra w1 where a: "add P s it w = (ra, w1)" by fastforce
  have fst_ids: "fst ` set (zip ids (map Some xs)) = set ids"
    using Cons.prems(3) by (metis length_map list.set_map map_fst_zip)
  have new: "?new \<notin> fst ` set ?T" using Cons.prems(4) fst_ids by (auto simp: image_Un)
  have "item_repr P pw s h bs ?T" using P Cons.prems(2) by (simp add: item_repr_def)
  then obtain bs1 tbl1 where s1: "files w1 (uv_path s) = Some bs1" "stores P pw (uv_keys s) h bs1 tbl1"
    "tbl1 = ?T @ [(?new, Some it)] \<or> (\<forall>i. ra \<noteq> Inr i) \<and> tbl1 = ?T"
    using items.exec_step(2) [OF _ Cons.prems(1), of P pw h ?T "OpAdd it" "map_sum id (\<lambda>_. ()) ra" w1] new a
    by (cases ra) (auto simp: item_repr_def bind_act_def)
  show ?case
  proof (cases ra)
    case (Inr i)
    then have i: "i = ?new" using add_atomic [OF P Cons.prems(2) refl refl Cons.prems(1) new] a by auto
    have t1: "tbl1 = tbl @ zip (ids @ [i]) (map Some (xs @ [it]))"
      using s1(3) Inr Cons.prems(3) by (simp add: i)
    have r1: "import_items P s items (ids @ [i]) w1 = (r, w')"
      using Cons.prems(5) by (simp add: catch_act_def a Inr)
    have fr: "distinct (map fst tbl @ (ids @ [i]) @ import_draws P s items w1)"
      using Cons.prems(4) by (simp add: a Inr i)
    obtain bs' tbl' where n: "files w' (uv_path s) = Some bs'" "stores P pw (uv_keys s) h bs' tbl'"
      "\<And>out. r = Inr out \<Longrightarrow> (\<exists>new. length new = length items \<and> out = ids @ i # new \<and>
         tbl' = tbl @ zip out (map Some (xs @ it # items)))"
      "\<forall>e. r = Inl e \<longrightarrow> (\<exists>extra. live tbl' = live tbl @ extra \<and> snd ` set extra \<subseteq> set (xs @ it # items) \<and>
         (e \<noteq> Err PartialImport \<and> e \<noteq> Panic \<longrightarrow> length extra \<le> 1))"
      using Cons.IH [OF s1(1) s1(2) [unfolded t1] _ fr r1] Cons.prems(3)
      unfolding append_assoc append_Cons append_Nil length_append_singleton by metis
    have "\<forall>out. r = Inr out \<longrightarrow> (\<exists>new. length new = length (it # items) \<and> out = ids @ new \<and>
         tbl' = tbl @ zip out (map Some (xs @ it # items)))"
    proof (intro allI impI)
      fix out assume "r = Inr out"
      then obtain new where "length new = length items" "out = ids @ i # new"
        "tbl' = tbl @ zip out (map Some (xs @ it # items))" using n(3) by blast
      then show "\<exists>new. length new = length (it # items) \<and> out = ids @ new \<and>
         tbl' = tbl @ zip out (map Some (xs @ it # items))" by (intro exI [of _ "i # new"]) simp
    qed
    then show ?thesis using n(1,2,4) by blast
  next
    case (Inl e)
    define rest where "rest = (if tbl1 = ?T then [] else [(?new, Some it)])"
    have t1: "tbl1 = ?T @ rest" using s1(3) by (auto simp: rest_def)
    have dis: "set ids \<inter> fst ` set tbl = {}" "set ids \<inter> fst ` set rest = {}"
      using Cons.prems(4) by (auto simp: rest_def split: if_splits)
    note rb = rolled_back [OF dis(1) _ dis(2), of _ "it # items" xs]
    have rest: "length (live rest) \<le> 1" "snd ` set (live rest) \<subseteq> set (it # items)" by (simp_all add: rest_def)
    show ?thesis
    proof (cases e)
      case Panic
      then have "r = panic" "w' = w1" using Cons.prems(5) by (simp_all add: catch_act_def a Inl)
      moreover have "without {} tbl1 = tbl1" by (rule without_disjoint) simp
      ultimately show ?thesis
        using s1(1,2) rb [of "{}", OF _ rest] t1 by (intro exI [of _ bs1] exI [of _ tbl1]) simp
    next
      case (Err ce)
      obtain rr where b: "rollback P s ids w1 = (rr, w')"
        and r: "r = (case rr of Inl x \<Rightarrow> Inl x | Inr True \<Rightarrow> err (InvalidState ''import add failed; rollback succeeded'')
          | Inr False \<Rightarrow> err PartialImport)"
        using Cons.prems(5) by (auto simp: catch_act_def a Inl Err bind_act_def split: prod.splits sum.splits if_splits)
      obtain bs' gone where g: "files w' (uv_path s) = Some bs'" "gone \<subseteq> set ids" "rr = Inr True \<longrightarrow> gone = set ids"
        "stores P pw (uv_keys s) h bs' (without gone tbl1)"
        using rollback_spec [OF P s1(1,2) b] by blast
      show ?thesis
      proof (intro exI [of _ bs'] exI [of _ "without gone tbl1"] conjI)
        show "\<forall>out. r = Inr out \<longrightarrow> (\<exists>new. length new = length (it # items) \<and> out = ids @ new \<and>
            without gone tbl1 = tbl @ zip out (map Some (xs @ it # items)))"
          unfolding r by (simp split: sum.splits bool.splits)
        have "gone = set ids" if "r = Inl e'" "e' \<noteq> Err PartialImport" "e' \<noteq> Panic" for e'
          using that g(3) rollback_Inl [of P s ids w1 e' w'] b
          unfolding r by (auto split: sum.splits bool.splits)
        then show "\<forall>e. r = Inl e \<longrightarrow> (\<exists>extra. live (without gone tbl1) = live tbl @ extra \<and>
            snd ` set extra \<subseteq> set (xs @ it # items) \<and> (e \<noteq> Err PartialImport \<and> e \<noteq> Panic \<longrightarrow> length extra \<le> 1))"
          using rb [OF g(2) rest] unfolding t1 by blast
      qed (fact g(1), fact g(4))
    qed
  qed
qed

subsection \<open>Progress\<close>

lemma derive_export_key_ok:
  assumes "kdf_total P"
  shows "\<exists>k. derive_export_key P pp v canonical_argon2id_v1 = Inr k \<and> length k = 32"
proof -
  have "argon2_in_profile (kp_argon2 canonical_argon2id_v1)"
    by (simp add: canonical_argon2id_v1_def argon2_in_profile_def)
  then obtain muk where "derive P pp v (kp_argon2 canonical_argon2id_v1) = Inr muk" "length muk = 32"
    using derive_ok [OF assms] by blast
  then show ?thesis
    using kdf_expandD [OF assms, of muk "bytes_of ''meissnerseal:export-bundle:v1''"]
    by (auto simp: derive_export_key_def derive_export_bundle_key_def hkdf_expand_def)
qed

lemma export_ok:
  assumes P: "aead_correct P" "aead_total P" "kdf_total P" and st: "stores P pw (uv_keys s) h bs tbl"
    and f: "files w (uv_path s) = Some bs" "no_faults w" and pp: "pp \<noteq> []"
    and ok: "list_all (\<lambda>x. payload_ok (snd x)) (live tbl)"
      "length (item_set_bytes (map snd (live tbl))) \<le> 2147483648"
  shows "\<exists>b w'. export_bundle P s pp w = (Inr b, w')"
proof -
  let ?v = "cx_vault_id (uv_context s)" and ?m = "item_set_bytes (map snd (live tbl))"
  obtain kb where kb: "serialize_kdf_profile_params canonical_argon2id_v1 = Inr kb" "length kb \<le> u32_max"
    using canonical_kdf_bytes by blast
  have "length xs \<le> length (concat (map payload_bytes xs))" for xs
  proof (induction xs)
    case (Cons it xs)
    have "1 \<le> length (payload_bytes it)" by (simp add: payload_bytes_def)
    then show ?case using Cons by simp
  qed simp
  from this [of "map snd (live tbl)"] have "length (live tbl) \<le> u32_max"
    using ok(2) by (simp add: item_set_bytes_def u32_max_def)
  then obtain w1 where o: "serialize_live_item_set P s w = (Inr ?m, w1)"
    using serialize_live_ok [OF P(1) st f ok(1)] by blast
  obtain k where k: "derive_export_key P pp ?v canonical_argon2id_v1 = Inr k" "length k = 32"
    using derive_export_key_ok [OF P(3)] by blast
  obtain c where c: "xchacha_seal P k (next_random w1 24) (export_aad ?v 1) ?m = Some c"
    using aead_totalD [OF P(2) k(2) _ ok(2)] by fastforce
  have "length c \<le> u32_max" using aead_correctD [OF P(1) k(2) _ c] ok(2) by (simp add: u32_max_def)
  then obtain b where b: "serialize_bundle ?v kb (next_random w1 24) c = Inr b"
    using kb(2) by (auto simp: serialize_bundle_def u32_max_def usize_max_def)
  show ?thesis
    using pp by (simp add: export_bundle_def Let_def bind_act_def kb(1) o k(1) encrypt_apply c b map_err_act_def)
qed

subsection \<open>Properties\<close>

definition sample_item :: PlainItem where
  "sample_item = \<lparr>pi_kind = ApiToken, pi_label = [97], pi_tags = [], pi_secret = [1, 2]\<rparr>"

lemma sample_export:
  "\<exists>(s :: UnlockedVault) h bs (w :: world) i b w'. stores toy_prims [1] (uv_keys s) h bs [(i, Some sample_item)] \<and>
    files w (uv_path s) = Some bs \<and> length (cx_vault_id (uv_context s)) = 16 \<and>
    export_bundle toy_prims s [9] w = (Inr b, w')"
proof -
  have len: "length (payload_bytes sample_item) \<le> 2147483648"
    by (simp add: sample_item_def payload_bytes_def)
  obtain s :: UnlockedVault and h bs i and w :: world where
    e: "stores toy_prims [1] (uv_keys s) h bs [(i, Some sample_item)]" "files w (uv_path s) = Some bs"
    using sample_one [OF len] by blast
  let ?s = "s\<lparr>uv_context := (uv_context s)\<lparr>cx_vault_id := zeros 16\<rparr>\<rparr>" and ?w = "w\<lparr>faults := \<lambda>_. None\<rparr>"
  have "\<exists>b w'. export_bundle toy_prims ?s [9] ?w = (Inr b, w')" (is "\<exists>b w'. ?E b w'")
    by (rule export_ok [OF toy_prims_aead(1,3) toy_prims_kdf, of "[1]" _ h bs "[(i, Some sample_item)]"])
       (use e in \<open>simp_all add: no_faults_def sample_item_def payload_ok_def item_set_bytes_def payload_bytes_def in_rng_def\<close>)
  then obtain b w' where "?E b w'" by blast
  moreover have "stores toy_prims [1] (uv_keys ?s) h bs [(i, Some sample_item)]" "files ?w (uv_path ?s) = Some bs"
    "length (cx_vault_id (uv_context ?s)) = 16"
    using e by simp_all
  ultimately show ?thesis by blast
qed

lemma sample_item_export: "list_all export_item_ok [sample_item]"
  by (simp add: sample_item_def export_item_ok_def item_fits_def in_rng_def u32_max_def)

lemma canonical_kdf_parses:
  "parse_kdf_profile_params (u16_le 1 @ u32_le 38 @ kdf_tlvs canonical_argon2id_v1) = Inr canonical_argon2id_v1"
  by (rule kdf_fmt.par_ser) (simp_all add: serialize_kdf_profile_params_Inr)

lemma sample_bundle:
  "\<exists>b n c k. serialize_bundle (zeros 16) (u16_le 1 @ u32_le 38 @ kdf_tlvs canonical_argon2id_v1) n c = Inr b \<and>
    derive_export_key toy_prims [9] (zeros 16) canonical_argon2id_v1 = Inr k \<and>
    xchacha_seal toy_prims k n (export_aad (zeros 16) 1) (item_set_bytes [sample_item]) = Some c \<and>
    authenticate toy_prims b [9] = Inr [sample_item]"
proof -
  let ?kb = "u16_le 1 @ u32_le 38 @ kdf_tlvs canonical_argon2id_v1" and ?m = "item_set_bytes [sample_item]"
  obtain k where k: "derive_export_key toy_prims [9] (zeros 16) canonical_argon2id_v1 = Inr k" "length k = 32"
    using derive_export_key_ok [OF toy_prims_kdf] by blast
  have m: "length ?m \<le> 100" by (simp add: sample_item_def item_set_bytes_def payload_bytes_def)
  then obtain c where c: "xchacha_seal toy_prims k (zeros 24) (export_aad (zeros 16) 1) ?m = Some c"
    using aead_totalD [OF toy_prims_aead(3) k(2), of "zeros 24" ?m] by auto
  have "length ?kb \<le> u32_max" "length c \<le> u32_max" using aead_correctD [OF toy_prims_aead(1) k(2) _ c] m
    by (simp_all add: u32_max_def)
  then obtain b where b: "serialize_bundle (zeros 16) ?kb (zeros 24) c = Inr b"
    by (auto simp: serialize_bundle_def u32_max_def usize_max_def simp del: length_append)
  have "authenticate toy_prims b [9] = Inr [sample_item]"
    using authenticate_parsed [OF _ serialize_bundle_parsed [OF b], of "[9]" canonical_argon2id_v1 toy_prims k]
      canonical_kdf_parses k decrypt_sealed [OF toy_prims_aead(1) k(2) _ c] m
      deserialize_item_set_Inr [of ?m "[sample_item]"] sample_item_export
    by (simp add: usize_max_def)
  then show ?thesis using b k c by blast
qed

lemma exported_items:
  assumes "aead_correct P" "kdf_total P" "stores P pw (uv_keys s) h bs tbl" "files w (uv_path s) = Some bs"
    and "length (cx_vault_id (uv_context s)) = 16" "export_bundle P s pp w = (Inr b, w')"
  shows "authenticate P b pp = (if length (live tbl) \<le> 4096 then Inr (map snd (live tbl))
    else err (Format ''export item count exceeds maximum'')) \<and> files w' = files w"
proof -
  obtain k n c kb where e: "pp \<noteq> []" "derive_export_key P pp (cx_vault_id (uv_context s)) canonical_argon2id_v1 = Inr k"
    "length k = 32" "length n = 24"
    "xchacha_seal P k n (export_aad (cx_vault_id (uv_context s)) 1) (item_set_bytes (map snd (live tbl))) = Some c"
    "parse_kdf_profile_params kb = Inr canonical_argon2id_v1"
    "parse_bundle b = Inr \<lparr>pb_version = 1, pb_source_vault_id = cx_vault_id (uv_context s), pb_kdf_params = kb,
      pb_nonce = n, pb_ciphertext_and_tag = c\<rparr>"
    and ok: "list_all (\<lambda>x. payload_ok (snd x)) (live tbl)" "length (live tbl) \<le> u32_max"
    "length (item_set_bytes (map snd (live tbl))) \<le> u32_max" "files w' = files w"
    using export_spec [OF assms] by blast
  have "authenticate P b pp = deserialize_item_set (item_set_bytes (map snd (live tbl)))"
    using authenticate_parsed [OF e(1,7), of canonical_argon2id_v1 P k] e(2,6) decrypt_sealed [OF assms(1) e(3-5)]
    by simp
  moreover have "list_all export_item_ok (map snd (live tbl))"
    using ok(1) payload_ok_export by (auto simp: list_all_iff)
  ultimately show ?thesis
    using ok deserialize_item_set_Inr [of "item_set_bytes (map snd (live tbl))" "map snd (live tbl)"]
      deserialize_item_set_large [of "map snd (live tbl)"]
    by (auto simp: u32_max_def usize_max_def)
qed

text \<open>C13. Backup and restore: whatever bundle \<open>export_bundle\<close> returns for a vault authenticates
  under the same passphrase to exactly the live items of the vault in their order, unless there are more
  than 4096 of them: then the bundle is unreadable.\<close>

theorem export_authenticates:
  assumes "aead_correct P" "kdf_total P" "stores P pw (uv_keys s) h bs tbl" "files w (uv_path s) = Some bs"
    and "length (cx_vault_id (uv_context s)) = 16" "export_bundle P s pp w = (Inr b, w')"
  shows "authenticate P b pp = (if length (live tbl) \<le> 4096 then Inr (map snd (live tbl))
    else err (Format ''export item count exceeds maximum'')) \<and> files w' = files w"
  using exported_items [OF assms] .

theorem export_authenticates_witness:
  "\<exists>(s :: UnlockedVault) (w :: world) b w'. export_bundle toy_prims s [9] w = (Inr b, w') \<and>
    authenticate toy_prims b [9] = Inr [sample_item]"
proof -
  obtain s h bs w i b w' where e: "stores toy_prims [1] (uv_keys s) h bs [(i, Some sample_item)]"
    "files w (uv_path s) = Some bs" "length (cx_vault_id (uv_context s)) = 16"
    "export_bundle toy_prims s [9] w = (Inr b, w')"
    using sample_export by blast
  have "authenticate toy_prims b [9] = Inr [sample_item]"
    using export_authenticates [OF toy_prims_aead(1) toy_prims_kdf e] by simp
  then show ?thesis using e(4) by blast
qed

text \<open>C25. A bundle is accepted exactly when it is the canonical framing of a supported version
  whose ciphertext is the seal, under the key of this passphrase and of the vault id in the frame, of the
  canonical encoding of at most 4096 well-formed items; the vault id and the version are
  authenticated.\<close>

theorem authenticate_iff:
  assumes "aead_correct P" "aead_tight P" "kdf_total P"
  shows "authenticate P b pp = Inr items \<longleftrightarrow> pp \<noteq> [] \<and> length items \<le> 4096 \<and> list_all export_item_ok items \<and>
    (\<exists>v kb n c kp k. serialize_bundle v kb n c = Inr b \<and> length v = 16 \<and> parse_kdf_profile_params kb = Inr kp \<and>
       derive_export_key P pp v kp = Inr k \<and>
       xchacha_seal P k n (export_aad v 1) (item_set_bytes items) = Some c)" (is "?l \<longleftrightarrow> ?r")
proof
  assume ?l
  then obtain pb kp k m where pp: "pp \<noteq> []" and pb: "parse_bundle b = Inr pb"
    and kp: "parse_kdf_profile_params (pb_kdf_params pb) = Inr kp"
    and k: "derive_export_key P pp (pb_source_vault_id pb) kp = Inr k"
    and d: "decrypt P k (pb_nonce pb) (pb_ciphertext_and_tag pb)
      (export_aad (pb_source_vault_id pb) (pb_version pb)) = Inr m"
    and m: "deserialize_item_set m = Inr items"
    by (auto simp: authenticate_def Let_def split: if_splits)
  have wf: "length (pb_source_vault_id pb) = 16" "length (pb_nonce pb) = 24" "pb_version pb = 1"
    and ser: "serialize_bundle (pb_source_vault_id pb) (pb_kdf_params pb) (pb_nonce pb) (pb_ciphertext_and_tag pb) = Inr b"
    using msexp.ser_par [OF pb] by (simp_all add: bundle_wf_def serialize_parsed_def)
  have lk: "length k = 32" by (rule derive_export_key_length [OF assms(3) k])
  have c: "xchacha_seal P k (pb_nonce pb) (export_aad (pb_source_vault_id pb) 1) m = Some (pb_ciphertext_and_tag pb)"
    using decrypt_tight [OF assms(2) lk wf(2) d] wf(3) by simp
  have "length m \<le> usize_max"
    using aead_correctD [OF assms(1) lk wf(2) c] parse_bundle_sound [OF pb] by (simp add: u32_max_def usize_max_def)
  then have "length items \<le> 4096 \<and> list_all export_item_ok items \<and> m = item_set_bytes items"
    using deserialize_item_set_Inr m by blast
  then show ?r using pp ser wf(1) kp k c by blast
next
  assume ?r
  then obtain v kb n c kp k where pp: "pp \<noteq> []" and its: "length items \<le> 4096" "list_all export_item_ok items"
    and ser: "serialize_bundle v kb n c = Inr b" "length v = 16" and kp: "parse_kdf_profile_params kb = Inr kp"
    and k: "derive_export_key P pp v kp = Inr k"
    and c: "xchacha_seal P k n (export_aad v 1) (item_set_bytes items) = Some c" by blast
  have lk: "length k = 32" by (rule derive_export_key_length [OF assms(3) k])
  have n: "length n = 24" "length c \<le> u32_max" using ser(1) by (auto simp: serialize_bundle_def split: if_splits)
  have "length (item_set_bytes items) \<le> usize_max"
    using aead_correctD [OF assms(1) lk n(1) c] n(2) by (simp add: u32_max_def usize_max_def)
  then have "deserialize_item_set (item_set_bytes items) = Inr items"
    using its by (simp add: deserialize_item_set_Inr)
  then show ?l
    using authenticate_parsed [OF pp serialize_bundle_parsed [OF ser], of kp P k] kp k
      decrypt_sealed [OF assms(1) lk n(1) c] by simp
qed

theorem authenticate_iff_witness:
  "\<exists>b n c k. serialize_bundle (zeros 16) (u16_le 1 @ u32_le 38 @ kdf_tlvs canonical_argon2id_v1) n c = Inr b \<and>
    derive_export_key toy_prims [9] (zeros 16) canonical_argon2id_v1 = Inr k \<and>
    xchacha_seal toy_prims k n (export_aad (zeros 16) 1) (item_set_bytes [sample_item]) = Some c \<and>
    authenticate toy_prims b [9] = Inr [sample_item]"
proof -
  obtain b n c k where e: "serialize_bundle (zeros 16) (u16_le 1 @ u32_le 38 @ kdf_tlvs canonical_argon2id_v1) n c = Inr b"
    "derive_export_key toy_prims [9] (zeros 16) canonical_argon2id_v1 = Inr k"
    "xchacha_seal toy_prims k n (export_aad (zeros 16) 1) (item_set_bytes [sample_item]) = Some c"
    using sample_bundle by blast
  have "authenticate toy_prims b [9] = Inr [sample_item]"
    using authenticate_iff [OF toy_prims_aead(1,2) toy_prims_kdf, of b "[9]" "[sample_item]"] e
      canonical_kdf_parses sample_item_export by (auto simp del: toy_prims_seal)
  then show ?thesis using e by blast
qed

text \<open>C14. Import is all or nothing up to one item, under any pattern of I/O failures: if
  \<open>import_bundle\<close> returns ids, the items of the bundle have been appended under these ids; if it
  reports that its rollback succeeded, the live items are the old ones, and at most the item whose
  addition failed after its rename; only \<open>PartialImport\<close> announces that more of the bundle may be
  left.\<close>

theorem import_all_or_rolled_back:
  assumes "aead_correct P" "stores P pw (uv_keys s) h bs tbl" "files w (uv_path s) = Some bs"
    and "authenticate P bundle pp = Inr items" "distinct (map fst tbl @ import_draws P s items w)"
    and "import_bundle P s bundle pp w = (r, w')"
  shows "\<exists>bs' tbl'. files w' (uv_path s) = Some bs' \<and> stores P pw (uv_keys s) h bs' tbl' \<and>
    (\<forall>ids. r = Inr ids \<longrightarrow> length ids = length items \<and> tbl' = tbl @ zip ids (map Some items)) \<and>
    (\<forall>e. r = Inl e \<longrightarrow> (\<exists>extra. live tbl' = live tbl @ extra \<and> snd ` set extra \<subseteq> set items \<and>
       (e \<noteq> Err PartialImport \<and> e \<noteq> Panic \<longrightarrow> length extra \<le> 1)))"
proof -
  have "import_items P s items [] w = (r, w')"
    using assms(4,6) by (simp add: import_bundle_def)
  then show ?thesis
    using import_items_spec [OF assms(1,3), of pw h tbl "[]" "[]" items r w'] assms(2,5)
    by (simp only: append_Nil list.map zip_Nil append_Nil2 list.size) metis
qed

theorem import_all_or_rolled_back_witness:
  "\<exists>(s :: UnlockedVault) h bundle (w :: world) w' i bs'. import_bundle toy_prims s bundle [9] w = (Inr [i], w') \<and>
    files w' (uv_path s) = Some bs' \<and> stores toy_prims [1] (uv_keys s) h bs' [(i, Some sample_item)]"
proof -
  obtain bdl where b: "authenticate toy_prims bdl [9] = Inr [sample_item]"
    using sample_bundle by blast
  have len: "length (payload_bytes sample_item) \<le> 2147483648"
    by (simp add: sample_item_def payload_bytes_def)
  obtain s h bs w where e: "holding s h bs w []" using sample_empty by blast
  note e = e [unfolded holding_def]
  obtain w' where a: "add toy_prims s sample_item w = (Inr (next_random w 16), w')"
    using add_ok [OF toy_prims_aead(1,3), of "[1]" "uv_keys s" h bs "[]" s "uv_path s" w sample_item] e len by auto
  have i: "import_bundle toy_prims s bdl [9] w = (Inr [next_random w 16], w')"
    by (simp add: import_bundle_def b catch_act_def a)
  then show ?thesis
    using import_all_or_rolled_back [OF toy_prims_aead(1) _ _ b _ i, of "[1]" h bs "[]"] e a by fastforce
qed

end
