(* ===== verification/Command_Laws.thy ===== *)
theory Command_Laws
  imports Row_Laws Export_Laws
begin

text \<open>
  The vault commands end to end: what \<open>add\<close> stored \<open>get\<close> prints, and what \<open>list\<close> prints.
\<close>

subsection \<open>Runs\<close>

lemma bind_cli_case: "bind_cli m f c = (case m c of (Inl e, c') \<Rightarrow> (Inl e, c') | (Inr x, c') \<Rightarrow> f x c')"
  by (simp add: bind_cli_def)

lemma cn_world_write [simp]: "cn_world (snd (write_stdout bs c)) = cn_world c"
  by (simp add: write_stdout_def split: option.splits)

lemma write_stdout_quiet:
  "cn_out_faults c = (\<lambda>_. None) \<Longrightarrow>
    write_stdout bs c = (Inr (), c\<lparr>cn_stdout := cn_stdout c @ bs, cn_prints := cn_prints c + 1\<rparr>)"
  by (simp add: write_stdout_def)

lemma write_stdout_Inr:
  "write_stdout bs c = (Inr (), c') \<longleftrightarrow> cn_out_faults c (cn_prints c) = None \<and>
    c' = c\<lparr>cn_stdout := cn_stdout c @ bs, cn_prints := cn_prints c + 1\<rparr>"
  by (auto simp: write_stdout_def split: option.splits)

subsection \<open>Typed secrets\<close>

text \<open>A line of standard input that holds the secret \<open>s\<close>.\<close>

definition typed :: "byte list \<Rightarrow> bool" where
  "typed s \<longleftrightarrow> utf8_valid (s @ [10]) \<and> 10 \<notin> set s \<and> (s = [] \<or> last s \<noteq> 13)"

lemma next_line_typed: "10 \<notin> set s \<Longrightarrow> next_line (s @ 10 # rest) = s @ [10]"
  by (simp add: next_line_def takeWhile_append)

lemma trim_line_end_typed: "typed s \<Longrightarrow> trim_line_end (s @ [10]) = s"
proof -
  assume t: "typed s"
  have "dropWhile (\<lambda>b. b = 13 \<or> b = 10) (rev s) = rev s"
  proof (cases s rule: rev_cases)
    case (snoc ys y)
    then have "y \<noteq> 13 \<and> y \<noteq> 10" using t by (auto simp: typed_def)
    then show ?thesis by (simp add: snoc)
  qed simp
  then show ?thesis by (simp add: trim_line_end_def)
qed

lemma prompt_typed:
  assumes "typed s" "cn_stdin c = s @ 10 # rest"
  shows "prompt_password True c = (Inr s, c\<lparr>cn_stdin := rest\<rparr>)"
proof -
  have "next_line (cn_stdin c) = s @ [10]" "utf8_valid (s @ [10])"
    using assms next_line_typed by (auto simp: typed_def)
  then show ?thesis
    using trim_line_end_typed [OF assms(1)] assms(2)
    by (simp add: prompt_password_def read_password_from_stdin_def read_line_def bind_cli_def from_utf8_def)
qed

subsection \<open>Sessions\<close>

lemma unlock_session_run:
  assumes "pw \<noteq> []" "files w v = Some bs" "faults w (calls w) = None"
  shows "unlock_session P v pw w = (unlock_bytes P v pw bs, snapshot w)"
  using assms by (simp add: unlock_session_def vault_open_def unlock_def unlock_impl_def bind_act_def fs_read_def)

lemma unlock_session_Inr:
  "unlock_session P v pw w = (Inr s, w') \<longleftrightarrow> pw \<noteq> [] \<and> faults w (calls w) = None \<and>
    (\<exists>bs. files w v = Some bs \<and> unlock_bytes P v pw bs = Inr s) \<and> w' = snapshot w"
  by (auto simp: unlock_session_def vault_open_def unlock_def unlock_impl_def bind_act_eq_Inr fs_read_Inr
      split: if_splits)

lemma unlock_oversized:
  assumes "67108864 < length bs"
  shows "\<exists>e. unlock_bytes P v pw bs = Inl e"
proof (cases "length bs \<le> usize_max")
  case True
  then show ?thesis using assms
    by (simp add: unlock_bytes_def parse_and_validate_def to_u64_def)
next
  case False
  then show ?thesis
    by (simp add: unlock_bytes_def parse_and_validate_def to_u64_def)
qed

lemma unlock_stored:
  assumes P: "aead_correct P" and st: "stores P pw keys h bs tbl" and len: "length bs \<le> 67108864"
  shows "unlock_bytes P v pw bs = Inr (session_of v h keys)"
  using unlock_repr [OF P _ len] st unfolding stores_def by blast

lemma unlocked_stored:
  assumes P: "aead_correct P" and st: "stores P pw keys h bs tbl" and u: "unlock_bytes P v pw bs = Inr s"
  shows "s = session_of v h keys" and "length bs \<le> 67108864"
proof -
  show l: "length bs \<le> 67108864" using unlock_oversized [of bs P v pw] u by (cases "67108864 < length bs") auto
  show "s = session_of v h keys" using unlock_stored [OF P st l, of v] u by simp
qed

lemma session_of_fields [simp]: "uv_path (session_of v h keys) = v" "uv_keys (session_of v h keys) = keys"
  by (simp_all add: session_of_def)

subsection \<open>The commands on a stored table\<close>

lemma add_item_Inr:
  assumes P: "aead_correct P" and st: "stores P pw keys h bs tbl" and f: "files (cn_world c) v = Some bs"
    and new: "next_random (cn_world c) 16 \<notin> fst ` set tbl"
    and r: "add_item P v pw it c = (Inr (), c')"
  shows "\<exists>bs'. files (cn_world c') v = Some bs' \<and>
    stores P pw keys h bs' (tbl @ [(next_random (cn_world c) 16, Some it)]) \<and>
    cn_stdout c' = cn_stdout c @ line_of (''Item ID: '' @ hex_id (next_random (cn_world c) 16)) \<and>
    faults (cn_world c') = faults (cn_world c) \<and> pw \<noteq> []"
proof -
  obtain s w1 i w2 where u: "unlock_session P v pw (cn_world c) = (Inr s, w1)"
    and a: "add P s it w1 = (Inr i, w2)"
    and o: "write_stdout (line_of (''Item ID: '' @ hex_id i)) (c\<lparr>cn_world := w2\<rparr>) = (Inr (), c')"
    using r by (auto simp: add_item_def bind_cli_eq_Inr do_io_eq)
  have w1: "w1 = snapshot (cn_world c)" "pw \<noteq> []" and ub: "unlock_bytes P v pw bs = Inr s"
    using u f by (auto simp: unlock_session_Inr)
  have s: "s = session_of v h keys" by (rule unlocked_stored(1) [OF P st ub])
  have rid: "next_random w1 16 = next_random (cn_world c) 16" by (simp add: w1)
  have at: "atomic_update v (\<lambda>bs'. stores P pw keys h bs' (tbl @ [(next_random w1 16, Some it)])) (add P s it) w1"
    and i: "i = next_random w1 16"
    using add_atomic [OF P st, of s v w1 it] a f new by (auto simp: s w1)
  obtain bs' where b: "files w2 v = Some bs'" "stores P pw keys h bs' (tbl @ [(next_random w1 16, Some it)])"
    using at a unfolding atomic_update_def by blast
  have "faults w2 = faults w1" using at a by (auto simp: atomic_update_def evolves_def)
  then show ?thesis using b o i w1 by (auto simp: write_stdout_Inr rid)
qed

lemma get_item_run:
  assumes P: "aead_correct P" and st: "stores P pw keys h bs tbl" and f: "files (cn_world c) v = Some bs"
    and q: "no_faults (cn_world c)" "cn_out_faults c = (\<lambda>_. None)" "pw \<noteq> []"
    and it: "(i, Some it) \<in> set tbl" "payload_ok it"
  shows "case get_item P v pw i c of (r, c') \<Rightarrow>
    if length bs \<le> 67108864
    then r = Inr () \<and> cn_stdout c' = cn_stdout c @ line_of ''NOTE: secret printed to stdout'' @ pi_secret it @ [10] \<and>
      files (cn_world c') = files (cn_world c)
    else (\<exists>e. r = Inl e) \<and> cn_stdout c' = cn_stdout c"
proof -
  let ?w = "cn_world c"
  have ft: "faults ?w n = None" for n using q(1) by (simp add: no_faults_def)
  have u: "unlock_session P v pw ?w = (unlock_bytes P v pw bs, snapshot ?w)"
    using unlock_session_run [of pw ?w v bs P] q(3) f ft by simp
  show ?thesis
  proof (cases "length bs \<le> 67108864")
    case True
    have m: "map_of (live tbl) i = Some it" using map_of_live [OF stores_ids(1) [OF st]] it(1) by blast
    have "with_item P (session_of v h keys) i (\<lambda>view. ok (pi_secret view)) (snapshot ?w) =
        (Inr (pi_secret it), snapshot (snapshot ?w))"
      using with_item_spec [OF P st, of "session_of v h keys" v "snapshot ?w" i] f ft
      by (simp add: m deserialize_payload_ok [OF it(2)])
    then show ?thesis
      using True q(2)
      by (simp add: get_item_def bind_cli_case do_io_def u unlock_stored [OF P st True] write_stdout_def line_of_def)
  next
    case False
    then obtain e where "unlock_bytes P v pw bs = Inl e" using unlock_oversized [of bs P v pw] by auto
    then show ?thesis using False by (simp add: get_item_def bind_cli_case do_io_def u)
  qed
qed

lemma list_vault_run:
  assumes P: "aead_correct P" and st: "stores P pw keys h bs tbl" and f: "files w v = Some bs"
    and q: "no_faults w" "pw \<noteq> []"
  shows "fst (list_vault P v pw w) = Inr out \<longleftrightarrow> length bs \<le> 67108864 \<and>
    list_all (\<lambda>x. payload_ok (snd x)) (live tbl) \<and> out = render_item_summaries (map summary (live tbl))"
proof -
  have ft: "faults w n = None" for n using q(1) by (simp add: no_faults_def)
  have u: "unlock_session P v pw w = (unlock_bytes P v pw bs, snapshot w)"
    using unlock_session_run [of pw w v bs P] q(2) f ft by simp
  obtain r w' where r: "list_items P (session_of v h keys) (snapshot w) = (r, w')" by fastforce
  have l: "r = Inr ss \<longleftrightarrow> list_all (\<lambda>x. payload_ok (snd x)) (live tbl) \<and> ss = map summary (live tbl)" for ss
    using list_items_spec [OF P st, of "session_of v h keys" v "snapshot w" ss] f ft r by simp
  show ?thesis
  proof (cases "length bs \<le> 67108864")
    case True
    have "fst (list_vault P v pw w) = and_then r (\<lambda>ss. Inr (render_item_summaries ss))"
      by (cases r) (simp_all add: list_vault_def bind_act_def u r unlock_stored [OF P st True])
    then show ?thesis using True l by (cases r) (simp_all, metis+)
  next
    case False
    then obtain e where "unlock_bytes P v pw bs = Inl e" using unlock_oversized [of bs P v pw] by auto
    then show ?thesis using False by (simp add: list_vault_def bind_act_def u)
  qed
qed

lemma list_vault_files: "files (snd (list_vault P v pw w)) = files w"
proof -
  have "within (\<lambda>s. s = files w) (list_vault P v pw)"
    by (simp add: list_vault_def unlock_session_def unlock_def unlock_impl_def vault_open_def list_items_def within_bind)
  then show ?thesis unfolding within_def evolves_def by blast
qed

subsection \<open>Sample runs\<close>

text \<open>A console whose user typed some lines, over a disk with an empty vault.\<close>

definition console_at :: "world \<Rightarrow> byte list \<Rightarrow> console" where
  "console_at w input = \<lparr>cn_world = w, cn_stdin = input, cn_tty = [], cn_stdout = [],
     cn_out_faults = (\<lambda>_. None), cn_prints = 0, cn_stderr = []\<rparr>"

lemma console_at_fields [simp]:
  "cn_world (console_at w input) = w" "cn_stdin (console_at w input) = input"
  "cn_stdout (console_at w input) = []" "cn_out_faults (console_at w input) = (\<lambda>_. None)"
  "cn_prints (console_at w input) = 0"
  by (simp_all add: console_at_def)

lemma typed_sample: "typed [1]" "typed [2, 3]"
  by (simp_all add: typed_def in_rng_def)

lemma holding_unlocks:
  assumes "holding s h bs w tbl"
  shows "unlock_session toy_prims (uv_path s) [1] w = (Inr (session_of (uv_path s) h (uv_keys s)), snapshot w)"
proof -
  note e = assms [unfolded holding_def]
  have "unlock_bytes toy_prims (uv_path s) [1] bs = Inr (session_of (uv_path s) h (uv_keys s))"
    by (rule unlock_stored [OF toy_prims_aead(1)]) (use e in auto)
  then show ?thesis using e unlock_session_run [of "[1]" w "uv_path s" bs] by (simp add: no_faults_def)
qed

lemma sample_add_run:
  assumes e: "holding s h bs w []"
  shows "\<exists>c1. run_command toy_prims Q clk (CmdAdd [97] (bytes_of ''api-token'') (uv_path s)) True
    (console_at w ([1] @ 10 # [2, 3] @ 10 # [])) = (Inr (), c1)"
proof -
  let ?v = "uv_path s" and ?s = "session_of (uv_path s) h (uv_keys s)"
  let ?it = "\<lparr>pi_kind = ApiToken, pi_label = [97], pi_tags = [], pi_secret = [2, 3]\<rparr>"
  note f = e [unfolded holding_def]
  obtain w2 where a: "add toy_prims ?s ?it (snapshot w) = (Inr (next_random (snapshot w) 16), w2)"
    using add_ok [OF toy_prims_aead(1,3), of "[1]" "uv_keys s" h bs "[]" ?s ?v "snapshot w" ?it] f
    by (auto simp: no_faults_def payload_bytes_def tag_bytes_def)
  have k: "parse_item_kind (bytes_of ''api-token'') = Inr ApiToken" by code_simp
  show ?thesis
    using prompt_typed [OF typed_sample(1), of "console_at w ([1] @ 10 # [2, 3] @ 10 # [])"]
      prompt_typed [OF typed_sample(2), of "console_at w ([2, 3] @ 10 # [])"]
    by (simp add: run_command_def add_command_def k bind_cli_case add_item_def do_io_def
        holding_unlocks [OF e] a write_stdout_def console_at_def)
qed

subsection \<open>Properties\<close>

text \<open>C17. What \<open>add\<close> stored, \<open>get\<close> prints: when the \<open>add\<close> command succeeds on a vault that stores a
  table of items, whatever password and secret were typed, it prints an id; the \<open>get\<close> command with that
  id and the same password then prints the notice, exactly the secret and a newline, unless the vault file
  has grown past 64 MiB, in which case it fails and prints nothing.\<close>

theorem added_item_is_shown:
  assumes "aead_correct P" "stores P pw keys h bs tbl" "files (cn_world c) v = Some bs" "no_faults (cn_world c)"
    and "next_random (cn_world c) 16 \<notin> fst ` set tbl" "typed pw" "typed secret"
    and "cn_stdin c = pw @ 10 # secret @ 10 # rest"
    and "run_command P Q clk (CmdAdd label kind v) True c = (Inr (), c1)"
    and "utf8_valid label" "length label \<le> 1024" "length secret \<le> 65536"
    and "cn_world c2 = cn_world c1" "cn_stdin c2 = pw @ 10 # rest2" "cn_out_faults c2 = (\<lambda>_. None)"
  shows "\<exists>i bs1. cn_stdout c1 = cn_stdout c @ line_of (''Item ID: '' @ hex_id i) \<and>
    files (cn_world c1) v = Some bs1 \<and>
    (case run_command P Q clk (CmdGet (bytes_of (hex_id i)) v) True c2 of (r, c3) \<Rightarrow>
      if length bs1 \<le> 67108864
      then r = Inr () \<and> cn_stdout c3 = cn_stdout c2 @ line_of ''NOTE: secret printed to stdout'' @ secret @ [10] \<and>
        files (cn_world c3) = files (cn_world c1)
      else (\<exists>e. r = Inl e) \<and> cn_stdout c3 = cn_stdout c2)"
proof -
  let ?i = "next_random (cn_world c) 16"
  obtain k where k: "parse_item_kind kind = Inr k"
    and a: "add_item P v pw \<lparr>pi_kind = k, pi_label = label, pi_tags = [], pi_secret = secret\<rparr> (c\<lparr>cn_stdin := rest\<rparr>) = (Inr (), c1)"
    using assms(9) prompt_typed [OF assms(6,8)] prompt_typed [OF assms(7), of "c\<lparr>cn_stdin := secret @ 10 # rest\<rparr>" rest]
    by (auto simp: run_command_def add_command_def bind_cli_eq_Inr)
  let ?it = "\<lparr>pi_kind = k, pi_label = label, pi_tags = [], pi_secret = secret\<rparr>"
  obtain bs1 where b: "files (cn_world c1) v = Some bs1" "stores P pw keys h bs1 (tbl @ [(?i, Some ?it)])"
    "cn_stdout c1 = cn_stdout c @ line_of (''Item ID: '' @ hex_id ?i)"
    "faults (cn_world c1) = faults (cn_world c)" "pw \<noteq> []"
    using add_item_Inr [OF assms(1,2) _ _ a] assms(3,5) by auto
  have g: "run_command P Q clk (CmdGet (bytes_of (hex_id ?i)) v) True c2 = get_item P v pw ?i (c2\<lparr>cn_stdin := rest2\<rparr>)"
    using prompt_typed [OF assms(6,14)] hex_decode_hex_id [of ?i]
    by (simp add: run_command_def get_command_def bind_cli_case)
  have "no_faults (cn_world c1)" using b(4) assms(4) by (simp add: no_faults_def)
  moreover have "payload_ok ?it" using assms(10-12) by (simp add: payload_ok_def)
  ultimately show ?thesis
    using get_item_run [OF assms(1) b(2), of "c2\<lparr>cn_stdin := rest2\<rparr>" v ?i ?it] assms(13,15) b
    by (intro exI [of _ ?i] exI [of _ bs1]) (simp add: g case_prod_unfold)
qed

theorem added_item_is_shown_witness:
  "\<exists>(c :: console) c1 c2 i v bs1. run_command toy_prims toy_pqc (\<lambda>_. 5) (CmdAdd [97] (bytes_of ''api-token'') v) True c = (Inr (), c1) \<and>
    cn_stdout c1 = line_of (''Item ID: '' @ hex_id i) \<and> files (cn_world c1) v = Some bs1 \<and>
    (case run_command toy_prims toy_pqc (\<lambda>_. 5) (CmdGet (bytes_of (hex_id i)) v) True c2 of (r, c3) \<Rightarrow>
      if length bs1 \<le> 67108864
      then r = Inr () \<and> cn_stdout c3 = line_of ''NOTE: secret printed to stdout'' @ [2, 3] @ [10] \<and>
        files (cn_world c3) = files (cn_world c1)
      else (\<exists>e. r = Inl e) \<and> cn_stdout c3 = [])"
proof -
  obtain s h bs w where e: "holding s h bs w []" using sample_empty by blast
  note f = e [unfolded holding_def]
  let ?c = "console_at w ([1] @ 10 # [2, 3] @ 10 # [])" and ?v = "uv_path s"
  obtain c1 where r: "run_command toy_prims toy_pqc (\<lambda>_. 5) (CmdAdd [97] (bytes_of ''api-token'') ?v) True ?c = (Inr (), c1)"
    using sample_add_run [OF e] by blast
  have u: "utf8_valid [97]" by code_simp
  have w: "stores toy_prims [1] (uv_keys s) h bs []" "files (cn_world ?c) ?v = Some bs" "no_faults (cn_world ?c)"
    "next_random (cn_world ?c) 16 \<notin> fst ` set ([] :: item_table)"
    and i: "cn_stdin ?c = [1] @ 10 # [2, 3] @ 10 # []" using f by simp_all
  let ?c2 = "console_at (cn_world c1) ([1] @ 10 # [])"
  have c2: "cn_world ?c2 = cn_world c1" "cn_stdin ?c2 = [1] @ 10 # []" "cn_out_faults ?c2 = (\<lambda>_. None)" by simp_all
  have l: "length [97 :: byte] \<le> 1024" "length [2, 3 :: byte] \<le> 65536" by simp_all
  note t = added_item_is_shown [OF toy_prims_aead(1) w typed_sample i r u l c2, unfolded console_at_fields append_Nil]
  show ?thesis using t by (elim exE conjE) (intro exI conjI, rule r, assumption+)
qed

text \<open>\<open>list\<close> prints the live items: the command prints one row for each of them in order if all are
  within the payload limits and the vault file is at most 64 MiB long, and otherwise fails and prints
  nothing; nothing is written.\<close>

theorem list_prints_live_items:
  assumes "aead_correct P" "stores P pw keys h bs tbl" "files (cn_world c) v = Some bs" "no_faults (cn_world c)"
    and "pw \<noteq> []" "typed pw" "cn_stdin c = pw @ 10 # rest" "cn_out_faults c = (\<lambda>_. None)"
  shows "case run_command P Q clk (CmdList v) True c of (r, c') \<Rightarrow>
    files (cn_world c') = files (cn_world c) \<and>
    (if length bs \<le> 67108864 \<and> list_all (\<lambda>x. payload_ok (snd x)) (live tbl)
     then r = Inr () \<and> cn_stdout c' = cn_stdout c @ render_item_summaries (map summary (live tbl))
     else (\<exists>e. r = Inl e) \<and> cn_stdout c' = cn_stdout c)"
proof -
  obtain r w' where l: "list_vault P v pw (cn_world c) = (r, w')" by fastforce
  have s: "r = Inr out \<longleftrightarrow> length bs \<le> 67108864 \<and> list_all (\<lambda>x. payload_ok (snd x)) (live tbl) \<and>
      out = render_item_summaries (map summary (live tbl))" for out
    using list_vault_run [OF assms(1-5), of out] l by simp
  have "files w' = files (cn_world c)"
    using list_vault_files [of P v pw "cn_world c"] l by simp
  then show ?thesis
    using s prompt_typed [OF assms(6,7)] assms(8)
    by (cases r) (auto simp: run_command_def list_command_def bind_cli_case do_io_def l write_stdout_def)
qed

theorem list_prints_live_items_witness:
  "\<exists>(c :: console) v i bs. files (cn_world c) v = Some bs \<and> cn_stdout c = [] \<and>
    (case run_command toy_prims toy_pqc (\<lambda>_. 5) (CmdList v) True c of (r, c') \<Rightarrow>
      if length bs \<le> 67108864
      then r = Inr () \<and> cn_stdout c' = bytes_of (hex_id i) @ bytes_of [CHR 0x09, CHR ''a'', CHR 0x09] @ bytes_of ''ApiToken'' @ [10]
      else (\<exists>e. r = Inl e) \<and> cn_stdout c' = [])"
proof -
  obtain s :: UnlockedVault and h bs i and w :: world where
    e: "stores toy_prims [1] (uv_keys s) h bs [(i, Some sample_item)]" "files w (uv_path s) = Some bs"
    using sample_one [of sample_item] by (auto simp: sample_item_def payload_bytes_def)
  let ?c = "console_at (w\<lparr>faults := \<lambda>_. None\<rparr>) ([1] @ 10 # [])" and ?v = "uv_path s"
  have c: "files (cn_world ?c) ?v = Some bs" "no_faults (cn_world ?c)" "[1 :: byte] \<noteq> []"
    and i: "cn_stdin ?c = [1] @ 10 # []" "cn_out_faults ?c = (\<lambda>_. None)"
    using e(2) by (simp_all add: no_faults_def)
  have k: "payload_ok sample_item" by (simp add: sample_item_def payload_ok_def in_rng_def)
  have esc: "escape_default [97] = ''a''" by code_simp
  have t: "bytes_of [CHR 0x09, CHR ''a'', CHR 0x09] = 9 # bytes_of ''a'' @ [9]" by code_simp
  have r: "render_item_summaries (map summary (live [(i, Some sample_item)])) =
      bytes_of (hex_id i) @ bytes_of [CHR 0x09, CHR ''a'', CHR 0x09] @ bytes_of ''ApiToken'' @ [10]"
    unfolding t by (simp add: render_item_summary_def summary_def sample_item_def esc)
  note l = list_prints_live_items [OF toy_prims_aead(1) e(1) c typed_sample(1) i, of toy_pqc "\<lambda>_. 5"]
  show ?thesis
    using l [unfolded r] k
    by (intro exI [of _ ?c] exI [of _ ?v] exI [of _ i] exI [of _ bs]) (auto simp: e(2))
qed

text \<open>C33. A listing is unambiguous: two lists of summaries print the same text only if they agree, entry by
  entry, in id, label and kind; so no label can forge a row, a column or another label.\<close>

theorem listing_is_unambiguous:
  assumes "list_all listable ss" "list_all listable ts"
  shows "render_item_summaries ss = render_item_summaries ts \<longleftrightarrow> map summary_fields ss = map summary_fields ts"
  using assms by (rule render_inj)

theorem listing_is_unambiguous_witness:
  "render_item_summaries [\<lparr>is_id = zeros 16, is_kind = Password, is_label = [97, 9, 80, 10], is_tags = []\<rparr>] \<noteq>
   render_item_summaries [\<lparr>is_id = zeros 16, is_kind = Password, is_label = [97], is_tags = []\<rparr>]"
proof -
  have "utf8_valid [97, 9, 80, 10]" "utf8_valid [97]" by code_simp+
  then show ?thesis by (subst listing_is_unambiguous) (simp_all add: listable_def summary_fields_def)
qed

end
