(* ===== verification/Command_Transfer.thy ===== *)
theory Command_Transfer
  imports Command_Laws Envelope_Security
begin

text \<open>
  \<open>transfer create\<close> and \<open>transfer receive\<close> over the file system: the replay store file is written
  before the plaintext is released and stops a second delivery; what \<open>create\<close> wrote \<open>receive\<close> delivers.
\<close>

subsection \<open>Writing files\<close>

definition same_host :: "world \<Rightarrow> world \<Rightarrow> bool" where
  "same_host w w' \<longleftrightarrow> entropy w' = entropy w \<and> clock_ms w' = clock_ms w \<and> faults w' = faults w"

lemma same_host_refl [simp]: "same_host w w" "same_host w (snapshot w)"
  by (simp_all add: same_host_def)

lemma same_host_trans: "same_host w v \<Longrightarrow> same_host v u \<Longrightarrow> same_host w u"
  by (simp add: same_host_def)

lemma same_host_no_faults: "same_host w w' \<Longrightarrow> no_faults w' \<longleftrightarrow> no_faults w"
  by (simp add: same_host_def no_faults_def)

lemma evolves_same_host: "evolves Q w w' \<Longrightarrow> same_host w w'"
  by (simp add: evolves_def same_host_def)

lemma within_fs_create: "(\<And>s. Q s \<Longrightarrow> Q (s(p := Some []))) \<Longrightarrow> within Q (fs_create p)"
  by (auto simp: within_def fs_create_def evolves_snapshot0 evolves_snapshot split: option.splits)

lemma within_fs_write: "(\<And>s xs. Q s \<Longrightarrow> Q (s(p := Some xs))) \<Longrightarrow> within Q (fs_write p bs)"
  unfolding fs_write_def by (intro within_bind within_fs_create within_write_all)

lemma within_metadata [simp]: "within Q (fs_metadata p)" "within Q (fs_set_permissions p)"
  by (auto simp: within_def fs_metadata_def fs_set_permissions_def evolves_snapshot0 split: option.splits)

lemma within_restrict [simp]: "within Q (restrict_owner_only p)"
  by (simp add: restrict_owner_only_def within_bind)

lemma within_read_to_string [simp]: "within Q (fs_read_to_string p)"
  by (simp add: fs_read_to_string_def within_bind)

lemma fs_write_Inr:
  assumes "fs_write p bs w = (Inr (), w')"
  shows "files w' = (files w)(p := Some bs) \<and> same_host w w'"
  using assms
  by (auto simp: fs_write_def bind_act_eq_Inr fs_create_def fs_write_all_def Let_def same_host_def split: option.splits)

lemma fs_write_ok:
  assumes "no_faults w"
  shows "\<exists>w'. fs_write p bs w = (Inr (), w') \<and> files w' = (files w)(p := Some bs) \<and> same_host w w'"
proof -
  have "\<exists>w'. fs_write p bs w = (Inr (), w')"
    using assms by (simp add: fs_write_def bind_act_def fs_create_def fs_write_all_def no_faults_def)
  then show ?thesis using fs_write_Inr by blast
qed

lemma restrict_ok:
  assumes "no_faults w" "files w p \<noteq> None"
  shows "restrict_owner_only p w = (Inr (), snapshot (snapshot w))"
  using assms by (simp add: restrict_owner_only_def bind_act_def fs_metadata_def fs_set_permissions_def no_faults_def)

lemma fs_read_ok: "no_faults w \<Longrightarrow> fs_read p w = (ok_or (files w p) (Io IoNotFound), snapshot w)"
  by (simp add: fs_read_def no_faults_def split: option.splits)

subsection \<open>The reading part of receive\<close>

definition receive_opens ::
    "prims \<Rightarrow> pqc_prims \<Rightarrow> (nat \<Rightarrow> Timestamp) \<Rightarrow> SeenEnvelopeIds \<Rightarrow> TransferEnvelope \<Rightarrow>
     DeviceIdentity \<times> DeviceKeypair \<Rightarrow> TrustedSender \<Rightarrow>
     (TransferEnvelope \<times> byte list \<times> SeenEnvelopeIds) res" where
  "receive_opens P Q clk seen e r t =
     (let opened = open_received_transfer_envelope P Q (clk 1) (clk 2) (clk 3) e (snd r)
       (di_classical_public_key (fst r)) t seen in
     and_then (map_err (fst opened) Crypto) (\<lambda>x. ok (e, x, snd opened)))"

definition receive_reads ::
    "prims \<Rightarrow> pqc_prims \<Rightarrow> (nat \<Rightarrow> Timestamp) \<Rightarrow> path \<Rightarrow> path \<Rightarrow> path \<Rightarrow> path \<Rightarrow> byte list \<Rightarrow>
     (TransferEnvelope \<times> byte list \<times> SeenEnvelopeIds) io" where
  "receive_reads P Q clk envelope kp_path sender_path sp pw =
     bind_act (load_seen_ids sp) (\<lambda>seen.
     bind_act (fs_read envelope) (\<lambda>bytes.
     bind_act (lift_rs (map_err (envelope_from_bytes P (clk 0) bytes) Crypto)) (\<lambda>e.
     bind_act (load_sealed_keypair P Q kp_path pw) (\<lambda>r.
     bind_act (load_trusted_sender sender_path) (\<lambda>t.
     lift_rs (receive_opens P Q clk seen e r t))))))"

definition receive_writes :: "path \<Rightarrow> path option \<Rightarrow> byte list \<Rightarrow> SeenEnvelopeIds \<Rightarrow> unit cli" where
  "receive_writes sp output_path x seen =
     bind_cli (do_io (fs_write sp (seen_to_bytes seen))) (\<lambda>_.
     bind_cli (do_io (restrict_owner_only sp)) (\<lambda>_.
     release_plaintext output_path x))"

definition seen_path :: "path \<Rightarrow> path option \<Rightarrow> path option \<Rightarrow> path" where
  "seen_path envelope output_path seen_ids =
     (case seen_ids of Some p \<Rightarrow> p | None \<Rightarrow> default_seen_ids_path envelope output_path)"

lemma do_io_bind: "do_io (bind_act m f) = bind_cli (do_io m) (\<lambda>x. do_io (f x))"
  by (auto simp: do_io_def bind_act_def bind_cli_def fun_eq_iff split: prod.splits sum.splits)

lemma do_io_lift: "do_io (lift_rs r) = lift_cli r"
  by (auto simp: do_io_def lift_rs_def lift_cli_def)

lemma bind_cli_assoc: "bind_cli (bind_cli m f) g = bind_cli m (\<lambda>x. bind_cli (f x) g)"
  by (auto simp: bind_cli_def fun_eq_iff split: prod.splits sum.splits)

lemma bind_cli_and_then: "bind_cli (lift_cli (and_then r (\<lambda>x. ok (g x)))) f = bind_cli (lift_cli r) (\<lambda>x. f (g x))"
  by (cases r) (simp_all add: fun_eq_iff)

lemma receive_split:
  "transfer_receive_command P Q clk envelope kp_path sender_path output_path seen_ids pw =
    bind_cli (do_io (receive_reads P Q clk envelope kp_path sender_path (seen_path envelope output_path seen_ids) pw))
      (\<lambda>(e, x, seen). receive_writes (seen_path envelope output_path seen_ids) output_path x seen)"
  unfolding transfer_receive_command_def receive_reads_def receive_opens_def receive_writes_def seen_path_def Let_def
  by (simp add: do_io_bind do_io_lift bind_cli_assoc case_prod_unfold bind_cli_and_then)

lemma within_load_seen [simp]: "within Q (load_seen_ids p)"
  unfolding load_seen_ids_def by (intro within_catch within_read) (auto split: sum.splits)

lemma within_load_keypair [simp]: "within Q (load_sealed_keypair P R p pw)"
  by (simp add: load_sealed_keypair_def within_bind)

lemma within_load_sender [simp]: "within Q (load_trusted_sender p)"
  by (simp add: load_trusted_sender_def within_bind)

lemma within_receive_reads [simp]: "within Q (receive_reads P R clk e kp s sp pw)"
  by (simp add: receive_reads_def within_bind)

text \<open>What opening does, apart from the replay store.\<close>

definition receive_before_insert ::
    "prims \<Rightarrow> pqc_prims \<Rightarrow> Timestamp \<Rightarrow> TransferEnvelope \<Rightarrow> DeviceIdentity \<times> DeviceKeypair \<Rightarrow>
     TrustedSender \<Rightarrow> (TransferError, byte list) rs" where
  "receive_before_insert P Q now e r t = open_before_insert P Q now e \<lparr>
     oe_recipient_classical_private_key = dk_classical_private_key (snd r),
     oe_recipient_classical_public_key = di_classical_public_key (fst r),
     oe_recipient_pqc_private_key = dk_pqc_private_key (snd r),
     oe_sender_signing_public_key = t\<rparr>"

lemma receive_opens_Inr:
  "receive_opens P Q clk seen e r t = Inr (e', x, seen') \<longleftrightarrow> e' = e \<and>
    receive_before_insert P Q (clk 1) e r t = Inr x \<and>
    check_and_insert (clk 2) (clk 3) seen (te_envelope_id e) (te_expires_at e) = (Inr (), seen')"
  unfolding receive_opens_def Let_def receive_before_insert_def open_received_transfer_envelope_def
  by (auto simp: open_envelope_def split: sum.splits prod.splits)

subsection \<open>Recording before releasing\<close>

text \<open>The store file at \<open>sp\<close> holds the id of the envelope that was read.\<close>

definition recorded :: "prims \<Rightarrow> (nat \<Rightarrow> Timestamp) \<Rightarrow> byte list \<Rightarrow> path \<Rightarrow> fs_state \<Rightarrow> bool" where
  "recorded P clk eb sp s \<longleftrightarrow> (\<exists>e seen. envelope_from_bytes P (clk 0) eb = Inr e \<and>
     s sp = Some (seen_to_bytes seen) \<and> te_envelope_id e \<in> fst ` set (entries seen))"

lemma receive_reads_Inr:
  assumes "receive_reads P Q clk env kp sender sp pw w = (Inr (e, x, seen), w')"
  shows "\<exists>eb. files w env = Some eb \<and> envelope_from_bytes P (clk 0) eb = Inr e \<and>
    te_envelope_id e \<in> fst ` set (entries seen)"
proof -
  obtain s0 w1 eb w2 r w3 t w4 where a: "load_seen_ids sp w = (Inr s0, w1)" "fs_read env w1 = (Inr eb, w2)"
    "envelope_from_bytes P (clk 0) eb = Inr e" and o: "receive_opens P Q clk s0 e r t = Inr (e, x, seen)"
    using assms by (auto simp: receive_reads_def bind_act_eq_Inr receive_opens_Inr)
  have "files w1 = files w" using withinD [OF within_load_seen, of "\<lambda>s. s = files w" w sp "Inr s0" w1] a(1)
    by (simp add: evolves_def)
  moreover have "files w1 env = Some eb" using a(2) by (auto simp: fs_read_Inr)
  moreover have "te_envelope_id e \<in> fst ` set (entries seen)"
    using o by (auto simp: receive_opens_Inr check_and_insert_cases)
  ultimately show ?thesis using a(3) by auto
qed

lemma receive_writes_order:
  assumes "receive_writes sp output_path x seen c = (r, c')" "\<forall>p. output_path = Some p \<longrightarrow> p \<noteq> sp"
  shows "evolves (\<lambda>s. (\<forall>p. output_path = Some p \<longrightarrow> s p = files (cn_world c) p) \<or> s sp = Some (seen_to_bytes seen))
      (cn_world c) (cn_world c') \<and>
    (cn_stdout c' = cn_stdout c \<or> files (cn_world c') sp = Some (seen_to_bytes seen))"
proof -
  let ?w = "cn_world c" and ?b = "seen_to_bytes seen"
  let ?untouched = "\<lambda>s. \<forall>p. output_path = Some p \<longrightarrow> s p = files ?w p"
  let ?Q = "\<lambda>s. ?untouched s \<or> s sp = Some ?b"
  obtain r1 w1 where f: "fs_write sp ?b ?w = (r1, w1)" by fastforce
  have u: "evolves ?untouched ?w w1"
    by (rule withinD [OF within_fs_write _ f]) (use assms(2) in auto)
  have q1: "evolves ?Q ?w w1" by (rule evolves_mono [OF u]) simp
  show ?thesis
  proof (cases r1)
    case (Inl e)
    then show ?thesis using assms(1) f q1 by (auto simp: receive_writes_def bind_cli_case do_io_def)
  next
    case (Inr unit)
    then have s1: "files w1 sp = Some ?b" using fs_write_Inr [of sp ?b ?w w1] f by simp
    obtain r2 w2 where g: "restrict_owner_only sp w1 = (r2, w2)" by fastforce
    let ?S = "\<lambda>s. s sp = Some ?b"
    have q2: "evolves ?S w1 w2" by (rule withinD [OF within_restrict _ g]) (rule s1)
    then have s2: "files w2 sp = Some ?b" by (simp add: evolves_def)
    have q12: "evolves ?Q ?w w2"
      by (rule evolves_trans [OF q1]) (rule evolves_mono [OF q2], simp)
    show ?thesis
    proof (cases r2)
      case (Inl e)
      then show ?thesis using assms(1) f g \<open>r1 = Inr unit\<close> q12 by (auto simp: receive_writes_def bind_cli_case do_io_def)
    next
      case (Inr unit2)
      then have rel: "release_plaintext output_path x (c\<lparr>cn_world := w2\<rparr>) = (r, c')"
        using assms(1) f g \<open>r1 = Inr unit\<close> by (auto simp: receive_writes_def bind_cli_case do_io_def)
      show ?thesis
      proof (cases output_path)
        case None
        then have "cn_world c' = w2" using rel cn_world_write [of x "c\<lparr>cn_world := w2\<rparr>"] by (simp add: release_plaintext_def)
        then show ?thesis using q12 s2 by simp
      next
        case (Some p)
        then obtain w3 where w3: "fs_write p x w2 = (r, w3)" "c' = c\<lparr>cn_world := w3\<rparr>"
          using rel by (auto simp: release_plaintext_def do_io_def split: prod.splits)
        have "evolves ?S w2 w3"
          by (rule withinD [OF within_fs_write _ w3(1)]) (use assms(2) Some s2 in auto)
        then have "evolves ?Q w2 w3" by (rule evolves_mono) simp
        then show ?thesis using evolves_trans [OF q12] w3(2) by auto
      qed
    qed
  qed
qed

subsection \<open>Receiving when no system call fails\<close>

definition seen_result :: "byte list option \<Rightarrow> SeenEnvelopeIds res" where
  "seen_result sb = (case sb of None \<Rightarrow> ok seen_new | Some b \<Rightarrow> map_err (seen_from_bytes b) Crypto)"

definition keypair_result ::
    "prims \<Rightarrow> pqc_prims \<Rightarrow> byte list \<Rightarrow> byte list option \<Rightarrow> (DeviceIdentity \<times> DeviceKeypair) res" where
  "keypair_result P Q pw kb = and_then (ok_or kb (Io IoNotFound)) (open_keypair_bytes P Q pw)"

definition sender_result :: "byte list option \<Rightarrow> TrustedSender res" where
  "sender_result tb =
     and_then (ok_or tb (Io IoNotFound)) (\<lambda>b.
     and_then (from_utf8 b (Io IoOther)) (\<lambda>text.
     and_then (map_err (deserialize_identity_text text) device_parse_error) (\<lambda>s.
     map_err (from_verified (s\<lparr>di_trust_state := Verified\<rparr>))
       (InvalidState ''sender identity is not in a trusted state''))))"

definition receive_result ::
    "prims \<Rightarrow> pqc_prims \<Rightarrow> (nat \<Rightarrow> Timestamp) \<Rightarrow> byte list \<Rightarrow> byte list option \<Rightarrow> byte list option \<Rightarrow>
     byte list option \<Rightarrow> byte list option \<Rightarrow> (TransferEnvelope \<times> byte list \<times> SeenEnvelopeIds) res" where
  "receive_result P Q clk pw sb eb kb tb =
     and_then (seen_result sb) (\<lambda>seen.
     and_then (ok_or eb (Io IoNotFound)) (\<lambda>bytes.
     and_then (map_err (envelope_from_bytes P (clk 0) bytes) Crypto) (\<lambda>e.
     and_then (keypair_result P Q pw kb) (\<lambda>r.
     and_then (sender_result tb) (\<lambda>t.
     receive_opens P Q clk seen e r t)))))"

lemma and_then_act: "bind_act (lift_rs r) f w = (case r of Inr x \<Rightarrow> f x w | Inl e \<Rightarrow> (Inl e, w))"
  by (cases r) simp_all

lemma bind_act_run: "m w = (r, w') \<Longrightarrow> bind_act m f w = (case r of Inr x \<Rightarrow> f x w' | Inl e \<Rightarrow> (Inl e, w'))"
  by (cases r) (simp_all add: bind_act_def)

lemma load_seen_quiet: "no_faults w \<Longrightarrow> load_seen_ids p w = (seen_result (files w p), snapshot w)"
  by (cases "files w p") (simp_all add: load_seen_ids_def catch_act_def fs_read_ok seen_result_def)

lemma load_keypair_quiet: "no_faults w \<Longrightarrow> load_sealed_keypair P Q p pw w = (keypair_result P Q pw (files w p), snapshot w)"
  by (cases "files w p") (simp_all add: load_sealed_keypair_def bind_act_def fs_read_ok keypair_result_def)

lemma read_to_string_quiet: "no_faults w \<Longrightarrow> fs_read_to_string p w =
    (and_then (ok_or (files w p) (Io IoNotFound)) (\<lambda>b. from_utf8 b (Io IoOther)), snapshot w)"
  by (cases "files w p") (simp_all add: fs_read_to_string_def bind_act_def fs_read_ok)

lemma load_sender_quiet: "no_faults w \<Longrightarrow> load_trusted_sender p w = (sender_result (files w p), snapshot w)"
  by (cases "files w p")
     (auto simp: load_trusted_sender_def bind_act_run [OF read_to_string_quiet] sender_result_def and_then_act
       from_utf8_def simp del: from_utf8_Inr split: sum.splits)

lemma no_faults_snapshot [simp]: "no_faults (snapshot w) \<longleftrightarrow> no_faults w"
  by (simp add: no_faults_def)

lemma receive_reads_quiet:
  assumes "no_faults w"
  shows "fst (receive_reads P Q clk env kp sender sp pw w) =
      receive_result P Q clk pw (files w sp) (files w env) (files w kp) (files w sender)"
  using assms
  by (auto simp: receive_reads_def receive_result_def bind_act_run [OF load_seen_quiet] bind_act_run [OF fs_read_ok]
      bind_act_run [OF load_keypair_quiet] bind_act_run [OF load_sender_quiet] and_then_act split: sum.splits)

lemma receive_reads_after:
  assumes "receive_reads P Q clk env kp sender sp pw w = (r, w')"
  shows "files w' = files w" "same_host w w'"
  using withinD [OF within_receive_reads, of "\<lambda>s. s = files w" w, OF refl assms]
  by (simp_all add: evolves_def same_host_def)

definition received_files :: "path \<Rightarrow> path option \<Rightarrow> byte list \<Rightarrow> SeenEnvelopeIds \<Rightarrow> fs_state \<Rightarrow> fs_state" where
  "received_files sp output_path x seen s = (case output_path of
     Some p \<Rightarrow> s(sp := Some (seen_to_bytes seen), p := Some x)
   | None \<Rightarrow> s(sp := Some (seen_to_bytes seen)))"

definition received_stdout :: "path option \<Rightarrow> byte list \<Rightarrow> byte list" where
  "received_stdout output_path x = (case output_path of Some p \<Rightarrow> [] | None \<Rightarrow> x)"

lemma receive_writes_quiet:
  assumes "no_faults (cn_world c)" "cn_out_faults c = (\<lambda>_. None)"
  shows "\<exists>c'. receive_writes sp output_path x seen c = (Inr (), c') \<and> same_host (cn_world c) (cn_world c') \<and>
    files (cn_world c') = received_files sp output_path x seen (files (cn_world c)) \<and>
    cn_stdout c' = cn_stdout c @ received_stdout output_path x"
proof -
  let ?w = "cn_world c"
  obtain w1 where w1: "fs_write sp (seen_to_bytes seen) ?w = (Inr (), w1)"
    "files w1 = (files ?w)(sp := Some (seen_to_bytes seen))" "same_host ?w w1"
    using fs_write_ok [OF assms(1)] by blast
  let ?w2 = "snapshot (snapshot w1)"
  have n1: "no_faults w1" using same_host_no_faults [OF w1(3)] assms(1) by simp
  have w2: "restrict_owner_only sp w1 = (Inr (), ?w2)" by (rule restrict_ok [OF n1]) (simp add: w1(2))
  have h2: "same_host ?w ?w2" using w1(3) by (simp add: same_host_def)
  show ?thesis
  proof (cases output_path)
    case None
    then show ?thesis
      using w1 w2 h2 assms(2)
      by (simp add: receive_writes_def bind_cli_case do_io_def release_plaintext_def write_stdout_def
          received_files_def received_stdout_def)
  next
    case (Some p)
    have "no_faults ?w2" using n1 by simp
    then obtain w3 where w3: "fs_write p x ?w2 = (Inr (), w3)" "files w3 = (files ?w2)(p := Some x)" "same_host ?w2 w3"
      using fs_write_ok by blast
    show ?thesis
      using Some w1 w2 w3 same_host_trans [OF h2 w3(3)]
      by (simp add: receive_writes_def bind_cli_case do_io_def release_plaintext_def
          received_files_def received_stdout_def)
  qed
qed

lemma receive_writes_Inr:
  assumes "receive_writes sp output_path x seen c = (Inr (), c')"
  shows "same_host (cn_world c) (cn_world c') \<and>
    files (cn_world c') = received_files sp output_path x seen (files (cn_world c))"
proof -
  obtain w1 w2 where w: "fs_write sp (seen_to_bytes seen) (cn_world c) = (Inr (), w1)"
    "restrict_owner_only sp w1 = (Inr (), w2)" "release_plaintext output_path x (c\<lparr>cn_world := w2\<rparr>) = (Inr (), c')"
    using assms by (auto simp: receive_writes_def bind_cli_eq_Inr do_io_eq)
  have f: "files w2 = (files (cn_world c))(sp := Some (seen_to_bytes seen))" "same_host (cn_world c) w2"
    using fs_write_Inr [OF w(1)] withinD [OF within_restrict, of "\<lambda>s. s = files w1" w1, OF refl w(2)]
    by (auto simp: evolves_def same_host_def)
  show ?thesis
  proof (cases output_path)
    case None
    then have "cn_world c' = w2"
      using w(3) cn_world_write [of x "c\<lparr>cn_world := w2\<rparr>"] by (simp add: release_plaintext_def)
    then show ?thesis using None f by (simp add: received_files_def)
  next
    case (Some p)
    then obtain w3 where "fs_write p x w2 = (Inr (), w3)" "c' = c\<lparr>cn_world := w3\<rparr>"
      using w(3) by (auto simp: release_plaintext_def do_io_eq)
    then show ?thesis using Some f fs_write_Inr [of p x w2 w3] same_host_trans [OF f(2)]
      by (auto simp: received_files_def)
  qed
qed

lemma receive_run_Inr:
  assumes "transfer_receive_command P Q clk env kp sender output_path seen_ids pw c = (Inr (), c')"
    and "no_faults (cn_world c)" "sp = seen_path env output_path seen_ids"
  shows "\<exists>e x seen. receive_result P Q clk pw (files (cn_world c) sp) (files (cn_world c) env)
      (files (cn_world c) kp) (files (cn_world c) sender) = Inr (e, x, seen) \<and>
    same_host (cn_world c) (cn_world c') \<and>
    files (cn_world c') = received_files sp output_path x seen (files (cn_world c))"
proof -
  obtain e x seen w1 where r: "receive_reads P Q clk env kp sender sp pw (cn_world c) = (Inr (e, x, seen), w1)"
    and o: "receive_writes sp output_path x seen (c\<lparr>cn_world := w1\<rparr>) = (Inr (), c')"
    using assms(1,3) by (auto simp: receive_split bind_cli_eq_Inr do_io_eq)
  have "receive_result P Q clk pw (files (cn_world c) sp) (files (cn_world c) env)
      (files (cn_world c) kp) (files (cn_world c) sender) = Inr (e, x, seen)"
    using receive_reads_quiet [OF assms(2), of P Q clk env kp sender sp pw] r by simp
  then show ?thesis
    using receive_writes_Inr [OF o] receive_reads_after [OF r] same_host_trans by auto
qed

lemma receive_run_Inl:
  assumes "receive_result P Q clk pw (files (cn_world c) sp) (files (cn_world c) env)
      (files (cn_world c) kp) (files (cn_world c) sender) = Inl f"
    and "no_faults (cn_world c)" "sp = seen_path env output_path seen_ids"
    and "transfer_receive_command P Q clk env kp sender output_path seen_ids pw c = (r, c')"
  shows "r = Inl f \<and> files (cn_world c') = files (cn_world c) \<and> cn_stdout c' = cn_stdout c"
proof -
  obtain w1 where w1: "receive_reads P Q clk env kp sender sp pw (cn_world c) = (Inl f, w1)"
    using receive_reads_quiet [OF assms(2), of P Q clk env kp sender sp pw] assms(1) by (metis prod.collapse)
  then show ?thesis
    using assms(3,4) receive_reads_after(1) [OF w1] by (auto simp: receive_split bind_cli_case do_io_def)
qed

lemma receive_run_ok:
  assumes "receive_result P Q clk pw (files (cn_world c) sp) (files (cn_world c) env)
      (files (cn_world c) kp) (files (cn_world c) sender) = Inr (e, x, seen)"
    and "no_faults (cn_world c)" "sp = seen_path env output_path seen_ids" "cn_out_faults c = (\<lambda>_. None)"
  shows "\<exists>c'. transfer_receive_command P Q clk env kp sender output_path seen_ids pw c = (Inr (), c') \<and>
    files (cn_world c') = received_files sp output_path x seen (files (cn_world c)) \<and>
    cn_stdout c' = cn_stdout c @ received_stdout output_path x"
proof -
  obtain w1 where w1: "receive_reads P Q clk env kp sender sp pw (cn_world c) = (Inr (e, x, seen), w1)"
    using receive_reads_quiet [OF assms(2), of P Q clk env kp sender sp pw] assms(1) by (metis prod.collapse)
  note a = receive_reads_after [OF w1]
  let ?c = "c\<lparr>cn_world := w1\<rparr>"
  have "no_faults (cn_world ?c)" using same_host_no_faults [OF a(2)] assms(2) by simp
  then obtain c' where "receive_writes sp output_path x seen ?c = (Inr (), c')"
    "files (cn_world c') = received_files sp output_path x seen (files (cn_world ?c))"
    "cn_stdout c' = cn_stdout ?c @ received_stdout output_path x"
    using receive_writes_quiet [of ?c sp output_path x seen] assms(4) by auto
  then show ?thesis using a(1) w1 assms(3) by (simp add: receive_split bind_cli_case do_io_def)
qed

end
