(* ===== verification/Transfer_Run.thy ===== *)
theory Transfer_Run
  imports Command_Transfer
begin

text \<open>
  A transfer from one device to another through files: the key files and identity files of two
  devices, \<open>transfer create\<close> on one console and \<open>transfer receive\<close> on another.
\<close>

subsection \<open>The files of a device\<close>

text \<open>
  A key file that opens to the keys of a device, on that device's disk, and an identity file that is
  read to its identity, on any disk.
\<close>

definition key_file ::
    "prims \<Rightarrow> pqc_prims \<Rightarrow> fs_state \<Rightarrow> path \<Rightarrow> byte list \<Rightarrow> DeviceIdentity \<Rightarrow> DeviceKeypair \<Rightarrow> bool" where
  "key_file P Q s kp_path pw d kp \<longleftrightarrow>
     identity_wf d \<and> owns Q d kp \<and> mlkem_pair Q (di_pqc_public_key d) (dk_pqc_private_key kp) \<and>
     (\<exists>kb. s kp_path = Some kb \<and> open_keypair_bytes P Q pw kb = Inr (d, kp))"

definition identity_file :: "fs_state \<Rightarrow> path \<Rightarrow> DeviceIdentity \<Rightarrow> bool" where
  "identity_file s id_path d \<longleftrightarrow> (\<exists>tb. s id_path = Some tb \<and> utf8_valid tb \<and>
     deserialize_identity_text tb = Inr (d\<lparr>di_trust_state := Untrusted\<rparr>))"

definition device_files ::
    "prims \<Rightarrow> pqc_prims \<Rightarrow> fs_state \<Rightarrow> path \<Rightarrow> byte list \<Rightarrow> path \<Rightarrow> DeviceIdentity \<Rightarrow> DeviceKeypair \<Rightarrow> bool" where
  "device_files P Q s kp_path pw id_path d kp \<longleftrightarrow> key_file P Q s kp_path pw d kp \<and> identity_file s id_path d"

lemmas device_file_defs = device_files_def key_file_def identity_file_def

lemma device_keypair: "key_file P Q s kf pw d kp \<Longrightarrow> keypair_result P Q pw (s kf) = Inr (d, kp)"
  by (auto simp: key_file_def keypair_result_def)

lemma device_signs:
  assumes "key_file P Q s kf pw d kp"
  obtains spk where "di_signing_public_key d = Some spk" "ed25519_pair Q spk (dk_signing_private_key kp)"
  using assms by (auto simp: key_file_def owns_def)

lemma device_sender:
  assumes "identity_file s idf d" "di_signing_public_key d = Some spk"
  shows "sender_result (s idf) = Inr (TrustedSender spk)"
proof -
  obtain tb where t: "s idf = Some tb" "utf8_valid tb" "deserialize_identity_text tb = Inr (d\<lparr>di_trust_state := Untrusted\<rparr>)"
    using assms(1) by (auto simp: identity_file_def)
  have "from_utf8 tb (Io IoOther) = Inr tb" using t(2) by simp
  then show ?thesis using assms(2) t(1,3) by (simp add: sender_result_def from_verified_def)
qed

subsection \<open>Creating an envelope file\<close>

lemma within_keypair [simp]: "within R (x25519_keypair Q)"
  by (simp add: x25519_keypair_def within_bind)

lemma within_encapsulate [simp]: "within R (encapsulate Q pk)"
  unfolding encapsulate_def by (auto intro!: within_bind split: prod.splits)

lemma within_now [simp]: "within R envelope_now"
  by (simp add: within_def envelope_now_def evolves_refl)

lemma within_pair [simp]: "within R (Pair r)"
  by (simp add: within_def evolves_refl)

lemma within_create_envelope [simp]: "within R (create_envelope P Q c)"
  unfolding create_envelope_def Let_def
  by (auto intro!: within_bind within_map_err split: prod.splits option.splits)

lemma ephemeral_snapshot [simp]: "ephemeral_of (snapshot w) = ephemeral_of w"
  by (simp add: ephemeral_of_def next_random_def)

definition sent_params ::
    "DeviceIdentity \<Rightarrow> DeviceKeypair \<Rightarrow> DeviceIdentity \<Rightarrow> byte list \<Rightarrow> nat \<Rightarrow> CreateEnvelopeParams" where
  "sent_params sd sk rd plaintext expires_at = \<lparr>
     ce_sender_device_id = di_device_id sd, ce_recipient_device_id = Some (di_device_id rd),
     ce_anonymous_recipient_public_key = None,
     ce_recipient_classical_public_key = di_classical_public_key rd,
     ce_recipient_pqc_public_key = di_pqc_public_key rd,
     ce_sender_signing_private_key = dk_signing_private_key sk,
     ce_plaintext_payload = plaintext, ce_expires_at = Some (of_nat expires_at)\<rparr>"

lemma create_signed_params:
  "create_signed_transfer_envelope P Q (di_device_id sd) sk (Some (di_device_id rd)) (di_classical_public_key rd)
     (di_pqc_public_key rd) plaintext (Some (of_nat t)) = create_envelope P Q (sent_params sd sk rd plaintext t)"
proof -
  have "\<lparr>ssk_algorithm = ssk_algorithm k, ssk_bytes = ssk_bytes k\<rparr> = k" for k :: SigningPrivateKey by (cases k) simp
  note eta = this [of "dk_signing_private_key sk"]
  show ?thesis unfolding create_signed_transfer_envelope_def sent_params_def eta by simp
qed

lemma sent_params_fields [simp]:
  "ce_recipient_classical_public_key (sent_params sd sk rd m t) = di_classical_public_key rd"
  "ce_recipient_pqc_public_key (sent_params sd sk rd m t) = di_pqc_public_key rd"
  "ce_sender_signing_private_key (sent_params sd sk rd m t) = dk_signing_private_key sk"
  "ce_plaintext_payload (sent_params sd sk rd m t) = m"
  "ce_expires_at (sent_params sd sk rd m t) = Some (of_nat t)"
  "sent_params sd sk (rd\<lparr>di_trust_state := x\<rparr>) m t = sent_params sd sk rd m t"
  by (simp_all add: sent_params_def)

text \<open>When the clock shows a time and a lifetime that fit.\<close>

definition expiry_fits :: "world \<Rightarrow> u64 \<Rightarrow> bool" where
  "expiry_fits w expires_in \<longleftrightarrow> 0 \<le> clock_ms w \<and> 0 < unat expires_in \<and>
     nat (clock_ms w) + unat expires_in * 1000 \<le> usize_max"

definition expiry_of :: "world \<Rightarrow> u64 \<Rightarrow> nat" where
  "expiry_of w expires_in = nat (clock_ms w) + unat expires_in * 1000"

lemma clock_snapshot [simp]: "expiry_of (snapshot w) x = expiry_of w x" "expiry_fits (snapshot w) x = expiry_fits w x"
  by (simp_all add: expiry_of_def expiry_fits_def)

lemma expiry_computed:
  assumes "expiry_fits w x"
  shows "clock_ms v = clock_ms w \<Longrightarrow> cli_unix_now_millis v = (Inr (of_nat (nat (clock_ms w))), v)" (is "_ \<Longrightarrow> ?a")
    and "checked_mul (unat x) 1000 = Some (unat x * 1000)" (is ?b)
    and "checked_add (unat (of_nat (nat (clock_ms w)) :: u64)) (unat x * 1000) = Some (expiry_of w x)" (is ?c)
    and "\<not> expired_at (unix_time_millis_at (clock_ms w)) (Some (of_nat (expiry_of w x)))" (is ?d)
proof -
  note f = assms [unfolded expiry_fits_def]
  have u: "unat (of_nat n :: u64) = n" if "n \<le> usize_max" for n
    using that by (simp add: unat_of_nat usize_max_def)
  have n: "nat (clock_ms w) \<le> usize_max" "unat x * 1000 \<le> usize_max" using f by linarith+
  show ?a if "clock_ms v = clock_ms w" using that f n(1) by (simp add: cli_unix_now_millis_def to_u64_def)
  show ?b using n(2) by simp
  show ?c using f u [OF n(1)] by (simp add: expiry_of_def)
  have "unat (of_nat (expiry_of w x) :: u64) = expiry_of w x" using f by (intro u) (simp add: expiry_of_def)
  then have "(of_nat (nat (clock_ms w)) :: u64) < of_nat (expiry_of w x)"
    using f u [OF n(1)] by (simp add: word_less_nat_alt expiry_of_def)
  then show ?d using f n(1) by (simp add: expired_at_def unix_time_millis_at_def Let_def)
qed

lemma create_run:
  assumes P: "aead_total P" "kdf_total P" "sig_correct Q" "kem_correct Q"
    and s: "key_file P Q (files (cn_world c)) skp spw sd sk"
    and r: "key_file P Q sf rkp rpw rd rk" and ri: "identity_file (files (cn_world c)) ridf rd"
    and m: "files (cn_world c) input = Some plaintext" "length plaintext \<le> 2147483000"
    and q: "no_faults (cn_world c)" "cn_out_faults c = (\<lambda>_. None)" "expiry_fits (cn_world c) expires_in"
    and ex: "exchange_usable Q (ephemeral_of (cn_world c)) (di_classical_public_key rd)"
  shows "\<exists>e c'. transfer_create_command P Q skp ridf input env expires_in spw c = (Inr (), c') \<and>
    sealed_for P Q (sent_params sd sk rd plaintext (expiry_of (cn_world c) expires_in)) (dk_pqc_private_key rk)
      (ephemeral_of (cn_world c)) e \<and>
    create_params_ok (sent_params sd sk rd plaintext (expiry_of (cn_world c) expires_in)) \<and>
    files (cn_world c') = (files (cn_world c))(env := Some (envelope_to_bytes e)) \<and> no_faults (cn_world c')"
proof -
  let ?w = "cn_world c"
  let ?w3 = "snapshot (snapshot (snapshot ?w))"
  let ?p = "sent_params sd sk rd plaintext (expiry_of ?w expires_in)"
  obtain tb where tb: "files ?w ridf = Some tb" "utf8_valid tb"
    "deserialize_identity_text tb = Inr (rd\<lparr>di_trust_state := Untrusted\<rparr>)"
    using ri by (auto simp: identity_file_def)
  have l: "load_sealed_keypair P Q skp spw ?w = (Inr (sd, sk), snapshot ?w)"
    using load_keypair_quiet [OF q(1)] device_keypair [OF s] by simp
  have t: "fs_read_to_string ridf (snapshot ?w) = (Inr tb, snapshot (snapshot ?w))"
    using read_to_string_quiet [of "snapshot ?w" ridf] q(1) tb by simp
  have i: "fs_read input (snapshot (snapshot ?w)) = (Inr plaintext, ?w3)"
    using fs_read_ok [of "snapshot (snapshot ?w)" input] q(1) m(1) by simp
  note x = expiry_computed [OF q(3)]
  have ok: "create_params_ok ?p"
    using s r m(2) by (simp add: create_params_ok_def sent_params_def key_file_def identity_wf_def)
  have keys: "mlkem_pair Q (ce_recipient_pqc_public_key ?p) (dk_pqc_private_key rk)"
    "ed25519_pair Q (the (di_signing_public_key sd)) (ce_sender_signing_private_key ?p)"
    using r s by (auto simp: key_file_def owns_def)
  obtain e w4 where e: "create_envelope P Q ?p ?w3 = (Inr e, w4)"
    "sealed_for P Q ?p (dk_pqc_private_key rk) (ephemeral_of ?w) e"
    using create_envelope_run [OF P ok _ keys, of ?w3] x(4) ex by auto
  have w4: "files w4 = files ?w" "no_faults w4"
    using withinD [OF within_create_envelope, of "\<lambda>s. s = files ?w3" ?w3, OF refl e(1)] q(1)
    by (simp_all add: evolves_def no_faults_def)
  obtain w5 where w5: "fs_write env (envelope_to_bytes e) w4 = (Inr (), w5)"
    "files w5 = (files w4)(env := Some (envelope_to_bytes e))" "same_host w4 w5"
    using fs_write_ok [OF w4(2)] by blast
  have "no_faults w5" using same_host_no_faults [OF w5(3)] w4(2) by simp
  then show ?thesis
    using e(2) ok q(2) w4(1) w5(1,2)
    by (intro exI [of _ e]) (simp add: transfer_create_command_def bind_cli_case do_io_def l t tb(3) i x create_signed_params e(1)
        map_err_act_def write_stdout_def)
qed

subsection \<open>Receiving it\<close>

lemma receive_created:
  assumes laws: "aead_correct P" "sha_sized P" "sig_correct Q" "dh_correct Q"
    and sd: "key_file P Q sfs skp spw sd sk" "identity_file sf sidf sd" and rd: "key_file P Q sf rkp rpw rd rk"
    and e: "sealed_for P Q (sent_params sd sk rd m t) (dk_pqc_private_key rk) eph e"
      "create_params_ok (sent_params sd sk rd m t)"
    and ex: "length eph = 32" "exchange_usable Q eph (di_classical_public_key rd)"
    and clk: "\<And>n. \<not> expired_at (clk n) (Some (of_nat t))"
  shows "receive_result P Q clk rpw None (Some (envelope_to_bytes e)) (sf rkp) (sf sidf) =
    Inr (e, m, \<lparr>entries = [(te_envelope_id e, Some (of_nat t))]\<rparr>)"
proof -
  obtain spk where spk: "ed25519_pair Q spk (dk_signing_private_key sk)" "sender_result (sf sidf) = Inr (TrustedSender spk)"
    using device_signs [OF sd(1)] device_sender [OF sd(2)] by metis
  let ?p = "\<lparr>oe_recipient_classical_private_key = dk_classical_private_key rk,
     oe_recipient_classical_public_key = di_classical_public_key rd,
     oe_recipient_pqc_private_key = dk_pqc_private_key rk, oe_sender_signing_public_key = TrustedSender spk\<rparr>"
  have km: "key_match Q (sent_params sd sk rd m t) ?p"
    using rd spk(1) by (simp add: key_match_def key_file_def owns_def)
  have x: "te_expires_at e = Some (of_nat t)" using e(1) by (simp add: sealed_for_def)
  have "envelope_from_bytes P (clk 0) (envelope_to_bytes e) = ok e"
    using sealed_for_parses [OF laws(1,2,4) e(2) ex(1) e(1)] clk by simp
  moreover have "receive_before_insert P Q (clk 1) e (rd, rk) (TrustedSender spk) = Inr m"
    using sealed_for_opens [OF laws(1,3,4) e(2) km ex(1) _ , of e "clk 1"] e(1) ex(2) clk x
    by (simp add: receive_before_insert_def)
  moreover have "check_and_insert (clk 2) (clk 3) seen_new (te_envelope_id e) (te_expires_at e) =
      (Inr (), \<lparr>entries = [(te_envelope_id e, Some (of_nat t))]\<rparr>)"
    using clk [of 3] by (simp add: check_and_insert_def seen_new_def evict_expired_def x expired_at_def)
  ultimately have "receive_opens P Q clk seen_new e (rd, rk) (TrustedSender spk) =
      Inr (e, m, \<lparr>entries = [(te_envelope_id e, Some (of_nat t))]\<rparr>)"
    by (simp add: receive_opens_Inr)
  then show ?thesis
    using \<open>envelope_from_bytes P (clk 0) (envelope_to_bytes e) = ok e\<close>
    by (simp add: receive_result_def seen_result_def device_keypair [OF rd] spk(2))
qed

text \<open>A delivered envelope and the store it leaves: a second look at the same bytes is refused.\<close>

lemma read_entries_end: "read_entries bs n c es ids = Inr (es', c') \<Longrightarrow> c' = c + 24 * n"
  by (induction n arbitrary: c es ids) (fastforce simp: bp_Inr Let_def split: if_splits prod.splits)+

lemma seen_file_sound:
  assumes "seen_from_bytes bs = Inr s"
  shows "seen_wf s \<and> length (entries s) \<le> 65536 \<and> bs = seen_to_bytes s"
proof -
  obtain n es where n: "n \<le> (65536 :: u32)" "read_entries bs (unat n) 4 [] [] = Inr (es, length bs)"
    using assms by (auto simp: seen_from_bytes_def bp_Inr not_less split: if_splits)
  have "unat n \<le> 65536" using n(1) by (simp add: word_le_nat_alt)
  then have "length bs \<le> usize_max" using read_entries_end [OF n(2)] by (simp add: usize_max_def)
  then show ?thesis using seen_from_bytes_Inr assms by blast
qed

lemma envelope_id_length: "envelope_from_bytes P now eb = Inr e \<Longrightarrow> length (te_envelope_id e) = 16"
proof -
  assume "envelope_from_bytes P now eb = Inr e"
  then have "parse_envelope_bytes eb = Inr e"
    by (auto simp: envelope_from_bytes_def validate_for_open_def)
  then show ?thesis using parse_envelope_sound [of eb e] by (simp add: envelope_wf_def envelope_sized_def)
qed

lemma same_envelope: "envelope_from_bytes P n1 eb = Inr e \<Longrightarrow> envelope_from_bytes P n2 eb = Inr e' \<Longrightarrow> e' = e"
  by (auto simp: envelope_from_bytes_def validate_for_open_def)

lemma received_then_refused:
  assumes r: "receive_result P Q clk pw sb (Some eb) kb tb = Inr (e, x, seen)" and mono: "clk' 2 \<le> clk' 3"
  shows "\<exists>f. receive_result P' Q' clk' pw' (Some (seen_to_bytes seen)) (Some eb) kb' tb' = Inl f"
proof (rule ccontr)
  assume "\<not> ?thesis"
  then obtain e' x' seen2 where r2: "receive_result P' Q' clk' pw' (Some (seen_to_bytes seen)) (Some eb) kb' tb' = Inr (e', x', seen2)"
    by (metis sum.exhaust prod_cases3)
  obtain s0 k t where a: "seen_result sb = Inr s0" "envelope_from_bytes P (clk 0) eb = Inr e"
    "receive_opens P Q clk s0 e k t = Inr (e, x, seen)"
    using r by (auto simp: receive_result_def receive_opens_Inr)
  obtain s1 k' t' where b: "seen_from_bytes (seen_to_bytes seen) = Inr s1" "envelope_from_bytes P' (clk' 0) eb = Inr e'"
    "receive_opens P' Q' clk' s1 e' k' t' = Inr (e', x', seen2)"
    using r2 by (auto simp: receive_result_def receive_opens_Inr seen_result_def)
  have e: "e' = e" using a(2) b(2) by (auto simp: envelope_from_bytes_def validate_for_open_def)
  have s0: "seen_wf s0 \<and> length (entries s0) \<le> 65536"
    using a(1) seen_file_sound by (auto simp: seen_result_def seen_new_def seen_wf_def split: option.splits)
  have c: "check_and_insert (clk 2) (clk 3) s0 (te_envelope_id e) (te_expires_at e) = (Inr (), seen)"
    using a(3) by (simp add: receive_opens_Inr)
  then have wf: "seen_wf seen" using check_and_insert_wf [of s0] s0 envelope_id_length [OF a(2)] by blast
  have in_store: "(te_envelope_id e, te_expires_at e) \<in> set (entries seen)"
    using c by (auto simp: check_and_insert_cases)
  have "length (filter (\<lambda>e. live_at (clk 2) (snd e)) (entries s0)) \<le> 65536"
    using s0 length_filter_le le_trans by blast
  then have "length (entries seen) \<le> u32_max"
    using c by (auto simp: check_and_insert_cases evict_entries u32_max_def)
  then have "s1 = seen" using seen_reload [OF wf] b(1) by (auto split: if_splits)
  then have c2: "check_and_insert (clk' 2) (clk' 3) seen (te_envelope_id e) (te_expires_at e) = (Inr (), seen2)"
    using b(3) e by (simp add: receive_opens_Inr)
  then have "live_at (clk' 2) (te_expires_at e)" using live_at_mono [OF mono] by (auto simp: check_and_insert_cases)
  then show False using c2 in_store by (force simp: check_and_insert_cases evict_entries)
qed

end
