(* ===== verification/Pair_Run.thy ===== *)
theory Pair_Run
  imports Transfer_Run
begin

text \<open>
  \<open>device pair\<close>: nothing is written before the operator has confirmed, and afterwards the key file
  opens with the passphrase and the identity file is read back.
\<close>

subsection \<open>Commands and the file system\<close>

definition cli_within :: "(fs_state \<Rightarrow> bool) \<Rightarrow> 'a cli \<Rightarrow> bool" where
  "cli_within R m \<longleftrightarrow> (\<forall>c. R (files (cn_world c)) \<longrightarrow> evolves R (cn_world c) (cn_world (snd (m c))))"

lemma cli_within_bind: "cli_within R m \<Longrightarrow> (\<And>x. cli_within R (f x)) \<Longrightarrow> cli_within R (bind_cli m f)"
  unfolding cli_within_def bind_cli_def
  by (auto split: prod.splits sum.splits) (metis evolves_def evolves_trans snd_conv)+

lemma cli_within_io: "within R m \<Longrightarrow> cli_within R (do_io m)"
  by (auto simp: cli_within_def within_def do_io_def split: prod.splits)

lemma cli_within_lift [simp]: "cli_within R (lift_cli r)"
  by (simp add: cli_within_def evolves_refl)

lemma cli_within_console [simp]:
  "cli_within R read_line" "cli_within R (write_stderr bs)" "cli_within R (write_stdout bs)" "cli_within R prompt_tty"
  by (auto simp: cli_within_def read_line_def write_stderr_def prompt_tty_def Let_def evolves_refl split: list.splits)

lemma cli_within_prompt [simp]: "cli_within R (prompt_password b)"
  by (simp add: prompt_password_def read_password_from_stdin_def cli_within_bind)

lemma cli_within_lines [simp]: "cli_within R (read_lines_until_blank n out)"
proof (induction n arbitrary: out)
  case (Suc n)
  have "cli_within R lines_next" by (simp add: lines_next_def cli_within_bind)
  then show ?case
    unfolding read_lines_until_blank.simps by (rule cli_within_bind) (auto simp: Suc split: option.splits)
qed simp

lemma cli_within_block [simp]: "cli_within R read_until_blank_line"
  using cli_within_lines unfolding cli_within_def read_until_blank_line_def by blast

lemma cli_withinD: "cli_within R m \<Longrightarrow> R (files (cn_world c)) \<Longrightarrow> m c = (r, c') \<Longrightarrow> evolves R (cn_world c) (cn_world c')"
  unfolding cli_within_def by (metis snd_conv)

subsection \<open>Reading a block of lines\<close>

text \<open>A command that only consumes standard input, and what it consumes is determined by it.\<close>

definition stdin_only :: "'a cli \<Rightarrow> bool" where
  "stdin_only m \<longleftrightarrow> (\<forall>s. \<exists>r s'. \<forall>c. cn_stdin c = s \<longrightarrow> m c = (r, c\<lparr>cn_stdin := s'\<rparr>))"

lemma stdin_only_bind:
  assumes "stdin_only m" "\<And>x. stdin_only (f x)"
  shows "stdin_only (bind_cli m f)"
  unfolding stdin_only_def
proof
  fix s
  obtain r s' where m: "\<forall>c. cn_stdin c = s \<longrightarrow> m c = (r, c\<lparr>cn_stdin := s'\<rparr>)"
    using assms(1) unfolding stdin_only_def by blast
  show "\<exists>r s'. \<forall>c. cn_stdin c = s \<longrightarrow> bind_cli m f c = (r, c\<lparr>cn_stdin := s'\<rparr>)"
  proof (cases r)
    case (Inl e)
    then show ?thesis using m by (intro exI [of _ "Inl e"] exI [of _ s']) (simp add: bind_cli_def)
  next
    case (Inr x)
    obtain r2 s2 where f: "\<forall>c. cn_stdin c = s' \<longrightarrow> f x c = (r2, c\<lparr>cn_stdin := s2\<rparr>)"
      using assms(2) unfolding stdin_only_def by blast
    then show ?thesis using m Inr by (intro exI [of _ r2] exI [of _ s2]) (simp add: bind_cli_def)
  qed
qed

lemma stdin_only_lift [simp]: "stdin_only (lift_cli r)"
  unfolding stdin_only_def
proof
  fix s
  show "\<exists>r' s'. \<forall>c. cn_stdin c = s \<longrightarrow> lift_cli r c = (r', c\<lparr>cn_stdin := s'\<rparr>)"
    by (intro exI [of _ r] exI [of _ s]) auto
qed

lemma stdin_only_read_line [simp]: "stdin_only read_line"
  unfolding stdin_only_def read_line_def Let_def by auto

lemma stdin_only_lines_next [simp]: "stdin_only lines_next"
  by (simp add: lines_next_def stdin_only_bind)

lemma stdin_only_lines [simp]: "stdin_only (read_lines_until_blank n out)"
proof (induction n arbitrary: out)
  case (Suc n)
  show ?case
    unfolding read_lines_until_blank.simps by (rule stdin_only_bind) (auto simp: Suc split: option.splits)
qed simp

lemma stdin_only_block [simp]: "stdin_only read_until_blank_line"
  unfolding stdin_only_def
proof
  fix s
  show "\<exists>r s'. \<forall>c. cn_stdin c = s \<longrightarrow> read_until_blank_line c = (r, c\<lparr>cn_stdin := s'\<rparr>)"
    using stdin_only_lines [of "length s + 1" "[]"] unfolding stdin_only_def read_until_blank_line_def by metis
qed

text \<open>The bound on the number of lines is enough: the loop always ends by itself.\<close>

lemma next_line_Nil: "next_line s = [] \<longleftrightarrow> s = []"
  by (cases s) (auto simp: next_line_def)

lemma length_next_line: "length (next_line s) \<le> length s"
proof (cases "10 \<in> set s")
  case True
  then obtain xs ys where "s = xs @ 10 # ys" "10 \<notin> set xs" by (metis split_list_first)
  then show ?thesis by (simp add: next_line_typed)
qed (simp add: next_line_def length_takeWhile_le)

lemma lines_next_progress:
  assumes "lines_next c = (Inr (Some line), c')"
  shows "length (cn_stdin c') < length (cn_stdin c)"
proof -
  have n: "next_line (cn_stdin c) \<noteq> []" "c' = c\<lparr>cn_stdin := drop (length (next_line (cn_stdin c))) (cn_stdin c)\<rparr>"
    using assms by (auto simp: lines_next_def bind_cli_eq_Inr read_line_def Let_def split: if_splits)
  then have "cn_stdin c \<noteq> []" "next_line (cn_stdin c) \<noteq> []" by (simp_all add: next_line_Nil)
  then show ?thesis using n(2) by simp
qed

lemma read_lines_enough:
  "length (cn_stdin c) < n \<Longrightarrow> length (cn_stdin c) < m \<Longrightarrow> read_lines_until_blank n out c = read_lines_until_blank m out c"
proof (induction n arbitrary: m c out)
  case (Suc n)
  obtain m' where m: "m = Suc m'" using Suc.prems(2) by (cases m) auto
  obtain r c' where l: "lines_next c = (r, c')" by fastforce
  show ?case
  proof (cases r)
    case (Inr o')
    show ?thesis
    proof (cases o')
      case (Some line)
      then have "length (cn_stdin c') < n" "length (cn_stdin c') < m'"
        using lines_next_progress [of c line c'] l Inr Suc.prems m by auto
      then have "read_lines_until_blank n x c' = read_lines_until_blank m' x c'" for x by (rule Suc.IH)
      then show ?thesis by (simp add: m bind_cli_case l Inr Some)
    qed (simp add: m bind_cli_case l Inr)
  qed (simp add: m bind_cli_case l)
qed simp

subsection \<open>Asking and saving\<close>

definition confirms :: "byte list \<Rightarrow> bool" where
  "confirms answer \<longleftrightarrow> trim_chars (utf8_chars answer) \<in> {[121], [89]}"

definition pair_asks ::
    "prims \<Rightarrow> pqc_prims \<Rightarrow> byte list \<Rightarrow> (DeviceIdentity \<times> DeviceKeypair \<times> DeviceIdentity) cli" where
  "pair_asks P Q name =
     bind_cli (do_io (map_err_act (generate Q name) device_parse_error)) (\<lambda>g.
     bind_cli (write_stderr (line_of ''=== YOUR IDENTITY (share this with peer) ==='' @ serialize_identity_text (fst g) @
       line_of ''=== PASTE PEER IDENTITY, then blank line ==='')) (\<lambda>_.
     bind_cli read_until_blank_line (\<lambda>peer_block.
     bind_cli (lift_cli (map_err (deserialize_identity_text peer_block) device_parse_error)) (\<lambda>peer.
     bind_cli (do_io (map_err_act (build_pairing_payload P (fst g) 1)
       (InvalidState ''pairing payload failed''))) (\<lambda>payload.
     bind_cli (do_io (synthetic_pairing_payload P peer (pp_pairing_nonce payload))) (\<lambda>peer_payload.
     bind_cli (lift_cli (map_err (compute_pairing_transcript P peer_payload)
       (InvalidState ''pairing transcript failed''))) (\<lambda>transcript.
     bind_cli (lift_cli (map_err (derive_short_authentication_string P (pp_pairing_nonce peer_payload)
       (pt_transcript_hash transcript)) (InvalidState ''pairing SAS failed''))) (\<lambda>sas.
     bind_cli (write_stderr (bytes_of (''SAS: '' @ sas @ '' '') @ em_dash @
       line_of '' verify this matches the other device'' @ bytes_of ''Confirm SAS match? [y/N]: '')) (\<lambda>_.
     bind_cli read_line (\<lambda>confirm.
     if \<not> confirms confirm then lift_cli (err pairing_not_confirmed)
     else lift_cli (ok (fst g, snd g, peer))))))))))))"

definition pair_saves ::
    "prims \<Rightarrow> path \<Rightarrow> path \<Rightarrow> path \<Rightarrow> bool \<Rightarrow> DeviceIdentity \<times> DeviceKeypair \<times> DeviceIdentity \<Rightarrow> unit cli" where
  "pair_saves P self_keypair self_identity peer_identity stdin g =
     bind_cli (prompt_password stdin) (\<lambda>passphrase.
     bind_cli (do_io (save_sealed_keypair P self_keypair (fst g) (fst (snd g)) passphrase)) (\<lambda>_.
     bind_cli (do_io (restrict_owner_only self_keypair)) (\<lambda>_.
     bind_cli (do_io (fs_write self_identity (serialize_identity_text (fst g)))) (\<lambda>_.
     bind_cli (do_io (fs_write peer_identity (serialize_identity_text (snd (snd g))))) (\<lambda>_.
     bind_cli (write_stderr (line_of (''Device keypair sealed and written to '' @
       display_path self_keypair @ '' (chmod 600 already applied).''))) (\<lambda>_.
     write_stdout (line_of ''Pairing complete.'')))))))"

lemma bind_cli_if: "bind_cli (if b then m else n) f = (if b then bind_cli m f else bind_cli n f)"
  by simp

lemma bind_cli_fail: "bind_cli (lift_cli (Inl e)) f = lift_cli (Inl e)"
  by (simp add: fun_eq_iff)

lemma pair_split:
  "device_pair_command P Q name self_keypair self_identity peer_identity stdin =
    bind_cli (pair_asks P Q name) (pair_saves P self_keypair self_identity peer_identity stdin)"
  unfolding device_pair_command_def pair_asks_def pair_saves_def Let_def confirms_def
  by (simp add: bind_cli_assoc bind_cli_if bind_cli_fail case_prod_unfold cong: if_cong)

lemma within_key_pairs [simp]: "within R (mlkem_keypair Q)" "within R (ed25519_keypair Q)" "within R dev_unix_time_millis"
proof -
  show "within R (mlkem_keypair Q)"
    unfolding mlkem_keypair_def by (auto intro!: within_bind split: prod.splits)
  show "within R (ed25519_keypair Q)" by (simp add: ed25519_keypair_def within_bind)
  show "within R dev_unix_time_millis" by (simp add: within_def dev_unix_time_millis_def Let_def evolves_refl)
qed

lemma within_generate [simp]: "within R (generate Q name)"
  unfolding generate_def by (auto intro!: within_bind within_map_err split: prod.splits)

lemma within_nonce [simp]: "within R generate_pairing_nonce"
proof -
  have "within R random_nonce_candidate" by (simp add: random_nonce_candidate_def within_bind)
  then show ?thesis unfolding generate_pairing_nonce_def by (auto intro!: within_bind)
qed

lemma within_payloads [simp]: "within R (build_pairing_payload P d n)" "within R (synthetic_pairing_payload P d x)"
proof -
  show "within R (build_pairing_payload P d n)" for n
    unfolding build_pairing_payload_def by (auto intro!: within_bind)
  then show "within R (synthetic_pairing_payload P d x)"
    unfolding synthetic_pairing_payload_def by (auto intro!: within_bind within_map_err)
qed

lemma cli_within_asks [simp]: "cli_within R (pair_asks P Q name)"
  unfolding pair_asks_def
  by (intro cli_within_bind cli_within_io within_map_err) (simp_all add: within_map_err)

lemma pair_asks_Inr:
  assumes "pair_asks P Q name c = (Inr g, c')"
  shows "confirms (next_line (cn_stdin (snd (read_until_blank_line c))))"
    and "\<exists>w. generate Q name (cn_world c) = (Inr (fst g, fst (snd g)), w)"
    and "cn_tty c' = cn_tty c"
proof -
  obtain g0 w where g0: "generate Q name (cn_world c) = (Inr g0, w)"
    using assms by (auto simp: pair_asks_def bind_cli_eq_Inr do_io_eq)
  obtain r s' where b: "\<forall>d. cn_stdin d = cn_stdin c \<longrightarrow> read_until_blank_line d = (r, d\<lparr>cn_stdin := s'\<rparr>)"
    using stdin_only_block unfolding stdin_only_def by blast
  have s': "cn_stdin (snd (read_until_blank_line c)) = s'" using b by simp
  show "confirms (next_line (cn_stdin (snd (read_until_blank_line c))))"
    "\<exists>w. generate Q name (cn_world c) = (Inr (fst g, fst (snd g)), w)" "cn_tty c' = cn_tty c"
    using assms g0 b unfolding s'
    by (auto simp: pair_asks_def bind_cli_eq_Inr do_io_eq write_stderr_def read_line_def Let_def split: if_splits)
qed

subsection \<open>The saved key file\<close>

lemma derive_dkek_length: "kdf_total P \<Longrightarrow> derive_dkek P pw salt = Inr k \<Longrightarrow> length k = 32"
  using kdf_argon2D [of P "m_cost_kib KEYPAIR_FILE_KDF_PARAMS" "t_cost KEYPAIR_FILE_KDF_PARAMS"
      "p_lanes KEYPAIR_FILE_KDF_PARAMS" pw "bytes_of ''meissnerseal-device-keypair-v1'' @ [0] @ salt"]
  by (auto simp: derive_dkek_def derive_device_keypair_key_def split: if_splits)

lemma derive_dkek_ok: "kdf_total P \<Longrightarrow> \<exists>k. derive_dkek P pw salt = Inr k"
  using kdf_argon2D [of P "m_cost_kib KEYPAIR_FILE_KDF_PARAMS" "t_cost KEYPAIR_FILE_KDF_PARAMS"
      "p_lanes KEYPAIR_FILE_KDF_PARAMS" pw "bytes_of ''meissnerseal-device-keypair-v1'' @ [0] @ salt"]
  by (auto simp: derive_dkek_def derive_device_keypair_key_def argon2_rejected_iff argon2_in_profile_def
      KEYPAIR_FILE_KDF_PARAMS_def)

lemma within_seal [simp]: "within R (seal_keyfile P d kp k)"
  unfolding seal_keyfile_def Let_def by (auto intro!: within_bind within_map_err split: prod.splits)

lemma save_keypair_Inr:
  assumes laws: "aead_correct P" "kdf_total P" "blake_sized P" "sig_correct Q"
    and d: "identity_wf d" "owns Q d kp"
    and r: "save_sealed_keypair P p d kp pw w = (Inr (), w')"
  shows "\<exists>kb. open_keypair_bytes P Q pw kb = Inr (d, kp) \<and> files w' = (files w)(p := Some kb)"
proof -
  let ?salt = "next_random w 32" and ?w1 = "w\<lparr>drawn := drawn w + 32\<rparr>"
  obtain k bs w2 where k: "derive_dkek P pw ?salt = Inr k"
    and b: "seal_keyfile P d kp k ?w1 = (Inr bs, w2)" and f: "fs_write p (?salt @ bs) w2 = (Inr (), w')"
    using r by (auto simp: save_sealed_keypair_def random_bytes_def bind_act_eq_Inr)
  have "open_keyfile P Q bs k = Inr (d, kp)"
    by (rule open_sealed [OF laws(1,3,4) d derive_dkek_length [OF laws(2) k] b])
  then have "open_keypair_bytes P Q pw (?salt @ bs) = Inr (d, kp)"
    by (simp add: open_keypair_bytes_def k)
  moreover have "files w2 = files ?w1"
    using withinD [OF within_seal, of "\<lambda>s. s = files ?w1" ?w1, OF refl b] by (simp add: evolves_def)
  ultimately show ?thesis using fs_write_Inr [OF f] by (intro exI [of _ "?salt @ bs"]) simp
qed

lemma save_keypair_ok:
  assumes laws: "aead_correct P" "aead_total P" "kdf_total P" "blake_sized P"
    and d: "identity_wf d" "owns Q d kp" "length (di_display_name d) \<le> 65536" and q: "no_faults w"
  shows "\<exists>w'. save_sealed_keypair P p d kp pw w = (Inr (), w') \<and> no_faults w' \<and> files w' p \<noteq> None"
proof -
  let ?salt = "next_random w 32" and ?w1 = "w\<lparr>drawn := drawn w + 32\<rparr>"
  obtain k where k: "derive_dkek P pw ?salt = Inr k" using derive_dkek_ok [OF laws(3)] by blast
  obtain bs w2 where b: "seal_keyfile P d kp k ?w1 = (Inr bs, w2)"
    using seal_ok [OF laws(1,2) d(1,2) derive_dkek_length [OF laws(3) k] laws(4) d(3)] by blast
  have "no_faults w2"
    using withinD [OF within_seal, of "\<lambda>s. True" ?w1, OF TrueI b] q by (simp add: evolves_def no_faults_def)
  then obtain w3 where "fs_write p (?salt @ bs) w2 = (Inr (), w3)" "no_faults w3" "files w3 p \<noteq> None"
    using fs_write_ok same_host_no_faults by (metis fun_upd_same option.distinct(1))
  then show ?thesis
    by (simp add: save_sealed_keypair_def random_bytes_def bind_act_def k b map_err_act_def)
qed

lemma pair_saves_Inr:
  assumes laws: "aead_correct P" "kdf_total P" "blake_sized P" "sig_correct Q"
    and d: "identity_wf (fst g)" "owns Q (fst g) (fst (snd g))"
    and p: "self_keypair \<noteq> self_identity" "self_keypair \<noteq> peer_identity" "self_identity \<noteq> peer_identity"
    and t: "cn_tty c = Some pw # ts"
    and r: "pair_saves P self_keypair self_identity peer_identity False g c = (Inr (), c')"
  shows "\<exists>kb. open_keypair_bytes P Q pw kb = Inr (fst g, fst (snd g)) \<and>
    files (cn_world c') = (files (cn_world c))(self_keypair := Some kb,
      self_identity := Some (serialize_identity_text (fst g)),
      peer_identity := Some (serialize_identity_text (snd (snd g))))"
proof -
  obtain w1 w2 w3 w4 where w: "save_sealed_keypair P self_keypair (fst g) (fst (snd g)) pw (cn_world c) = (Inr (), w1)"
    "restrict_owner_only self_keypair w1 = (Inr (), w2)"
    "fs_write self_identity (serialize_identity_text (fst g)) w2 = (Inr (), w3)"
    "fs_write peer_identity (serialize_identity_text (snd (snd g))) w3 = (Inr (), w4)" "cn_world c' = w4"
    using r t by (auto simp: pair_saves_def bind_cli_eq_Inr do_io_eq prompt_password_def prompt_tty_def
        write_stderr_def write_stdout_Inr)
  obtain kb where kb: "open_keypair_bytes P Q pw kb = Inr (fst g, fst (snd g))"
    "files w1 = (files (cn_world c))(self_keypair := Some kb)"
    using save_keypair_Inr [OF laws d w(1)] by blast
  have "files w2 = files w1"
    using withinD [OF within_restrict, of "\<lambda>s. s = files w1" w1, OF refl w(2)] by (simp add: evolves_def)
  then show ?thesis using kb fs_write_Inr [OF w(3)] fs_write_Inr [OF w(4)] w(5) by auto
qed

subsection \<open>The identity file\<close>

definition ascii :: "byte list \<Rightarrow> bool" where
  "ascii s \<longleftrightarrow> list_all (\<lambda>b. unat b < 128) s"

lemma ascii_simps [simp]: "ascii []" "ascii (s @ t) \<longleftrightarrow> ascii s \<and> ascii t" "ascii (b # s) \<longleftrightarrow> unat b < 128 \<and> ascii s"
  by (simp_all add: ascii_def)

lemma ascii_utf8: "ascii s \<Longrightarrow> utf8_valid (s @ t) \<longleftrightarrow> utf8_valid t"
  by (intro utf8_valid_append utf8_valid_ascii) (simp add: ascii_def)

lemma ascii_hex [simp]: "ascii (hex_encode bs)"
  by (simp add: ascii_def hex_encode_ascii)

lemma ascii_dec [simp]: "ascii (dec_bytes n)"
  using dec_bytes_digits digit_not_sign by (fastforce simp: ascii_def list_all_iff)

lemma ascii_keys [simp]: "ascii (bytes_of ''ms-device-identity-v1'')" "ascii (bytes_of ''device_id'')"
  "ascii (bytes_of ''display_name'')" "ascii (bytes_of ''classical_public_key'')" "ascii (bytes_of ''pqc_public_key'')"
  "ascii (bytes_of ''signing_algorithm'')" "ascii (bytes_of ''signing_public_key'')" "ascii (bytes_of ''created_at'')"
  "ascii (bytes_of ''Ed25519V1'')"
  unfolding ascii_def by code_simp+

lemma identity_text_utf8:
  assumes "utf8_valid (di_display_name d)"
  shows "utf8_valid (serialize_identity_text d)"
proof -
  let ?a = "bytes_of ''ms-device-identity-v1'' @ [10] @ id_line ''device_id'' (hex_encode (di_device_id d)) @ [10] @
    bytes_of ''display_name'' @ [61]"
  have "serialize_identity_text d = ?a @ di_display_name d @ [10] @ after_name d"
    unfolding text_split by (simp add: id_line_def)
  moreover have "ascii ?a" "ascii ([10] @ after_name d)" by (simp_all add: id_line_def after_name_def)
  moreover have "utf8_valid ([10] @ after_name d)"
    by (rule utf8_valid_ascii) (use calculation(3) in \<open>simp only: ascii_def\<close>)
  ultimately show ?thesis
    using ascii_utf8 [of ?a] utf8_valid_append [OF assms] by metis
qed

end
