(* ===== verification/Transfer_Properties.thy ===== *)
theory Transfer_Properties
  imports Pair_Run
begin

text \<open>
  The properties of the transfer and pairing commands, with two sample devices for their witnesses.
\<close>

subsection \<open>A transfer through files\<close>

lemma stdin_fields: "cn_world (c\<lparr>cn_stdin := s\<rparr>) = cn_world c" "cn_out_faults (c\<lparr>cn_stdin := s\<rparr>) = cn_out_faults c"
  by simp_all

text \<open>What \<open>create\<close> leaves: the envelope file, and that receiving it from an empty store yields the plaintext.\<close>

definition sent ::
    "prims \<Rightarrow> pqc_prims \<Rightarrow> world \<Rightarrow> path \<Rightarrow> byte list \<Rightarrow> path \<Rightarrow> path \<Rightarrow> byte list \<Rightarrow> nat \<Rightarrow> TransferEnvelope \<Rightarrow>
      world \<Rightarrow> bool" where
  "sent P Q w rkp rpw sidf env plaintext t e w1 \<longleftrightarrow>
     no_faults w1 \<and> files w1 = (files w)(env := Some (envelope_to_bytes e)) \<and>
     (\<forall>clk. (\<forall>n. clk n < of_nat t) \<longrightarrow>
       receive_result P Q clk rpw None (Some (envelope_to_bytes e)) (files w rkp) (files w sidf) =
         Inr (e, plaintext, \<lparr>entries = [(te_envelope_id e, Some (of_nat t))]\<rparr>))"

lemma transfer_run:
  assumes laws: "aead_correct P" "aead_total P" "kdf_total P" "sha_sized P" "sig_correct Q" "dh_correct Q" "kem_correct Q"
    and s: "device_files P Q (files (cn_world c)) skp spw sidf sd sk"
    and r: "device_files P Q (files (cn_world c)) rkp rpw ridf rd rk"
    and m: "files (cn_world c) input = Some plaintext" "length plaintext \<le> 2147483000"
    and q: "no_faults (cn_world c)" "cn_out_faults c = (\<lambda>_. None)" "expiry_fits (cn_world c) expires_in"
    and ex: "exchange_usable Q (ephemeral_of (cn_world c)) (di_classical_public_key rd)"
  shows "\<exists>e c1. transfer_create_command P Q skp ridf input env expires_in spw c = (Inr (), c1) \<and>
    sent P Q (cn_world c) rkp rpw sidf env plaintext (expiry_of (cn_world c) expires_in) e (cn_world c1)"
proof -
  note s' = conjunct1 [OF s [unfolded device_files_def]] and si = conjunct2 [OF s [unfolded device_files_def]]
  note r' = r [unfolded device_files_def, THEN conjunct1] r [unfolded device_files_def, THEN conjunct2]
  obtain e c1 where e: "transfer_create_command P Q skp ridf input env expires_in spw c = (Inr (), c1)"
    "sealed_for P Q (sent_params sd sk rd plaintext (expiry_of (cn_world c) expires_in)) (dk_pqc_private_key rk)
      (ephemeral_of (cn_world c)) e"
    "create_params_ok (sent_params sd sk rd plaintext (expiry_of (cn_world c) expires_in))"
    "files (cn_world c1) = (files (cn_world c))(env := Some (envelope_to_bytes e))" "no_faults (cn_world c1)"
    using create_run [OF laws(2,3,5,7) s' r' m q ex] by blast
  have "receive_result P Q clk rpw None (Some (envelope_to_bytes e)) (files (cn_world c) rkp) (files (cn_world c) sidf) =
      Inr (e, plaintext, \<lparr>entries = [(te_envelope_id e, Some (of_nat (expiry_of (cn_world c) expires_in)))]\<rparr>)"
    if "\<forall>n. clk n < of_nat (expiry_of (cn_world c) expires_in)" for clk
    by (rule receive_created [OF laws(1,4,5,6) s' si r'(1) e(2,3) _ ex])
       (use that in \<open>simp_all add: expired_at_def not_le\<close>)
  then show ?thesis using e by (intro exI [of _ e] exI [of _ c1]) (simp add: sent_def)
qed

subsection \<open>Two sample devices\<close>

abbreviation (input) here :: "string \<Rightarrow> path" where
  "here n \<equiv> \<lparr>p_dir = [], p_name = n\<rparr>"

lemma sample_classical:
  assumes "generate toy_pqc [97] sample_world = (Inr (d, kp), w')"
  shows "di_classical_public_key d = x25519_public toy_pqc (ephemeral_of sample_world)"
  using assms
  by (auto simp: generate_def bind_act_eq_Inr random_bytes_def x25519_keypair_def random_key_def ephemeral_of_def
      split: prod.splits)

lemma sample_exchange: "exchange_usable toy_pqc (ephemeral_of sample_world) (x25519_public toy_pqc (ephemeral_of sample_world))"
proof -
  have "ephemeral_of sample_world ! 0 = 16"
    by (simp_all add: ephemeral_of_def next_random_def sample_world_def)
  then have "\<not> list_all (\<lambda>b. b = 0xff) (ephemeral_of sample_world)"
    by (auto simp: list_all_length intro!: exI [of _ 0])
  then show ?thesis by (simp add: exchange_usable_def toy_pqc_def)
qed

text \<open>One device that sends to itself: its key file \<open>k\<close>, its identity file \<open>i\<close> and the file \<open>m\<close> to send.\<close>

lemma sample_devices:
  "\<exists>w d kp. device_files toy_prims toy_pqc (files w) (here ''k'') [1] (here ''i'') d kp \<and> no_faults w \<and>
    files w (here ''m'') = Some [1, 2, 3] \<and> expiry_fits w 3600 \<and>
    exchange_usable toy_pqc (ephemeral_of w) (di_classical_public_key d) \<and>
    (\<forall>p. p \<notin> {here ''k'', here ''i'', here ''m''} \<longrightarrow> files w p = None) \<and> expiry_of w 3600 = 1700003600000"
proof -
  obtain d kp w' where g: "generate toy_pqc [97] sample_world = (Inr (d, kp), w')"
    using sample_generated by blast
  note spec = generate_spec [OF toy_pqc_correct sample_utf8 g]
  have n: "no_faults sample_world" by (simp add: no_faults_def sample_world_def)
  obtain w1 where sv: "save_sealed_keypair toy_prims (here ''k'') d kp [1] sample_world = (Inr (), w1)"
    using save_keypair_ok [OF toy_prims_aead(1,3) toy_prims_kdf toy_blake _ _ _ n, of d toy_pqc kp] spec by auto
  obtain kb where kb: "open_keypair_bytes toy_prims toy_pqc [1] kb = Inr (d, kp)"
    using save_keypair_Inr [OF toy_prims_aead(1) toy_prims_kdf toy_blake toy_pqc_correct(1) _ _ sv] spec by blast
  let ?t = "serialize_identity_text d"
  have t: "deserialize_identity_text ?t = Inr (d\<lparr>di_trust_state := Untrusted\<rparr>)"
    by (rule identity_text_reads) (use spec in auto)
  have u: "utf8_valid ?t" using spec sample_utf8(1) by (intro identity_text_utf8) (simp only: identity_wf_def)
  let ?w = "sample_world\<lparr>files := (\<lambda>_. None)(here ''k'' := Some kb, here ''i'' := Some ?t, here ''m'' := Some [1, 2, 3])\<rparr>"
  have e: "ephemeral_of ?w = ephemeral_of sample_world" by (simp add: ephemeral_of_def next_random_def)
  have "device_files toy_prims toy_pqc (files ?w) (here ''k'') [1] (here ''i'') d kp"
    using spec kb t u by (simp add: device_file_defs)
  moreover have "exchange_usable toy_pqc (ephemeral_of ?w) (di_classical_public_key d)"
    using sample_exchange unfolding e sample_classical [OF g] .
  moreover have "expiry_fits ?w 3600" "expiry_of ?w 3600 = 1700003600000" "no_faults ?w"
    by (simp_all add: expiry_fits_def expiry_of_def sample_world_def usize_max_def no_faults_def)
  ultimately show ?thesis by (intro exI [of _ ?w] exI [of _ d] exI [of _ kp]) simp
qed

text \<open>Its first delivery, into the file \<open>o\<close>.\<close>

lemma sample_received:
  "\<exists>(c :: console) c1. no_faults (cn_world c) \<and> cn_out_faults c = (\<lambda>_. None) \<and> cn_stdout c = [] \<and>
    (\<forall>n. n \<notin> {''k'', ''i'', ''m'', ''e''} \<longrightarrow> files (cn_world c) (here n) = None) \<and>
    transfer_receive_command toy_prims toy_pqc (\<lambda>_. 5) (here ''e'') (here ''k'') (here ''i'') (Some (here ''o'')) None [1] c =
      (Inr (), c1) \<and> no_faults (cn_world c1) \<and> (\<exists>seen. files (cn_world c1) =
        (files (cn_world c))(here ''o.seen'' := Some seen, here ''o'' := Some [1, 2, 3]))"
proof -
  obtain w d kp where w: "device_files toy_prims toy_pqc (files w) (here ''k'') [1] (here ''i'') d kp" "no_faults w"
    "files w (here ''m'') = Some [1, 2, 3]" "expiry_fits w 3600"
    "exchange_usable toy_pqc (ephemeral_of w) (di_classical_public_key d)"
    "\<forall>p. p \<notin> {here ''k'', here ''i'', here ''m''} \<longrightarrow> files w p = None" "expiry_of w 3600 = 1700003600000"
    using sample_devices by blast
  let ?c = "console_at w []"
  have m: "files (cn_world ?c) (here ''m'') = Some [1, 2, 3]" "length [1, 2, 3 :: byte] \<le> 2147483000"
    and n: "no_faults (cn_world ?c)" "cn_out_faults ?c = (\<lambda>_. None)" "expiry_fits (cn_world ?c) 3600"
    and x: "exchange_usable toy_pqc (ephemeral_of (cn_world ?c)) (di_classical_public_key d)" using w by simp_all
  have d: "device_files toy_prims toy_pqc (files (cn_world ?c)) (here ''k'') [1] (here ''i'') d kp" using w(1) by simp
  obtain e and c0 :: console where s: "sent toy_prims toy_pqc w (here ''k'') [1] (here ''i'') (here ''e'') [1, 2, 3] (expiry_of w 3600) e (cn_world c0)"
    using transfer_run [OF toy_prims_aead(1,3) toy_prims_kdf toy_sha toy_pqc_correct d d m n x, of "here ''e''"]
    unfolding console_at_fields by blast
  note e = s [unfolded sent_def]
  let ?c0 = "console_at (cn_world c0) []" and ?seen = "\<lparr>entries = [(te_envelope_id e, Some (of_nat (expiry_of w 3600)))]\<rparr>"
  have sp: "seen_path (here ''e'') (Some (here ''o'')) None = here ''o.seen''"
    by (simp add: seen_path_def default_seen_ids_path_def add_seen_def)
  have "receive_result toy_prims toy_pqc (\<lambda>_. 5) [1] (files (cn_world ?c0) (here ''o.seen'')) (files (cn_world ?c0) (here ''e''))
        (files (cn_world ?c0) (here ''k'')) (files (cn_world ?c0) (here ''i'')) = Inr (e, [1, 2, 3], ?seen)"
    using w(6,7) by (simp add: e)
  note r = receive_run_ok [OF this _ sp [symmetric]]
  have q: "no_faults (cn_world ?c0)" "cn_out_faults ?c0 = (\<lambda>_. None)" using e by simp_all
  obtain c1 where c1: "transfer_receive_command toy_prims toy_pqc (\<lambda>_. 5) (here ''e'') (here ''k'') (here ''i'')
      (Some (here ''o'')) None [1] ?c0 = (Inr (), c1)"
    "files (cn_world c1) = received_files (here ''o.seen'') (Some (here ''o'')) [1, 2, 3] ?seen (files (cn_world ?c0))"
    using r [OF q] by blast
  have "no_faults (cn_world c1)"
    using receive_run_Inr [OF c1(1) _ refl] same_host_no_faults e by auto
  then show ?thesis
    using c1 e w(6) by (intro exI [of _ ?c0] exI [of _ c1]) (auto simp: received_files_def)
qed

subsection \<open>Properties\<close>

text \<open>A transfer through files: if a sender and a recipient have key files that open and identity files of each
  other, \<open>transfer create\<close> succeeds on a file of up to 2 GiB, and while the envelope has not expired
  \<open>transfer receive\<close> of the envelope file writes exactly the content of that file to the output.\<close>

theorem sent_file_is_received:
  assumes "aead_correct P" "aead_total P" "kdf_total P" "sha_sized P" "sig_correct Q" "dh_correct Q" "kem_correct Q"
    and "device_files P Q (files (cn_world c)) skp spw sidf sd sk"
    and "device_files P Q (files (cn_world c)) rkp rpw ridf rd rk"
    and "files (cn_world c) input = Some plaintext" "length plaintext \<le> 2147483000"
    and "no_faults (cn_world c)" "cn_out_faults c = (\<lambda>_. None)" "expiry_fits (cn_world c) expires_in"
    and "exchange_usable Q (ephemeral_of (cn_world c)) (di_classical_public_key rd)"
    and "env \<notin> {rkp, sidf, add_seen out}" "files (cn_world c) (add_seen out) = None"
    and "typed spw" "cn_stdin c = spw @ 10 # rest"
  shows "\<exists>c1. run_command P Q clk0 (CmdTransfer (TransferCreate skp ridf input env expires_in)) True c = (Inr (), c1) \<and>
    (\<forall>clk c2. cn_world c2 = cn_world c1 \<and> cn_out_faults c2 = (\<lambda>_. None) \<and> cn_stdin c2 = rpw @ 10 # rest2 \<and> typed rpw \<and>
        (\<forall>n. clk n < of_nat (expiry_of (cn_world c) expires_in)) \<longrightarrow>
      (\<exists>c3. run_command P Q clk (CmdTransfer (TransferReceive env rkp sidf (Some out) None)) True c2 = (Inr (), c3) \<and>
        files (cn_world c3) out = Some plaintext))"
proof -
  let ?c = "c\<lparr>cn_stdin := rest\<rparr>" and ?sp = "add_seen out"
  obtain e c1 where e: "transfer_create_command P Q skp ridf input env expires_in spw ?c = (Inr (), c1)"
    "sent P Q (cn_world c) rkp rpw sidf env plaintext (expiry_of (cn_world c) expires_in) e (cn_world c1)"
    using transfer_run [OF assms(1-7), of ?c skp spw sidf sd sk rkp rpw ridf rd rk input plaintext expires_in env]
      assms(8-15) unfolding stdin_fields by blast
  note sent = e(2) [unfolded sent_def]
  have ne: "rkp \<noteq> env" "sidf \<noteq> env" "?sp \<noteq> env" using assms(16) by auto
  have run: "run_command P Q clk0 (CmdTransfer (TransferCreate skp ridf input env expires_in)) True c = (Inr (), c1)"
    using prompt_typed [OF assms(18,19)] e(1) by (simp add: run_command_def transfer_command_def bind_cli_case)
  have "\<exists>c3. run_command P Q clk (CmdTransfer (TransferReceive env rkp sidf (Some out) None)) True c2 = (Inr (), c3) \<and>
        files (cn_world c3) out = Some plaintext"
    if h: "cn_world c2 = cn_world c1 \<and> cn_out_faults c2 = (\<lambda>_. None) \<and> cn_stdin c2 = rpw @ 10 # rest2 \<and> typed rpw \<and>
        (\<forall>n. clk n < of_nat (expiry_of (cn_world c) expires_in))" for clk c2
  proof -
    let ?c2 = "c2\<lparr>cn_stdin := rest2\<rparr>"
    have p: "prompt_password True c2 = (Inr rpw, ?c2)" using h prompt_typed by blast
    have sp: "?sp = seen_path env (Some out) None" by (simp add: seen_path_def default_seen_ids_path_def)
    let ?seen = "\<lparr>entries = [(te_envelope_id e, Some (of_nat (expiry_of (cn_world c) expires_in)))]\<rparr>"
    have f: "files (cn_world ?c2) = (files (cn_world c))(env := Some (envelope_to_bytes e))" using sent h by simp
    have "receive_result P Q clk rpw (files (cn_world ?c2) ?sp) (files (cn_world ?c2) env)
        (files (cn_world ?c2) rkp) (files (cn_world ?c2) sidf) = Inr (e, plaintext, ?seen)"
      unfolding f using ne sent h assms(17) by simp
    then obtain c3 where "transfer_receive_command P Q clk env rkp sidf (Some out) None rpw ?c2 = (Inr (), c3)"
      "files (cn_world c3) = received_files ?sp (Some out) plaintext ?seen (files (cn_world ?c2))"
      using receive_run_ok [OF _ _ sp, of P Q clk rpw ?c2 rkp sidf] h sent by auto
    then show ?thesis
      using p by (simp add: run_command_def transfer_command_def bind_cli_case received_files_def)
  qed
  then show ?thesis using run by blast
qed

theorem sent_file_is_received_witness:
  "\<exists>(c :: console) c1 (c2 :: console) c3. run_command toy_prims toy_pqc (\<lambda>_. 0) (CmdTransfer (TransferCreate (here ''k'') (here ''i'') (here ''m'')
      (here ''e'') 3600)) True c = (Inr (), c1) \<and> cn_world c2 = cn_world c1 \<and>
    run_command toy_prims toy_pqc (\<lambda>_. 5) (CmdTransfer (TransferReceive (here ''e'') (here ''k'') (here ''i'')
      (Some (here ''o'')) None)) True c2 = (Inr (), c3) \<and> files (cn_world c3) (here ''o'') = Some [1, 2, 3]"
proof -
  obtain w d kp where w: "device_files toy_prims toy_pqc (files w) (here ''k'') [1] (here ''i'') d kp" "no_faults w"
    "files w (here ''m'') = Some [1, 2, 3]" "expiry_fits w 3600"
    "exchange_usable toy_pqc (ephemeral_of w) (di_classical_public_key d)"
    "\<forall>p. p \<notin> {here ''k'', here ''i'', here ''m''} \<longrightarrow> files w p = None" "expiry_of w 3600 = 1700003600000"
    using sample_devices by blast
  let ?c = "console_at w ([1] @ 10 # [])"
  have a: "device_files toy_prims toy_pqc (files (cn_world ?c)) (here ''k'') [1] (here ''i'') d kp"
    "files (cn_world ?c) (here ''m'') = Some [1, 2, 3]" "length [1, 2, 3 :: byte] \<le> 2147483000"
    "no_faults (cn_world ?c)" "cn_out_faults ?c = (\<lambda>_. None)" "expiry_fits (cn_world ?c) 3600"
    "exchange_usable toy_pqc (ephemeral_of (cn_world ?c)) (di_classical_public_key d)"
    "here ''e'' \<notin> {here ''k'', here ''i'', add_seen (here ''o'')}" "files (cn_world ?c) (add_seen (here ''o'')) = None"
    "typed [1]" "cn_stdin ?c = [1] @ 10 # []"
    using w typed_sample by (simp_all add: add_seen_def)
  obtain c1 where c1: "run_command toy_prims toy_pqc (\<lambda>_. 0) (CmdTransfer (TransferCreate (here ''k'') (here ''i'') (here ''m'')
      (here ''e'') 3600)) True ?c = (Inr (), c1)"
    and n: "\<forall>clk c2. cn_world c2 = cn_world c1 \<and> cn_out_faults c2 = (\<lambda>_. None) \<and> cn_stdin c2 = [1] @ 10 # [] \<and> typed [1] \<and>
        (\<forall>n. clk n < of_nat (expiry_of (cn_world ?c) 3600)) \<longrightarrow>
      (\<exists>c3. run_command toy_prims toy_pqc clk (CmdTransfer (TransferReceive (here ''e'') (here ''k'') (here ''i'')
        (Some (here ''o'')) None)) True c2 = (Inr (), c3) \<and> files (cn_world c3) (here ''o'') = Some [1, 2, 3])"
    using sent_file_is_received [OF toy_prims_aead(1,3) toy_prims_kdf toy_sha toy_pqc_correct a(1,1,2-)] by blast
  obtain c3 where "run_command toy_prims toy_pqc (\<lambda>_. 5) (CmdTransfer (TransferReceive (here ''e'') (here ''k'') (here ''i'')
        (Some (here ''o'')) None)) True (console_at (cn_world c1) ([1] @ 10 # [])) = (Inr (), c3)"
      "files (cn_world c3) (here ''o'') = Some [1, 2, 3]"
    using n [rule_format, of "console_at (cn_world c1) ([1] @ 10 # [])" "\<lambda>_. 5"] typed_sample w(7) by auto
  then show ?thesis using c1 by (intro exI conjI) (rule c1, rule console_at_fields(1), assumption+)
qed



text \<open>C34. Once per store: after a delivery, no further run with the same replay store file delivers the same
  envelope bytes again, whatever keys, identities, output and clock it is given (the clock only must not
  go back within the run): it fails, and neither writes nor prints anything.\<close>

theorem received_once_per_store:
  assumes "transfer_receive_command P Q clk env kp sender output_path seen_ids pw c = (Inr (), c1)" "no_faults (cn_world c)"
    and "seen_path env output_path seen_ids \<notin> set_option output_path"
    and "no_faults (cn_world c2)" "clk2 2 \<le> clk2 3"
    and "seen_path env2 output_path2 seen_ids2 = seen_path env output_path seen_ids"
    and "files (cn_world c2) (seen_path env output_path seen_ids) = files (cn_world c1) (seen_path env output_path seen_ids)"
    and "files (cn_world c2) env2 = files (cn_world c) env"
    and "transfer_receive_command P2 Q2 clk2 env2 kp2 sender2 output_path2 seen_ids2 pw2 c2 = (r, c3)"
  shows "(\<exists>f. r = Inl f) \<and> files (cn_world c3) = files (cn_world c2) \<and> cn_stdout c3 = cn_stdout c2"
proof -
  let ?sp = "seen_path env output_path seen_ids"
  obtain e x seen where a: "receive_result P Q clk pw (files (cn_world c) ?sp) (files (cn_world c) env)
      (files (cn_world c) kp) (files (cn_world c) sender) = Inr (e, x, seen)"
    "files (cn_world c1) = received_files ?sp output_path x seen (files (cn_world c))"
    using receive_run_Inr [OF assms(1,2) refl] by blast
  have s: "files (cn_world c1) ?sp = Some (seen_to_bytes seen)"
    using a(2) assms(3) by (cases output_path) (auto simp: received_files_def)
  obtain eb where eb: "files (cn_world c) env = Some eb"
    using a(1) by (auto simp: receive_result_def)
  obtain f where "receive_result P2 Q2 clk2 pw2 (Some (seen_to_bytes seen)) (Some eb) (files (cn_world c2) kp2)
      (files (cn_world c2) sender2) = Inl f"
    using received_then_refused [OF a(1) [unfolded eb] assms(5)] by blast
  then have "receive_result P2 Q2 clk2 pw2 (files (cn_world c2) ?sp) (files (cn_world c2) env2) (files (cn_world c2) kp2)
      (files (cn_world c2) sender2) = Inl f"
    using assms(7,8) s eb by simp
  from receive_run_Inl [OF this assms(4) assms(6) [symmetric] assms(9)] show ?thesis by blast
qed

text \<open>C35. But not across outputs: the default store lies beside the output file, so the same envelope is
  delivered again when another output is named whose store does not exist yet.\<close>

theorem received_again_elsewhere:
  assumes "transfer_receive_command P Q clk env kp sender (Some out) None pw c = (Inr (), c1)" "no_faults (cn_world c)"
    and "files (cn_world c) (add_seen out) = None" "no_faults (cn_world c2)" "cn_out_faults c2 = (\<lambda>_. None)"
    and "\<And>p. p \<in> {env, kp, sender} \<Longrightarrow> files (cn_world c2) p = files (cn_world c) p"
    and "files (cn_world c2) (add_seen out2) = None"
  shows "\<exists>c3. transfer_receive_command P Q clk env kp sender (Some out2) None pw c2 = (Inr (), c3) \<and>
    files (cn_world c3) out2 = files (cn_world c1) out"
proof -
  have sp: "add_seen out = seen_path env (Some out) None" "add_seen out2 = seen_path env (Some out2) None"
    by (simp_all add: seen_path_def default_seen_ids_path_def)
  obtain e x seen where a: "receive_result P Q clk pw None (files (cn_world c) env)
      (files (cn_world c) kp) (files (cn_world c) sender) = Inr (e, x, seen)"
    "files (cn_world c1) = received_files (add_seen out) (Some out) x seen (files (cn_world c))"
    using receive_run_Inr [OF assms(1,2) sp(1)] assms(3) by auto
  have "receive_result P Q clk pw (files (cn_world c2) (add_seen out2)) (files (cn_world c2) env)
      (files (cn_world c2) kp) (files (cn_world c2) sender) = Inr (e, x, seen)"
    using a(1) assms(6,7) by simp
  from receive_run_ok [OF this assms(4) sp(2) assms(5)] show ?thesis
    using a(2) by (auto simp: received_files_def)
qed

lemma sample_second:
  "\<exists>(c :: console) c1 (c2 :: console). no_faults (cn_world c) \<and> no_faults (cn_world c2) \<and> cn_out_faults c2 = (\<lambda>_. None) \<and> cn_stdout c2 = [] \<and>
    transfer_receive_command toy_prims toy_pqc (\<lambda>_. 5) (here ''e'') (here ''k'') (here ''i'') (Some (here ''o'')) None [1] c =
      (Inr (), c1) \<and> cn_world c2 = cn_world c1 \<and> files (cn_world c) (add_seen (here ''o'')) = None \<and>
    files (cn_world c1) (here ''o'') = Some [1, 2, 3] \<and> files (cn_world c2) (add_seen (here ''q'')) = None \<and>
    (\<forall>p \<in> {here ''e'', here ''k'', here ''i''}. files (cn_world c2) p = files (cn_world c) p)"
proof -
  obtain c c1 seen where c: "no_faults (cn_world c)" "no_faults (cn_world c1)"
    "\<forall>n. n \<notin> {''k'', ''i'', ''m'', ''e''} \<longrightarrow> files (cn_world c) (here n) = None"
    "transfer_receive_command toy_prims toy_pqc (\<lambda>_. 5) (here ''e'') (here ''k'') (here ''i'') (Some (here ''o'')) None [1] c =
      (Inr (), c1)"
    "files (cn_world c1) = (files (cn_world c))(here ''o.seen'' := Some seen, here ''o'' := Some [1, 2, 3])"
    using sample_received by (elim exE conjE) (rule that, assumption+)
  have k: "add_seen (here ''o'') = here ''o.seen''" "add_seen (here ''q'') = here ''q.seen''" by (simp_all add: add_seen_def)
  have n: "files (cn_world c) (here ''o.seen'') = None" "files (cn_world c) (here ''q.seen'') = None"
    by (rule c(3) [THEN spec, THEN mp], simp)+
  have f: "files (cn_world c1) (here ''o'') = Some [1, 2, 3]" "files (cn_world c1) (here ''q.seen'') = None"
    "\<forall>p \<in> {here ''e'', here ''k'', here ''i''}. files (cn_world c1) p = files (cn_world c) p"
    unfolding c(5) by (simp_all add: n)
  show ?thesis
    unfolding k using c(1,2,4) n f
    by (intro exI [of _ c] exI [of _ c1] exI [of _ "console_at (cn_world c1) []"] conjI) (simp_all only: console_at_fields)
qed

theorem received_once_per_store_witness:
  "\<exists>(c :: console) c1. transfer_receive_command toy_prims toy_pqc (\<lambda>_. 5) (here ''e'') (here ''k'') (here ''i'') (Some (here ''o'')) None [1] c =
      (Inr (), c1) \<and>
    (\<exists>f. fst (transfer_receive_command toy_prims toy_pqc (\<lambda>_. 7) (here ''e'') (here ''k'') (here ''i'') (Some (here ''q''))
      (Some (here ''o.seen'')) [1] (console_at (cn_world c1) [])) = Inl f)"
proof -
  obtain c c1 and c2 :: console where c: "no_faults (cn_world c)" "no_faults (cn_world c2)" "cn_world c2 = cn_world c1"
    "transfer_receive_command toy_prims toy_pqc (\<lambda>_. 5) (here ''e'') (here ''k'') (here ''i'') (Some (here ''o'')) None [1] c =
      (Inr (), c1)" "\<forall>p \<in> {here ''e'', here ''k'', here ''i''}. files (cn_world c2) p = files (cn_world c) p"
    using sample_second by blast
  let ?c2 = "console_at (cn_world c1) []"
  have sp: "seen_path (here ''e'') (Some (here ''o'')) None = here ''o.seen''"
    "seen_path (here ''e'') (Some (here ''q'')) (Some (here ''o.seen'')) = here ''o.seen''"
    by (simp_all add: seen_path_def default_seen_ids_path_def add_seen_def)
  obtain r c3 where r: "transfer_receive_command toy_prims toy_pqc (\<lambda>_. 7) (here ''e'') (here ''k'') (here ''i'') (Some (here ''q''))
      (Some (here ''o.seen'')) [1] ?c2 = (r, c3)" by fastforce
  have "\<exists>f. r = Inl f"
    by (rule conjunct1 [OF received_once_per_store [OF c(4,1) _ _ _ _ _ _ r]]) (use c sp in simp_all)
  then show ?thesis using c(4) r by (intro exI [of _ c] exI [of _ c1]) simp
qed

theorem received_again_elsewhere_witness:
  "\<exists>(c :: console) c1 c2 c3. transfer_receive_command toy_prims toy_pqc (\<lambda>_. 5) (here ''e'') (here ''k'') (here ''i'') (Some (here ''o'')) None [1] c =
      (Inr (), c1) \<and> cn_world c2 = cn_world c1 \<and>
    transfer_receive_command toy_prims toy_pqc (\<lambda>_. 5) (here ''e'') (here ''k'') (here ''i'') (Some (here ''q'')) None [1] c2 =
      (Inr (), c3) \<and> files (cn_world c3) (here ''q'') = Some [1, 2, 3]"
proof -
  obtain c c1 and c2 :: console where c: "no_faults (cn_world c)" "no_faults (cn_world c2)" "cn_out_faults c2 = (\<lambda>_. None)" "cn_world c2 = cn_world c1"
    "transfer_receive_command toy_prims toy_pqc (\<lambda>_. 5) (here ''e'') (here ''k'') (here ''i'') (Some (here ''o'')) None [1] c =
      (Inr (), c1)" "files (cn_world c) (add_seen (here ''o'')) = None" "files (cn_world c1) (here ''o'') = Some [1, 2, 3]"
    "files (cn_world c2) (add_seen (here ''q'')) = None"
    "\<forall>p \<in> {here ''e'', here ''k'', here ''i''}. files (cn_world c2) p = files (cn_world c) p"
    using sample_second by blast
  obtain c3 where "transfer_receive_command toy_prims toy_pqc (\<lambda>_. 5) (here ''e'') (here ''k'') (here ''i'') (Some (here ''q'')) None [1] c2 =
      (Inr (), c3)" "files (cn_world c3) (here ''q'') = Some [1, 2, 3]"
    using received_again_elsewhere [OF c(5,1,6,2,3) _ c(8)] c(7,9) by auto
  then show ?thesis using c(4,5) by blast
qed

end
