(* ===== verification/Pair_Dialogue.thy ===== *)
theory Pair_Dialogue
  imports Transfer_Properties
begin

text \<open>
  The dialogue of \<open>device pair\<close>: what is read from the terminal, a dialogue that succeeds, and the code that is shown.
\<close>

subsection \<open>A block of lines\<close>

definition block_line :: "byte list \<Rightarrow> bool" where
  "block_line l \<longleftrightarrow> 10 \<notin> set l \<and> utf8_valid (l @ [10]) \<and> l \<noteq> [] \<and> last l \<noteq> 13 \<and> trim_chars (utf8_chars l) \<noteq> []"

definition block_of :: "byte list list \<Rightarrow> byte list" where
  "block_of ls = concat (map (\<lambda>l. l @ [10]) ls)"

lemma block_of_simps [simp]: "block_of [] = []" "block_of (l # ls) = l @ 10 # block_of ls"
  by (simp_all add: block_of_def)

lemma lines_next_line:
  assumes "cn_stdin c = l @ 10 # rest" "10 \<notin> set l" "utf8_valid (l @ [10])" "l = [] \<or> last l \<noteq> 13"
  shows "lines_next c = (Inr (Some l), c\<lparr>cn_stdin := rest\<rparr>)"
  using assms
  by (auto simp: lines_next_def bind_cli_def read_line_def next_line_typed from_utf8_def strip_cr_def)

lemma read_block:
  assumes "list_all block_line ls" "cn_stdin c = block_of ls @ 10 # rest" "length (block_of ls) < n"
  shows "read_lines_until_blank n out c = (Inr (out @ block_of ls), c\<lparr>cn_stdin := rest\<rparr>)"
  using assms
proof (induction ls arbitrary: n out c)
  case Nil
  then obtain m where "n = Suc m" by (cases n) auto
  moreover have "lines_next c = (Inr (Some []), c\<lparr>cn_stdin := rest\<rparr>)"
    by (rule lines_next_line) (use Nil in \<open>simp_all add: in_rng_def\<close>)
  ultimately show ?case by (simp add: bind_cli_case trim_chars_def)
next
  case (Cons l ls)
  then obtain m where m: "n = Suc m" "length (block_of ls) < m" by (cases n) auto
  have "lines_next c = (Inr (Some l), c\<lparr>cn_stdin := block_of ls @ 10 # rest\<rparr>)"
    by (rule lines_next_line) (use Cons.prems in \<open>simp_all add: block_line_def\<close>)
  then show ?case
    using Cons.IH [of "c\<lparr>cn_stdin := block_of ls @ 10 # rest\<rparr>" m "out @ l @ [10]"] Cons.prems m
    by (simp add: bind_cli_case block_line_def)
qed

lemma read_until_blank:
  assumes "list_all block_line ls" "cn_stdin c = block_of ls @ 10 # rest"
  shows "read_until_blank_line c = (Inr (block_of ls), c\<lparr>cn_stdin := rest\<rparr>)"
proof -
  have "length (block_of ls) < length (cn_stdin c) + 1" by (simp add: assms(2))
  from read_block [OF assms this, of "[]"] show ?thesis by (simp only: read_until_blank_line_def append_Nil)
qed

subsection \<open>A dialogue that succeeds\<close>

lemma read_answer:
  assumes "10 \<notin> set a" "utf8_valid (a @ [10])" "cn_stdin c = a @ 10 # rest"
  shows "read_line c = (Inr (a @ [10]), c\<lparr>cn_stdin := rest\<rparr>)"
  using assms by (simp add: read_line_def next_line_typed from_utf8_def)

lemma build_payload_ok:
  assumes "di_signing_public_key d = Some spk" "di_display_name d \<noteq> []" "next_random w 32 \<noteq> zeros 32"
  shows "\<exists>p. build_pairing_payload P d n w = (Inr p, w\<lparr>drawn := drawn w + 32\<rparr>) \<and> pp_protocol_version p = 1 \<and>
    pp_pairing_nonce p = next_random w 32 \<and> pp_display_name p = di_display_name d"
  using assms by (simp add: build_pairing_payload_def generate_pairing_nonce_apply bind_act_def Let_def)

lemma pair_asks_ok:
  assumes g: "generate Q name (cn_world c) = (Inr (d, kp), w)"
    and d: "di_signing_public_key d = Some spk" "di_display_name d \<noteq> []"
    and ls: "list_all block_line ls" "cn_stdin c = block_of ls @ 10 # a @ 10 # rest"
    and p: "deserialize_identity_text (block_of ls) = Inr peer" "di_signing_public_key peer = Some spk'"
      "di_display_name peer \<noteq> []" "length (di_display_name peer) \<le> u32_max"
    and a: "10 \<notin> set a" "utf8_valid (a @ [10])" "confirms (a @ [10])"
    and n: "next_random w 32 \<noteq> zeros 32" "next_random (w\<lparr>drawn := drawn w + 32\<rparr>) 32 \<noteq> zeros 32"
  shows "\<exists>c'. pair_asks P Q name c = (Inr (d, kp, peer), c') \<and> cn_tty c' = cn_tty c \<and> cn_out_faults c' = cn_out_faults c"
proof -
  let ?w2 = "w\<lparr>drawn := drawn w + 32\<rparr>"
  obtain p1 where p1: "build_pairing_payload P d 1 w = (Inr p1, ?w2)" "pp_pairing_nonce p1 = next_random w 32"
    using build_payload_ok [OF d n(1)] by blast
  obtain p2 where p2: "build_pairing_payload P peer 1 ?w2 = (Inr p2, ?w2\<lparr>drawn := drawn ?w2 + 32\<rparr>)"
    "pp_display_name p2 = di_display_name peer"
    using build_payload_ok [OF p(2,3) n(2)] by blast
  let ?q = "p2\<lparr>pp_protocol_version := 1, pp_pairing_nonce := next_random w 32\<rparr>"
  have "\<not> list_all (\<lambda>b. b = 0) (next_random w 32)"
  proof
    assume "list_all (\<lambda>b. b = 0) (next_random w 32)"
    then have "next_random w 32 = zeros 32"
      by (intro nth_equalityI) (simp_all add: zeros_def list_all_length)
    then show False using n(1) by simp
  qed
  then obtain t where t: "compute_pairing_transcript P ?q = Inr t"
    using p2(2) p(3,4) by (simp add: compute_pairing_Inr)
  obtain sas where sas: "derive_short_authentication_string P (next_random w 32) (pt_transcript_hash t) = Inr sas"
    by (simp add: derive_short_authentication_string_def Let_def)
  have r: "read_until_blank_line (c\<lparr>cn_world := w, cn_stderr := x\<rparr>) =
      (Inr (block_of ls), c\<lparr>cn_world := w, cn_stderr := x, cn_stdin := a @ 10 # rest\<rparr>)" for x
    using read_until_blank [OF ls(1), of "c\<lparr>cn_world := w, cn_stderr := x\<rparr>" "a @ 10 # rest"] ls(2) by simp
  have l: "read_line (c\<lparr>cn_stdin := a @ 10 # rest, cn_world := v, cn_stderr := x\<rparr>) =
      (Inr (a @ [10]), c\<lparr>cn_stdin := rest, cn_world := v, cn_stderr := x\<rparr>)" for v x
    using read_answer [OF a(1,2), of "c\<lparr>cn_stdin := a @ 10 # rest, cn_world := v, cn_stderr := x\<rparr>" rest] by simp
  show ?thesis
    using a(3)
    by (simp add: pair_asks_def bind_cli_case do_io_def map_err_act_def g write_stderr_def r p(1) p1
        synthetic_pairing_payload_def bind_act_def p2(1) t sas l)
qed

subsection \<open>The code both people compare\<close>

text \<open>The nonce that a run of \<open>device pair\<close> draws, after its keys.\<close>

definition own_nonce :: "pqc_prims \<Rightarrow> byte list \<Rightarrow> console \<Rightarrow> byte list" where
  "own_nonce Q name c =
     (case fst (generate_pairing_nonce (snd (generate Q name (cn_world c)))) of Inr n \<Rightarrow> n | Inl _ \<Rightarrow> [])"

definition peer_payload :: "prims \<Rightarrow> DeviceIdentity \<Rightarrow> byte list \<Rightarrow> PairingPayload" where
  "peer_payload P peer nonce =
     \<lparr>pp_protocol_version = 1, pp_device_id = di_device_id peer, pp_display_name = di_display_name peer,
      pp_classical_fingerprint = sha256_digest P (di_classical_public_key peer),
      pp_pqc_fingerprint = sha256_digest P (di_pqc_public_key peer),
      pp_signing_fingerprint = sha256_digest P (spk_bytes (the (di_signing_public_key peer))),
      pp_capabilities = 1, pp_pairing_nonce = nonce\<rparr>"

text \<open>What is hashed last for the code: the nonce, then the transcript of the peer's identity.\<close>

definition code_input :: "prims \<Rightarrow> DeviceIdentity \<Rightarrow> byte list \<Rightarrow> byte list" where
  "code_input P peer nonce = nonce @
     sha256_digest P (pairing_transcript_input (peer_payload P peer nonce) (of_nat (length (di_display_name peer))))"

definition code_line :: "prims \<Rightarrow> DeviceIdentity \<Rightarrow> byte list \<Rightarrow> byte list" where
  "code_line P peer nonce =
     bytes_of (''SAS: '' @ hex_of (take 3 (sha256_digest P (code_input P peer nonce))) @ '' '')"

lemma generate_nonce_Inr:
  "generate_pairing_nonce w = (Inr n, w') \<Longrightarrow> length n = 32"
  by (auto simp: generate_pairing_nonce_apply Let_def split: if_splits)

lemma build_payload_Inr:
  assumes "build_pairing_payload P d k w = (Inr p, w')"
  shows "\<exists>n spk. generate_pairing_nonce w = (Inr n, w') \<and> di_signing_public_key d = Some spk \<and>
    p = (peer_payload P d n)\<lparr>pp_capabilities := k\<rparr>"
  using assms by (auto simp: build_pairing_payload_def bind_act_eq_Inr peer_payload_def ok_or_def split: if_splits option.splits)

lemma pair_asks_code:
  assumes "pair_asks P Q name c = (Inr (d, kp, peer), c')"
  shows "cn_stderr c' = cn_stderr c @ line_of ''=== YOUR IDENTITY (share this with peer) ==='' @
      serialize_identity_text d @ line_of ''=== PASTE PEER IDENTITY, then blank line ==='' @
      code_line P peer (own_nonce Q name c) @ em_dash @
      line_of '' verify this matches the other device'' @ bytes_of ''Confirm SAS match? [y/N]: ''"
    and "length (own_nonce Q name c) = 32"
    and "\<exists>block. fst (read_until_blank_line c) = Inr block \<and> deserialize_identity_text block = Inr peer"
proof -
  obtain r s' where b: "\<forall>d. cn_stdin d = cn_stdin c \<longrightarrow> read_until_blank_line d = (r, d\<lparr>cn_stdin := s'\<rparr>)"
    using stdin_only_block unfolding stdin_only_def by blast
  obtain w where g: "generate Q name (cn_world c) = (Inr (d, kp), w)"
    using assms by (auto simp: pair_asks_def bind_cli_eq_Inr do_io_eq split: if_splits)
  obtain p w2 where p: "build_pairing_payload P d 1 w = (Inr p, w2)"
    using assms g b by (auto simp: pair_asks_def bind_cli_eq_Inr do_io_eq write_stderr_def split: if_splits)
  obtain n where n: "generate_pairing_nonce w = (Inr n, w2)" "pp_pairing_nonce p = n"
    using build_payload_Inr [OF p] by (auto simp: peer_payload_def)
  have own: "own_nonce Q name c = n" by (simp add: own_nonce_def g n)
  show "length (own_nonce Q name c) = 32" unfolding own by (rule generate_nonce_Inr [OF n(1)])
  show "\<exists>block. fst (read_until_blank_line c) = Inr block \<and> deserialize_identity_text block = Inr peer"
    using assms g b by (auto simp: pair_asks_def bind_cli_eq_Inr do_io_eq write_stderr_def split: if_splits)
  show "cn_stderr c' = cn_stderr c @ line_of ''=== YOUR IDENTITY (share this with peer) ==='' @
      serialize_identity_text d @ line_of ''=== PASTE PEER IDENTITY, then blank line ==='' @
      code_line P peer (own_nonce Q name c) @ em_dash @
      line_of '' verify this matches the other device'' @ bytes_of ''Confirm SAS match? [y/N]: ''"
    using assms g b p n(2) unfolding own
    by (auto simp: pair_asks_def bind_cli_eq_Inr do_io_eq write_stderr_def read_line_def Let_def
        synthetic_pairing_payload_def bind_act_eq_Inr ok_or_def code_line_def code_input_def
        derive_short_authentication_string_def compute_pairing_Inr bytes_of_def peer_payload_def split: if_splits
        dest!: build_payload_Inr)
qed

end
