(* ===== verification/Pair_Properties.thy ===== *)
theory Pair_Properties
  imports Pair_Dialogue
begin

text \<open>
  The properties of \<open>device pair\<close>, with a dialogue that succeeds for their witnesses.
\<close>

subsection \<open>Saving succeeds on a quiet host\<close>

lemma pair_saves_ok:
  assumes laws: "aead_correct P" "aead_total P" "kdf_total P" "blake_sized P"
    and d: "identity_wf (fst g)" "owns Q (fst g) (fst (snd g))" "length (di_display_name (fst g)) \<le> 65536"
    and c: "no_faults (cn_world c)" "cn_out_faults c = (\<lambda>_. None)" "cn_tty c = Some pw # ts"
  shows "\<exists>c'. pair_saves P self_keypair self_identity peer_identity False g c = (Inr (), c')"
proof -
  obtain w1 where w1: "save_sealed_keypair P self_keypair (fst g) (fst (snd g)) pw (cn_world c) = (Inr (), w1)"
    and n1: "no_faults w1" and k: "files w1 self_keypair \<noteq> None"
    using save_keypair_ok [OF laws d c(1)] by blast
  note w2 = restrict_ok [OF n1 k]
  let ?w2 = "snapshot (snapshot w1)"
  have n2: "no_faults ?w2" using n1 by (simp add: snapshot_def no_faults_def)
  obtain w3 where w3: "fs_write self_identity (serialize_identity_text (fst g)) ?w2 = (Inr (), w3)" "no_faults w3"
    using fs_write_ok [OF n2] n2 same_host_no_faults by blast
  obtain w4 where w4: "fs_write peer_identity (serialize_identity_text (snd (snd g))) w3 = (Inr (), w4)"
    using fs_write_ok [OF w3(2)] by blast
  show ?thesis
    using c by (simp add: pair_saves_def bind_cli_case do_io_def prompt_password_def prompt_tty_def w1 w2 w3(1) w4
        write_stderr_def write_stdout_def)
qed


subsection \<open>The identity text as a block of lines\<close>

definition identity_rows :: "DeviceIdentity \<Rightarrow> byte list list" where
  "identity_rows d = [bytes_of ''ms-device-identity-v1'', id_line ''device_id'' (hex_encode (di_device_id d)),
     id_line ''display_name'' (di_display_name d), id_line ''classical_public_key'' (hex_encode (di_classical_public_key d)),
     id_line ''pqc_public_key'' (hex_encode (di_pqc_public_key d)), id_line ''signing_algorithm'' (bytes_of ''Ed25519V1''),
     id_line ''signing_public_key'' (hex_encode (key_bytes_of d)), id_line ''created_at'' (dec_bytes (unat (di_created_at d)))]"

lemma identity_block: "block_of (identity_rows d) = serialize_identity_text d"
  by (simp add: text_split after_name_def identity_rows_def)

lemma trim_chars_nonempty:
  assumes "c \<in> set cs" "\<not> is_whitespace c"
  shows "trim_chars cs \<noteq> []"
proof -
  have "c \<in> set (dropWhile is_whitespace cs)" using assms by (induction cs) auto
  then show ?thesis using assms(2) by (auto simp: trim_chars_def)
qed

lemma block_line_ascii:
  assumes "ascii l" "10 \<notin> set l" "last l \<noteq> 13" "a \<in> set l" "\<not> is_whitespace (unat a)"
  shows "block_line l"
proof -
  have "utf8_valid (l @ [10])" using assms(1) by (intro utf8_valid_ascii) (simp add: ascii_def)
  moreover have "trim_chars (utf8_chars l) \<noteq> []"
    unfolding utf8_chars_single [OF assms(1) [unfolded ascii_def]] by (rule trim_chars_nonempty) (use assms(4,5) in auto)
  ultimately show ?thesis using assms by (auto simp: block_line_def)
qed

lemma block_line_id:
  assumes "ascii (bytes_of k)" "10 \<notin> set (bytes_of k)" "ascii v" "10 \<notin> set v" "v = [] \<or> last v \<noteq> 13"
  shows "block_line (id_line k v)"
  by (rule block_line_ascii [where a = 61])
    (use assms in \<open>auto simp: id_line_def is_whitespace_def\<close>)

lemma identity_rows_block:
  assumes "ascii (di_display_name d)" "10 \<notin> set (di_display_name d)" "last (di_display_name d) \<noteq> 13"
  shows "list_all block_line (identity_rows d)"
proof -
  have "block_line (bytes_of ''ms-device-identity-v1'')"
    by (rule block_line_ascii [where a = 109]) (simp_all add: is_whitespace_def bytes_of_def)
  then show ?thesis
    using assms hex_no_breaks dec_no_breaks by (simp add: identity_rows_def block_line_id keys_plain)
qed

subsection \<open>A sample dialogue\<close>

lemma sample_keys:
  "\<exists>d kp w. generate toy_pqc [97] sample_world = (Inr (d, kp), w) \<and> next_random w 32 \<noteq> zeros 32 \<and>
    next_random (w\<lparr>drawn := drawn w + 32\<rparr>) 32 \<noteq> zeros 32"
proof -
  have "\<exists>d kp w. generate toy_pqc [97] sample_world = (Inr (d, kp), w) \<and> entropy w = of_nat \<and> drawn w = 144"
  by (simp add: generate_def bind_act_def random_bytes_def x25519_keypair_def random_key_def mlkem_keypair_def
      key_from_slice_def ed25519_keypair_def dev_unix_time_millis_def map_err_act_def toy_pqc_def sample_world_def
      usize_max_def to_u64_def)
  then obtain d kp w where w: "generate toy_pqc [97] sample_world = (Inr (d, kp), w)" "entropy w = of_nat" "drawn w = 144"
    by blast
  have "next_random v 32 \<noteq> zeros 32" if "entropy v = of_nat" "drawn v \<in> {144, 176}" for v
  proof
    assume "next_random v 32 = zeros 32"
    then have "next_random v 32 ! 0 = zeros 32 ! 0" by simp
    then show False using that by (auto simp: next_random_def zeros_def)
  qed
  then show ?thesis using w by (intro exI [of _ d] exI [of _ kp] exI [of _ w]) simp
qed

lemma pair_saves_stderr:
  assumes "pair_saves P self_keypair self_identity peer_identity stdin g c = (Inr (), c')"
  shows "\<exists>post. cn_stderr c' = cn_stderr c @ post"
proof -
  have "cn_stderr c1 = cn_stderr c0" if "prompt_password b c0 = (x, c1)" for b c0 x c1
    using that by (auto simp: prompt_password_def prompt_tty_def read_password_from_stdin_def bind_cli_def read_line_def
        Let_def split: if_splits list.splits option.splits sum.splits prod.splits)
  then show ?thesis
    using assms by (auto simp: pair_saves_def bind_cli_eq_Inr do_io_eq write_stderr_def write_stdout_Inr)
qed

text \<open>The files that a run leaves, over the identity it generated.\<close>

lemma identity_file_written:
  assumes "text_ok d" "di_display_name d \<noteq> []" "10 \<notin> set (di_display_name d)" "last (di_display_name d) \<noteq> 13"
    "utf8_valid (di_display_name d)" "s p = Some (serialize_identity_text d)"
  shows "identity_file s p d"
  using assms identity_text_reads identity_text_utf8 by (auto simp: identity_file_def)

lemma pairing_files:
  assumes laws: "aead_correct P" "kdf_total P" "blake_sized P" "sig_correct Q" "dh_correct Q" "kem_correct Q"
    and n: "utf8_valid name" "length name \<le> u32_max" "10 \<notin> set name" "last name \<noteq> 13"
    and p: "self_keypair \<noteq> self_identity" "self_keypair \<noteq> peer_identity" "self_identity \<noteq> peer_identity"
    and t: "cn_tty c = Some pw # ts"
    and r: "device_command P Q (DevicePair name self_keypair self_identity peer_identity) False c = (Inr (), c')"
  obtains d kp w peer block where "generate Q name (cn_world c) = (Inr (d, kp), w)"
    "key_file P Q (files (cn_world c')) self_keypair pw d kp" "identity_file (files (cn_world c')) self_identity d"
    "\<And>s p. s p = Some (serialize_identity_text d) \<Longrightarrow> identity_file s p d"
    "fst (read_until_blank_line c) = Inr block" "deserialize_identity_text block = Inr peer"
    "files (cn_world c') peer_identity = Some (serialize_identity_text peer)"
proof -
  have "bind_cli (pair_asks P Q name) (pair_saves P self_keypair self_identity peer_identity False) c = (Inr (), c')"
    using r by (simp add: device_command_def pair_split)
  then obtain d kp peer c1 where a: "pair_asks P Q name c = (Inr (d, kp, peer), c1)"
    and s: "pair_saves P self_keypair self_identity peer_identity False (d, kp, peer) c1 = (Inr (), c')"
    by (auto simp: bind_cli_eq_Inr)
  obtain w where g: "generate Q name (cn_world c) = (Inr (d, kp), w)" and t1: "cn_tty c1 = Some pw # ts"
    using pair_asks_Inr(2,3) [OF a] t by auto
  note spec = generate_spec [OF laws(4-6) n(1,2) g]
  obtain kb where kb: "open_keypair_bytes P Q pw kb = Inr (d, kp)"
    "files (cn_world c') = (files (cn_world c1))(self_keypair := Some kb,
      self_identity := Some (serialize_identity_text d), peer_identity := Some (serialize_identity_text peer))"
    using pair_saves_Inr [OF laws(1-4) _ _ p t1 s] spec by auto
  have "name \<noteq> []" using g by (auto simp: generate_def)
  then have i: "identity_file s q d" if "s q = Some (serialize_identity_text d)" for s q
    using spec n that by (intro identity_file_written) auto
  have k: "key_file P Q (files (cn_world c')) self_keypair pw d kp" using spec kb p by (simp add: key_file_def)
  have f: "identity_file (files (cn_world c')) self_identity d" using kb(2) p by (intro i) simp
  obtain block where b: "fst (read_until_blank_line c) = Inr block" "deserialize_identity_text block = Inr peer"
    using pair_asks_code(3) [OF a] by blast
  have q: "files (cn_world c') peer_identity = Some (serialize_identity_text peer)" using kb(2) by simp
  show ?thesis by (rule that [OF g k f i b q])
qed

lemma files_sample: "files sample_world = (\<lambda>_. None)"
  by (simp add: sample_world_def)

subsection \<open>Properties\<close>

text \<open>Pairing leaves a usable device: after a run of \<open>device pair\<close> that succeeds, the key file opens with the
  passphrase that was typed to a fresh identity of the given name and the keys it owns, the identity file
  is read back to that identity, unverified, and the peer's file holds the text of the identity that was
  pasted. These are the files \<open>transfer create\<close> and \<open>transfer receive\<close> start from.\<close>

theorem pairing_leaves_usable_files:
  assumes "aead_correct P" "kdf_total P" "blake_sized P" "sig_correct Q" "dh_correct Q" "kem_correct Q"
    and "utf8_valid name" "length name \<le> u32_max" "10 \<notin> set name" "last name \<noteq> 13"
    and "self_keypair \<noteq> self_identity" "self_keypair \<noteq> peer_identity" "self_identity \<noteq> peer_identity"
    and "cn_tty c = Some pw # ts"
    and "device_command P Q (DevicePair name self_keypair self_identity peer_identity) False c = (Inr (), c')"
  shows "\<exists>d kp peer block. device_files P Q (files (cn_world c')) self_keypair pw self_identity d kp \<and>
    di_display_name d = name \<and> di_device_id d = next_random (cn_world c) 16 \<and>
    fst (read_until_blank_line c) = Inr block \<and> deserialize_identity_text block = Inr peer \<and>
    files (cn_world c') peer_identity = Some (serialize_identity_text peer)"
proof -
  obtain d kp w peer block where d: "generate Q name (cn_world c) = (Inr (d, kp), w)"
    "key_file P Q (files (cn_world c')) self_keypair pw d kp" "identity_file (files (cn_world c')) self_identity d"
    "fst (read_until_blank_line c) = Inr block" "deserialize_identity_text block = Inr peer"
    "files (cn_world c') peer_identity = Some (serialize_identity_text peer)"
    by (rule pairing_files [OF assms], rule that)
  show ?thesis
    using generate_spec [OF assms(4-8) d(1)] d by (intro exI [of _ d] exI [of _ kp] exI [of _ peer] exI [of _ block])
      (simp add: device_files_def)
qed

text \<open>A dialogue in which the device is shown its own identity.\<close>

lemma sample_dialogue:
  "\<exists>(c :: console) c' d. cn_tty c = [Some [1]] \<and> device_command toy_prims toy_pqc
      (DevicePair [97] (here ''k'') (here ''i'') (here ''p'')) False c = (Inr (), c') \<and>
    cn_stdin c = serialize_identity_text d @ [10, 121, 10] \<and>
    fst (read_until_blank_line c) = Inr (serialize_identity_text d) \<and>
    (\<exists>kp w. generate toy_pqc [97] sample_world = (Inr (d, kp), w)) \<and> cn_world c = sample_world"
proof -
  obtain d kp w where g: "generate toy_pqc [97] sample_world = (Inr (d, kp), w)"
    and n: "next_random w 32 \<noteq> zeros 32" "next_random (w\<lparr>drawn := drawn w + 32\<rparr>) 32 \<noteq> zeros 32"
    using sample_keys by blast
  note spec = generate_spec [OF toy_pqc_correct sample_utf8 g]
  then obtain spk where spk: "di_signing_public_key d = Some spk" by (auto simp: owns_def)
  let ?c = "(console_at sample_world (serialize_identity_text d @ [10, 121, 10]))\<lparr>cn_tty := [Some [1]]\<rparr>"
  have b: "list_all block_line (identity_rows d)" using spec by (intro identity_rows_block) simp_all
  have r: "cn_stdin ?c = block_of (identity_rows d) @ 10 # [121] @ 10 # []"
    by (simp add: identity_block console_at_def)
  have t: "deserialize_identity_text (block_of (identity_rows d)) = Inr (d\<lparr>di_trust_state := Untrusted\<rparr>)"
    unfolding identity_block by (rule identity_text_reads) (use spec in auto)
  have y: "10 \<notin> set [121 :: byte]" "utf8_valid ([121] @ [10])" "confirms ([121] @ [10])"
    by (simp_all add: confirms_def trim_chars_def is_whitespace_def in_rng_def)
  have g': "generate toy_pqc [97] (cn_world ?c) = (Inr (d, kp), w)" using g by (simp add: console_at_def)
  have m: "di_display_name d \<noteq> []" "di_signing_public_key (d\<lparr>di_trust_state := Untrusted\<rparr>) = Some spk"
    "di_display_name (d\<lparr>di_trust_state := Untrusted\<rparr>) \<noteq> []"
    "length (di_display_name (d\<lparr>di_trust_state := Untrusted\<rparr>)) \<le> u32_max"
    using spec spk by (simp_all add: u32_max_def)
  obtain c1 where c1: "pair_asks toy_prims toy_pqc [97] ?c = (Inr (d, kp, d\<lparr>di_trust_state := Untrusted\<rparr>), c1)"
    "cn_tty c1 = cn_tty ?c" "cn_out_faults c1 = cn_out_faults ?c"
    using pair_asks_ok [OF g' spk m(1) b r t m(2-4) y n] by blast
  have "evolves (\<lambda>s. True) (cn_world ?c) (cn_world c1)" by (rule cli_withinD [OF cli_within_asks TrueI c1(1)])
  then have q: "no_faults (cn_world c1)" by (simp add: evolves_def no_faults_def console_at_def sample_world_def)
  have "\<exists>c2. pair_saves toy_prims (here ''k'') (here ''i'') (here ''p'') False (d, kp, d\<lparr>di_trust_state := Untrusted\<rparr>) c1 = (Inr (), c2)"
    by (rule pair_saves_ok [OF toy_prims_aead(1,3) toy_prims_kdf toy_blake, of _ toy_pqc _ "[1]" "[]"])
      (use spec q c1(2,3) in \<open>simp_all add: console_at_def\<close>)
  then obtain c2 where "pair_saves toy_prims (here ''k'') (here ''i'') (here ''p'') False (d, kp, d\<lparr>di_trust_state := Untrusted\<rparr>) c1 = (Inr (), c2)"
    by blast
  moreover have "fst (read_until_blank_line ?c) = Inr (serialize_identity_text d)"
    using read_until_blank [OF b r] by (simp only: identity_block fst_conv)
  ultimately show ?thesis
    using c1(1) g by (intro exI [of _ ?c] exI [of _ c2] exI [of _ d])
      (simp add: device_command_def pair_split bind_cli_case console_at_def)
qed

theorem pairing_leaves_usable_files_witness:
  "\<exists>(c' :: console) d kp. device_files toy_prims toy_pqc (files (cn_world c')) (here ''k'') [1] (here ''i'') d kp"
proof -
  obtain c c' :: console where c: "cn_tty c = [Some [1]]" "device_command toy_prims toy_pqc
      (DevicePair [97] (here ''k'') (here ''i'') (here ''p'')) False c = (Inr (), c')"
    using sample_dialogue by blast
  have p: "here ''k'' \<noteq> here ''i''" "here ''k'' \<noteq> here ''p''" "here ''i'' \<noteq> here ''p''" by simp_all
  have n: "10 \<notin> set [97 :: byte]" "last [97 :: byte] \<noteq> 13" by simp_all
  show ?thesis
    using pairing_leaves_usable_files [OF toy_prims_aead(1) toy_prims_kdf toy_blake toy_pqc_correct sample_utf8 n p c]
    by blast
qed

text \<open>C36. No file is touched without consent: unless the line that follows the pasted block is \<open>y\<close> or \<open>Y\<close>, \<open>device
  pair\<close> fails, and at every moment of the run, under every pattern of failures, the files are as they
  were.\<close>

theorem pairing_needs_consent:
  assumes "\<not> confirms (next_line (cn_stdin (snd (read_until_blank_line c))))"
    and "device_command P Q (DevicePair name self_keypair self_identity peer_identity) stdin c = (r, c')"
  shows "(\<exists>e. r = Inl e) \<and> evolves (\<lambda>s. s = files (cn_world c)) (cn_world c) (cn_world c')"
proof -
  obtain r1 c1 where a: "pair_asks P Q name c = (r1, c1)" by fastforce
  then obtain e where e: "r1 = Inl e" using assms(1) pair_asks_Inr(1) by (cases r1) blast+
  then have "r = Inl e" "c' = c1" using assms(2) a by (auto simp: device_command_def pair_split bind_cli_case)
  then show ?thesis using cli_withinD [OF cli_within_asks _ a, of "\<lambda>s. s = files (cn_world c)"] by simp
qed

theorem pairing_needs_consent_witness:
  "\<exists>e c'. device_command toy_prims toy_pqc (DevicePair [97] (here ''k'') (here ''i'') (here ''p'')) True
      (console_at sample_world [10]) = (Inl e, c') \<and> files (cn_world c') = (\<lambda>_. None)"
proof -
  let ?c = "console_at sample_world [10]"
  have "read_until_blank_line ?c = (Inr [], ?c\<lparr>cn_stdin := []\<rparr>)"
    using read_until_blank [of "[]" ?c "[]"] by simp
  then have n: "\<not> confirms (next_line (cn_stdin (snd (read_until_blank_line ?c))))"
    by (simp add: next_line_def confirms_def trim_chars_def)
  obtain r c' where d: "device_command toy_prims toy_pqc (DevicePair [97] (here ''k'') (here ''i'') (here ''p'')) True ?c = (r, c')"
    by fastforce
  show ?thesis using pairing_needs_consent [OF n d] d by (auto simp: evolves_def files_sample)
qed



text \<open>C38. The code of a device is its own: what \<open>device pair\<close> asks the two people to compare is hashed from the
  nonce this run has drawn and the identity of the peer, and from nothing else. A run on the peer draws
  another nonce, so the two codes are hashes of different texts and agree only by a collision.\<close>

theorem pairing_code_is_own:
  assumes "device_command P Q (DevicePair name self_keypair self_identity peer_identity) stdin c = (Inr (), c')"
  shows "\<exists>block peer pre post. fst (read_until_blank_line c) = Inr block \<and> deserialize_identity_text block = Inr peer \<and>
    cn_stderr c' = pre @ code_line P peer (own_nonce Q name c) @ post \<and>
    (\<forall>peer2 nonce2. length nonce2 = 32 \<longrightarrow> nonce2 \<noteq> own_nonce Q name c \<longrightarrow>
      code_input P peer2 nonce2 \<noteq> code_input P peer (own_nonce Q name c))"
proof -
  have "bind_cli (pair_asks P Q name) (pair_saves P self_keypair self_identity peer_identity stdin) c = (Inr (), c')"
    using assms by (simp add: device_command_def pair_split)
  then obtain d kp peer c1 where a: "pair_asks P Q name c = (Inr (d, kp, peer), c1)"
    and s: "pair_saves P self_keypair self_identity peer_identity stdin (d, kp, peer) c1 = (Inr (), c')"
    by (auto simp: bind_cli_eq_Inr)
  have "\<exists>post. cn_stderr c' = cn_stderr c1 @ post" by (rule pair_saves_stderr [OF s])
  then obtain post where post: "cn_stderr c' = cn_stderr c1 @ post" by blast
  have i: "code_input P peer2 nonce2 \<noteq> code_input P peer (own_nonce Q name c)"
    if "length nonce2 = 32" "nonce2 \<noteq> own_nonce Q name c" for peer2 nonce2
    using that pair_asks_code(2) [OF a] by (auto simp: code_input_def)
  obtain block where b: "fst (read_until_blank_line c) = Inr block" "deserialize_identity_text block = Inr peer"
    using pair_asks_code(3) [OF a] by blast
  have e: "cn_stderr c' = (cn_stderr c @ line_of ''=== YOUR IDENTITY (share this with peer) ==='' @
      serialize_identity_text d @ line_of ''=== PASTE PEER IDENTITY, then blank line ==='') @
      code_line P peer (own_nonce Q name c) @ (em_dash @
      line_of '' verify this matches the other device'' @ bytes_of ''Confirm SAS match? [y/N]: '' @ post)"
    using post pair_asks_code(1) [OF a] by simp
  show ?thesis
    by (rule exI, rule exI, rule exI, rule exI, intro conjI allI impI, rule b(1), rule b(2), rule e, rule i)
qed

theorem pairing_code_is_own_witness:
  "\<exists>(c :: console) c' peer pre post. device_command toy_prims toy_pqc (DevicePair [97] (here ''k'') (here ''i'') (here ''p'')) False c =
      (Inr (), c') \<and> cn_stderr c' = pre @ code_line toy_prims peer (own_nonce toy_pqc [97] c) @ post"
proof -
  obtain c c' :: console where c: "device_command toy_prims toy_pqc
      (DevicePair [97] (here ''k'') (here ''i'') (here ''p'')) False c = (Inr (), c')"
    using sample_dialogue by blast
  from pairing_code_is_own [OF c] c show ?thesis by blast
qed

end
