(* ===== verification/Paired_Transfer.thy ===== *)
theory Paired_Transfer
  imports Pair_Properties
begin

text \<open>
  Two machines from end to end: \<open>device pair\<close> on each of them, an envelope created on the first with
  the files that its run left, and received on the second with the files of the other run.
\<close>

subsection \<open>Commands that ask at the terminal\<close>

lemma prompt_terminal:
  assumes "cn_tty c = Some pw # ts"
  shows "prompt_password False c = (Inr pw, c\<lparr>cn_tty := ts\<rparr>)"
  using assms by (simp add: prompt_password_def prompt_tty_def)

lemma create_at_terminal:
  assumes "cn_tty c = Some pw # ts"
  shows "run_command P Q clk (CmdTransfer (TransferCreate kf idf input env expires_in)) False c =
    transfer_create_command P Q kf idf input env expires_in pw (c\<lparr>cn_tty := ts\<rparr>)"
  using prompt_terminal [OF assms] by (simp add: run_command_def transfer_command_def bind_cli_case)

lemma receive_at_terminal:
  assumes "cn_tty c = Some pw # ts"
  shows "run_command P Q clk (CmdTransfer (TransferReceive env kf idf out seen)) False c =
    transfer_receive_command P Q clk env kf idf out seen pw (c\<lparr>cn_tty := ts\<rparr>)"
  using prompt_terminal [OF assms] by (simp add: run_command_def transfer_command_def bind_cli_case)

subsection \<open>What a machine holds after pairing\<close>

text \<open>Its own key file, and the identity file of the device whose text was pasted.\<close>

lemma paired_machine:
  assumes laws: "aead_correct P" "kdf_total P" "blake_sized P" "sig_correct Q" "dh_correct Q" "kem_correct Q"
    and n: "utf8_valid name" "length name \<le> u32_max" "10 \<notin> set name" "last name \<noteq> 13"
    and p: "distinct [kf, idf, peer]" and t: "cn_tty c = Some pw # ts"
    and r: "device_command P Q (DevicePair name kf idf peer) False c = (Inr (), c')"
    and g: "generate Q name (cn_world c) = (Inr (d, kp), w)"
    and b: "fst (read_until_blank_line c) = Inr (serialize_identity_text d2)"
    and g2: "generate Q name2 w2 = (Inr (d2, kp2), w2')"
    and n2: "utf8_valid name2" "length name2 \<le> u32_max" "10 \<notin> set name2" "last name2 \<noteq> 13"
    and s: "s kf = files (cn_world c') kf" "s peer = files (cn_world c') peer"
  shows "key_file P Q s kf pw d kp" "identity_file s peer d2"
proof -
  have p': "kf \<noteq> idf" "kf \<noteq> peer" "idf \<noteq> peer" using p by simp_all
  note spec2 = generate_spec [OF laws(4-6) n2(1,2) g2]
  have ne: "name2 \<noteq> []" using g2 by (auto simp: generate_def)
  have d2: "d2\<lparr>di_trust_state := Untrusted\<rparr> = d2" using spec2 by (cases d2) simp
  have "deserialize_identity_text (serialize_identity_text d2) = Inr d2"
    using identity_text_reads [of d2] spec2 ne n2 d2 by simp
  then have fk: "files (cn_world c') peer = Some (serialize_identity_text d2) \<and> key_file P Q (files (cn_world c')) kf pw d kp"
    using b g by - (rule pairing_files [OF laws n p' t r], simp)
  show "key_file P Q s kf pw d kp" using fk s(1) by (simp add: key_file_def)
  show "identity_file s peer d2"
    using fk s(2) spec2 ne n2 by (intro identity_file_written) auto
qed

text \<open>The expiry an envelope gets, on the clock of the sender.\<close>

lemma paired_send:
  assumes laws: "aead_correct P" "aead_total P" "kdf_total P" "sha_sized P" "sig_correct Q" "dh_correct Q" "kem_correct Q"
    and s: "key_file P Q (files (cn_world c)) kf pw d kp" "identity_file (files (cn_world c)) peer d2"
    and r: "key_file P Q sf2 kf2 pw2 d2 kp2" "identity_file sf2 peer2 d"
    and m: "files (cn_world c) input = Some plaintext" "length plaintext \<le> 2147483000"
    and q: "no_faults (cn_world c)" "cn_out_faults c = (\<lambda>_. None)" "expiry_fits (cn_world c) expires_in"
    and ex: "exchange_usable Q (ephemeral_of (cn_world c)) (di_classical_public_key d2)"
  shows "\<exists>e c1. transfer_create_command P Q kf peer input env expires_in pw c = (Inr (), c1) \<and>
    files (cn_world c1) = (files (cn_world c))(env := Some (envelope_to_bytes e)) \<and>
    (\<forall>clk. (\<forall>n. clk n < of_nat (expiry_of (cn_world c) expires_in)) \<longrightarrow>
      (\<exists>seen. receive_result P Q clk pw2 None (Some (envelope_to_bytes e)) (sf2 kf2) (sf2 peer2) = Inr (e, plaintext, seen)))"
proof -
  let ?t = "expiry_of (cn_world c) expires_in"
  obtain e c1 where e: "transfer_create_command P Q kf peer input env expires_in pw c = (Inr (), c1)"
    "sealed_for P Q (sent_params d kp d2 plaintext ?t) (dk_pqc_private_key kp2) (ephemeral_of (cn_world c)) e"
    "create_params_ok (sent_params d kp d2 plaintext ?t)"
    "files (cn_world c1) = (files (cn_world c))(env := Some (envelope_to_bytes e))"
    using create_run [OF laws(2,3,5,7) s(1) r(1) s(2) m q ex] by blast
  have "receive_result P Q clk pw2 None (Some (envelope_to_bytes e)) (sf2 kf2) (sf2 peer2) =
      Inr (e, plaintext, \<lparr>entries = [(te_envelope_id e, Some (of_nat ?t))]\<rparr>)" if "\<forall>n. clk n < of_nat ?t" for clk
    by (rule receive_created [OF laws(1,4,5,6) s(1) r(2,1) e(2,3) _ ex])
       (use that in \<open>simp_all add: expired_at_def not_le\<close>)
  then show ?thesis using e by blast
qed

subsection \<open>Properties\<close>

text \<open>C3. Two machines from end to end: let \<open>device pair\<close> succeed on machine A and on machine B, each given the identity
  text that the other one shows. Then \<open>transfer create\<close> on A, from the key file and the peer file that pairing left
  there, succeeds on a file of up to 2 GiB, and until it expires, \<open>transfer receive\<close> on B of the envelope that was
  carried over, with the key file and the peer file that pairing left there, writes exactly the content of that file
  to the output.\<close>

theorem paired_devices_transfer:
  assumes "aead_correct P" "aead_total P" "kdf_total P" "sha_sized P" "blake_sized P" "sig_correct Q" "dh_correct Q" "kem_correct Q"
    and "utf8_valid nA" "length nA \<le> u32_max" "10 \<notin> set nA" "last nA \<noteq> 13"
    and "utf8_valid nB" "length nB \<le> u32_max" "10 \<notin> set nB" "last nB \<noteq> 13"
    and "distinct [kA, iA, pA]" "distinct [kB, iB, pB]"
    and "generate Q nA (cn_world cA) = (Inr (dA, xA), wA)" "generate Q nB (cn_world cB) = (Inr (dB, xB), wB)"
    and "fst (read_until_blank_line cA) = Inr (serialize_identity_text dB)"
    and "fst (read_until_blank_line cB) = Inr (serialize_identity_text dA)"
    and "cn_tty cA = Some pwA # tA" "cn_tty cB = Some pwB # tB"
    and "device_command P Q (DevicePair nA kA iA pA) False cA = (Inr (), cA')"
    and "device_command P Q (DevicePair nB kB iB pB) False cB = (Inr (), cB')"
    and "\<And>p. p \<in> {kA, pA} \<Longrightarrow> files (cn_world c) p = files (cn_world cA') p"
    and "files (cn_world c) input = Some plaintext" "length plaintext \<le> 2147483000"
    and "no_faults (cn_world c)" "cn_out_faults c = (\<lambda>_. None)" "expiry_fits (cn_world c) expires_in"
    and "exchange_usable Q (ephemeral_of (cn_world c)) (di_classical_public_key dB)" "cn_tty c = Some pwA # tc"
  shows "\<exists>c1. run_command P Q clk0 (CmdTransfer (TransferCreate kA pA input env expires_in)) False c = (Inr (), c1) \<and>
    (\<forall>clk c2 env2 out. (\<forall>p\<in>{kB, pB}. files (cn_world c2) p = files (cn_world cB') p) \<and>
        files (cn_world c2) env2 = files (cn_world c1) env \<and> files (cn_world c2) (add_seen out) = None \<and>
        no_faults (cn_world c2) \<and> cn_out_faults c2 = (\<lambda>_. None) \<and> cn_tty c2 = Some pwB # t2 \<and>
        (\<forall>n. clk n < of_nat (expiry_of (cn_world c) expires_in)) \<longrightarrow>
      (\<exists>c3. run_command P Q clk (CmdTransfer (TransferReceive env2 kB pB (Some out) None)) False c2 = (Inr (), c3) \<and>
        files (cn_world c3) out = Some plaintext))"
proof -
  note pqc = assms(6-8) and nA = assms(9-12) and nB = assms(13-16)
  have A: "key_file P Q (files (cn_world c)) kA pwA dA xA" "identity_file (files (cn_world c)) pA dB"
    using paired_machine [OF assms(1,3,5) pqc nA assms(17,23,25,19,21,20) nB] assms(27) by auto
  have B: "key_file P Q (files (cn_world cB')) kB pwB dB xB" "identity_file (files (cn_world cB')) pB dA"
    using paired_machine [OF assms(1,3,5) pqc nB assms(18,24,26,20,22,19) nA] by auto
  let ?c = "c\<lparr>cn_tty := tc\<rparr>"
  obtain e c1 where e: "transfer_create_command P Q kA pA input env expires_in pwA ?c = (Inr (), c1)"
    "files (cn_world c1) = (files (cn_world c))(env := Some (envelope_to_bytes e))"
    and x: "\<And>clk. \<forall>n. clk n < of_nat (expiry_of (cn_world c) expires_in) \<Longrightarrow>
      \<exists>seen. receive_result P Q clk pwB None (Some (envelope_to_bytes e)) (files (cn_world cB') kB) (files (cn_world cB') pB) =
        Inr (e, plaintext, seen)"
    using paired_send [OF assms(1-4) pqc, of ?c kA pwA dA xA pA dB "files (cn_world cB')" kB pwB xB pB input plaintext
        expires_in env] A B assms(28-33) by auto
  have "\<exists>c3. run_command P Q clk (CmdTransfer (TransferReceive env2 kB pB (Some out) None)) False c2 = (Inr (), c3) \<and>
        files (cn_world c3) out = Some plaintext"
    if h: "\<forall>p\<in>{kB, pB}. files (cn_world c2) p = files (cn_world cB') p" "files (cn_world c2) env2 = files (cn_world c1) env"
      "files (cn_world c2) (add_seen out) = None" "no_faults (cn_world c2)" "cn_out_faults c2 = (\<lambda>_. None)"
      "cn_tty c2 = Some pwB # t2" "\<forall>n. clk n < of_nat (expiry_of (cn_world c) expires_in)" for clk c2 env2 out
  proof -
    obtain seen where "receive_result P Q clk pwB None (Some (envelope_to_bytes e)) (files (cn_world cB') kB)
        (files (cn_world cB') pB) = Inr (e, plaintext, seen)" using x [OF h(7)] by blast
    moreover have sp: "add_seen out = seen_path env2 (Some out) None" by (simp add: seen_path_def default_seen_ids_path_def)
    ultimately obtain c3 where "transfer_receive_command P Q clk env2 kB pB (Some out) None pwB (c2\<lparr>cn_tty := t2\<rparr>) = (Inr (), c3)"
      "files (cn_world c3) = received_files (add_seen out) (Some out) plaintext seen (files (cn_world c2))"
      using receive_run_ok [of P Q clk pwB "c2\<lparr>cn_tty := t2\<rparr>" "add_seen out" env2 kB pB e plaintext seen "Some out" None]
        h(1-5) e(2) by auto
    then show ?thesis by (simp add: receive_at_terminal [OF h(6)] received_files_def)
  qed
  then show ?thesis using e(1) create_at_terminal [OF assms(34)] by (intro exI [of _ c1]) simp
qed

theorem paired_devices_transfer_witness:
  "\<exists>(cA :: console) cA' c1 (c2 :: console) c3. device_command toy_prims toy_pqc
      (DevicePair [97] (here ''k'') (here ''i'') (here ''p'')) False cA = (Inr (), cA') \<and>
    run_command toy_prims toy_pqc (\<lambda>_. 0) (CmdTransfer (TransferCreate (here ''k'') (here ''p'') (here ''m'') (here ''e'') 3600)) False
      ((console_at (sample_world\<lparr>files := (files (cn_world cA'))(here ''m'' := Some [1, 2, 3])\<rparr>) [])\<lparr>cn_tty := [Some [1]]\<rparr>) =
      (Inr (), c1) \<and> files (cn_world c2) (here ''k'') = files (cn_world cA') (here ''k'') \<and>
    run_command toy_prims toy_pqc (\<lambda>_. 5) (CmdTransfer (TransferReceive (here ''x'') (here ''k'') (here ''p'')
      (Some (here ''o'')) None)) False c2 = (Inr (), c3) \<and> files (cn_world c3) (here ''o'') = Some [1, 2, 3]"
proof -
  obtain cA cA' :: console and d kp w where cA: "cn_tty cA = [Some [1]]" "device_command toy_prims toy_pqc
      (DevicePair [97] (here ''k'') (here ''i'') (here ''p'')) False cA = (Inr (), cA')"
    "fst (read_until_blank_line cA) = Inr (serialize_identity_text d)"
    and g: "generate toy_pqc [97] sample_world = (Inr (d, kp), w)" and cw: "cn_world cA = sample_world"
    using sample_dialogue by (elim exE conjE) (rule that, assumption+)
  have gA: "generate toy_pqc [97] (cn_world cA) = (Inr (d, kp), w)" using g cw by simp
  let ?w = "sample_world\<lparr>files := (files (cn_world cA'))(here ''m'' := Some [1, 2, 3])\<rparr>"
  let ?c = "(console_at ?w [])\<lparr>cn_tty := [Some [1]]\<rparr>"
  have p: "distinct [here ''k'', here ''i'', here ''p'']" by simp
  have n: "10 \<notin> set [97 :: byte]" "last [97 :: byte] \<noteq> 13" by simp_all
  have f: "files (cn_world ?c) q = files (cn_world cA') q" if "q \<in> {here ''k'', here ''p''}" for q using that by auto
  have e: "ephemeral_of (cn_world ?c) = ephemeral_of sample_world" by (simp add: ephemeral_of_def next_random_def)
  have q: "files (cn_world ?c) (here ''m'') = Some [1, 2, 3]" "length [1, 2, 3 :: byte] \<le> 2147483000"
    "no_faults (cn_world ?c)" "cn_out_faults ?c = (\<lambda>_. None)" "expiry_fits (cn_world ?c) 3600"
    "exchange_usable toy_pqc (ephemeral_of (cn_world ?c)) (di_classical_public_key d)" "cn_tty ?c = Some [1] # []"
    using sample_exchange unfolding e sample_classical [OF g]
    by (simp_all add: no_faults_def sample_world_def expiry_fits_def usize_max_def)
  obtain c1 where c1: "run_command toy_prims toy_pqc (\<lambda>_. 0) (CmdTransfer (TransferCreate (here ''k'') (here ''p'') (here ''m'')
      (here ''e'') 3600)) False ?c = (Inr (), c1)"
    and r: "\<And>clk c2 env2 out. (\<forall>p\<in>{here ''k'', here ''p''}. files (cn_world c2) p = files (cn_world cA') p) \<and>
        files (cn_world c2) env2 = files (cn_world c1) (here ''e'') \<and> files (cn_world c2) (add_seen out) = None \<and>
        no_faults (cn_world c2) \<and> cn_out_faults c2 = (\<lambda>_. None) \<and> cn_tty c2 = Some [1] # [] \<and>
        (\<forall>n. clk n < of_nat (expiry_of (cn_world ?c) 3600)) \<Longrightarrow>
      \<exists>c3. run_command toy_prims toy_pqc clk (CmdTransfer (TransferReceive env2 (here ''k'') (here ''p'') (Some out) None))
          False c2 = (Inr (), c3) \<and> files (cn_world c3) out = Some [1, 2, 3]"
    using paired_devices_transfer [OF toy_prims_aead(1,3) toy_prims_kdf toy_sha toy_blake toy_pqc_correct
        sample_utf8 n sample_utf8 n p p gA gA cA(3,3,1,1,2,2) f q] by blast
  let ?w2 = "sample_world\<lparr>files := (\<lambda>_. None)(here ''k'' := files (cn_world cA') (here ''k''),
    here ''p'' := files (cn_world cA') (here ''p''), here ''x'' := files (cn_world c1) (here ''e''))\<rparr>"
  let ?c2 = "(console_at ?w2 [])\<lparr>cn_tty := [Some [1]]\<rparr>"
  have "expiry_of (cn_world ?c) 3600 = 1700003600000" by (simp add: expiry_of_def sample_world_def)
  then have "\<exists>c3. run_command toy_prims toy_pqc (\<lambda>_. 5) (CmdTransfer (TransferReceive (here ''x'') (here ''k'') (here ''p'') (Some (here ''o'')) None))
          False ?c2 = (Inr (), c3) \<and> files (cn_world c3) (here ''o'') = Some [1, 2, 3]"
    by (intro r) (simp add: add_seen_def no_faults_def sample_world_def)
  moreover have "files (cn_world ?c2) (here ''k'') = files (cn_world cA') (here ''k'')" by simp
  ultimately show ?thesis using cA(2) c1 by blast
qed

end
