(* ===== verification/No_Panic.thy ===== *)
theory No_Panic
  imports Paired_Transfer
begin

text \<open>
  No run of the program panics: no index is out of range and no addition overflows, on any input, in any
  state of the disk and under any failures. The only bound is the one of the operating system on the
  length of a file.
\<close>

subsection \<open>Worlds whose files fit\<close>

text \<open>A file offset is a signed 64-bit integer, and so is the length of what a file is read into.\<close>

definition file_sized :: "fs_state \<Rightarrow> bool" where
  "file_sized s \<longleftrightarrow> (\<forall>p bs. s p = Some bs \<longrightarrow> length bs \<le> isize_max)"

definition sized_run :: "world \<Rightarrow> world \<Rightarrow> bool" where
  "sized_run w w' \<longleftrightarrow> file_sized (files w) \<and> (\<forall>s \<in> set (history w'). file_sized s)"

text \<open>Every state of the disk that an action passes through is one of the history it leaves; random bytes are only consumed.\<close>

definition recorded_from :: "world \<Rightarrow> world \<Rightarrow> bool" where
  "recorded_from w w' \<longleftrightarrow> set (history w) \<subseteq> set (history w') \<and> files w' \<in> insert (files w) (set (history w')) \<and> drawn w \<le> drawn w'"

definition traced :: "('e, 'a) act \<Rightarrow> bool" where
  "traced m \<longleftrightarrow> (\<forall>w. recorded_from w (snd (m w)))"

text \<open>Unless a file does not fit, the action does not panic, and a result satisfies \<open>R\<close>.\<close>

definition calm :: "('a \<Rightarrow> bool) \<Rightarrow> ('e, 'a) act \<Rightarrow> bool" where
  "calm R m \<longleftrightarrow> traced m \<and> (\<forall>w. sized_run w (snd (m w)) \<longrightarrow> no_panic (fst (m w)) \<and> (\<forall>x. fst (m w) = Inr x \<longrightarrow> R x))"

abbreviation quiet_act :: "('e, 'a) act \<Rightarrow> bool" where
  "quiet_act m \<equiv> calm (\<lambda>_. True) m"

lemma recorded_refl: "recorded_from w w"
  by (simp add: recorded_from_def)

lemma recorded_trans: "recorded_from u v \<Longrightarrow> recorded_from v w \<Longrightarrow> recorded_from u w"
  by (auto simp: recorded_from_def)

lemma recorded_step: "recorded_from w (snapshot (w\<lparr>files := s\<rparr>))" "recorded_from w (snapshot w)"
  by (auto simp: recorded_from_def snapshot_def)

lemma sized_run_trans:
  "recorded_from u v \<Longrightarrow> recorded_from v w \<Longrightarrow> sized_run u w \<Longrightarrow> sized_run u v \<and> sized_run v w"
  by (auto simp: recorded_from_def sized_run_def)

lemma traced_bind: "traced m \<Longrightarrow> (\<And>x. traced (f x)) \<Longrightarrow> traced (bind_act m f)"
  unfolding traced_def bind_act_def by (auto split: prod.splits sum.splits) (metis recorded_trans snd_conv)+

lemma traced_catch: "traced m \<Longrightarrow> (\<And>r. traced (h r)) \<Longrightarrow> traced (catch_act m h)"
  unfolding traced_def catch_act_def by (auto split: prod.splits) (metis recorded_trans snd_conv)

lemma traced_map_err: "traced m \<Longrightarrow> traced (map_err_act m e)"
  by (simp add: traced_def map_err_act_def split: prod.splits) (metis snd_conv)

lemma calm_traced: "calm R m \<Longrightarrow> traced m"
  by (simp add: calm_def)

lemma calmD: "calm R m \<Longrightarrow> m w = (r, w') \<Longrightarrow> sized_run w w' \<Longrightarrow> no_panic r \<and> (\<forall>x. r = Inr x \<longrightarrow> R x)"
  unfolding calm_def by (metis fst_conv snd_conv)

lemma calm_lift: "no_panic r \<Longrightarrow> (\<And>x. r = Inr x \<Longrightarrow> R x) \<Longrightarrow> calm R (lift_rs r)"
  by (simp add: calm_def traced_def recorded_refl)

lemma calm_lift_traced [simp]: "traced (lift_rs r)"
  by (simp add: traced_def recorded_refl)

lemma quiet_lift [simp]: "quiet_act (lift_rs r) \<longleftrightarrow> no_panic r"
proof
  assume "quiet_act (lift_rs r)"
  moreover have "sized_run sample_world sample_world" by (simp add: sized_run_def file_sized_def sample_world_def)
  ultimately show "no_panic r" using calmD [of "\<lambda>_. True" "lift_rs r" sample_world r sample_world] by simp
qed (simp add: calm_lift)

lemma quiet_Pair [simp]: "quiet_act (Pair r) \<longleftrightarrow> no_panic r" "traced (Pair r)"
  using quiet_lift [of r] calm_lift_traced [of r] by (simp_all add: lift_rs_def)

lemma calm_post:
  assumes m: "calm Q m" and f: "\<And>x. traced (f x)" "\<And>x. Q x \<Longrightarrow> calm R (f x)"
  shows "calm R (bind_act m f)"
  unfolding calm_def
proof (intro conjI allI impI)
  show t: "traced (bind_act m f)" using m f(1) by (simp add: calm_traced traced_bind)
  fix w assume s: "sized_run w (snd (bind_act m f w))"
  obtain r w1 where r: "m w = (r, w1)" by fastforce
  have w1: "recorded_from w w1" using calm_traced [OF m] r unfolding traced_def by (metis snd_conv)
  have "no_panic (fst (bind_act m f w)) \<and> (\<forall>x. fst (bind_act m f w) = Inr x \<longrightarrow> R x)"
  proof (cases r)
    case (Inl e)
    then show ?thesis using calmD [OF m r] s r by (simp add: bind_act_def no_panic_def)
  next
    case (Inr x)
    have "recorded_from w1 (snd (f x w1))" using f(1) by (simp add: traced_def)
    moreover have "sized_run w (snd (f x w1))" using s r Inr by (simp add: bind_act_def)
    ultimately have "sized_run w w1" "sized_run w1 (snd (f x w1))" using sized_run_trans [OF w1] by blast+
    then have "Q x" "calm R (f x)" using calmD [OF m r] Inr f(2) by auto
    then show ?thesis using \<open>sized_run w1 (snd (f x w1))\<close> r Inr by (simp add: bind_act_def calm_def)
  qed
  then show "no_panic (fst (bind_act m f w))" "\<And>x. fst (bind_act m f w) = Inr x \<Longrightarrow> R x" by auto
qed

lemma calm_bind: "quiet_act m \<Longrightarrow> (\<And>x. calm R (f x)) \<Longrightarrow> calm R (bind_act m f)"
  by (rule calm_post) (auto intro: calm_traced)

lemma calm_lift_bind:
  assumes "no_panic r" "\<And>x. traced (f x)" "\<And>x. r = Inr x \<Longrightarrow> calm R (f x)"
  shows "calm R (bind_act (lift_rs r) f)"
  by (rule calm_post [OF calm_lift [where R = "\<lambda>x. r = Inr x"]]) (use assms in auto)

lemma calm_map_err: "calm R m \<Longrightarrow> calm R (map_err_act m e)"
proof -
  have "map_err_act m e w = (map_err (fst (m w)) e, snd (m w))" for w by (simp add: map_err_act_def split: prod.split)
  then show "calm R m \<Longrightarrow> calm R (map_err_act m e)" by (simp add: calm_def traced_map_err)
qed

lemma calm_catch:
  assumes m: "quiet_act m" and h: "\<And>r. traced (h r)" "\<And>r. no_panic r \<Longrightarrow> calm R (h r)"
  shows "calm R (catch_act m h)"
  unfolding calm_def
proof (intro conjI allI impI)
  show "traced (catch_act m h)" using m h(1) by (simp add: calm_traced traced_catch)
  fix w assume s: "sized_run w (snd (catch_act m h w))"
  obtain r w1 where r: "m w = (r, w1)" by fastforce
  have w1: "recorded_from w w1" using calm_traced [OF m] r unfolding traced_def by (metis snd_conv)
  moreover have "recorded_from w1 (snd (h r w1))" using h(1) by (simp add: traced_def)
  moreover have "sized_run w (snd (h r w1))" using s r by (simp add: catch_act_def)
  ultimately have "sized_run w w1" "sized_run w1 (snd (h r w1))" using sized_run_trans by blast+
  then have "calm R (h r)" "sized_run w1 (snd (h r w1))" using calmD [OF m r] h(2) by auto
  then have "no_panic (fst (h r w1)) \<and> (\<forall>x. fst (h r w1) = Inr x \<longrightarrow> R x)" by (simp add: calm_def)
  then show "no_panic (fst (catch_act m h w))" "\<And>x. fst (catch_act m h w) = Inr x \<Longrightarrow> R x"
    using r by (auto simp: catch_act_def)
qed

subsection \<open>The system calls\<close>

lemma calm_step:
  assumes "\<And>w. \<exists>s. snd (m w) = snapshot (w\<lparr>files := s\<rparr>)"
    and "\<And>w. file_sized (files w) \<Longrightarrow> no_panic (fst (m w)) \<and> (\<forall>x. fst (m w) = Inr x \<longrightarrow> R x)"
  shows "calm R m"
  unfolding calm_def traced_def
proof (intro conjI allI)
  show "recorded_from w (snd (m w))" for w
    using assms(1) [of w] recorded_step(1) by metis
  show "sized_run w (snd (m w)) \<longrightarrow> no_panic (fst (m w)) \<and> (\<forall>x. fst (m w) = Inr x \<longrightarrow> R x)" for w
    using assms(2) [of w] by (auto simp: sized_run_def)
qed

lemma same_snapshot: "\<exists>s. snapshot w = snapshot (w\<lparr>files := s\<rparr>)"
  by (rule exI [of _ "files w"]) simp

lemma calm_calls [simp]:
  "quiet_act (fs_create_new p)" "quiet_act (fs_write_all p bs)" "quiet_act (fs_rename p q)" "quiet_act (fs_remove_file p)"
  "quiet_act plain_call" "quiet_act (fs_create p)" "quiet_act (fs_metadata p)"
  by (rule calm_step; auto simp: fs_create_new_def fs_write_all_def fs_rename_def fs_remove_file_def plain_call_def
      fs_create_def fs_metadata_def Let_def same_snapshot split: option.splits)+

lemma calm_read: "calm (\<lambda>bs. length bs \<le> isize_max) (fs_read p)"
  by (rule calm_step; auto simp: fs_read_def file_sized_def same_snapshot split: option.splits)

lemma quiet_read [simp]: "quiet_act (fs_read p)"
  using calm_read [of p] by (simp add: calm_def)

lemma quiet_more_calls [simp]:
  "quiet_act (fs_sync_all p)" "quiet_act (fs_sync_dir d)" "quiet_act (fsync_parent p)" "quiet_act (fs_write p bs)"
  "quiet_act (fs_set_permissions p)" "quiet_act (restrict_owner_only p)" "quiet_act (fs_read_to_string p)"
  by (simp_all add: fs_sync_all_def fs_sync_dir_def fsync_parent_def fs_write_def fs_set_permissions_def
      restrict_owner_only_def fs_read_to_string_def calm_bind)

lemma quiet_draws [simp]: "quiet_act (draw n)" "quiet_act random_key" "quiet_act random_nonce_xchacha20"
  by (simp_all add: calm_def traced_def recorded_from_def random_key_def random_nonce_xchacha20_def)

lemma quiet_random [simp]: "n \<le> 4096 \<Longrightarrow> quiet_act (random_bytes n)"
  by (simp add: random_bytes_def)

lemma quiet_ignore: "quiet_act m \<Longrightarrow> quiet_act (ignore_act m)"
  by (simp add: calm_def traced_def ignore_act_def)

lemma quiet_encrypt [simp]: "quiet_act (encrypt P k m a)"
  unfolding encrypt_def generate_nonce_def encrypt_with_generated_nonce_def by (intro calm_bind) simp_all

subsection \<open>Codecs\<close>

lemma no_panic_and_then_simp [simp]: "no_panic r \<Longrightarrow> (\<And>x. no_panic (f x)) \<Longrightarrow> no_panic (and_then r f)"
  by (rule no_panic_and_then)

lemma no_panic_item_codec [simp]:
  "no_panic (u32_len n e)" "no_panic (item_kind_from_u16 k)" "no_panic (serialize_tags out ts)"
  "no_panic (serialize_item_payload it)" "no_panic (take_u32 bs c)" "no_panic (take_bytes bs c n)"
  "no_panic (take_tags bs n c acc)" "no_panic (deserialize_item_payload bs)"
proof -
  show u: "no_panic (u32_len n e)" for n e by (simp add: u32_len_def)
  show k: "no_panic (item_kind_from_u16 k)" for k by (simp add: item_kind_from_u16_def)
  show s: "no_panic (serialize_tags out ts)" for out ts by (induction ts arbitrary: out) (simp_all add: u)
  show "no_panic (serialize_item_payload it)" by (simp add: serialize_item_payload_def u s)
  show t: "no_panic (take_u32 bs c)" for c unfolding take_u32_def by (intro no_panic_intros; simp)
  show b: "no_panic (take_bytes bs c n)" for c n unfolding take_bytes_def by (intro no_panic_intros; simp)
  show g: "no_panic (take_tags bs n c acc)" for n c acc
    by (induction n arbitrary: c acc) (auto intro!: no_panic_intros simp: t b)
  show "no_panic (deserialize_item_payload bs)"
    unfolding deserialize_item_payload_def by (intro no_panic_intros; simp add: t b g k)
qed

lemma no_panic_writers [simp]:
  "no_panic (serialize_record_frame f aad)" "no_panic (serialize_item_record_frame_envelope ie)"
  "no_panic (serialize_prefix v a b c)" "no_panic (sealed_record_table_padded_plaintext_len n)"
  "no_panic (build_table_aad_v2 vid sp)" "no_panic (serialize_kdf_profile_params kp)"
  unfolding serialize_record_frame_def serialize_item_record_frame_envelope_def serialize_prefix_def
    sealed_record_table_padded_plaintext_len_def build_table_aad_v2_def serialize_kdf_profile_params_def
    write_kdf_param_tlv_def
  by (intro no_panic_intros; simp)+

lemma no_panic_load [simp]:
  "no_panic (read_prefix_u32 bs off)" "length bs \<le> isize_max \<Longrightarrow> no_panic (load_bytes P keys bs)"
proof -
  show r: "no_panic (read_prefix_u32 bs off)" for off unfolding read_prefix_u32_def by (intro no_panic_intros; simp)
  show "no_panic (load_bytes P keys bs)" if "length bs \<le> isize_max"
    unfolding load_bytes_def using that by (intro no_panic_intros; simp add: r no_panic_parse_header)
qed

lemma load_bytes_bytes: "load_bytes P keys bs = Inr ld \<Longrightarrow> ld_bytes ld = bs"
  by (auto simp: load_bytes_def)

lemma no_panic_frames [simp]:
  "no_panic (existing_frame_bytes ld e)" "no_panic (layout_records rs off es fc)" "no_panic (stage_loop ld pos es i rep recs)"
  "no_panic (stage_records ld pos rep)"
proof -
  show e: "no_panic (existing_frame_bytes ld e)" for e unfolding existing_frame_bytes_def by (intro no_panic_intros; simp)
  show "no_panic (layout_records rs off es fc)"
    by (induction rs arbitrary: off es fc) (auto intro!: no_panic_intros simp: Let_def)
  show s: "no_panic (stage_loop ld pos es i rep recs)" for es i rep recs
    by (induction es arbitrary: i rep recs) (auto intro!: no_panic_intros simp: e)
  show "no_panic (stage_records ld pos rep)"
    unfolding stage_records_def by (auto intro!: no_panic_intros simp: s)
qed

lemma no_panic_read_item:
  assumes "length (ld_bytes ld) \<le> isize_max"
  shows "no_panic (read_item P s ld e)"
proof -
  have "no_panic (parse_record_frame f n a)" if "get_from (ld_bytes ld) k = Some f" for f n a k
    using that assms by (intro no_panic_parse_record_frame) (auto simp: get_from_Some)
  then show ?thesis
    unfolding read_item_def Let_def by (intro no_panic_intros; simp)
qed

lemma no_panic_list_loop: "length (ld_bytes ld) \<le> isize_max \<Longrightarrow> no_panic (list_loop P s ld es acc)"
  by (induction es arbitrary: acc) (auto intro!: no_panic_intros no_panic_read_item)

subsection \<open>Vault operations\<close>

lemma calm_load: "calm (\<lambda>ld. length (ld_bytes ld) \<le> isize_max) (load_vault P s)"
  unfolding load_vault_def
  by (rule calm_post [OF calm_read], simp) (rule calm_lift; auto dest: load_bytes_bytes)

lemma quiet_load [simp]: "quiet_act (load_vault P s)"
  using calm_load [of P s] by (simp add: calm_def)

lemma quiet_table [simp]: "quiet_act (serialize_sealed_record_table_v2 P es k v s)"
proof -
  have "no_panic (table_plaintext acc es)" for acc es by (induction es arbitrary: acc) simp_all
  then show ?thesis
    unfolding serialize_sealed_record_table_v2_def
    by (auto intro!: calm_bind calm_map_err no_panic_intros split: prod.splits)
qed

lemma quiet_write_and_rename [simp]: "quiet_act (write_and_rename tmp p bs)"
  unfolding write_and_rename_def by (intro calm_bind) simp_all

lemma quiet_clean: "traced (bind_act (ignore_act (fs_remove_file p)) (\<lambda>_. bind_act (ignore_act (fs_remove_file q)) (\<lambda>_. lift_rs r)))"
  "no_panic r \<Longrightarrow> quiet_act (bind_act (ignore_act (fs_remove_file p)) (\<lambda>_. bind_act (ignore_act (fs_remove_file q)) (\<lambda>_. lift_rs r)))"
  "traced (bind_act (ignore_act (fs_remove_file p)) (\<lambda>_. lift_rs r))"
  "no_panic r \<Longrightarrow> quiet_act (bind_act (ignore_act (fs_remove_file p)) (\<lambda>_. lift_rs r))"
  by (auto intro!: traced_bind calm_bind quiet_ignore calm_traced [OF quiet_ignore])

lemma quiet_persist_mutation [simp]: "quiet_act (persist_vault_mutation_v2 p bs seed)"
  unfolding persist_vault_mutation_v2_def Let_def
  by (rule calm_catch) (auto simp: quiet_clean split: sum.splits fault.splits)

lemma quiet_fresh_id [simp]: "quiet_act fresh_id"
  by (simp add: fresh_id_def)

lemma quiet_rewrite [simp]: "quiet_act (rewrite_vault P s ld recs)"
  unfolding rewrite_vault_def Let_def by (auto intro!: calm_bind)

lemma quiet_item_frame [simp]: "quiet_act (build_record_frame rid rid2 ct aad)" "quiet_act (build_item_frame P it k h rid rid2)"
proof -
  show f: "quiet_act (build_record_frame rid rid2 ct aad)" for ct aad
    unfolding build_record_frame_def by (auto intro!: calm_bind)
  show "quiet_act (build_item_frame P it k h rid rid2)"
    unfolding build_item_frame_def Let_def by (auto intro!: calm_bind calm_map_err f)
qed

lemma quiet_add [simp]: "quiet_act (add P s it)"
  unfolding add_def by (auto intro!: calm_bind)

lemma quiet_delete [simp]: "quiet_act (delete P s i)"
  unfolding delete_def Let_def by (auto intro!: calm_bind split: option.splits)

lemma quiet_list [simp]: "quiet_act (list_items P s)"
  unfolding list_items_def by (rule calm_post [OF calm_load]) (simp_all add: no_panic_list_loop)

lemma quiet_with_item: "(\<And>x. no_panic (f x)) \<Longrightarrow> quiet_act (with_item P s i f)"
  unfolding with_item_def by (rule calm_post [OF calm_load]) (auto intro!: no_panic_intros simp: no_panic_read_item)

lemma quiet_unlock [simp]: "quiet_act (unlock_session P v pw)"
proof -
  have "quiet_act (bind_act (fs_read v) (\<lambda>bs. lift_rs (unlock_bytes P v pw bs)))"
    by (rule calm_post [OF calm_read]) (simp_all add: no_panic_unlock_bytes)
  then show ?thesis
    by (simp add: unlock_session_def unlock_def unlock_impl_def vault_open_def)
qed

lemma no_panic_keys [simp]:
  "no_panic (derive_master_unlock_key_with_header_params P pw v kp)" "no_panic (derive_subkeys P k v a)"
  by (simp_all add: derive_master_unlock_key_with_header_params_def derive_subkeys_def)

lemma no_panic_header_writers [simp]: "no_panic (serialize_header h)" "no_panic (serialize_vault_file a b c)"
  unfolding serialize_header_def serialize_vault_file_def Let_def write_header_tlv_def
  by (intro no_panic_intros; simp)+

lemma quiet_pure:
  assumes "\<And>w. snd (m w) = w" "\<And>w. no_panic (fst (m w))"
  shows "quiet_act m"
  using assms by (simp add: calm_def traced_def recorded_refl)

lemma quiet_clocks [simp]:
  "quiet_act unix_time_millis" "quiet_act cli_unix_now_millis" "quiet_act dev_unix_time_millis" "quiet_act envelope_now"
  by (rule quiet_pure; simp add: unix_time_millis_def cli_unix_now_millis_def dev_unix_time_millis_def envelope_now_def Let_def)+

lemma quiet_create_keys [simp]: "quiet_act (create_session_keys P pw v hn a kp aad)"
  unfolding create_session_keys_def by (auto intro!: calm_bind calm_map_err)

lemma quiet_image [simp]: "quiet_act (new_vault_image P v hn kp rid rid2 ct n aad mk)"
  unfolding new_vault_image_def Let_def by (auto intro!: calm_bind)

lemma quiet_persist [simp]: "quiet_act (persist_vault P p v hn kp rid rid2 ct n aad mk)"
proof -
  have i: "quiet_act (persist_vault_inner P p tmp v hn kp rid rid2 ct n aad mk)" for tmp
    by (simp add: persist_vault_inner_def calm_bind)
  have h: "quiet_act (catch_act (persist_vault_inner P p tmp v hn kp rid rid2 ct n aad mk) (\<lambda>result. case result of
      Inl (Err e) \<Rightarrow> bind_act (ignore_act (fs_remove_file tmp)) (\<lambda>_. bind_act (ignore_act (fs_remove_file p)) (\<lambda>_. lift_rs result))
    | _ \<Rightarrow> lift_rs result))" for tmp
    by (rule calm_catch [OF i]) (auto simp: quiet_clean split: sum.splits fault.splits)
  show ?thesis
    unfolding persist_vault_def Let_def
    by (rule calm_catch) (auto simp: quiet_clean h calm_traced [OF h] split: sum.splits fault.splits)
qed

lemma quiet_create [simp]: "quiet_act (create P params)"
  unfolding create_def Let_def by (auto intro!: calm_bind)

subsection \<open>Export and import\<close>

lemma no_panic_export [simp]:
  "no_panic (write_len_bytes out bs e)" "no_panic (write_item out it)" "no_panic (deserialize_item_set bs)"
  "no_panic (serialize_bundle v k n c)" "no_panic (parse_bundle bs)"
proof -
  show l: "no_panic (write_len_bytes out bs e)" for out bs e by (simp add: write_len_bytes_def)
  have t: "no_panic (write_tags out ts)" for out ts by (induction ts arbitrary: out) (simp_all add: l)
  show "no_panic (write_item out it)" by (simp add: write_item_def l t)
  have g: "no_panic (read_tags bs n c acc)" for n c acc
    by (induction n arbitrary: c acc) (auto intro!: no_panic_intros)
  have i: "no_panic (read_export_item bs c)" for c
    unfolding read_export_item_def by (intro no_panic_intros; simp add: g)
  have "no_panic (read_export_items bs n c acc)" for n c acc
    by (induction n arbitrary: c acc) (auto intro!: no_panic_intros simp: i)
  then show "no_panic (deserialize_item_set bs)"
    unfolding deserialize_item_set_def by (intro no_panic_intros; simp)
  show "no_panic (serialize_bundle v k n c)" unfolding serialize_bundle_def by (intro no_panic_intros; simp)
  show "no_panic (parse_bundle bs)" unfolding parse_bundle_def by (intro no_panic_intros; simp)
qed

lemma no_panic_argon [simp]: "no_panic (derive_export_key P pw v kp)" "no_panic (derive_dkek P pw salt)"
  by (auto simp: derive_export_key_def derive_export_bundle_key_def derive_dkek_def derive_device_keypair_key_def Let_def
      hkdf_expand_def split: option.splits intro!: no_panic_intros)

lemma no_panic_authenticate:
  assumes "length bs \<le> isize_max"
  shows "no_panic (authenticate P bs pw)"
proof -
  have "no_panic (parse_kdf_profile_params (pb_kdf_params b))" if "parse_bundle bs = Inr b" for b
  proof -
    have "length (pb_kdf_params b) \<le> length bs"
      using that by (auto simp: parse_bundle_def get_range_holds_at holds_at_def split: if_splits)
    then show ?thesis using assms by simp
  qed
  then show ?thesis unfolding authenticate_def Let_def by (intro no_panic_intros; simp)
qed

lemma quiet_export [simp]: "quiet_act (export_bundle P s pw)"
proof -
  have "quiet_act (write_summaries P s out xs)" for out xs
    by (induction xs arbitrary: out) (auto intro!: calm_bind quiet_with_item)
  then have "quiet_act (serialize_live_item_set P s)"
    unfolding serialize_live_item_set_def by (auto intro!: calm_bind)
  then show ?thesis unfolding export_bundle_def Let_def by (auto intro!: calm_bind calm_map_err)
qed

lemma quiet_rollback [simp]: "quiet_act (rollback P s ids)"
proof (induction ids)
  case (Cons i ids)
  then show ?case
    by (auto intro!: calm_catch simp: calm_traced [OF Cons.IH] split: sum.splits fault.splits)
qed simp

lemma quiet_import_items [simp]: "quiet_act (import_items P s items ids)"
proof (induction items arbitrary: ids)
  case (Cons it items)
  have r: "quiet_act (bind_act (rollback P s ids) (\<lambda>rollback_ok.
      if rollback_ok then fail (InvalidState ''import add failed; rollback succeeded'') else fail PartialImport))" for ids
    by (intro calm_bind) simp_all
  show ?case
    using r by (auto intro!: calm_catch simp: Cons.IH calm_traced [OF Cons.IH] calm_traced [OF r] split: sum.splits fault.splits)
qed simp

lemma quiet_import: "length bs \<le> isize_max \<Longrightarrow> quiet_act (import_bundle P s bs pw)"
  unfolding import_bundle_def by (intro calm_bind) (simp_all add: no_panic_authenticate)

lemma traced_import [simp]: "traced (import_bundle P s bs pw)"
  unfolding import_bundle_def by (intro traced_bind) (simp_all add: calm_traced [OF quiet_import_items])

subsection \<open>Devices and envelopes\<close>

lemma no_panic_alg [simp]: "no_panic (alg_from_u16 n)" "no_panic (alg_from_le_bytes bs)"
  "no_panic (try_new_signing_public_key a bs)" "no_panic (device_trust_state_from_u8 b)" "no_panic (identity_validate d)"
  by (auto simp: alg_from_u16_def alg_from_le_bytes_def try_new_signing_public_key_def try_new_ed25519_signing_public_key_def
      device_trust_state_from_u8_def identity_validate_def split: SigningAlgorithmId.splits option.splits intro!: no_panic_intros)

lemma no_panic_keyfile [simp]:
  "no_panic (open_keyfile P Q bs k)" "no_panic (serialize_identity_bytes d)" "no_panic (sealed_device_key_file_aad a b)"
  "no_panic (serialize_sealed_device_key_file a b c e)"
proof -
  show a: "no_panic (sealed_device_key_file_aad a b)" for a b by (simp add: sealed_device_key_file_aad_def)
  show "no_panic (serialize_sealed_device_key_file a b c e)" by (simp add: serialize_sealed_device_key_file_def)
  show "no_panic (serialize_identity_bytes d)"
    unfolding serialize_identity_bytes_def by (intro no_panic_intros; simp)
  have p: "no_panic (parse_sealed_device_key_file bs)"
    unfolding parse_sealed_device_key_file_def by (intro no_panic_intros; simp)
  have i: "no_panic (deserialize_identity_bytes ib)" for ib
    unfolding deserialize_identity_bytes_def by (intro no_panic_intros; simp add: Let_def)
  have k: "no_panic (deserialize_keypair_bytes Q pt)" for pt
    unfolding deserialize_keypair_bytes_def Let_def by (intro no_panic_intros; simp)
  have r: "no_panic (rebuild_identity_from_keypair Q d kp)" for d kp
    unfolding rebuild_identity_from_keypair_def validate_signing_key_matches_public_def Let_def by (intro no_panic_intros; simp)
  show "no_panic (open_keyfile P Q bs k)"
    unfolding open_keyfile_def by (intro no_panic_intros; simp add: a p i k r)
qed

lemma no_panic_identity_text [simp]: "no_panic (deserialize_identity_text bs)"
proof -
  have c: "no_panic (hex_chunks bs)" for bs by (induction bs rule: induct_list012) simp_all
  have h: "no_panic (hex_decode bs)" "no_panic (hex_array n bs)" for n bs by (simp_all add: hex_array_def hex_decode_def c)
  have l: "no_panic (identity_line f l)" for f l unfolding identity_line_def by (intro no_panic_intros; simp add: h)
  have "no_panic (identity_lines f ls)" for f ls by (induction ls arbitrary: f) (simp_all add: l)
  moreover have "no_panic (identity_of_fields f)" for f
    unfolding identity_of_fields_def Let_def by (intro no_panic_intros; simp)
  ultimately show ?thesis unfolding deserialize_identity_text_def by (auto split: list.splits)
qed

lemma no_panic_pairing [simp]:
  "no_panic (compute_pairing_transcript P p)" "no_panic (derive_short_authentication_string P n t)"
  "no_panic (from_verified d)"
  by (auto simp: compute_pairing_transcript_def validate_pairing_payload_def derive_short_authentication_string_def Let_def
      from_verified_def intro!: no_panic_intros split: option.splits)

lemma no_panic_envelope [simp]:
  "no_panic (envelope_from_bytes P t bs)" "no_panic (fst (open_envelope P Q a b c e ps seen))"
  "no_panic (encode_signed_payload sg m)" "no_panic (derive_transfer_key P Q a1 a2 a3 a4 a5 a6)"
proof -
  have r: "no_panic (take_recipient bs c)" "no_panic (take_expiry bs c)" for bs c
    unfolding take_recipient_def take_expiry_def by (intro no_panic_intros; simp)+
  have p: "no_panic (profile_from_u16 n)" for n by (simp add: profile_from_u16_def)
  have "no_panic (parse_envelope_bytes bs)"
    unfolding parse_envelope_bytes_def Let_def by (intro no_panic_intros; simp add: r p)
  moreover have v: "no_panic (validate_envelope P t e a)" for t e a by (simp add: validate_envelope_def)
  ultimately show "no_panic (envelope_from_bytes P t bs)"
    unfolding envelope_from_bytes_def validate_for_open_def by (intro no_panic_intros; simp)
  show "no_panic (fst (open_envelope P Q a b c e ps seen))"
    using no_panic_open_before_insert [of P Q a e ps]
    by (auto simp: open_envelope_def check_and_insert_def Let_def no_panic_def split: sum.splits prod.splits if_splits)
  show "no_panic (encode_signed_payload sg m)" by (simp add: encode_signed_payload_def)
  show "no_panic (derive_transfer_key P Q a1 a2 a3 a4 a5 a6)"
    unfolding derive_transfer_key_def derive_transfer_key_from_shared_parts_def x25519_shared_secret_def Let_def
    by (intro no_panic_intros; simp)
qed

lemma quiet_keypairs [simp]:
  "quiet_act (x25519_keypair Q)" "quiet_act (ed25519_keypair Q)" "quiet_act (mlkem_keypair Q)" "quiet_act (encapsulate Q pk)"
proof -
  have k: "no_panic (key_from_slice n bs)" for n bs by (simp add: key_from_slice_def)
  show "quiet_act (x25519_keypair Q)" unfolding x25519_keypair_def by (auto intro!: calm_bind)
  show "quiet_act (ed25519_keypair Q)" unfolding ed25519_keypair_def by (auto intro!: calm_bind)
  show "quiet_act (mlkem_keypair Q)" unfolding mlkem_keypair_def by (auto intro!: calm_bind simp: k split: prod.splits)
  show "quiet_act (encapsulate Q pk)" unfolding encapsulate_def array_ref_from_slice_def
    by (auto intro!: calm_bind simp: k split: prod.splits)
qed

lemma quiet_devices [simp]:
  "quiet_act (generate Q name)" "quiet_act (seal_keyfile P d kp k)" "quiet_act (save_sealed_keypair P p d kp pw)"
  "quiet_act (load_sealed_keypair P Q p pw)" "quiet_act (load_trusted_sender p)"
  "quiet_act (build_pairing_payload P d n)" "quiet_act (synthetic_pairing_payload P d nc)"
proof -
  show "quiet_act (generate Q name)" unfolding generate_def by (auto intro!: calm_bind calm_map_err)
  show k: "quiet_act (seal_keyfile P d kp k)" for k
    unfolding seal_keyfile_def Let_def by (auto intro!: calm_bind calm_map_err)
  show "quiet_act (save_sealed_keypair P p d kp pw)"
    unfolding save_sealed_keypair_def by (auto intro!: calm_bind calm_map_err k)
  have o: "no_panic (open_keypair_bytes P Q pw bs)" for bs
    unfolding open_keypair_bytes_def by (intro no_panic_intros; simp)
  show "quiet_act (load_sealed_keypair P Q p pw)" unfolding load_sealed_keypair_def by (auto intro!: calm_bind simp: o)
  show "quiet_act (load_trusted_sender p)" unfolding load_trusted_sender_def by (auto intro!: calm_bind)
  have c: "quiet_act random_nonce_candidate" unfolding random_nonce_candidate_def by (auto intro!: calm_bind)
  show b: "quiet_act (build_pairing_payload P d n)" for n
    unfolding build_pairing_payload_def generate_pairing_nonce_def by (auto intro!: calm_bind c)
  show "quiet_act (synthetic_pairing_payload P d nc)"
    unfolding synthetic_pairing_payload_def by (auto intro!: calm_bind calm_map_err b)
qed

lemma quiet_create_envelope [simp]: "quiet_act (create_envelope P Q ps)"
  unfolding create_envelope_def Let_def by (auto intro!: calm_bind calm_map_err split: option.splits)

lemma quiet_seen [simp]: "quiet_act (load_seen_ids p)"
  unfolding load_seen_ids_def
  by (rule calm_catch) (auto split: sum.splits, simp add: no_panic_def)

subsection \<open>Commands\<close>

definition calm_cli :: "'a cli \<Rightarrow> bool" where
  "calm_cli m \<longleftrightarrow> (\<forall>c. recorded_from (cn_world c) (cn_world (snd (m c)))) \<and>
     (\<forall>c. sized_run (cn_world c) (cn_world (snd (m c))) \<longrightarrow> no_panic (fst (m c)))"

lemma calm_cli_bind:
  assumes m: "calm_cli m" and f: "\<And>x. calm_cli (f x)"
  shows "calm_cli (bind_cli m f)"
  unfolding calm_cli_def
proof (intro conjI allI impI)
  fix c
  obtain r c1 where r: "m c = (r, c1)" by fastforce
  have c1: "recorded_from (cn_world c) (cn_world c1)" "sized_run (cn_world c) (cn_world c1) \<Longrightarrow> no_panic r"
    using m r unfolding calm_cli_def by (metis snd_conv, metis fst_conv snd_conv)
  have g: "recorded_from (cn_world c1) (cn_world (snd (f x c1)))"
    "sized_run (cn_world c1) (cn_world (snd (f x c1))) \<Longrightarrow> no_panic (fst (f x c1))" for x
    using f by (simp_all add: calm_cli_def)
  show "recorded_from (cn_world c) (cn_world (snd (bind_cli m f c)))"
    using c1 g(1) recorded_trans by (cases r) (auto simp: bind_cli_def r)
  assume s: "sized_run (cn_world c) (cn_world (snd (bind_cli m f c)))"
  show "no_panic (fst (bind_cli m f c))"
  proof (cases r)
    case (Inl e)
    then show ?thesis using s c1(2) by (simp add: bind_cli_def r no_panic_def)
  next
    case (Inr x)
    then show ?thesis using s g(2) sized_run_trans [OF c1(1) g(1) [of x]] by (simp add: bind_cli_def r)
  qed
qed

lemma calm_cli_io: "quiet_act m \<Longrightarrow> calm_cli (do_io m)"
  unfolding calm_cli_def calm_def traced_def do_io_def by (simp split: prod.split) (metis fst_conv snd_conv)

lemma calm_cli_lift [simp]: "calm_cli (lift_cli r) \<longleftrightarrow> no_panic r"
proof
  assume "calm_cli (lift_cli r)"
  moreover have "sized_run sample_world sample_world" by (simp add: sized_run_def file_sized_def sample_world_def)
  ultimately show "no_panic r" unfolding calm_cli_def
    by (metis console_at_fields(1) fst_conv lift_cli_apply snd_conv)
qed (simp add: calm_cli_def recorded_refl)

lemma calm_cli_Pair [simp]: "calm_cli (Pair r) \<longleftrightarrow> no_panic r"
  using calm_cli_lift [of r] by (simp add: lift_cli_def)

lemma calm_cli_console [simp]:
  "calm_cli (write_stdout bs)" "calm_cli (write_stderr bs)" "calm_cli read_line" "calm_cli prompt_tty"
  by (auto simp: calm_cli_def write_stdout_def write_stderr_def read_line_def prompt_tty_def Let_def recorded_refl
      split: option.splits list.splits)

lemma calm_cli_prompt [simp]: "calm_cli (prompt_password b)"
  by (simp add: prompt_password_def read_password_from_stdin_def calm_cli_bind)

lemma calm_cli_block [simp]: "calm_cli read_until_blank_line"
proof -
  have "calm_cli lines_next" by (simp add: lines_next_def calm_cli_bind)
  then have "calm_cli (read_lines_until_blank n out)" for n out
    by (induction n arbitrary: out) (auto intro!: calm_cli_bind split: option.splits)
  then show ?thesis unfolding calm_cli_def read_until_blank_line_def by blast
qed

text \<open>The import command reads its bundle from the disk.\<close>

lemma calm_cli_read:
  assumes "\<And>bs. length bs \<le> isize_max \<Longrightarrow> quiet_act (f bs)" "\<And>bs. traced (f bs)"
  shows "calm_cli (bind_cli (do_io (fs_read p)) (\<lambda>bs. do_io (f bs)))"
proof -
  have "bind_cli (do_io (fs_read p)) (\<lambda>bs. do_io (f bs)) = do_io (bind_act (fs_read p) f)"
    by (auto simp: fun_eq_iff bind_cli_def do_io_def bind_act_def split: prod.splits sum.splits)
  then show ?thesis using calm_post [OF calm_read assms(2,1)] by (simp add: calm_cli_io)
qed

lemma calm_cli_import: "calm_cli (import_bundle_from P v pw pp p)"
proof -
  have i: "calm_cli (print_ids ids)" for ids by (induction ids) (auto intro!: calm_cli_bind)
  have "import_bundle_from P v pw pp p = bind_cli (do_io (unlock_session P v pw)) (\<lambda>s.
      bind_cli (bind_cli (do_io (fs_read p)) (\<lambda>bs. do_io (import_bundle P s bs pp))) print_ids)"
    by (simp add: import_bundle_from_def bind_cli_assoc)
  then show ?thesis by (auto intro!: calm_cli_bind calm_cli_io calm_cli_read quiet_import i)
qed

lemma calm_cli_transfer [simp]:
  "calm_cli (transfer_create_command P Q kf idf i out ex pw)" "calm_cli (transfer_receive_command P Q clk env kf idf op si pw)"
proof -
  show "calm_cli (transfer_create_command P Q kf idf i out ex pw)"
    unfolding transfer_create_command_def create_signed_transfer_envelope_def
    by (auto intro!: calm_cli_bind calm_cli_io calm_map_err)
  have r: "calm_cli (release_plaintext op x)" for x by (auto simp: release_plaintext_def calm_cli_io split: option.splits)
  have o: "no_panic r" if "open_received_transfer_envelope P Q a b c e kp rk t seen = (r, seen')" for a b c e kp rk t seen r seen'
    using that no_panic_envelope(2) by (metis fst_conv open_received_transfer_envelope_def)
  show "calm_cli (transfer_receive_command P Q clk env kf idf op si pw)"
    unfolding transfer_receive_command_def Let_def
    by (auto intro!: calm_cli_bind calm_cli_io r split: prod.splits) (erule o)
qed

lemma calm_cli_run: "calm_cli (run_command P Q clk cmd stdin)"
proof (cases cmd)
  case (CmdInit p)
  then show ?thesis
    by (auto simp: run_command_def init_vault_def init_vault_with_passwords_def intro!: calm_cli_bind calm_cli_io)
next
  case (CmdAdd l k v)
  have "no_panic (parse_item_kind k)" by (simp add: parse_item_kind_def)
  then show ?thesis using CmdAdd
    by (auto simp: run_command_def add_command_def add_item_def intro!: calm_cli_bind calm_cli_io)
next
  case (CmdList v)
  have "quiet_act (list_vault P v pw)" for pw unfolding list_vault_def by (auto intro!: calm_bind)
  then show ?thesis using CmdList by (auto simp: run_command_def list_command_def intro!: calm_cli_bind calm_cli_io)
next
  case (CmdGet i v)
  have "no_panic (hex_id_slots i n m)" for n m
    by (induction m arbitrary: n) (auto intro!: no_panic_intros)
  then have "no_panic (hex_decode_id i)" by (simp add: hex_decode_id_def)
  then show ?thesis using CmdGet
    by (auto simp: run_command_def get_command_def get_item_def intro!: calm_cli_bind calm_cli_io quiet_with_item)
next
  case (CmdExport out v)
  then show ?thesis
    by (auto simp: run_command_def export_command_def export_bundle_to_def intro!: calm_cli_bind calm_cli_io)
next
  case (CmdImport i v)
  then show ?thesis
    by (auto simp: run_command_def import_command_def intro!: calm_cli_bind calm_cli_import)
next
  case CmdLock
  then show ?thesis by (simp add: run_command_def)
next
  case (CmdTransfer a)
  then show ?thesis
    by (cases a) (auto simp: run_command_def transfer_command_def intro!: calm_cli_bind)
next
  case (CmdDevice a)
  have "calm_cli (pair_asks P Q n)" "calm_cli (pair_saves P kf idf pf stdin g)" for n kf idf pf g
    unfolding pair_asks_def pair_saves_def by (auto intro!: calm_cli_bind calm_cli_io calm_map_err)
  then show ?thesis using CmdDevice
    by (cases a) (auto simp: run_command_def device_command_def pair_split intro!: calm_cli_bind)
qed

end
