(* ===== verification/Program.thy ===== *)
theory Program
  imports No_Panic
begin

text \<open>
  The program itself: \<open>main\<close> of the command line (src/crates/meissnerseal-cli/src/main.rs) around \<open>run\<close>,
  with the messages of src/crates/meissnerseal-core/src/error.rs and the exit status.
\<close>

subsection \<open>main\<close>

text \<open>
  What the clap package makes of the arguments: the command, or the kind of its error as far as \<open>main\<close> tells
  them apart. For help and version clap prints a text, here the parameter \<open>help\<close>, and exits with 0.
\<close>

datatype parse_failure = DisplayHelp | DisplayVersion | OtherFailure

record Cli =
  cli_stdin :: bool
  cli_command :: Commands

text \<open>\<open>Display\<close> of an error; the text of an I/O error is the operating system's, the parameter \<open>io_text\<close>.\<close>

primrec error_text :: "(io_error \<Rightarrow> string) \<Rightarrow> core_error \<Rightarrow> string" where
  "error_text io_text (Format s) = ''vault format error: '' @ s"
| "error_text io_text Auth = ''authentication failed''"
| "error_text io_text (NotFound s) = ''item not found: '' @ s"
| "error_text io_text (InvalidState s) = ''invalid state: '' @ s"
| "error_text io_text Crypto = ''crypto error''"
| "error_text io_text (Io e) = ''io error: '' @ io_text e"
| "error_text io_text PartialImport = ''partial import: rollback failed, vault may be inconsistent''"

definition banner :: "byte list" where
  "banner = bytes_of ''meissnerseal: alpha '' @ em_dash @ line_of '' do not store real secrets yet.''"

definition eprint :: "byte list \<Rightarrow> console \<Rightarrow> console" where
  "eprint bs c = c\<lparr>cn_stderr := cn_stderr c @ bs\<rparr>"

text \<open>The exit status of a thread that panics is 101; its message on standard error is left out.\<close>

definition main_program ::
    "prims \<Rightarrow> pqc_prims \<Rightarrow> (nat \<Rightarrow> Timestamp) \<Rightarrow> (io_error \<Rightarrow> string) \<Rightarrow> (parse_failure \<Rightarrow> byte list) \<Rightarrow>
     parse_failure + Cli \<Rightarrow> console \<Rightarrow> nat \<times> console" where
  "main_program P Q clk io_text help args c =
     (let c = eprint banner c in
      case args of
        Inl error \<Rightarrow>
          if error = DisplayHelp \<or> error = DisplayVersion then (0, c\<lparr>cn_stdout := cn_stdout c @ help error\<rparr>)
          else (2, eprint (line_of ''invalid command-line arguments; command is not wired in MVP-0 CLI yet'') c)
      | Inr cli \<Rightarrow>
          (case run_command P Q clk (cli_command cli) (cli_stdin cli) c of
             (Inl (Err error), c) \<Rightarrow> (1, eprint (line_of (error_text io_text error)) c)
           | (Inl Panic, c) \<Rightarrow> (101, c)
           | (Inr _, c) \<Rightarrow> (0, c)))"

subsection \<open>Properties\<close>



end
