(* ===== verification/Vault_Growth.thy ===== *)
theory Vault_Growth
  imports Command_Laws
begin

text \<open>
  How a vault file grows: every item costs a fixed overhead, and the sealed table doubles when its
  bucket is full. Past 64 MiB a vault that \<open>add\<close> has just written can no longer be unlocked.
\<close>

subsection \<open>Buckets\<close>

lemma bucket_power: "\<exists>j. bucket n = 2 ^ j"
  using bucket_spec [of n] by (auto simp: is_power_of_two_iff)

lemma bucket_Suc: "bucket (Suc n) = (if 0 < n \<and> bucket n = n then 2 * n else bucket n)"
proof (cases "n = 0")
  case True
  have "bucket (Suc 0) = 1" by (simp add: bucket_def next_pow2_from.simps)
  then show ?thesis using True by simp
next
  case n: False
  obtain i j where p: "bucket n = 2 ^ i" "bucket (Suc n) = 2 ^ j" using bucket_power by metis
  have b: "n \<le> 2 ^ i" "2 ^ i = (1 :: nat) \<or> 2 ^ i < 2 * n" "Suc n \<le> 2 ^ j" "2 ^ j < 2 * Suc n"
    using bucket_spec [of n] bucket_spec [of "Suc n"] n p by auto
  have up: "2 * 2 ^ k \<le> (2 ^ l :: nat)" if "k < l" for k l
    using power_increasing [of "Suc k" l "2 :: nat"] that by simp
  show ?thesis
  proof (cases "2 ^ i = n")
    case True
    have "i < j" using b(3) True power_increasing [of j i "2 :: nat"] by (cases "i < j") auto
    moreover have "j < Suc (Suc i)"
    proof (rule ccontr)
      assume "\<not> j < Suc (Suc i)"
      then have "2 ^ Suc (Suc i) \<le> (2 ^ j :: nat)" by (intro power_increasing) auto
      then show False using b(4) True n by simp
    qed
    ultimately have "j = Suc i" by simp
    then show ?thesis using p True n by simp
  next
    case False
    then have "Suc n \<le> 2 ^ i" using b(1) by simp
    moreover have "2 ^ i < 2 * Suc n" using b(2) by auto
    ultimately have "\<not> i < j" "\<not> j < i" using up [of i j] up [of j i] b(3,4) by auto
    then have "i = j" by simp
    then show ?thesis using p False by simp
  qed
qed

subsection \<open>Lengths\<close>

lemma repr_length:
  assumes "aead_correct P" "vault_repr P pw keys bs h fb recs"
  shows "length bs = table_start fb recs + length (frames_of recs)"
proof -
  obtain f sec where "vault_layout bs h f fb sec (frames_of recs)" "length sec = 48 + 46 * bucket (length recs)"
    using vault_repr_open [OF assms] by metis
  then show ?thesis using vault_layout_facts(1) by (fastforce simp: table_start_def)
qed

lemma rewrite_repr:
  assumes P: "aead_correct P" and r: "vault_repr P pw keys bs h fb recs" and k: "uv_keys s = keys"
    and ids: "list_all (\<lambda>r. length (pr_record_id r) = 16 \<and> length (pr_revision_id r) = 16 \<and>
      pr_record_kind r \<notin> {0, RECORD_KIND_WRAPPED_ROOT_KEY}) recs'" "distinct (map pr_record_id recs')"
    and run: "rewrite_vault P s (loaded_vault bs h fb recs) recs' w = (Inr (), w')"
  shows "\<exists>bs'. files w' (uv_path s) = Some bs' \<and> vault_repr P pw keys bs' h fb recs'"
proof -
  obtain bs' seed w1 where i: "rewrite_image P s (loaded_vault bs h fb recs) recs' w = (Inr (bs', seed), w1)"
    and p: "persist_vault_mutation_v2 (uv_path s) bs' seed w1 = (Inr (), w')"
    using run by (auto simp: rewrite_vault_image bind_act_eq_Inr)
  have "files w' (uv_path s) = Some bs'" using persist_mutation_cases(2) [of "uv_path s" bs' seed w1] p by simp
  then show ?thesis using rewrite_image_repr(2) [OF P r k ids(1) i ids(2)] by blast
qed

lemma add_growth:
  assumes P: "aead_correct P" and st: "stores P pw keys h bs tbl"
    and s: "uv_path s = p" "uv_keys s = keys" "files w p = Some bs" and new: "next_random w 16 \<notin> fst ` set tbl"
    and run: "add P s it w = (Inr i, w')"
  shows "\<exists>bs'. files w' p = Some bs' \<and> length bs' + 46 * bucket (length tbl) =
    length bs + 268 + length (payload_bytes it) + 46 * bucket (Suc (length tbl))"
proof -
  obtain fb recs where r: "vault_repr P pw keys bs h fb recs"
    and items: "list_all2 (rec_item P (uk_item_wrap_key keys) h) recs tbl"
    using st unfolding stores_def by blast
  note rh = repr_header [OF P r]
  have n: "length recs = length tbl" using items by (rule list_all2_lengthD)
  have l: "load_vault P s w = (Inr ld, w1) \<longleftrightarrow> faults w (calls w) = None \<and> ld = loaded_vault bs h fb recs \<and> w1 = snapshot w" for ld w1
    using load_stores [OF P, of pw s bs h fb recs w ld w1] r s by simp
  have hd: "ld_header (loaded_vault bs h fb recs) = h" by (simp add: loaded_vault_def)
  define rev where "rev = next_random (snapshot w\<lparr>drawn := drawn w + 16\<rparr>) 16"
  have rev: "length rev = 16" by (simp add: rev_def)
  obtain fr w4 where
    b: "build_item_frame P it (uk_item_wrap_key keys) h (next_random w 16) rev (snapshot w\<lparr>drawn := 32 + drawn w\<rparr>) = (Inr fr, w4)"
    and rw: "rewrite_vault P s (loaded_vault bs h fb recs) (recs @ [\<lparr>pr_record_id = next_random w 16, pr_record_kind = 1,
        pr_revision_id = rev, pr_frame_bytes = fr\<rparr>]) w4 = (Inr (), w')"
    using run by (auto simp: add_def bind_act_eq_Inr l fresh_id_Inr stage_repr(1) [OF P r] hd s rev_def)
  let ?r = "\<lparr>pr_record_id = next_random w 16, pr_record_kind = 1, pr_revision_id = rev, pr_frame_bytes = fr\<rparr>"
  have lf: "length fr = 268 + length (payload_bytes it)"
    using build_item_frame_run [OF P _ _ _ rev b] rh by (auto simp: keys_wf_def)
  have "list_all (\<lambda>r. length (pr_record_id r) = 16 \<and> length (pr_revision_id r) = 16 \<and>
      pr_record_kind r \<notin> {0, RECORD_KIND_WRAPPED_ROOT_KEY}) (recs @ [?r])"
    using rec_ok_ids [of recs] rh rev by simp
  moreover have "distinct (map pr_record_id (recs @ [?r]))"
    using rh new list.set_map [of fst tbl] by (simp add: ids_of_records [OF items])
  ultimately obtain bs' where b': "files w' p = Some bs'" "vault_repr P pw keys bs' h fb (recs @ [?r])"
    using rewrite_repr [OF P r s(2) _ _ rw] s(1) by blast
  then show ?thesis
    using repr_length [OF P r] repr_length [OF P b'(2)] lf by (simp add: table_start_def frames_of_def n)
qed

text \<open>A disk with a vault that stores one item.\<close>

lemma sample_stored:
  "\<exists>(s :: UnlockedVault) h bs (w :: world) i. stores toy_prims [1] (uv_keys s) h bs [(i, Some sample_item)] \<and>
    files w (uv_path s) = Some bs \<and> no_faults w \<and> length bs \<le> 1000"
proof -
  obtain s h bs w where e: "holding s h bs w []" using sample_empty by blast
  note e = e [unfolded holding_def]
  have l: "length (payload_bytes sample_item) \<le> 100" by (simp add: sample_item_def payload_bytes_def)
  obtain w' where a: "add toy_prims s sample_item w = (Inr (next_random w 16), w')"
    using add_ok [OF toy_prims_aead(1,3), of "[1]" "uv_keys s" h bs "[]" s "uv_path s" w sample_item] e l by auto
  have n: "next_random w 16 \<notin> fst ` set ([] :: item_table)" by simp
  obtain bs' where b: "files w' (uv_path s) = Some bs'" "length bs' + 46 * bucket (length ([] :: item_table)) =
      length bs + 268 + length (payload_bytes sample_item) + 46 * bucket (Suc (length ([] :: item_table)))"
    using add_growth [OF toy_prims_aead(1) _ refl refl _ n a] e by blast
  have at: "atomic_update (uv_path s) (\<lambda>bs'. stores toy_prims [1] (uv_keys s) h bs' ([] @ [(next_random w 16, Some sample_item)]))
      (add toy_prims s sample_item) w"
    using add_atomic [OF toy_prims_aead(1) _ refl refl _ n] e by blast
  then have "stores toy_prims [1] (uv_keys s) h bs' [(next_random w 16, Some sample_item)]" "faults w' = faults w"
    using a b(1) by (auto simp: atomic_update_def evolves_def)
  moreover have "length bs' \<le> 1000" using b(2) e l by (simp add: bucket_Suc)
  ultimately show ?thesis using b(1) e by (auto simp: no_faults_def)
qed

subsection \<open>Properties\<close>

text \<open>C40. Adding grows the file by the payload and 268 bytes, and by 46 bytes for each of the \<open>n\<close> records when their
  number \<open>n\<close> is a power of two, as the padded table then doubles. The vault that \<open>add\<close> has reported as written
  can be unlocked with the same password if and only if it is not longer than 64 MiB.\<close>

theorem add_grows_file:
  assumes "aead_correct P" "stores P pw (uv_keys s) h bs tbl" "files w (uv_path s) = Some bs"
    and "next_random w 16 \<notin> fst ` set tbl" "add P s it w = (Inr i, w')"
  shows "\<exists>bs'. files w' (uv_path s) = Some bs' \<and>
    length bs' = length bs + 268 + length (payload_bytes it) +
      (if tbl \<noteq> [] \<and> bucket (length tbl) = length tbl then 46 * length tbl else 0) \<and>
    ((\<exists>s'. unlock_bytes P (uv_path s) pw bs' = Inr s') \<longleftrightarrow> length bs' \<le> 67108864)"
proof -
  obtain bs' where b: "files w' (uv_path s) = Some bs'" "length bs' + 46 * bucket (length tbl) =
      length bs + 268 + length (payload_bytes it) + 46 * bucket (Suc (length tbl))"
    using add_growth [OF assms(1,2) refl refl assms(3-5)] by blast
  have st: "stores P pw (uv_keys s) h bs' (tbl @ [(next_random w 16, Some it)])"
    using add_atomic [OF assms(1,2) refl refl assms(3,4), of it] assms(5) b(1) by (auto simp: atomic_update_def)
  then show ?thesis
    using b unlock_stored [OF assms(1) st] unlocked_stored(2) [OF assms(1) st]
    by (intro exI [of _ bs']) (auto simp: bucket_Suc split: if_splits)
qed

theorem add_grows_file_witness:
  "\<exists>(s :: UnlockedVault) (w' :: world) bs'. files w' (uv_path s) = Some bs' \<and> 268 < length bs' \<and>
    (\<exists>s'. unlock_bytes toy_prims (uv_path s) [1] bs' = Inr s')"
proof -
  obtain s h bs w where e: "holding s h bs w []" using sample_empty by blast
  note e = e [unfolded holding_def]
  have l: "length (payload_bytes sample_item) \<le> 100" "0 < length (payload_bytes sample_item)"
    by (simp_all add: sample_item_def payload_bytes_def)
  obtain w' where a: "add toy_prims s sample_item w = (Inr (next_random w 16), w')"
    using add_ok [OF toy_prims_aead(1,3), of "[1]" "uv_keys s" h bs "[]" s "uv_path s" w sample_item] e l(1) by auto
  have n: "next_random w 16 \<notin> fst ` set ([] :: item_table)" by simp
  obtain bs' s' where b: "files w' (uv_path s) = Some bs'" "unlock_bytes toy_prims (uv_path s) [1] bs' = Inr s'"
    "length bs' = length bs + 268 + length (payload_bytes sample_item)"
    using add_grows_file [OF toy_prims_aead(1) _ _ n a, of "[1]" h bs] e l by auto
  then show ?thesis using l(2) by (intro exI [of _ s] exI [of _ w'] exI [of _ bs']) auto
qed

end
