(* ===== verification/Backup_Laws.thy ===== *)
theory Backup_Laws
  imports Vault_Growth
begin

text \<open>
  \<open>export\<close> and \<open>import\<close> of the command line, composed: a vault is restored into another one.
\<close>



subsection \<open>The two commands\<close>

lemma stored_vault_id: "aead_correct P \<Longrightarrow> stores P pw keys h bs tbl \<Longrightarrow> length (vh_vault_id h) = 16"
  using repr_header unfolding stores_def header_wf_def by blast

lemma print_ids_Inr:
  "print_ids ids c = (Inr (), c') \<Longrightarrow>
    cn_stdout c' = cn_stdout c @ concat (map (\<lambda>i. line_of (hex_id i)) ids) \<and> cn_world c' = cn_world c"
  by (induction ids arbitrary: c) (auto simp: bind_cli_eq_Inr write_stdout_Inr)

lemma print_ids_world: "cn_world (snd (print_ids ids c)) = cn_world c"
  by (induction ids arbitrary: c) (auto simp: bind_cli_case write_stdout_def split: option.splits sum.splits)

lemma create_and_write:
  assumes "fs_create_new p w = (Inr (), w1)" "fs_write_all p bs w1 = (Inr (), w2)"
  shows "files w p = None \<and> files w2 = (files w)(p := Some bs)"
  using assms by (auto simp: fs_create_new_def fs_write_all_def Let_def split: option.splits)

lemma export_to_Inr:
  assumes P: "aead_correct P" "kdf_total P" and st: "stores P pw keys h bs tbl" and f: "files (cn_world c) v = Some bs"
    and r: "export_bundle_to P v pw pp out c = (Inr (), c')"
  shows "\<exists>b. files (cn_world c) out = None \<and> files (cn_world c') = (files (cn_world c))(out := Some b) \<and>
    authenticate P b pp = (if length (live tbl) \<le> 4096 then Inr (map snd (live tbl))
      else err (Format ''export item count exceeds maximum''))"
proof -
  obtain s w1 b w2 w3 w4 where u: "unlock_session P v pw (cn_world c) = (Inr s, w1)"
    and e: "export_bundle P s pp w1 = (Inr b, w2)" and o: "fs_create_new out w2 = (Inr (), w3)"
    and wr: "fs_write_all out b w3 = (Inr (), w4)" and w: "cn_world c' = w4"
    using r by (auto simp: export_bundle_to_def bind_cli_eq_Inr do_io_eq write_stdout_Inr)
  have w1: "w1 = snapshot (cn_world c)" and ub: "unlock_bytes P v pw bs = Inr s"
    using u f by (auto simp: unlock_session_Inr)
  have s: "s = session_of v h keys" by (rule unlocked_stored(1) [OF P(1) st ub])
  have "length (cx_vault_id (uv_context s)) = 16"
    using stored_vault_id [OF P(1) st] by (simp add: s session_of_def)
  then have x: "authenticate P b pp = (if length (live tbl) \<le> 4096 then Inr (map snd (live tbl))
      else err (Format ''export item count exceeds maximum''))" "files w2 = files w1"
    using exported_items [OF P, of pw s h bs tbl w1 pp b w2] st f e w1 by (simp_all add: s)
  then show ?thesis using create_and_write [OF o wr] w w1 by auto
qed

lemma import_from_run:
  assumes P: "aead_correct P" and st: "stores P pw keys h bs tbl" and f: "files (cn_world c) v = Some bs"
    and b: "files (cn_world c) inp = Some b" "authenticate P b pp = a"
    and fresh: "\<And>items. a = Inr items \<Longrightarrow> distinct (map fst tbl @
      import_draws P (session_of v h keys) items (snapshot (snapshot (cn_world c))))"
    and r: "import_bundle_from P v pw pp inp c = (r, c')"
  shows "(r = Inr () \<longrightarrow> (\<exists>items ids bs'. a = Inr items \<and> length ids = length items \<and>
      files (cn_world c') v = Some bs' \<and> stores P pw keys h bs' (tbl @ zip ids (map Some items)) \<and>
      cn_stdout c' = cn_stdout c @ concat (map (\<lambda>i. line_of (hex_id i)) ids))) \<and>
    (\<forall>e. a = Inl e \<longrightarrow> r \<noteq> Inr () \<and> files (cn_world c') = files (cn_world c))"
proof (intro conjI impI allI)
  assume "r = Inr ()"
  with r obtain s w1 w2 ids w3 where u: "unlock_session P v pw (cn_world c) = (Inr s, w1)"
    and rd: "fs_read inp w1 = (Inr b, w2)" and i: "import_bundle P s b pp w2 = (Inr ids, w3)"
    and pr: "print_ids ids (c\<lparr>cn_world := w3\<rparr>) = (Inr (), c')"
    using b(1) by (auto simp: import_bundle_from_def bind_cli_eq_Inr do_io_eq unlock_session_Inr fs_read_Inr)
  have w2: "w2 = snapshot (snapshot (cn_world c))" and ub: "unlock_bytes P v pw bs = Inr s"
    using u rd f by (auto simp: unlock_session_Inr fs_read_Inr)
  have s: "s = session_of v h keys" by (rule unlocked_stored(1) [OF P st ub])
  obtain items where a: "a = Inr items" and ii: "import_items P s items [] w2 = (Inr ids, w3)"
    using i b(2) by (auto simp: import_bundle_def bind_act_eq_Inr)
  obtain bs' where "files w3 v = Some bs'" "stores P pw keys h bs' (tbl @ zip ids (map Some items))"
    "length ids = length items"
    using import_items_spec [OF P, of w2 s bs pw h tbl "[]" "[]" items "Inr ids" w3] f st fresh [OF a] ii
    by (auto simp: s w2)
  then show "\<exists>items ids bs'. a = Inr items \<and> length ids = length items \<and>
      files (cn_world c') v = Some bs' \<and> stores P pw keys h bs' (tbl @ zip ids (map Some items)) \<and>
      cn_stdout c' = cn_stdout c @ concat (map (\<lambda>i. line_of (hex_id i)) ids)"
    using print_ids_Inr [OF pr] a by auto
next
  fix e assume a: "a = Inl e"
  have "within (\<lambda>s. s = files (cn_world c)) (unlock_session P v pw)"
    by (simp add: unlock_session_def unlock_def unlock_impl_def vault_open_def within_bind)
  then have u: "files (snd (unlock_session P v pw (cn_world c))) = files (cn_world c)"
    unfolding within_def evolves_def by blast
  have rd: "files (snd (fs_read inp w)) = files w" for w
    by (auto simp: fs_read_def split: option.splits)
  obtain ru w1 where ru: "unlock_session P v pw (cn_world c) = (ru, w1)" by fastforce
  obtain rr w2 where rr: "fs_read inp w1 = (rr, w2)" by fastforce
  have w: "files w1 = files (cn_world c)" "files w2 = files w1" using u rd [of w1] ru rr by simp_all
  have "rr = Inr x \<Longrightarrow> x = b" for x using rr w(1) b(1) by (auto simp: fs_read_Inr)
  then show "r \<noteq> Inr ()" "files (cn_world c') = files (cn_world c)"
    using r a b(2) w
    by (cases ru; cases rr; auto simp: import_bundle_from_def bind_cli_case do_io_def ru rr import_bundle_def bind_act_def)+
qed

subsection \<open>A sample backup\<close>

lemma within_export [simp]: "within Q (export_bundle P s pp)"
proof -
  have "within Q (write_summaries P s out ss)" for out ss
    by (induction ss arbitrary: out) (simp_all add: with_item_def within_bind)
  then have "within Q (serialize_live_item_set P s)"
    by (simp add: serialize_live_item_set_def list_items_def within_bind)
  then show ?thesis unfolding export_bundle_def Let_def by (auto intro!: within_bind within_map_err split: prod.splits)
qed

definition sample_phrase :: "byte list" where
  "sample_phrase = [1, 1, 1, 1, 1, 1, 1, 1, 1, 1, 1, 1]"

lemma sample_phrase: "typed sample_phrase" "12 \<le> length sample_phrase" "sample_phrase \<noteq> []"
  by (simp_all add: sample_phrase_def typed_def in_rng_def)

text \<open>The bundle's path.\<close>

abbreviation (input) bundle_b :: path where
  "bundle_b \<equiv> \<lparr>p_dir = [], p_name = ''b''\<rparr>"

abbreviation (input) disk :: "byte list \<Rightarrow> world" where
  "disk bs \<equiv> sample_world\<lparr>files := (\<lambda>_. None)(vault_v := Some bs)\<rparr>"

lemma sample_export_run:
  assumes st: "stores toy_prims [1] keys h bs [(i, Some sample_item)]" and l: "length bs \<le> 67108864"
  shows "\<exists>(c1 :: console) b. run_command toy_prims toy_pqc (\<lambda>_. 5) (CmdExport bundle_b vault_v) True
      (console_at (disk bs) ([1] @ 10 # sample_phrase @ 10 # [])) = (Inr (), c1) \<and>
    files (cn_world c1) bundle_b = Some b \<and> authenticate toy_prims b sample_phrase = Inr [sample_item]"
proof -
  let ?w = "disk bs" and ?s = "session_of vault_v h keys" and ?c = "console_at (disk bs) []"
  have u: "unlock_session toy_prims vault_v [1] ?w = (Inr ?s, snapshot ?w)"
    using unlock_session_run [of "[1]" ?w vault_v bs toy_prims] unlock_stored [OF toy_prims_aead(1) st l]
    by (simp add: sample_world_def)
  have "\<exists>b w2. export_bundle toy_prims ?s sample_phrase (snapshot ?w) = (Inr b, w2)"
    by (rule export_ok [OF toy_prims_aead(1,3) toy_prims_kdf, of "[1]" _ h bs "[(i, Some sample_item)]"])
       (use st sample_phrase in \<open>simp_all add: no_faults_def sample_world_def sample_item_def payload_ok_def item_set_bytes_def
          payload_bytes_def in_rng_def\<close>)
  then obtain b w2 where b: "export_bundle toy_prims ?s sample_phrase (snapshot ?w) = (Inr b, w2)" by blast
  have e: "evolves (\<lambda>s. s = files (snapshot ?w)) (snapshot ?w) w2" by (rule withinD [OF within_export refl b])
  have n: "faults w2 = (\<lambda>_. None)" "files w2 bundle_b = None" using e by (simp_all add: evolves_def sample_world_def)
  have x: "export_bundle_to toy_prims vault_v [1] sample_phrase bundle_b ?c =
      (Inr (), snd (export_bundle_to toy_prims vault_v [1] sample_phrase bundle_b ?c))"
    by (simp add: export_bundle_to_def bind_cli_case do_io_def u b fs_create_new_def n fs_write_all_def Let_def
        write_stdout_def console_at_def)
  obtain b' where b': "files (cn_world (snd (export_bundle_to toy_prims vault_v [1] sample_phrase bundle_b ?c))) bundle_b = Some b'"
    "authenticate toy_prims b' sample_phrase = Inr [sample_item]"
    using export_to_Inr [OF toy_prims_aead(1) toy_prims_kdf st _ x] by auto
  have "run_command toy_prims toy_pqc (\<lambda>_. 5) (CmdExport bundle_b vault_v) True
      (console_at (disk bs) ([1] @ 10 # sample_phrase @ 10 # [])) = export_bundle_to toy_prims vault_v [1] sample_phrase bundle_b ?c"
    using prompt_typed [OF typed_sample(1), of "console_at (disk bs) ([1] @ 10 # sample_phrase @ 10 # [])"]
      prompt_typed [OF sample_phrase(1), of "console_at (disk bs) (sample_phrase @ 10 # [])"] sample_phrase(2)
    by (simp add: run_command_def export_command_def bind_cli_case console_at_def)
  then show ?thesis using x b' by metis
qed

lemma sample_import_run:
  assumes st: "stores toy_prims [1] keys h bs []" and l: "length bs \<le> 463"
    and b: "authenticate toy_prims b sample_phrase = Inr [sample_item]"
  shows "\<exists>(c3 :: console). run_command toy_prims toy_pqc (\<lambda>_. 5) (CmdImport bundle_b vault_v) True
      (console_at (sample_world\<lparr>files := (\<lambda>_. None)(vault_v := Some bs, bundle_b := Some b)\<rparr>) ([1] @ 10 # sample_phrase @ 10 # [])) = (Inr (), c3)"
proof -
  let ?w = "sample_world\<lparr>files := (\<lambda>_. None)(vault_v := Some bs, bundle_b := Some b)\<rparr>" and ?s = "session_of vault_v h keys"
  let ?c = "console_at ?w []" and ?w2 = "snapshot (snapshot ?w)"
  have u: "unlock_session toy_prims vault_v [1] ?w = (Inr ?s, snapshot ?w)"
    using unlock_session_run [of "[1]" ?w vault_v bs toy_prims] unlock_stored [OF toy_prims_aead(1) st] l
    by (simp add: sample_world_def)
  have rd: "fs_read bundle_b (snapshot ?w) = (Inr b, ?w2)"
    by (simp add: fs_read_def sample_world_def snapshot_def)
  have t: "unique_tmp_path vault_v seed \<noteq> bundle_b" for seed
    by (simp add: unique_tmp_path_def with_extension_def)
  have len: "length (payload_bytes sample_item) \<le> 2147483648" by (simp add: sample_item_def payload_bytes_def)
  have "\<exists>w3. add toy_prims ?s sample_item ?w2 = (Inr (next_random ?w2 16), w3)"
    by (rule add_ok [OF toy_prims_aead(1,3), of "[1]" keys h bs "[]" ?s vault_v])
       (use st l len t tmp_differs [of vault_v] in \<open>simp_all add: no_faults_def sample_world_def\<close>)
  then obtain w3 where a: "add toy_prims ?s sample_item ?w2 = (Inr (next_random ?w2 16), w3)" by blast
  have i: "import_bundle toy_prims ?s b sample_phrase ?w2 = (Inr [next_random ?w2 16], w3)"
    by (simp add: import_bundle_def b catch_act_def a)
  have "\<exists>c3. import_bundle_from toy_prims vault_v [1] sample_phrase bundle_b ?c = (Inr (), c3)"
    by (simp add: import_bundle_from_def bind_cli_case do_io_def u rd i write_stdout_def)
  moreover have "run_command toy_prims toy_pqc (\<lambda>_. 5) (CmdImport bundle_b vault_v) True
      (console_at ?w ([1] @ 10 # sample_phrase @ 10 # [])) = import_bundle_from toy_prims vault_v [1] sample_phrase bundle_b ?c"
    using prompt_typed [OF typed_sample(1), of "console_at ?w ([1] @ 10 # sample_phrase @ 10 # [])"]
      prompt_typed [OF sample_phrase(1), of "console_at ?w (sample_phrase @ 10 # [])"]
    by (simp add: run_command_def import_command_def bind_cli_case console_at_def)
  ultimately show ?thesis by simp
qed

subsection \<open>Properties\<close>

text \<open>C6. Backup and restore: if \<open>export\<close> succeeds on a vault, the passphrase had at least 12 bytes, the output did
  not exist, and nothing but the output is written. Wherever and whenever the bundle is then imported with
  the same passphrase, into any vault, under any failures, a successful \<open>import\<close> has appended exactly the live
  items in their order under the ids it prints. But a vault with more than 4096 items is never restored: every
  import of its bundle fails and changes nothing.\<close>

theorem backup_is_restored:
  assumes "aead_correct P" "kdf_total P" "stores P pw keys h bs tbl" "files (cn_world c) v = Some bs"
    and "typed pw" "typed pp" "cn_stdin c = pw @ 10 # pp @ 10 # rest"
    and "run_command P Q clk (CmdExport out v) True c = (Inr (), c1)"
    and "stores P pw2 keys2 h2 bs2 tbl2" "files (cn_world c2) v2 = Some bs2"
    and "files (cn_world c2) bundle = files (cn_world c1) out"
    and "typed pw2" "cn_stdin c2 = pw2 @ 10 # pp @ 10 # rest2"
    and "distinct (map fst tbl2 @
      import_draws P (session_of v2 h2 keys2) (map snd (live tbl)) (snapshot (snapshot (cn_world c2))))"
    and "run_command P Q clk2 (CmdImport bundle v2) True c2 = (r, c3)"
  shows "12 \<le> length pp \<and> files (cn_world c) out = None \<and>
    (\<forall>p. p \<noteq> out \<longrightarrow> files (cn_world c1) p = files (cn_world c) p) \<and>
    (r = Inr () \<longrightarrow> (\<exists>ids bs3. length ids = length (live tbl) \<and> files (cn_world c3) v2 = Some bs3 \<and>
      stores P pw2 keys2 h2 bs3 (tbl2 @ zip ids (map (Some \<circ> snd) (live tbl))) \<and>
      cn_stdout c3 = cn_stdout c2 @ concat (map (\<lambda>i. line_of (hex_id i)) ids))) \<and>
    (4096 < length (live tbl) \<longrightarrow> r \<noteq> Inr () \<and> files (cn_world c3) = files (cn_world c2))"
proof -
  have pp: "12 \<le> length pp" and e: "export_bundle_to P v pw pp out (c\<lparr>cn_stdin := rest\<rparr>) = (Inr (), c1)"
    using assms(8) prompt_typed [OF assms(5,7)] prompt_typed [OF assms(6), of "c\<lparr>cn_stdin := pp @ 10 # rest\<rparr>" rest]
    by (auto simp: run_command_def export_command_def bind_cli_case split: if_splits)
  obtain b where b: "files (cn_world c) out = None" "files (cn_world c1) = (files (cn_world c))(out := Some b)"
    "authenticate P b pp = (if length (live tbl) \<le> 4096 then Inr (map snd (live tbl))
      else err (Format ''export item count exceeds maximum''))"
    using export_to_Inr [OF assms(1-3) _ e] assms(4) by auto
  have i: "import_bundle_from P v2 pw2 pp bundle (c2\<lparr>cn_stdin := rest2\<rparr>) = (r, c3)"
    using assms(15) prompt_typed [OF assms(12,13)] prompt_typed [OF assms(6), of "c2\<lparr>cn_stdin := pp @ 10 # rest2\<rparr>" rest2]
    by (simp add: run_command_def import_command_def bind_cli_case)
  have bb: "files (cn_world (c2\<lparr>cn_stdin := rest2\<rparr>)) bundle = Some b" using assms(11) b(2) by simp
  have fresh: "distinct (map fst tbl2 @ import_draws P (session_of v2 h2 keys2) items (snapshot (snapshot (cn_world (c2\<lparr>cn_stdin := rest2\<rparr>)))))"
    if "(if length (live tbl) \<le> 4096 then Inr (map snd (live tbl))
      else err (Format ''export item count exceeds maximum'')) = Inr items" for items
    using that assms(14) by (auto split: if_splits)
  have f2: "files (cn_world (c2\<lparr>cn_stdin := rest2\<rparr>)) v2 = Some bs2" using assms(10) by simp
  note m = import_from_run [OF assms(1,9) f2 bb b(3) fresh i]
  show ?thesis
  proof (cases "length (live tbl) \<le> 4096")
    case True
    then show ?thesis using m pp b(1,2) by (auto simp: comp_def)
  next
    case False
    then show ?thesis using m pp b(1,2) by auto
  qed
qed


theorem backup_is_restored_witness:
  "\<exists>(c :: console) c1 (c2 :: console) c3 h keys bs3 j.
    run_command toy_prims toy_pqc (\<lambda>_. 5) (CmdExport bundle_b vault_v) True c = (Inr (), c1) \<and>
    files (cn_world c2) bundle_b = files (cn_world c1) bundle_b \<and>
    run_command toy_prims toy_pqc (\<lambda>_. 5) (CmdImport bundle_b vault_v) True c2 = (Inr (), c3) \<and>
    files (cn_world c3) vault_v = Some bs3 \<and> stores toy_prims [1] keys h bs3 [(j, Some sample_item)]"
proof -
  obtain s :: UnlockedVault and h bs i where e: "stores toy_prims [1] (uv_keys s) h bs [(i, Some sample_item)]" "length bs \<le> 67108864"
    using sample_stored by fastforce
  let ?c = "console_at (disk bs) ([1] @ 10 # sample_phrase @ 10 # [])"
  obtain c1 b where x: "run_command toy_prims toy_pqc (\<lambda>_. 5) (CmdExport bundle_b vault_v) True ?c = (Inr (), c1)"
    "files (cn_world c1) bundle_b = Some b" "authenticate toy_prims b sample_phrase = Inr [sample_item]"
    using sample_export_run [OF e] by blast
  obtain s2 :: UnlockedVault and h2 bs2 w where "holding s2 h2 bs2 w []" using sample_empty by blast
  then have e2: "stores toy_prims [1] (uv_keys s2) h2 bs2 []" "length bs2 \<le> 463" by (simp_all add: holding_def)
  let ?c2 = "console_at (sample_world\<lparr>files := (\<lambda>_. None)(vault_v := Some bs2, bundle_b := Some b)\<rparr>) ([1] @ 10 # sample_phrase @ 10 # [])"
  obtain c3 where y: "run_command toy_prims toy_pqc (\<lambda>_. 5) (CmdImport bundle_b vault_v) True ?c2 = (Inr (), c3)"
    using sample_import_run [OF e2 x(3)] by blast
  have f: "files (cn_world ?c) vault_v = Some bs" "cn_stdin ?c = [1] @ 10 # sample_phrase @ 10 # []"
    "files (cn_world ?c2) vault_v = Some bs2" "files (cn_world ?c2) bundle_b = files (cn_world c1) bundle_b"
    "cn_stdin ?c2 = [1] @ 10 # sample_phrase @ 10 # []"
    using x(2) by simp_all
  have d: "distinct (map fst ([] :: item_table) @ import_draws toy_prims (session_of vault_v h2 (uv_keys s2))
      (map snd (live [(i, Some sample_item)])) (snapshot (snapshot (cn_world ?c2))))"
    by (simp split: prod.splits sum.splits)
  note r = backup_is_restored [OF toy_prims_aead(1) toy_prims_kdf e(1) f(1) typed_sample(1) sample_phrase(1) f(2) x(1)
      e2(1) f(3,4) typed_sample(1) f(5) d y]
  then obtain ids bs3 where "length ids = 1" "files (cn_world c3) vault_v = Some bs3"
    "stores toy_prims [1] (uv_keys s2) h2 bs3 (zip ids [Some sample_item])"
    by auto
  moreover then obtain j where "ids = [j]" by (auto simp: length_Suc_conv)
  ultimately show ?thesis using x(1) y f(4)
    by (intro exI [of _ ?c] exI [of _ c1] exI [of _ ?c2] exI [of _ c3] exI [of _ h2] exI [of _ "uv_keys s2"]
        exI [of _ bs3] exI [of _ j]) simp
qed

end
