(* ===== verification/Vault_Survival.thy ===== *)
theory Vault_Survival
  imports Program Backup_Laws
begin

text \<open>
  What a vault on the disk survives: every run of every command, with its failures and wherever it stops.
\<close>

subsection \<open>What the commands write\<close>

text \<open>The files that a command overwrites because it is told to.\<close>

fun overwrites :: "Commands \<Rightarrow> path set" where
  "overwrites (CmdTransfer (TransferCreate kf idf input out expires_in)) = {out}"
| "overwrites (CmdTransfer (TransferReceive env kf idf out seen)) = insert (seen_path env out seen) (set_option out)"
| "overwrites (CmdDevice (DevicePair name kf idf peer)) = {kf, idf, peer}"
| "overwrites _ = {}"

text \<open>The vault file that a command changes item by item, and the temporary names it uses beside it.\<close>

fun changes :: "Commands \<Rightarrow> path option" where
  "changes (CmdInit v) = Some v"
| "changes (CmdAdd label kind v) = Some v"
| "changes (CmdImport input v) = Some v"
| "changes _ = None"

text \<open>The vault at \<open>v\<close> holds the records of \<open>tbl\<close>, and possibly more.\<close>

definition survives :: "prims \<Rightarrow> byte list \<Rightarrow> UnlockedKeys \<Rightarrow> VaultHeader \<Rightarrow> path \<Rightarrow> item_table \<Rightarrow> fs_state \<Rightarrow> bool" where
  "survives P pw keys h v tbl s \<longleftrightarrow> (\<exists>bs rest. s v = Some bs \<and> stores P pw keys h bs (tbl @ rest))"

lemma survives_upd [simp]: "p \<noteq> v \<Longrightarrow> survives P pw keys h v tbl (s(p := x)) \<longleftrightarrow> survives P pw keys h v tbl s"
  by (simp add: survives_def)

lemma survives_same: "s v = t v \<Longrightarrow> survives P pw keys h v tbl s \<longleftrightarrow> survives P pw keys h v tbl t"
  by (simp add: survives_def)

subsection \<open>Operations on other files\<close>

definition away :: "path \<Rightarrow> (fs_state \<Rightarrow> bool) \<Rightarrow> bool" where
  "away v Q \<longleftrightarrow> (\<forall>s p x. p \<noteq> v \<longrightarrow> Q s \<longrightarrow> Q (s(p := x)))"

lemma away_survives: "away v (survives P pw keys h v tbl)"
  by (simp add: away_def)

lemma within_calls_away:
  assumes "away v Q" "p \<noteq> v"
  shows "within Q (fs_create_new p)" "within Q (fs_write_all p bs)" "within Q (fs_remove_file p)" "within Q (fs_write p bs)"
    "q \<noteq> v \<Longrightarrow> within Q (fs_rename q p)"
proof -
  show "within Q (fs_create_new p)" "within Q (fs_write_all p bs)" "within Q (fs_remove_file p)" "within Q (fs_write p bs)"
    using assms by (auto simp: away_def intro!: within_create_new within_write_all within_remove within_fs_write)
  show "within Q (fs_rename q p)" if "q \<noteq> v"
    using assms that
    by (auto simp: away_def within_def fs_rename_def evolves_snapshot0 evolves_snapshot split: option.splits)
qed

lemma within_publish_away:
  assumes "away v Q" "p \<noteq> v" "tmp \<noteq> v"
  shows "within Q (write_and_rename tmp p bs)"
  unfolding write_and_rename_def using within_calls_away [OF assms(1)] assms(2,3) by (auto intro!: within_bind)

lemma within_rewrite_away:
  assumes "away v Q" "uv_path s \<noteq> v" "\<And>seed. unique_tmp_path (uv_path s) seed \<noteq> v"
  shows "within Q (rewrite_vault P s ld recs)"
proof -
  have i: "within Q (ignore_act (fs_remove_file (unique_tmp_path (uv_path s) seed)))" for seed
    using assms by (intro within_ignore within_calls_away)
  have "within Q (persist_vault_mutation_v2 (uv_path s) bs seed)" for bs seed
    unfolding persist_vault_mutation_v2_def Let_def
    using i within_publish_away [OF assms] by (auto intro!: within_catch within_bind split: sum.split fault.split)
  then show ?thesis unfolding rewrite_vault_image by (auto intro!: within_bind split: prod.splits)
qed

lemma within_items_away:
  assumes "away v Q" "uv_path s \<noteq> v" "\<And>seed. unique_tmp_path (uv_path s) seed \<noteq> v"
  shows "within Q (add P s it)" "within Q (import_bundle P s bundle pp)"
proof -
  note r = within_rewrite_away [OF assms]
  show a: "within Q (add P s it)" for it
    unfolding add_def using r by (auto intro!: within_bind)
  have d: "within Q (delete P s i)" for i
    unfolding delete_def Let_def using r by (auto intro!: within_bind split: option.splits)
  have b: "within Q (rollback P s ids)" for ids
    by (induction ids) (auto intro!: within_catch d split: sum.splits fault.splits)
  have "within Q (import_items P s items ids)" for items ids
    by (induction items arbitrary: ids) (auto intro!: within_catch within_bind a b split: sum.splits fault.splits)
  then show "within Q (import_bundle P s bundle pp)" by (simp add: import_bundle_def within_bind)
qed

text \<open>Creating a vault: an existing file is never opened.\<close>

lemma within_create_keys [simp]: "within Q (create_session_keys P pw v hn a kp aad)"
  unfolding create_session_keys_def by (auto intro!: within_bind within_map_err split: prod.splits)

lemma within_persist_away:
  assumes "away v Q" "p \<noteq> v" "\<And>seed. unique_tmp_path p seed \<noteq> v"
  shows "within Q (persist_vault P p vid hn kp rid rid2 ct n aad mk)"
proof -
  note c = within_calls_away [OF assms(1)] within_publish_away [OF assms(1,2)]
  show ?thesis
    unfolding persist_vault_def Let_def persist_vault_inner_def
    using c assms(2,3) by (auto intro!: within_catch within_bind within_ignore split: sum.split fault.split)
qed

lemma within_persist_survives:
  assumes "\<And>seed. unique_tmp_path p seed \<noteq> v"
  shows "within (survives P pw keys h v tbl) (persist_vault P2 p vid hn kp rid rid2 ct n aad mk)"
proof (cases "p = v")
  case False
  then show ?thesis by (rule within_persist_away [OF away_survives _ assms])
next
  case True
  show ?thesis
    unfolding within_def
  proof (intro allI impI)
    fix w :: world assume s: "survives P pw keys h v tbl (files w)"
    then obtain old where "files w p = Some old" unfolding survives_def True by blast
    then have "evolves (same_except {unique_tmp_path p rid} (files w)) w
        (snd (persist_vault P2 p vid hn kp rid rid2 ct n aad mk w))" using persist_existing by blast
    then show "evolves (survives P pw keys h v tbl) w (snd (persist_vault P2 p vid hn kp rid rid2 ct n aad mk w))"
      by (rule evolves_mono) (use s assms [of rid] in \<open>auto simp: same_except_def survives_def\<close>)
  qed
qed

lemma within_create_survives:
  "(\<And>seed. unique_tmp_path (cp_path cp) seed \<noteq> v) \<Longrightarrow> within (survives P pw keys h v tbl) (create P2 cp)"
  unfolding create_def Let_def using within_persist_survives by (auto intro!: within_bind split: prod.splits)

subsection \<open>Operations on the vault itself\<close>

lemma updating_survives:
  assumes "evolves (updating (unique_tmp_path v seed) v (\<lambda>bs. stores P pw keys h bs (tbl @ rest')) (files w)) w w'"
    and "survives P pw keys h v tbl (files w)"
  shows "evolves (survives P pw keys h v tbl) w w'"
  by (rule evolves_mono [OF assms(1)]) (use assms(2) in \<open>auto simp: updating_def survives_def\<close>)

lemma add_survives:
  assumes P: "aead_correct P" and s: "uv_path s = v" "uv_keys s = keys"
    and st: "files w v = Some bs" "stores P pw keys h bs (tbl @ rest)" and new: "next_random w 16 \<notin> fst ` set (tbl @ rest)"
    and r: "add P s it w = (r, w')"
  shows "evolves (survives P pw keys h v tbl) w w'"
    "\<exists>bs' rest'. files w' v = Some bs' \<and> stores P pw keys h bs' (tbl @ rest') \<and>
      (rest' = rest @ [(next_random w 16, Some it)] \<or> (\<forall>i. r \<noteq> Inr i) \<and> rest' = rest)"
    "\<And>i. r = Inr i \<Longrightarrow> i = next_random w 16"
proof -
  have a: "atomic_update v (\<lambda>bs'. stores P pw keys h bs' (tbl @ rest @ [(next_random w 16, Some it)])) (add P s it) w"
    and i: "\<And>i w'. add P s it w = (Inr i, w') \<Longrightarrow> i = next_random w 16"
    using add_atomic [OF P st(2) s st(1) new, of it] by (auto simp: append_assoc)
  then obtain seed where e: "evolves (updating (unique_tmp_path v seed) v
      (\<lambda>bs'. stores P pw keys h bs' (tbl @ rest @ [(next_random w 16, Some it)])) (files w)) w w'"
    unfolding atomic_update_def using r by auto
  show "evolves (survives P pw keys h v tbl) w w'"
    by (rule updating_survives [OF e]) (use st in \<open>auto simp: survives_def\<close>)
  have "files w' v = Some bs \<or> (\<exists>bs'. files w' v = Some bs' \<and> stores P pw keys h bs' (tbl @ rest @ [(next_random w 16, Some it)]))"
    using e st(1) by (simp add: evolves_def updating_def)
  moreover have "\<exists>bs'. files w' v = Some bs' \<and> stores P pw keys h bs' (tbl @ rest @ [(next_random w 16, Some it)])" if "r = Inr i" for i
    using a r that unfolding atomic_update_def by blast
  ultimately show "\<exists>bs' rest'. files w' v = Some bs' \<and> stores P pw keys h bs' (tbl @ rest') \<and>
      (rest' = rest @ [(next_random w 16, Some it)] \<or> (\<forall>i. r \<noteq> Inr i) \<and> rest' = rest)"
    using st by (cases r) (blast, fastforce)
  show "\<And>i. r = Inr i \<Longrightarrow> i = next_random w 16" using i r by blast
qed

lemma put_append: "put i x (tbl @ rest) = put i x tbl @ put i x rest"
  by (simp add: put_def)

lemma put_other: "i \<notin> fst ` set tbl \<Longrightarrow> put i x tbl = tbl"
  unfolding put_def by (rule map_idI) force

lemma delete_survives:
  assumes P: "aead_correct P" and s: "uv_path s = v" "uv_keys s = keys"
    and st: "survives P pw keys h v tbl (files w)" and i: "i \<notin> fst ` set tbl" and r: "delete P s i w = (r, w')"
  shows "evolves (survives P pw keys h v tbl) w w'"
proof -
  obtain bs rest where b: "files w v = Some bs" "stores P pw keys h bs (tbl @ rest)" using st unfolding survives_def by blast
  have "atomic_update v (\<lambda>bs'. stores P pw keys h bs' (put i None (tbl @ rest))) (delete P s i) w"
    by (rule atomic_weaken [OF delete_atomic [OF P b(2) s b(1), of i]]) simp
  then obtain seed where "evolves (updating (unique_tmp_path v seed) v
      (\<lambda>bs'. stores P pw keys h bs' (tbl @ put i None rest)) (files w)) w w'"
    unfolding atomic_update_def put_append put_other [OF i] using r by auto
  then show ?thesis by (rule updating_survives [OF _ st])
qed

lemma rollback_survives:
  assumes P: "aead_correct P" and s: "uv_path s = v" "uv_keys s = keys"
    and st: "survives P pw keys h v tbl (files w)" and i: "set ids \<inter> fst ` set tbl = {}" and r: "rollback P s ids w = (r, w')"
  shows "evolves (survives P pw keys h v tbl) w w'"
  using st i r
proof (induction ids arbitrary: w)
  case Nil
  then show ?case by (simp add: evolves_refl)
next
  case (Cons i ids)
  obtain rd w1 where d: "delete P s i w = (rd, w1)" by fastforce
  have e: "evolves (survives P pw keys h v tbl) w w1"
    by (rule delete_survives [OF P s Cons.prems(1) _ d]) (use Cons.prems(2) in auto)
  have "evolves (survives P pw keys h v tbl) w1 w'" if "rd = Inr ()"
    using Cons.IH [of w1] Cons.prems(2,3) e that by (auto simp: catch_act_def d evolves_def)
  moreover have "w' = w1" if "rd \<noteq> Inr ()"
    using Cons.prems(3) that by (auto simp: catch_act_def d split: sum.splits fault.splits)
  ultimately show ?case using e evolves_trans by blast
qed

lemma undone_survives:
  assumes P: "aead_correct P" and s: "uv_path s = v" "uv_keys s = keys"
    and st: "survives P pw keys h v tbl (files w)" and i: "set ids \<inter> fst ` set tbl = {}"
    and r: "bind_act (rollback P s ids) (\<lambda>rollback_ok. if rollback_ok
      then fail (InvalidState ''import add failed; rollback succeeded'') else fail PartialImport) w = (r, w')"
  shows "evolves (survives P pw keys h v tbl) w w'"
proof -
  obtain rr w2 where b: "rollback P s ids w = (rr, w2)" by fastforce
  then have "w' = w2" using r by (auto simp: bind_act_def split: sum.splits if_splits)
  then show ?thesis using rollback_survives [OF P s st i b] by simp
qed

text \<open>
  The random stream: every piece of 16 bytes that a run consumes is no id of the vault, and occurs once.
\<close>

definition piece :: "world \<Rightarrow> nat \<Rightarrow> byte list" where
  "piece w n = map (\<lambda>i. entropy w (n + i)) [0..<16]"

definition fresh_draws :: "item_table \<Rightarrow> world \<Rightarrow> world \<Rightarrow> bool" where
  "fresh_draws tbl w w' \<longleftrightarrow> (\<forall>n. drawn w \<le> n \<and> n + 16 \<le> drawn w' \<longrightarrow> piece w n \<notin> fst ` set tbl \<and>
     (\<forall>m. n + 16 \<le> m \<and> m + 16 \<le> drawn w' \<longrightarrow> piece w m \<noteq> piece w n))"

definition consumed :: "world \<Rightarrow> nat \<Rightarrow> byte list set" where
  "consumed w k = {piece w n | n. drawn w \<le> n \<and> n + 16 \<le> k}"

lemma next_piece: "entropy v = entropy w \<Longrightarrow> next_random v 16 = piece w (drawn v)"
  by (simp add: next_random_def piece_def)

lemma consumed_mono: "k \<le> l \<Longrightarrow> consumed w k \<subseteq> consumed w l"
  by (auto simp: consumed_def)

lemma fresh_new:
  assumes "fresh_draws tbl w w'" "drawn w \<le> k" "k + 16 \<le> drawn w'"
  shows "piece w k \<notin> fst ` set tbl \<union> consumed w k"
  using assms unfolding fresh_draws_def consumed_def by auto

lemma fresh_new': "fresh_draws tbl w w' \<Longrightarrow> drawn w \<le> n \<Longrightarrow> n + 16 \<le> k \<Longrightarrow> k \<le> drawn w' \<Longrightarrow> piece w n \<notin> fst ` set tbl"
  unfolding fresh_draws_def using le_trans by blast

lemma fresh_consumed: "fresh_draws tbl w w' \<Longrightarrow> k \<le> drawn w' \<Longrightarrow> consumed w k \<inter> fst ` set tbl = {}"
proof (rule equals0I)
  fix i assume f: "fresh_draws tbl w w'" "k \<le> drawn w'" and i: "i \<in> consumed w k \<inter> fst ` set tbl"
  then obtain n where "i = piece w n" "drawn w \<le> n" "n + 16 \<le> k" unfolding consumed_def by blast
  then show False using fresh_new' [OF f(1) _ _ f(2)] i by blast
qed

lemma add_step:
  assumes P: "aead_correct P" and s: "uv_path s = v" "uv_keys s = keys"
    and st: "files w v = Some bs" "stores P pw keys h bs (tbl @ rest)"
    and new: "drawn w + 16 \<le> drawn w' \<Longrightarrow> next_random w 16 \<notin> fst ` set (tbl @ rest)"
    and r: "add P s it w = (r, w')"
  shows "evolves (survives P pw keys h v tbl) w w' \<and> drawn w \<le> drawn w' \<and> (\<forall>i. r = Inr i \<longrightarrow>
    i = next_random w 16 \<and> drawn w + 16 \<le> drawn w' \<and>
    (\<exists>bs'. files w' v = Some bs' \<and> stores P pw keys h bs' (tbl @ rest @ [(i, Some it)])))"
proof -
  have sv: "survives P pw keys h v tbl (files w)" using st by (auto simp: survives_def)
  have d: "drawn w \<le> drawn w'"
    using calm_traced [OF quiet_add [of P s it]] r unfolding traced_def recorded_from_def by (metis snd_conv)
  obtain rl w1 where l: "load_vault P s w = (rl, w1)" by fastforce
  show ?thesis
  proof (cases rl)
    case (Inl e)
    then have "r = Inl e" "w' = w1" using r by (simp_all add: add_def bind_act_def l)
    then show ?thesis using withinD [of "survives P pw keys h v tbl", OF within_load_vault sv l] d by simp
  next
    case (Inr ld)
    then have w1: "drawn w1 = drawn w"
      using l by (auto simp: load_vault_def bind_act_eq_Inr fs_read_Inr)
    let ?k = "\<lambda>record_id. bind_act fresh_id (\<lambda>revision_id.
       bind_act (build_item_frame P it (uk_item_wrap_key (uv_keys s)) (ld_header ld) record_id revision_id) (\<lambda>frame_bytes.
       bind_act (lift_rs (stage_records ld None (Some \<lparr>pr_record_id = record_id, pr_record_kind = RECORD_KIND_ITEM,
         pr_revision_id = revision_id, pr_frame_bytes = frame_bytes\<rparr>))) (\<lambda>records.
       bind_act (rewrite_vault P s ld records) (\<lambda>_. ret record_id))))"
    let ?w2 = "w1\<lparr>drawn := drawn w1 + 16\<rparr>"
    have "quiet_act (?k j)" for j by (auto intro!: calm_bind)
    then have t: "recorded_from ?w2 (snd (?k j ?w2))" for j by (simp add: calm_def traced_def)
    have "fresh_id w1 = (Inr (next_random w1 16), ?w2)" by (simp add: fresh_id_Inr)
    then have "add P s it w = ?k (next_random w1 16) ?w2"
      using l Inr by (simp add: add_def bind_act_Inr [of _ _ ld w1] bind_act_Inr [of fresh_id])
    then have "w' = snd (?k (next_random w1 16) ?w2)" using r by (metis snd_conv)
    then have "recorded_from ?w2 w'" using t [of "next_random w1 16"] by (simp only:)
    then have "drawn ?w2 \<le> drawn w'" by (simp add: recorded_from_def)
    then have d2: "drawn w + 16 \<le> drawn w'" using w1 by simp
    note a = add_survives [OF P s st new [OF d2] r]
    show ?thesis
    proof (intro conjI allI impI)
      fix i assume i: "r = Inr i"
      show n: "i = next_random w 16" by (rule a(3) [OF i])
      obtain bs' rest' where "files w' v = Some bs'" "stores P pw keys h bs' (tbl @ rest')"
        "rest' = rest @ [(next_random w 16, Some it)]" using a(2) i by blast
      then show "\<exists>bs'. files w' v = Some bs' \<and> stores P pw keys h bs' (tbl @ rest @ [(i, Some it)])" using n by blast
    qed (use a(1) d d2 in auto)
  qed
qed

lemma import_survives:
  assumes P: "aead_correct P" and s: "uv_path s = v" "uv_keys s = keys"
    and fr: "fresh_draws tbl w0 wl"
    and st: "files w v = Some bs" "stores P pw keys h bs (tbl @ rest)"
    and w: "entropy w = entropy w0" "drawn w0 \<le> drawn w" "drawn w' \<le> drawn wl"
    and c: "set ids \<union> fst ` set rest \<subseteq> consumed w0 (drawn w)"
    and r: "import_items P s items ids w = (r, w')"
  shows "evolves (survives P pw keys h v tbl) w w'"
  using st w c r
proof (induction items arbitrary: w bs rest ids)
  case Nil
  then show ?case by (auto intro!: evolves_refl simp: survives_def)
next
  case (Cons it items)
  obtain ra w1 where a: "add P s it w = (ra, w1)" by fastforce
  let ?rest = "case ra of Inr i \<Rightarrow> import_items P s items (ids @ [i])
     | Inl (Err _) \<Rightarrow> bind_act (rollback P s ids) (\<lambda>rollback_ok.
         if rollback_ok then fail (InvalidState ''import add failed; rollback succeeded'') else fail PartialImport)
     | Inl Panic \<Rightarrow> lift_rs panic"
  have m: "traced ?rest"
    by (auto intro!: traced_bind calm_traced [OF quiet_rollback] calm_traced [OF quiet_import_items] split: sum.splits fault.splits)
  have r: "?rest w1 = (r, w')"
    using Cons.prems(7) by (simp add: catch_act_def a)
  have d: "drawn w1 \<le> drawn w'" using m r unfolding traced_def recorded_from_def by (metis snd_conv)
  have n: "next_random w 16 = piece w0 (drawn w)" by (rule next_piece [OF Cons.prems(3)])
  have new: "next_random w 16 \<notin> fst ` set (tbl @ rest)" if "drawn w + 16 \<le> drawn w1"
    using fresh_new [OF fr Cons.prems(4)] that d Cons.prems(5,6) unfolding n by auto
  have e: "evolves (survives P pw keys h v tbl) w w1" "drawn w \<le> drawn w1"
    and i: "\<And>i. ra = Inr i \<Longrightarrow> i = next_random w 16 \<and> drawn w + 16 \<le> drawn w1 \<and>
      (\<exists>bs'. files w1 v = Some bs' \<and> stores P pw keys h bs' (tbl @ rest @ [(i, Some it)]))"
    using add_step [OF P s Cons.prems(1,2) new a] by auto
  have w1: "entropy w1 = entropy w0" "drawn w0 \<le> drawn w1" "survives P pw keys h v tbl (files w1)"
    using e Cons.prems(3,4) by (auto simp: evolves_def)
  show ?case
  proof (cases ra)
    case (Inr i)
    obtain bs' where b: "files w1 v = Some bs'" "stores P pw keys h bs' (tbl @ rest @ [(i, Some it)])"
      and k: "i = piece w0 (drawn w)" "drawn w + 16 \<le> drawn w1" using i [OF Inr] n by auto
    have "i \<in> consumed w0 (drawn w1)" using k Cons.prems(4) unfolding consumed_def by blast
    then have "set (ids @ [i]) \<union> fst ` set (rest @ [(i, Some it)]) \<subseteq> consumed w0 (drawn w1)"
      using Cons.prems(6) consumed_mono [OF e(2), of w0] by auto
    from Cons.IH [OF b w1(1,2) Cons.prems(5) this] show ?thesis
      using evolves_trans [OF e(1)] r Inr by simp
  next
    case (Inl f)
    show ?thesis
    proof (cases f)
      case Panic
      then show ?thesis using r Inl e(1) by simp
    next
      case (Err x)
      have "consumed w0 (drawn w) \<inter> fst ` set tbl = {}"
        using fresh_consumed [OF fr] e(2) d Cons.prems(5) by simp
      then have "set ids \<inter> fst ` set tbl = {}" using Cons.prems(6) by blast
      moreover have "bind_act (rollback P s ids) (\<lambda>rollback_ok. if rollback_ok
          then fail (InvalidState ''import add failed; rollback succeeded'') else fail PartialImport) w1 = (r, w')"
        using r Inl Err by simp
      ultimately show ?thesis using evolves_trans [OF e(1)] undone_survives [OF P s w1(3)] by blast
    qed
  qed
qed

subsection \<open>The commands\<close>

lemma within_unlock [simp]: "within R (unlock_session P v pw)"
  by (simp add: unlock_session_def unlock_def unlock_impl_def within_bind)

lemma cli_within_Pair [simp]: "cli_within R (Pair r)"
  using cli_within_lift [of R r] by (simp add: lift_cli_def)

lemma cli_within_print [simp]: "cli_within R (print_ids ids)"
  by (induction ids) (auto intro!: cli_within_bind)

lemma within_queries [simp]:
  "within R (with_item P s i f)" "within R (list_vault P v pw)" "within R cli_unix_now_millis"
  by (simp_all add: with_item_def list_vault_def list_items_def within_bind)
    (simp add: cli_unix_now_millis_def within_def Let_def evolves_refl)

lemma cli_within_new:
  assumes "\<And>s. R s \<Longrightarrow> s v \<noteq> None" "away v R" "p \<noteq> v \<Longrightarrow> cli_within R (f ())"
  shows "cli_within R (bind_cli (do_io (fs_create_new p)) f)"
proof (cases "p = v")
  case True
  have "evolves R (cn_world c) (cn_world (snd (bind_cli (do_io (fs_create_new p)) f c)))" if "R (files (cn_world c))" for c
    using that assms(1) [OF that]
    by (auto simp: True bind_cli_def do_io_def fs_create_new_def evolves_snapshot0 split: option.splits)
  then show ?thesis by (simp add: cli_within_def)
next
  case False
  then show ?thesis using within_calls_away(1) [OF assms(2) False] assms(3)
    by (auto intro!: cli_within_bind cli_within_io)
qed

lemma unlock_bytes_path: "unlock_bytes P p pw bs = Inr s \<Longrightarrow> uv_path s = p"
  by (auto simp: unlock_bytes_def Let_def)

lemma cli_within_session:
  assumes "\<And>s. uv_path s = p \<Longrightarrow> cli_within R (f s)"
  shows "cli_within R (bind_cli (do_io (unlock_session P p pw)) f)"
  unfolding cli_within_def
proof (intro allI impI)
  fix c :: console assume R: "R (files (cn_world c))"
  obtain r w1 where u: "unlock_session P p pw (cn_world c) = (r, w1)" by fastforce
  have e: "evolves R (cn_world c) w1" by (rule withinD [where Q = R, OF within_unlock R u])
  show "evolves R (cn_world c) (cn_world (snd (bind_cli (do_io (unlock_session P p pw)) f c)))"
  proof (cases r)
    case (Inl x)
    then show ?thesis using e u by (simp add: bind_cli_def do_io_def)
  next
    case (Inr s)
    then have "uv_path s = p" using u by (auto simp: unlock_session_Inr unlock_bytes_path)
    then have "evolves R w1 (cn_world (snd (f s (c\<lparr>cn_world := w1\<rparr>))))"
      using assms [OF \<open>uv_path s = p\<close>, unfolded cli_within_def, rule_format, of "c\<lparr>cn_world := w1\<rparr>"] e
      by (simp add: evolves_def)
    then show ?thesis using evolves_trans [OF e] u Inr by (simp add: bind_cli_def do_io_def)
  qed
qed

lemma transfer_survives:
  assumes v: "v \<notin> overwrites (CmdTransfer a)"
  shows "cli_within (survives P pw keys h v tbl) (transfer_command P2 Q clk a stdin)"
proof -
  note away = within_calls_away [OF away_survives [of v P pw keys h tbl]]
  have r: "cli_within (survives P pw keys h v tbl) (release_plaintext out x)" if "out \<noteq> Some v" for out x
    using that away(4) by (auto simp: release_plaintext_def intro!: cli_within_io split: option.splits)
  show ?thesis
  proof (cases a)
    case (TransferCreate kf idf input out ex)
    then show ?thesis using v away(4)
      by (auto simp: transfer_command_def transfer_create_command_def create_signed_transfer_envelope_def
          intro!: cli_within_bind cli_within_io within_map_err)
  next
    case (TransferReceive env kf idf out seen)
    then show ?thesis using v away(4) r
      by (auto simp: transfer_command_def receive_split receive_writes_def
          intro!: cli_within_bind cli_within_io within_map_err split: prod.splits)
  qed
qed

lemma device_survives:
  assumes v: "v \<notin> overwrites (CmdDevice a)"
  shows "cli_within (survives P pw keys h v tbl) (device_command P2 Q a stdin)"
proof -
  note away = within_calls_away [OF away_survives [of v P pw keys h tbl]]
  have "within (survives P pw keys h v tbl) (save_sealed_keypair P2 kf d kp pp)" if "kf \<noteq> v" for kf d kp pp
    unfolding save_sealed_keypair_def using that away(4) by (auto intro!: within_bind within_map_err)
  then show ?thesis using v away(4)
    by (cases a) (auto simp: device_command_def pair_split pair_saves_def intro!: cli_within_bind cli_within_io)
qed

text \<open>Every command, except \<open>add\<close> to this vault and \<open>import\<close> into it.\<close>

lemma others_survive:
  assumes v: "v \<notin> overwrites cmd" "\<And>p seed. changes cmd = Some p \<Longrightarrow> unique_tmp_path p seed \<noteq> v"
    and o: "\<forall>l k i. cmd \<noteq> CmdAdd l k v \<and> cmd \<noteq> CmdImport i v"
  shows "cli_within (survives P pw keys h v tbl) (run_command P2 Q clk cmd stdin)"
proof -
  let ?R = "survives P pw keys h v tbl"
  note away = within_calls_away [OF away_survives [of v P pw keys h tbl]]
  have se: "s v \<noteq> None" if "?R s" for s using that by (auto simp: survives_def)
  show ?thesis
  proof (cases cmd)
    case (CmdInit p)
    then have "within ?R (create P2 \<lparr>cp_path = p, cp_password = pw2\<rparr>)" for pw2
      using v(2) by (intro within_create_survives) simp
    then show ?thesis using CmdInit
      by (auto simp: run_command_def init_vault_def init_vault_with_passwords_def intro!: cli_within_bind cli_within_io)
  next
    case (CmdAdd l k p)
    have "within ?R (add P2 s it)" if "uv_path s = p" for s it
      using v(2) o CmdAdd that by (intro within_items_away [OF away_survives]) auto
    then show ?thesis using CmdAdd
      by (auto simp: run_command_def add_command_def add_item_def intro!: cli_within_session cli_within_bind cli_within_io)
  next
    case (CmdList p)
    then show ?thesis by (auto simp: run_command_def list_command_def intro!: cli_within_bind cli_within_io)
  next
    case (CmdGet i p)
    then show ?thesis by (auto simp: run_command_def get_command_def get_item_def intro!: cli_within_bind cli_within_io)
  next
    case (CmdExport out p)
    then show ?thesis using away(2)
      by (auto simp: run_command_def export_command_def export_bundle_to_def
          intro!: cli_within_bind cli_within_io cli_within_new [OF se away_survives])
  next
    case (CmdImport i p)
    have "within ?R (import_bundle P2 s b pp)" if "uv_path s = p" for s b pp
      using v(2) o CmdImport that by (intro within_items_away [OF away_survives]) auto
    then show ?thesis using CmdImport
      by (auto simp: run_command_def import_command_def import_bundle_from_def
          intro!: cli_within_session cli_within_bind cli_within_io)
  next
    case CmdLock
    then show ?thesis by (simp add: run_command_def)
  next
    case (CmdTransfer a)
    then show ?thesis using transfer_survives v(1) by (simp add: run_command_def)
  next
    case (CmdDevice a)
    then show ?thesis using device_survives v(1) by (simp add: run_command_def)
  qed
qed

text \<open>\<open>add\<close> and \<open>import\<close>, step by step.\<close>

lemma evolves_bind_cli:
  assumes "bind_cli m f c = (r, c')" "evolves R (cn_world c) (cn_world (snd (m c)))"
    and "\<And>x c1. m c = (Inr x, c1) \<Longrightarrow> f x c1 = (r, c') \<Longrightarrow> evolves R (cn_world c1) (cn_world c')"
  shows "evolves R (cn_world c) (cn_world c')"
proof (cases "m c")
  case (Pair a c1)
  show ?thesis
  proof (cases a)
    case (Inl e)
    then show ?thesis using assms(1,2) Pair by (simp add: bind_cli_def)
  next
    case (Inr x)
    then have "evolves R (cn_world c1) (cn_world c')" using assms(1,3) Pair by (simp add: bind_cli_def)
    then show ?thesis using assms(2) evolves_trans Pair by simp
  qed
qed

lemma prompt_world: "prompt_password b c = (r, c') \<Longrightarrow> cn_world c' = cn_world c"
  by (auto simp: prompt_password_def read_password_from_stdin_def bind_cli_def read_line_def prompt_tty_def Let_def
      split: if_splits sum.splits list.splits)

definition only_password :: "prims \<Rightarrow> path \<Rightarrow> byte list \<Rightarrow> byte list \<Rightarrow> bool \<Rightarrow> console \<Rightarrow> bool" where
  "only_password P v pw bs stdin c \<longleftrightarrow> (\<forall>pw' c1. prompt_password stdin c = (Inr pw', c1) \<longrightarrow>
     pw' = pw \<or> (\<exists>e. unlock_bytes P v pw' bs = Inl e))"

lemma session_known:
  assumes "aead_correct P" "stores P pw keys h bs tbl" "files w v = Some bs"
    and "pw' = pw \<or> (\<exists>e. unlock_bytes P v pw' bs = Inl e)" "unlock_session P v pw' w = (Inr s, w1)"
  shows "s = session_of v h keys" "w1 = snapshot w"
  using assms unlocked_stored(1) [OF assms(1,2), of v s] by (auto simp: unlock_session_Inr)

lemma survives_self: "stores P pw keys h bs tbl \<Longrightarrow> s v = Some bs \<Longrightarrow> survives P pw keys h v tbl s"
  unfolding survives_def by (metis append_Nil2)

lemma evolves_prompt:
  assumes "bind_cli (prompt_password b) f c = (r, c')" "R (files (cn_world c))"
    and f: "\<And>x c1. prompt_password b c = (Inr x, c1) \<Longrightarrow> cn_world c1 = cn_world c \<Longrightarrow> f x c1 = (r, c') \<Longrightarrow>
      evolves R (cn_world c1) (cn_world c')"
  shows "evolves R (cn_world c) (cn_world c')"
proof (rule evolves_bind_cli [OF assms(1)])
  show "evolves R (cn_world c) (cn_world (snd (prompt_password b c)))"
    using cli_within_prompt assms(2) unfolding cli_within_def by blast
qed (rule f, assumption, rule prompt_world)

lemma evolves_own_session:
  assumes "bind_cli (do_io (unlock_session P v pw')) f c = (r, c')"
    and P: "aead_correct P" and st: "stores P pw keys h bs tbl" "files (cn_world c) v = Some bs"
    and pw: "pw' = pw \<or> (\<exists>e. unlock_bytes P v pw' bs = Inl e)"
    and f: "\<And>c1. cn_world c1 = snapshot (cn_world c) \<Longrightarrow> f (session_of v h keys) c1 = (r, c') \<Longrightarrow>
      evolves (survives P pw keys h v tbl) (cn_world c1) (cn_world c')"
  shows "evolves (survives P pw keys h v tbl) (cn_world c) (cn_world c')"
proof (rule evolves_bind_cli [OF assms(1)])
  show "evolves (survives P pw keys h v tbl) (cn_world c) (cn_world (snd (do_io (unlock_session P v pw') c)))"
    using cli_within_io [OF within_unlock] survives_self [OF st(1), of "files (cn_world c)"] st(2)
    unfolding cli_within_def by blast
  fix s c1 assume "do_io (unlock_session P v pw') c = (Inr s, c1)" "f s c1 = (r, c')"
  moreover from this have "s = session_of v h keys" "cn_world c1 = snapshot (cn_world c)"
    using session_known [OF P st pw] by (auto simp: do_io_eq)
  ultimately show "evolves (survives P pw keys h v tbl) (cn_world c1) (cn_world c')" using f by simp
qed

lemma write_world: "write_stdout bs c = (r, c') \<Longrightarrow> cn_world c' = cn_world c"
  using cn_world_write [of bs c] by simp

lemma evolves_own_command:
  assumes r: "bind_cli (prompt_password stdin) (\<lambda>pw'. bind_cli (prompt_password stdin) (\<lambda>x.
      bind_cli (do_io (unlock_session P v pw')) (f x))) c = (r, c')"
    and P: "aead_correct P" and st: "stores P pw keys h bs tbl" "files (cn_world c) v = Some bs"
    and pw: "only_password P v pw bs stdin c"
    and f: "\<And>x c1. cn_world c1 = snapshot (cn_world c) \<Longrightarrow> f x (session_of v h keys) c1 = (r, c') \<Longrightarrow>
      evolves (survives P pw keys h v tbl) (cn_world c1) (cn_world c')"
  shows "evolves (survives P pw keys h v tbl) (cn_world c) (cn_world c')"
  using r
proof (rule evolves_prompt)
  let ?R = "survives P pw keys h v tbl"
  show sv: "?R (files (cn_world c))" by (rule survives_self [of _ _ _ _ _ _ "files (cn_world c)", OF st])
  fix pw' c2 assume p: "prompt_password stdin c = (Inr pw', c2)" and c2: "cn_world c2 = cn_world c"
  assume "bind_cli (prompt_password stdin) (\<lambda>x. bind_cli (do_io (unlock_session P v pw')) (f x)) c2 = (r, c')"
  then show "evolves ?R (cn_world c2) (cn_world c')"
  proof (rule evolves_prompt)
    show "?R (files (cn_world c2))" using sv c2 by simp
    fix x c3 assume c3: "cn_world c3 = cn_world c2" and u: "bind_cli (do_io (unlock_session P v pw')) (f x) c3 = (r, c')"
    show "evolves ?R (cn_world c3) (cn_world c')"
      by (rule evolves_own_session [OF u P st(1)])
         (use st(2) c2 c3 pw p f in \<open>auto simp: only_password_def\<close>)
  qed
qed

lemma add_command_survives:
  assumes P: "aead_correct P" and st: "stores P pw keys h bs tbl" "files (cn_world c) v = Some bs"
    and pw: "only_password P v pw bs stdin c" and fr: "fresh_draws tbl (cn_world c) (cn_world c')"
    and r: "add_command P l k v stdin c = (r, c')"
  shows "evolves (survives P pw keys h v tbl) (cn_world c) (cn_world c')"
proof (cases "parse_item_kind k")
  case (Inl e)
  then show ?thesis using r survives_self [OF st(1), of "files (cn_world c)"] st(2)
    by (simp add: add_command_def evolves_refl)
next
  case (Inr kind)
  let ?it = "\<lambda>x. \<lparr>pi_kind = kind, pi_label = l, pi_tags = [], pi_secret = x\<rparr>"
  let ?print = "\<lambda>i. write_stdout (line_of (''Item ID: '' @ hex_id i))"
  have "bind_cli (prompt_password stdin) (\<lambda>pw'. bind_cli (prompt_password stdin) (\<lambda>x.
      bind_cli (do_io (unlock_session P v pw')) (\<lambda>session. bind_cli (do_io (add P session (?it x))) ?print))) c = (r, c')"
    using r Inr by (simp add: add_command_def add_item_def)
  then show ?thesis
  proof (rule evolves_own_command [OF _ P st pw])
    fix x and c1 :: console assume c1: "cn_world c1 = snapshot (cn_world c)"
    assume b: "bind_cli (do_io (add P (session_of v h keys) (?it x))) ?print c1 = (r, c')"
    obtain ra w where a: "add P (session_of v h keys) (?it x) (cn_world c1) = (ra, w)" by fastforce
    have w: "cn_world c' = w"
      using b a by (auto simp: bind_cli_def do_io_def dest: write_world split: sum.splits)
    have e: "entropy (cn_world c1) = entropy (cn_world c)" "drawn (cn_world c1) = drawn (cn_world c)"
      "files (cn_world c1) v = Some bs" using c1 st(2) by simp_all
    have "next_random (cn_world c1) 16 \<notin> fst ` set (tbl @ [])" if "drawn (cn_world c1) + 16 \<le> drawn w"
      using fresh_new [OF fr order_refl] that next_piece [OF e(1)] w e(2) by simp
    from add_step [OF P _ _ e(3) _ this a] show "evolves (survives P pw keys h v tbl) (cn_world c1) (cn_world c')"
      using st(1) w by simp
  qed
qed

lemma import_bundle_survives:
  assumes P: "aead_correct P" and st: "stores P pw keys h bs tbl" "files (cn_world c1) v = Some bs"
    and e: "entropy (cn_world c1) = entropy w0" "drawn (cn_world c1) = drawn w0" and fr: "fresh_draws tbl w0 (cn_world c')"
    and r: "bind_cli (do_io (import_bundle P (session_of v h keys) b pp)) print_ids c1 = (r, c')"
  shows "evolves (survives P pw keys h v tbl) (cn_world c1) (cn_world c')"
proof (cases "authenticate P b pp")
  case (Inl x)
  then have "cn_world c' = cn_world c1" using r by (auto simp: import_bundle_def bind_cli_def do_io_def)
  then show ?thesis using survives_self [OF st(1), of "files (cn_world c1)"] st(2) by (simp add: evolves_refl)
next
  case (Inr items)
  obtain ri w where a: "import_items P (session_of v h keys) items [] (cn_world c1) = (ri, w)" by fastforce
  then have i: "import_bundle P (session_of v h keys) b pp (cn_world c1) = (ri, w)" using Inr by (simp add: import_bundle_def)
  have w: "cn_world c' = w"
  proof (cases ri)
    case (Inl x)
    then show ?thesis using r i by (auto simp: bind_cli_def do_io_def)
  next
    case (Inr ids)
    then have "print_ids ids (c1\<lparr>cn_world := w\<rparr>) = (r, c')" using r i by (simp add: bind_cli_def do_io_def)
    then show ?thesis using print_ids_world [of ids "c1\<lparr>cn_world := w\<rparr>"] by simp
  qed
  show ?thesis unfolding w
    by (rule import_survives [where rest = "[]", OF P _ _ fr st(2) _ e(1) _ _ _ a]) (use st(1) e(2) w in simp_all)
qed

lemma import_command_survives:
  assumes P: "aead_correct P" and st: "stores P pw keys h bs tbl" "files (cn_world c) v = Some bs"
    and pw: "only_password P v pw bs stdin c" and fr: "fresh_draws tbl (cn_world c) (cn_world c')"
    and r: "import_command P i v stdin c = (r, c')"
  shows "evolves (survives P pw keys h v tbl) (cn_world c) (cn_world c')"
proof -
  let ?R = "survives P pw keys h v tbl"
  have "bind_cli (prompt_password stdin) (\<lambda>pw'. bind_cli (prompt_password stdin) (\<lambda>pp.
      bind_cli (do_io (unlock_session P v pw')) (\<lambda>session. bind_cli (do_io (fs_read i)) (\<lambda>b.
      bind_cli (do_io (import_bundle P session b pp)) print_ids)))) c = (r, c')"
    using r by (simp add: import_command_def import_bundle_from_def)
  then show ?thesis
  proof (rule evolves_own_command [OF _ P st pw])
    fix pp and c1 :: console assume c1: "cn_world c1 = snapshot (cn_world c)"
    assume "bind_cli (do_io (fs_read i)) (\<lambda>b. bind_cli (do_io (import_bundle P (session_of v h keys) b pp)) print_ids) c1 = (r, c')"
    then show "evolves ?R (cn_world c1) (cn_world c')"
    proof (rule evolves_bind_cli)
      show "evolves ?R (cn_world c1) (cn_world (snd (do_io (fs_read i) c1)))"
        using cli_within_io [OF within_read [of ?R i]] survives_self [OF st(1), of "files (cn_world c1)"] c1 st(2)
        unfolding cli_within_def by (metis files_snapshot)
      fix b c2 assume "do_io (fs_read i) c1 = (Inr b, c2)"
      then have c2: "cn_world c2 = snapshot (cn_world c1)" by (auto simp: do_io_eq fs_read_Inr)
      assume "bind_cli (do_io (import_bundle P (session_of v h keys) b pp)) print_ids c2 = (r, c')"
      from import_bundle_survives [OF P st(1) _ _ _ fr this] show "evolves ?R (cn_world c2) (cn_world c')"
        using c2 c1 st(2) by simp
    qed
  qed
qed

subsection \<open>Properties\<close>

text \<open>C1. No command loses an item: let a vault file hold a table of records, and let any command of the program
  run over the disk, on this vault or not, with any input, under any failures of the system calls. In every
  state of the disk that the run passes through, which is where a crash may leave it, the file is there and
  holds all records of the table, unchanged and in their order, possibly with more after them: through a failed
  \<open>add\<close>, the rolled back additions of an \<open>import\<close>, and an \<open>init\<close> on the same path, which does not touch it. The
  command must not be told to write its own output over the vault, the random ids drawn must be new, and what
  is typed as password for this vault must be its password or not open it.\<close>

theorem no_command_loses_items:
  assumes "aead_correct P" "stores P pw keys h bs tbl" "files (cn_world c) v = Some bs"
    and "run_command P Q clk cmd stdin c = (r, c')"
    and "v \<notin> overwrites cmd" "\<forall>p seed. changes cmd = Some p \<longrightarrow> v \<noteq> unique_tmp_path p seed"
    and "(\<exists>l k. cmd = CmdAdd l k v) \<or> (\<exists>i. cmd = CmdImport i v) \<Longrightarrow>
      only_password P v pw bs stdin c \<and> fresh_draws tbl (cn_world c) (cn_world c')"
  shows "evolves (survives P pw keys h v tbl) (cn_world c) (cn_world c')"
proof -
  have sv: "survives P pw keys h v tbl (files (cn_world c))" by (rule survives_self [of P pw keys h bs tbl "files (cn_world c)" v, OF assms(2,3)])
  consider (Add) l k where "cmd = CmdAdd l k v" | (Import) i where "cmd = CmdImport i v"
    | (Other) "\<forall>l k i. cmd \<noteq> CmdAdd l k v \<and> cmd \<noteq> CmdImport i v" by blast
  then show ?thesis
  proof cases
    case Add
    then show ?thesis using add_command_survives [OF assms(1-3)] assms(4,7) by (auto simp: run_command_def)
  next
    case Import
    then show ?thesis using import_command_survives [OF assms(1-3)] assms(4,7) by (auto simp: run_command_def)
  next
    case Other
    have "cli_within (survives P pw keys h v tbl) (run_command P Q clk cmd stdin)"
      by (rule others_survive [OF assms(5) _ Other]) (use assms(6) in metis)
    then show ?thesis using sv assms(4) unfolding cli_within_def by (metis snd_conv)
  qed
qed

text \<open>The disk fails when \<open>add\<close> reads the vault again.\<close>

theorem no_command_loses_items_witness:
  "\<exists>keys h tbl (c :: console) v r c'. tbl \<noteq> [] \<and>
    run_command toy_prims toy_pqc (\<lambda>_. 0) (CmdAdd [97] (bytes_of ''api-token'') v) True c = (r, c') \<and>
    r = err (Io IoOther) \<and> calls (cn_world c') = 2 \<and>
    evolves (survives toy_prims [1] keys h v tbl) (cn_world c) (cn_world c')"
proof -
  obtain s :: UnlockedVault and h bs and w :: world and i where
    st: "stores toy_prims [1] (uv_keys s) h bs [(i, Some sample_item)]" and l: "length bs \<le> 1000"
    using sample_stored by blast
  define ww where "ww = disk bs\<lparr>faults := \<lambda>n. if n = 1 then Some (IoOther, 0) else None\<rparr>"
  let ?w = ww and ?s = "session_of vault_v h (uv_keys s)"
  have ww: "files ww vault_v = Some bs" "faults ww 0 = None" "faults ww 1 = Some (IoOther, 0)" "calls ww = 0"
    by (simp_all add: ww_def sample_world_def)
  let ?c = "console_at ?w ([1] @ 10 # [2, 3] @ 10 # [])" and ?cmd = "CmdAdd [97] (bytes_of ''api-token'') vault_v"
  obtain r c' where r: "run_command toy_prims toy_pqc (\<lambda>_. 0) ?cmd True ?c = (r, c')" by fastforce
  have u: "unlock_session toy_prims vault_v [1] ?w = (Inr ?s, snapshot ?w)"
    using unlock_session_run [of "[1]" ?w vault_v bs toy_prims] unlock_stored [OF toy_prims_aead(1) st] l
    by (simp add: ww)
  have a: "add toy_prims ?s it (snapshot ?w) = (err (Io IoOther), snapshot (snapshot ?w))" for it
    by (simp add: add_def load_vault_def bind_act_def fs_read_def snapshot_def ww ww(3) [unfolded One_nat_def])
  have k: "parse_item_kind (bytes_of ''api-token'') = Inr ApiToken" by code_simp
  have p: "prompt_password True ?c = (Inr [1], console_at ?w ([2, 3] @ 10 # []))"
    "prompt_password True (console_at ?w ([2, 3] @ 10 # [])) = (Inr [2, 3], console_at ?w [])"
    using prompt_typed [OF typed_sample(1), of ?c] prompt_typed [OF typed_sample(2), of "console_at ?w ([2, 3] @ 10 # [])"]
    by (simp_all add: console_at_def)
  have x: "r = err (Io IoOther)" "cn_world c' = snapshot (snapshot ?w)"
    using r p by (auto simp: run_command_def add_command_def k bind_cli_case add_item_def do_io_def u a)
  have e: "evolves (survives toy_prims [1] (uv_keys s) h vault_v [(i, Some sample_item)]) (cn_world ?c) (cn_world c')"
  proof (rule no_command_loses_items [OF toy_prims_aead(1) st _ r])
    show "only_password toy_prims vault_v [1] bs True ?c \<and> fresh_draws [(i, Some sample_item)] (cn_world ?c) (cn_world c')"
      using p x(2) by (auto simp: only_password_def fresh_draws_def)
    show "\<forall>p seed. changes ?cmd = Some p \<longrightarrow> vault_v \<noteq> unique_tmp_path p seed"
      using tmp_differs [of vault_v] by (metis changes.simps(2) option.inject)
  qed (simp_all add: ww)
  moreover have "calls (cn_world c') = 2" using x(2) by (simp add: snapshot_def ww)
  ultimately show ?thesis using r x(1) by blast
qed

end
