(* ===== verification/Vault_Life.thy ===== *)
theory Vault_Life
  imports Vault_Growth
begin

text \<open>
  A vault over several runs of the program: \<open>init\<close>, any number of \<open>add\<close>, then \<open>list\<close> and \<open>get\<close>, each a
  process of its own that finds the disk the one before has left.
\<close>

subsection \<open>Runs of the program\<close>

text \<open>Commands with what is typed at each, in the order they are run: the results, what each printed, the world left.\<close>

primrec runs ::
    "prims \<Rightarrow> pqc_prims \<Rightarrow> (nat \<Rightarrow> Timestamp) \<Rightarrow> (Commands \<times> byte list) list \<Rightarrow> world \<Rightarrow> (unit res \<times> byte list) list \<times> world" where
  "runs P Q clk [] w = ([], w)"
| "runs P Q clk (x # xs) w =
     (case run_command P Q clk (fst x) True (console_at w (snd x)) of (r, c) \<Rightarrow>
      case runs P Q clk xs (cn_world c) of (rs, w') \<Rightarrow> ((r, cn_stdout c) # rs, w'))"

definition typing :: "byte list list \<Rightarrow> byte list" where
  "typing ls = concat (map (\<lambda>l. l @ [10]) ls)"

text \<open>The argument that names a kind.\<close>

primrec kind_arg :: "ItemKind \<Rightarrow> byte list" where
  "kind_arg Password = bytes_of ''password''"
| "kind_arg SeedPhrase = bytes_of ''seed-phrase''"
| "kind_arg SshPrivateKey = bytes_of ''ssh-key''"
| "kind_arg ApiToken = bytes_of ''api-token''"
| "kind_arg SecureNote = bytes_of ''secure-note''"

lemma parse_kind_arg [simp]: "parse_item_kind (kind_arg k) = Inr k"
proof -
  have "parse_item_kind (kind_arg Password) = Inr Password" "parse_item_kind (kind_arg SeedPhrase) = Inr SeedPhrase"
    "parse_item_kind (kind_arg SshPrivateKey) = Inr SshPrivateKey" "parse_item_kind (kind_arg ApiToken) = Inr ApiToken"
    "parse_item_kind (kind_arg SecureNote) = Inr SecureNote" by code_simp+
  then show ?thesis by (cases k) simp_all
qed

definition add_of :: "path \<Rightarrow> byte list \<Rightarrow> PlainItem \<Rightarrow> Commands \<times> byte list" where
  "add_of v pw it = (CmdAdd (pi_label it) (kind_arg (pi_kind it)) v, typing [pw, pi_secret it])"

text \<open>Items a user can add: no tags, and a secret that is a line.\<close>

definition addable :: "PlainItem \<Rightarrow> bool" where
  "addable it \<longleftrightarrow> typed (pi_secret it) \<and> pi_tags it = [] \<and> payload_ok it"

definition file_size :: "PlainItem list \<Rightarrow> nat" where
  "file_size items = 417 + 46 * bucket (length items) + (\<Sum>it\<leftarrow>items. 268 + length (payload_bytes it))"

subsection \<open>One run\<close>

lemma typing_simps [simp]: "typing [] = []" "typing (l # ls) = l @ 10 # typing ls"
  by (simp_all add: typing_def)

text \<open>What is on the disk between two runs.\<close>

definition vault_holds :: "prims \<Rightarrow> path \<Rightarrow> byte list \<Rightarrow> item_table \<Rightarrow> nat \<Rightarrow> world \<Rightarrow> bool" where
  "vault_holds P v pw tbl n w \<longleftrightarrow> no_faults w \<and> pw \<noteq> [] \<and>
     (\<exists>keys h bs. stores P pw keys h bs tbl \<and> files w v = Some bs \<and> length bs = n)"

lemma within_create [simp]: "within (\<lambda>_. True) (create P cp)"
proof -
  have i: "within (\<lambda>_. True) (ignore_act (fs_remove_file p))" for p by (simp add: within_ignore within_remove)
  have n: "within (\<lambda>_. True) (fs_rename tmp p)" for tmp p
    by (auto simp: within_def fs_rename_def evolves_snapshot0 evolves_snapshot split: option.splits)
  have r: "within (\<lambda>_. True) (write_and_rename tmp p bs)" for tmp p bs
    unfolding write_and_rename_def using n by (auto intro!: within_bind within_create_new within_write_all)
  have v: "within (\<lambda>_. True) (persist_vault P p v hn kp rid rid2 ct n aad mk)" for p v hn kp rid rid2 ct n aad mk
    unfolding persist_vault_def Let_def persist_vault_inner_def
    using i r by (auto intro!: within_catch within_create_new within_bind split: sum.split fault.split)
  have k: "within (\<lambda>_. True) (create_session_keys P pw v hn a kp aad)" for pw v hn a kp aad
    unfolding create_session_keys_def by (auto intro!: within_bind within_map_err split: prod.splits)
  show ?thesis
    unfolding create_def Let_def using v k by (auto intro!: within_bind split: prod.splits)
qed

lemma init_leaves:
  assumes P: "aead_correct P" "kdf_total P" and w: "no_faults w" "typed pw"
    and r: "run_command P Q clk (CmdInit v) True (console_at w (typing [pw, pw])) = (Inr (), c)"
  shows "vault_holds P v pw [] 463 (cn_world c)"
proof -
  have p: "prompt_password True (console_at w (typing [pw, pw])) = (Inr pw, console_at w (typing [pw]))"
    "prompt_password True (console_at w (typing [pw])) = (Inr pw, console_at w [])"
    using prompt_typed [OF w(2)] by (simp_all add: console_at_def)
  obtain lv w1 where c: "create P \<lparr>cp_path = v, cp_password = pw\<rparr> w = (Inr lv, w1)" "cn_world c = w1"
    using r by (auto simp: run_command_def init_vault_def bind_cli_eq_Inr p init_vault_with_passwords_def do_io_eq write_stdout_Inr
        simp del: typing_simps)
  obtain u bs where f: "pw \<noteq> []" "files w1 v = Some bs" "created_file P pw u bs"
    using create_file [OF P c(1)] by blast
  obtain h where "stores P pw u h bs []" "length bs = 463"
    using created_stores [OF P(1) f(3)] by blast
  moreover have "no_faults w1"
    using withinD [OF within_create TrueI c(1)] w(1) by (simp add: evolves_def no_faults_def)
  ultimately show ?thesis using f c(2) unfolding vault_holds_def by blast
qed

lemma add_id: "add P s it w = (Inr i, w') \<Longrightarrow> \<exists>v. i = next_random v 16 \<and> (\<exists>ld. load_vault P s w = (Inr ld, v))"
  by (auto simp: add_def bind_act_eq_Inr fresh_id_Inr)

lemma add_leaves:
  assumes P: "aead_correct P" and w: "vault_holds P v pw tbl n w" "typed pw" "typed (pi_secret it)" "pi_tags it = []"
    and r: "run_command P Q clk (fst (add_of v pw it)) True (console_at w (snd (add_of v pw it))) = (Inr (), c)"
    and o: "cn_stdout c = line_of (''Item ID: '' @ hex_id i)" "i \<notin> fst ` set tbl"
  shows "length i = 16" "vault_holds P v pw (tbl @ [(i, Some it)])
    (n + 268 + length (payload_bytes it) + 46 * bucket (Suc (length tbl)) - 46 * bucket (length tbl)) (cn_world c)"
proof -
  have p: "prompt_password True (console_at w (typing [pw, pi_secret it])) = (Inr pw, console_at w (typing [pi_secret it]))"
    "prompt_password True (console_at w (typing [pi_secret it])) = (Inr (pi_secret it), console_at w [])"
    using prompt_typed [OF w(2)] prompt_typed [OF w(3)] by (simp_all add: console_at_def)
  have it: "\<lparr>pi_kind = pi_kind it, pi_label = pi_label it, pi_tags = [], pi_secret = pi_secret it\<rparr> = it"
    using w(4) by (cases it) simp
  have a: "add_item P v pw it (console_at w []) = (Inr (), c)"
    using r by (simp add: add_of_def run_command_def add_command_def bind_cli_case p it del: typing_simps)
  obtain keys h bs where st: "no_faults w" "stores P pw keys h bs tbl" "files w v = Some bs" "length bs = n"
    using w(1) unfolding vault_holds_def by blast
  obtain s w1 j w2 where u: "unlock_session P v pw w = (Inr s, w1)" and ad: "add P s it w1 = (Inr j, w2)"
    and out: "write_stdout (line_of (''Item ID: '' @ hex_id j)) ((console_at w [])\<lparr>cn_world := w2\<rparr>) = (Inr (), c)"
    using a by (auto simp: add_item_def bind_cli_eq_Inr do_io_eq)
  have c2: "cn_world c = w2" "j = i"
    using out o(1) by (auto simp: write_stdout_Inr line_of_def hex_id_def hex_of_inj bytes_of_inj)
  have w1: "w1 = snapshot w" and ub: "unlock_bytes P v pw bs = Inr s" using u st(3) by (auto simp: unlock_session_Inr)
  have s: "s = session_of v h keys" by (rule unlocked_stored(1) [OF P st(2) ub])
  have i: "i = next_random w 16"
    using add_id [OF ad] c2(2) by (auto simp: load_vault_def bind_act_eq_Inr fs_read_Inr w1)
  then show "length i = 16" by simp
  have new: "next_random w1 16 \<notin> fst ` set tbl" using o(2) i by (simp add: w1)
  obtain bs' where b: "files w2 v = Some bs'"
    "length bs' + 46 * bucket (length tbl) = length bs + 268 + length (payload_bytes it) + 46 * bucket (Suc (length tbl))"
    using add_growth [OF P st(2), of s v w1 it j w2] new ad st(3) by (auto simp: s w1)
  have at: "atomic_update v (\<lambda>bs'. stores P pw keys h bs' (tbl @ [(next_random w1 16, Some it)])) (add P s it) w1"
    using add_atomic [OF P st(2), of s v w1 it] new st(3) by (auto simp: s w1)
  have "stores P pw keys h bs' (tbl @ [(i, Some it)])" "faults w2 = faults w"
    using at ad b(1) by (auto simp: atomic_update_def evolves_def w1 i)
  moreover have "length bs' = n + 268 + length (payload_bytes it) + 46 * bucket (Suc (length tbl)) - 46 * bucket (length tbl)"
    using b(2) st(4) by simp
  moreover have "pw \<noteq> []" "no_faults w2" using w(1) calculation(2) by (auto simp: vault_holds_def no_faults_def)
  ultimately show "vault_holds P v pw (tbl @ [(i, Some it)])
    (n + 268 + length (payload_bytes it) + 46 * bucket (Suc (length tbl)) - 46 * bucket (length tbl)) (cn_world c)"
    using b(1) c2(1) unfolding vault_holds_def by blast
qed

subsection \<open>Many runs\<close>

definition table_of :: "byte list list \<Rightarrow> PlainItem list \<Rightarrow> item_table" where
  "table_of ids items = zip ids (map Some items)"

lemma live_table [simp]: "live (table_of ids items) = zip ids items"
  by (induction ids items rule: list_induct2') (simp_all add: table_of_def)

lemma table_of_snoc: "length ids = length items \<Longrightarrow> table_of (ids @ [i]) (items @ [it]) = table_of ids items @ [(i, Some it)]"
  by (simp add: table_of_def)

lemma ids_table: "length ids = length items \<Longrightarrow> fst ` set (table_of ids items) = set ids"
  by (simp add: table_of_def set_map [symmetric] del: set_map)

definition printed_ids :: "byte list list \<Rightarrow> (unit res \<times> byte list) list" where
  "printed_ids ids = map (\<lambda>i. (Inr (), line_of (''Item ID: '' @ hex_id i))) ids"

lemma adds_leave:
  assumes P: "aead_correct P" and pw: "typed pw" and its: "list_all addable items"
    and w: "length done_ids = length done_items" "vault_holds P v pw (table_of done_ids done_items) (file_size done_items) w"
    and r: "runs P Q clk (map (add_of v pw) items) w = (printed_ids ids, w')" and d: "distinct (done_ids @ ids)"
  shows "length ids = length items \<and> list_all (\<lambda>i. length i = 16) ids \<and>
    vault_holds P v pw (table_of (done_ids @ ids) (done_items @ items)) (file_size (done_items @ items)) w'"
  using its w r d
proof (induction items arbitrary: done_ids done_items ids w)
  case Nil
  then show ?case by (simp add: printed_ids_def)
next
  case (Cons it items)
  obtain r1 c rs w1 where run: "run_command P Q clk (fst (add_of v pw it)) True (console_at w (snd (add_of v pw it))) = (r1, c)"
    "runs P Q clk (map (add_of v pw) items) (cn_world c) = (rs, w1)" by (metis surj_pair)
  then obtain i ids' where ids: "ids = i # ids'" "r1 = Inr ()" "cn_stdout c = line_of (''Item ID: '' @ hex_id i)"
    "rs = printed_ids ids'" "w1 = w'"
    using Cons.prems(4) by (cases ids) (auto simp: printed_ids_def)
  have it: "typed (pi_secret it)" "pi_tags it = []" using Cons.prems(1) by (simp_all add: addable_def)
  have new: "i \<notin> fst ` set (table_of done_ids done_items)" using Cons.prems(2,5) ids(1) by (simp add: ids_table)
  note l = add_leaves [OF P Cons.prems(3) pw it run(1) [unfolded ids(2)] ids(3) new]
  have n: "length (table_of done_ids done_items) = length done_items" using Cons.prems(2) by (simp add: table_of_def)
  have "file_size (done_items @ [it]) = file_size done_items + 268 + length (payload_bytes it) +
      46 * bucket (Suc (length (table_of done_ids done_items))) - 46 * bucket (length (table_of done_ids done_items))"
    by (simp add: file_size_def n)
  then have "vault_holds P v pw (table_of (done_ids @ [i]) (done_items @ [it])) (file_size (done_items @ [it])) (cn_world c)"
    using l(2) by (simp add: table_of_snoc [OF Cons.prems(2)])
  from Cons.IH [OF _ _ this, of ids'] show ?case
    using Cons.prems run(2) ids l(1) by simp
qed

lemma life_leaves:
  assumes "aead_correct P" "kdf_total P" "no_faults w" "typed pw" "list_all addable items"
    and "runs P Q clk ((CmdInit v, typing [pw, pw]) # map (add_of v pw) items) w = ((Inr (), out) # printed_ids ids, w')"
    and "distinct ids"
  shows "length ids = length items" "list_all (\<lambda>i. length i = 16) ids" "vault_holds P v pw (table_of ids items) (file_size items) w'"
proof -
  obtain c where c: "run_command P Q clk (CmdInit v) True (console_at w (typing [pw, pw])) = (Inr (), c)"
    "runs P Q clk (map (add_of v pw) items) (cn_world c) = (printed_ids ids, w')"
    using assms(6) by (auto simp del: typing_simps split: prod.splits)
  have "vault_holds P v pw (table_of [] []) (file_size []) (cn_world c)"
    using init_leaves [OF assms(1-4) c(1)] by (simp add: table_of_def file_size_def)
  from adds_leave [where done_ids = "[]" and done_items = "[]", OF assms(1,4,5) _ this c(2)] assms(7)
  show "length ids = length items" "list_all (\<lambda>i. length i = 16) ids" "vault_holds P v pw (table_of ids items) (file_size items) w'"
    by simp_all
qed

subsection \<open>Listing and getting\<close>

lemma list_run:
  assumes P: "aead_correct P" and w: "vault_holds P v pw (table_of ids items) n w" "typed pw" "list_all payload_ok items"
  shows "case run_command P Q clk (CmdList v) True (console_at w (typing [pw])) of (r, c) \<Rightarrow>
    if n \<le> 67108864 then r = Inr () \<and> cn_stdout c = render_item_summaries (map summary (zip ids items))
    else (\<exists>e. r = Inl e) \<and> cn_stdout c = []"
proof -
  obtain keys h bs where st: "no_faults w" "pw \<noteq> []" "stores P pw keys h bs (table_of ids items)" "files w v = Some bs" "length bs = n"
    using w(1) unfolding vault_holds_def by blast
  obtain r w' where l: "list_vault P v pw w = (r, w')" by fastforce
  have "list_all (\<lambda>x. payload_ok (snd x)) (zip ids items)"
    using w(3) by (auto simp: list_all_iff dest: set_zip_rightD)
  then have s: "r = Inr out \<longleftrightarrow> n \<le> 67108864 \<and> out = render_item_summaries (map summary (zip ids items))" for out
    using list_vault_run [OF P st(3,4,1,2), of out] l st(5) by simp
  have "prompt_password True (console_at w (typing [pw])) = (Inr pw, console_at w [])"
    using prompt_typed [OF w(2)] by (simp add: console_at_def)
  then show ?thesis
    using s by (cases r) (auto simp: run_command_def list_command_def bind_cli_case do_io_def l write_stdout_def simp del: typing_simps)
qed

lemma get_run:
  assumes P: "aead_correct P" and w: "vault_holds P v pw (table_of ids items) n w" "typed pw" "list_all payload_ok items"
    and k: "k < length items" "length ids = length items" "list_all (\<lambda>i. length i = 16) ids"
  shows "case run_command P Q clk (CmdGet (bytes_of (hex_id (ids ! k))) v) True (console_at w (typing [pw])) of (r, c) \<Rightarrow>
    if n \<le> 67108864
    then r = Inr () \<and> cn_stdout c = line_of ''NOTE: secret printed to stdout'' @ pi_secret (items ! k) @ [10]
    else (\<exists>e. r = Inl e) \<and> cn_stdout c = []"
proof -
  obtain keys h bs where st: "no_faults w" "pw \<noteq> []" "stores P pw keys h bs (table_of ids items)" "files w v = Some bs" "length bs = n"
    using w(1) unfolding vault_holds_def by blast
  have i: "length (ids ! k) = 16" "(ids ! k, Some (items ! k)) \<in> set (table_of ids items)" "payload_ok (items ! k)"
    using k w(3) by (auto simp: list_all_length table_of_def in_set_zip)
  have "prompt_password True (console_at w (typing [pw])) = (Inr pw, console_at w [])"
    using prompt_typed [OF w(2)] by (simp add: console_at_def)
  then have "run_command P Q clk (CmdGet (bytes_of (hex_id (ids ! k))) v) True (console_at w (typing [pw])) =
      get_item P v pw (ids ! k) (console_at w [])"
    by (simp add: run_command_def get_command_def bind_cli_case hex_decode_hex_id [OF i(1)] del: typing_simps)
  then show ?thesis
    using get_item_run [OF P st(3), of "console_at w []" v "ids ! k" "items ! k"] st i(2,3)
    by (auto split: prod.splits if_splits)
qed

subsection \<open>Properties\<close>

text \<open>C2. The life of a vault: start the program with \<open>init\<close>, then any number of times with \<open>add\<close>, each run a process of its own
  on the disk the one before has left. If all of them succeed and print distinct ids, the vault file is 417 bytes long, plus 46
  for each slot of the padded table and 268 and the payload for each item. As long as this is at most 64 MiB, \<open>list\<close> prints
  exactly the added items in order, each under the id that its \<open>add\<close> printed, and \<open>get\<close> with any of these ids prints exactly the
  secret that was typed for it; beyond, both fail and print nothing.\<close>

theorem vault_life:
  assumes "aead_correct P" "kdf_total P" "no_faults w" "typed pw" "list_all addable items"
    and "runs P Q clk ((CmdInit v, typing [pw, pw]) # map (add_of v pw) items) w = ((Inr (), out) # printed_ids ids, w')"
    and "distinct ids"
  shows "length ids = length items \<and> (\<exists>bs. files w' v = Some bs \<and> length bs = file_size items) \<and>
    (case run_command P Q clk2 (CmdList v) True (console_at w' (typing [pw])) of (r, c) \<Rightarrow>
      if file_size items \<le> 67108864
      then r = Inr () \<and> cn_stdout c = render_item_summaries (map summary (zip ids items))
      else (\<exists>e. r = Inl e) \<and> cn_stdout c = []) \<and>
    (\<forall>k < length items. case run_command P Q clk2 (CmdGet (bytes_of (hex_id (ids ! k))) v) True (console_at w' (typing [pw])) of
      (r, c) \<Rightarrow>
        if file_size items \<le> 67108864
        then r = Inr () \<and> cn_stdout c = line_of ''NOTE: secret printed to stdout'' @ pi_secret (items ! k) @ [10]
        else (\<exists>e. r = Inl e) \<and> cn_stdout c = [])"
proof -
  note l = life_leaves [OF assms]
  have ok: "list_all payload_ok items" using assms(5) by (auto simp: list_all_iff addable_def)
  have f: "\<exists>bs. files w' v = Some bs \<and> length bs = file_size items" using l(3) unfolding vault_holds_def by blast
  show ?thesis
    by (intro conjI allI impI)
      (rule l f list_run [OF assms(1) l(3) assms(4) ok] get_run [OF assms(1) l(3) assms(4) ok _ l(1,2)], assumption?)+
qed

text \<open>An \<open>init\<close> and an \<open>add\<close> that succeed.\<close>

definition sample_token :: PlainItem where
  "sample_token = \<lparr>pi_kind = ApiToken, pi_label = [97], pi_tags = [], pi_secret = [2, 3]\<rparr>"

lemma sample_token_size: "length (payload_bytes sample_token) \<le> 100"
  by (simp add: sample_token_def payload_bytes_def)

lemma sample_life:
  "\<exists>out i w'. runs toy_prims toy_pqc (\<lambda>_. 0) ((CmdInit vault_v, typing [[1], [1]]) # map (add_of vault_v [1]) [sample_token])
    sample_world = ((Inr (), out) # printed_ids [i], w')"
proof -
  let ?w = sample_world and ?c = "console_at sample_world (typing [[1], [1]])"
  have q: "no_faults ?w" "files ?w vault_v = None" "\<And>seed. files ?w (unique_tmp_path vault_v seed) = None"
    "0 \<le> clock_ms ?w" "nat (clock_ms ?w) \<le> usize_max"
    by (simp_all add: sample_world_def no_faults_def usize_max_def)
  obtain w1 where c: "create toy_prims \<lparr>cp_path = vault_v, cp_password = [1]\<rparr> ?w = (Inr \<lparr>lv_path = vault_v\<rparr>, w1)"
    using create_ok [OF toy_prims_aead(1,3) toy_prims_kdf _ q(4,5,1,2,3), of "[1]"] by auto
  obtain u bs tmp where f: "files w1 = (files ?w)(tmp := None, vault_v := Some bs)" "created_file toy_prims [1] u bs"
    using create_file [OF toy_prims_aead(1) toy_prims_kdf c] by blast
  have p: "prompt_password True ?c = (Inr [1], console_at ?w (typing [[1]]))"
    "prompt_password True (console_at ?w (typing [[1]])) = (Inr [1], console_at ?w [])"
    using prompt_typed [OF typed_sample(1)] by (simp_all add: console_at_def)
  obtain out c1 where r1: "run_command toy_prims toy_pqc (\<lambda>_. 0) (CmdInit vault_v) True ?c = (Inr (), c1)" "cn_world c1 = w1"
    "cn_stdout c1 = out"
    by (simp add: run_command_def init_vault_def bind_cli_case p init_vault_with_passwords_def do_io_def c write_stdout_def
        del: typing_simps)
  obtain h where h: "stores toy_prims [1] u h bs []" "length bs = 463" using created_stores [OF toy_prims_aead(1) f(2)] by blast
  have "files w1 (unique_tmp_path vault_v seed) = None" for seed
    using tmp_differs [of vault_v seed] by (simp add: f(1) sample_world_def)
  moreover have "no_faults w1" using withinD [OF within_create TrueI c] by (simp add: evolves_def no_faults_def sample_world_def)
  ultimately have e: "holding (session_of vault_v h u) h bs w1 []"
    using h f(1) by (simp add: holding_def)
  obtain c2 where r2: "run_command toy_prims toy_pqc (\<lambda>_. 0) (CmdAdd [97] (bytes_of ''api-token'') vault_v) True
      (console_at w1 ([1] @ 10 # [2, 3] @ 10 # [])) = (Inr (), c2)"
    using sample_add_run [OF e] by (auto simp: session_of_fields)
  have p2: "prompt_password True (console_at w1 [1, 10, 2, 3, 10]) = (Inr [1], console_at w1 [2, 3, 10])"
    "prompt_password True (console_at w1 [2, 3, 10]) = (Inr [2, 3], console_at w1 [])"
    using prompt_typed [OF typed_sample(1), of "console_at w1 [1, 10, 2, 3, 10]"]
      prompt_typed [OF typed_sample(2), of "console_at w1 [2, 3, 10]"] by (simp_all add: console_at_def)
  have i: "\<exists>i. cn_stdout c2 = line_of (''Item ID: '' @ hex_id i)"
    using r2 by (auto simp: run_command_def add_command_def add_item_def bind_cli_eq_Inr do_io_eq write_stdout_Inr p2)
  then show ?thesis
    using r1 r2 by (auto simp: add_of_def sample_token_def printed_ids_def)
qed

theorem vault_life_witness:
  "\<exists>out i w'. runs toy_prims toy_pqc (\<lambda>_. 0) ((CmdInit vault_v, typing [[1], [1]]) # map (add_of vault_v [1]) [sample_token])
      sample_world = ((Inr (), out) # printed_ids [i], w') \<and>
    (case run_command toy_prims toy_pqc (\<lambda>_. 5) (CmdGet (bytes_of (hex_id i)) vault_v) True (console_at w' (typing [[1]])) of
      (r, c) \<Rightarrow> r = Inr () \<and> cn_stdout c = line_of ''NOTE: secret printed to stdout'' @ [2, 3] @ [10])"
proof -
  obtain out i w' where r: "runs toy_prims toy_pqc (\<lambda>_. 0) ((CmdInit vault_v, typing [[1], [1]]) # map (add_of vault_v [1]) [sample_token])
      sample_world = ((Inr (), out) # printed_ids [i], w')"
    using sample_life by blast
  have n: "no_faults sample_world" by (simp add: no_faults_def sample_world_def)
  have a: "list_all addable [sample_token]"
    by (simp add: addable_def sample_token_def payload_ok_def typed_sample in_rng_def)
  have s: "file_size [sample_token] \<le> 67108864" using sample_token_size by (simp add: file_size_def)
  show ?thesis
    using vault_life [OF toy_prims_aead(1) toy_prims_kdf n typed_sample(1) a r, of "\<lambda>_. 5"] s r
    by (intro exI conjI) (assumption, auto simp: sample_token_def)
qed

end
