(* ===== verification/Secret_Types.thy ===== *)
theory Secret_Types
  imports Device_Identity
begin

text \<open>
  The types that hold secrets: \<open>Key<N>\<close> (meissnerseal-crypto/src/types.rs), \<open>SecretBytes\<close> and \<open>SecretString\<close>
  (meissnerseal-security/src/secret_lifecycle.rs), \<open>SecretPayload\<close> (transfer/secret_payload.rs), with their scoped
  access and their redacted \<open>Debug\<close> output, and the hash functions of meissnerseal-crypto/src/hash.rs.
  Everywhere else in the model a secret is its bytes, and dropping a value is not a step.
\<close>

subsection \<open>Keys of a fixed length\<close>

text \<open>An array \<open>[u8; N]\<close> is a list of that length; \<open>from_bytes\<close> of another length does not compile.\<close>

typedef (overloaded) 'n Key = "{bs :: byte list. length bs = LENGTH('n :: len0)}"
  morphisms as_slice from_bytes
  by (rule exI [of _ "replicate LENGTH('n) 0"]) simp

definition KEY_LEN :: "'n :: len0 Key itself \<Rightarrow> nat" where
  "KEY_LEN _ = LENGTH('n)"

text \<open>The comparison in constant time is the subtle package's, the parameter \<open>ct\<close>.\<close>

definition ct_eq :: "(byte list \<Rightarrow> byte list \<Rightarrow> bool) \<Rightarrow> byte list \<Rightarrow> byte list \<Rightarrow> bool" where
  "ct_eq ct a b = ct a b"

definition key_ct_eq :: "(byte list \<Rightarrow> byte list \<Rightarrow> bool) \<Rightarrow> 'n :: len0 Key \<Rightarrow> 'n Key \<Rightarrow> bool" where
  "key_ct_eq ct a b = ct (as_slice a) (as_slice b)"

definition redacted_debug :: "string \<Rightarrow> string" where
  "redacted_debug t = t @ ''([REDACTED])''"

definition key_debug :: "'n :: len0 Key \<Rightarrow> string" where
  "key_debug k = ''Key<'' @ dec_of LENGTH('n) @ ''>([REDACTED])''"

lemma as_slice_length [simp]: "length (as_slice (k :: 'n :: len0 Key)) = LENGTH('n)"
  using as_slice [of k] by simp

lemma from_bytes_slice [simp]: "length bs = LENGTH('n :: len0) \<Longrightarrow> as_slice (from_bytes bs :: 'n Key) = bs"
  by (simp add: from_bytes_inverse)

text \<open>What the Kani harnesses of types.rs check.\<close>

lemma key_lengths:
  "length (as_slice (k32 :: 32 Key)) = 32" "length (as_slice (k24 :: 24 Key)) = 24"
  "length (as_slice (k12 :: 12 Key)) = 12" "length (as_slice (k16 :: 16 Key)) = 16"
  "length (as_slice (k :: 'n :: len0 Key)) = KEY_LEN TYPE('n Key)"
  by (simp_all add: KEY_LEN_def)

lemma key_ct_eq_iff:
  assumes "\<And>xs ys. length xs = length ys \<Longrightarrow> ct xs ys \<longleftrightarrow> xs = ys"
  shows "key_ct_eq ct a b \<longleftrightarrow> a = b"
  using assms by (simp add: key_ct_eq_def as_slice_inject)

lemma key_debug_32: "key_debug (k :: 32 Key) = ''Key<32>([REDACTED])''"
proof -
  have "dec_of 32 = ''32''" by code_simp
  then show ?thesis by (simp add: key_debug_def)
qed

subsection \<open>Secrets of any length\<close>

datatype SecretBytes = SecretBytes "byte list"

primrec secret_bytes_len :: "SecretBytes \<Rightarrow> nat" where
  "secret_bytes_len (SecretBytes bs) = length bs"

primrec secret_bytes_is_empty :: "SecretBytes \<Rightarrow> bool" where
  "secret_bytes_is_empty (SecretBytes bs) \<longleftrightarrow> bs = []"

primrec secret_bytes_with_secret :: "SecretBytes \<Rightarrow> (byte list \<Rightarrow> 'a) \<Rightarrow> 'a" where
  "secret_bytes_with_secret (SecretBytes bs) f = f bs"

definition secret_bytes_debug :: "SecretBytes \<Rightarrow> string" where
  "secret_bytes_debug s = ''SecretBytes([REDACTED])''"

text \<open>A string is its UTF-8 bytes.\<close>

datatype SecretString = SecretString "byte list"

primrec secret_string_len :: "SecretString \<Rightarrow> nat" where
  "secret_string_len (SecretString s) = length s"

primrec secret_string_is_empty :: "SecretString \<Rightarrow> bool" where
  "secret_string_is_empty (SecretString s) \<longleftrightarrow> s = []"

primrec secret_string_with_secret :: "SecretString \<Rightarrow> (byte list \<Rightarrow> 'a) \<Rightarrow> 'a" where
  "secret_string_with_secret (SecretString s) f = f s"

definition secret_string_debug :: "SecretString \<Rightarrow> string" where
  "secret_string_debug s = ''SecretString([REDACTED])''"

text \<open>\<open>into_inner\<close> takes the bytes and leaves an empty payload to be dropped.\<close>

datatype SecretPayload = SecretPayload "byte list"

primrec secret_payload_len :: "SecretPayload \<Rightarrow> nat" where
  "secret_payload_len (SecretPayload bs) = length bs"

primrec secret_payload_is_empty :: "SecretPayload \<Rightarrow> bool" where
  "secret_payload_is_empty (SecretPayload bs) \<longleftrightarrow> bs = []"

primrec secret_payload_with_secret :: "SecretPayload \<Rightarrow> (byte list \<Rightarrow> 'a) \<Rightarrow> 'a" where
  "secret_payload_with_secret (SecretPayload bs) f = f bs"

primrec secret_payload_into_inner :: "SecretPayload \<Rightarrow> byte list \<times> SecretPayload" where
  "secret_payload_into_inner (SecretPayload bs) = (bs, SecretPayload [])"

definition secret_payload_debug :: "SecretPayload \<Rightarrow> string" where
  "secret_payload_debug s = ''SecretPayload([REDACTED])''"

lemma secret_empty_iff:
  "secret_bytes_is_empty a \<longleftrightarrow> secret_bytes_len a = 0" "secret_string_is_empty b \<longleftrightarrow> secret_string_len b = 0"
  "secret_payload_is_empty c \<longleftrightarrow> secret_payload_len c = 0"
  by (cases a, simp) (cases b, simp, cases c, simp)

text \<open>The scoped accessors are all there is: values with the same view are the same.\<close>

lemma secret_view_ext:
  "secret_bytes_with_secret a (\<lambda>bs. bs) = secret_bytes_with_secret a' (\<lambda>bs. bs) \<Longrightarrow> a = a'"
  "secret_payload_with_secret c (\<lambda>bs. bs) = fst (secret_payload_into_inner c)"
  by (cases a, cases a', simp) (cases c, simp)

subsection \<open>Redacted output of the other secret types\<close>

definition ciphertext_debug :: "byte list \<Rightarrow> string" where
  "ciphertext_debug c = ''Ciphertext([REDACTED])''"

definition plaintext_debug :: "byte list \<Rightarrow> string" where
  "plaintext_debug p = ''Plaintext([REDACTED])''"

definition signing_private_key_debug :: "SigningPrivateKey \<Rightarrow> string" where
  "signing_private_key_debug k = ''SigningPrivateKey([REDACTED])''"

definition device_keypair_debug :: "DeviceKeypair \<Rightarrow> string" where
  "device_keypair_debug k = ''DeviceKeypair([REDACTED])''"

text \<open>All of them are what the macro of meissnerseal-security/src/redaction.rs would give.\<close>

lemma redacted_debugs:
  "secret_bytes_debug a = redacted_debug ''SecretBytes''" "secret_string_debug b = redacted_debug ''SecretString''"
  "secret_payload_debug c = redacted_debug ''SecretPayload''" "ciphertext_debug x = redacted_debug ''Ciphertext''"
  "plaintext_debug x = redacted_debug ''Plaintext''" "signing_private_key_debug s = redacted_debug ''SigningPrivateKey''"
  "device_keypair_debug d = redacted_debug ''DeviceKeypair''"
  "key_debug (k :: 'n :: len0 Key) = redacted_debug (''Key<'' @ dec_of LENGTH('n) @ ''>'')"
  by (simp_all add: redacted_debug_def secret_bytes_debug_def secret_string_debug_def secret_payload_debug_def
      ciphertext_debug_def plaintext_debug_def signing_private_key_debug_def device_keypair_debug_def key_debug_def)

subsection \<open>Zeroization\<close>

text \<open>
  What overwriting leaves visible of a buffer is the zeroize package's, the parameter \<open>z\<close>: zeros for an
  array, nothing for a vector.
\<close>

definition key_zeroize :: "(byte list \<Rightarrow> byte list) \<Rightarrow> 'n :: len0 Key \<Rightarrow> 'n Key" where
  "key_zeroize z k = from_bytes (z (as_slice k))"

primrec secret_bytes_zeroize :: "(byte list \<Rightarrow> byte list) \<Rightarrow> SecretBytes \<Rightarrow> SecretBytes" where
  "secret_bytes_zeroize z (SecretBytes bs) = SecretBytes (z bs)"

primrec secret_string_zeroize :: "(byte list \<Rightarrow> byte list) \<Rightarrow> SecretString \<Rightarrow> SecretString" where
  "secret_string_zeroize z (SecretString s) = SecretString (z s)"

primrec secret_payload_zeroize :: "(byte list \<Rightarrow> byte list) \<Rightarrow> SecretPayload \<Rightarrow> SecretPayload" where
  "secret_payload_zeroize z (SecretPayload bs) = SecretPayload (z bs)"

definition signing_private_key_zeroize :: "(byte list \<Rightarrow> byte list) \<Rightarrow> SigningPrivateKey \<Rightarrow> SigningPrivateKey" where
  "signing_private_key_zeroize z k = k\<lparr>ssk_bytes := z (ssk_bytes k)\<rparr>"

definition device_keypair_zeroize :: "(byte list \<Rightarrow> byte list) \<Rightarrow> DeviceKeypair \<Rightarrow> DeviceKeypair" where
  "device_keypair_zeroize z k =
     \<lparr>dk_classical_private_key = z (dk_classical_private_key k), dk_pqc_private_key = z (dk_pqc_private_key k),
      dk_signing_private_key = signing_private_key_zeroize z (dk_signing_private_key k)\<rparr>"

text \<open>A device key pair keeps nothing but the algorithm of its signing key.\<close>

lemma device_keypair_zeroized:
  assumes "\<And>bs. set (z bs) \<subseteq> {0}"
  shows "set (dk_classical_private_key (device_keypair_zeroize z k)) \<union> set (dk_pqc_private_key (device_keypair_zeroize z k)) \<union>
      set (ssk_bytes (dk_signing_private_key (device_keypair_zeroize z k))) \<subseteq> {0}"
    and "ssk_algorithm (dk_signing_private_key (device_keypair_zeroize z k)) = ssk_algorithm (dk_signing_private_key k)"
  using assms by (simp_all add: device_keypair_zeroize_def signing_private_key_zeroize_def)

lemma key_zeroized:
  assumes "\<And>bs. length (z bs) = length bs \<and> set (z bs) \<subseteq> {0}"
  shows "as_slice (key_zeroize z (k :: 'n :: len0 Key)) = replicate LENGTH('n) 0"
proof -
  have "length (z (as_slice k)) = LENGTH('n)" "\<forall>b \<in> set (z (as_slice k)). b = 0"
    using assms [of "as_slice k"] by auto
  then have "z (as_slice k) = replicate LENGTH('n) 0" using replicate_length_same [of "z (as_slice k)" 0] by simp
  then show ?thesis by (simp add: key_zeroize_def)
qed

subsection \<open>Hashes\<close>

definition sha256_bytes :: "prims \<Rightarrow> byte list \<Rightarrow> byte list" where
  "sha256_bytes P input = sha256_digest P input"

definition blake2b_256_bytes :: "prims \<Rightarrow> byte list \<Rightarrow> byte list" where
  "blake2b_256_bytes P input = blake2b_256_digest P input"

end
