(* ===== verification/Audit_Guard.thy ===== *)
theory Audit_Guard
  imports Row_Laws
begin

text \<open>
  src/crates/meissnerseal-security/src/audit_guard.rs: audit labels and the redacted rendering of
  audit events. \<open>emit\<close> does nothing.
\<close>

subsection \<open>Labels\<close>

datatype AuditLabel = AuditLabel (label_str: "byte list")

datatype InvalidAuditLabel = InvalidAuditLabel

definition is_ascii_alphanumeric :: "nat \<Rightarrow> bool" where
  "is_ascii_alphanumeric c \<longleftrightarrow> (48 \<le> c \<and> c \<le> 57) \<or> (65 \<le> c \<and> c \<le> 90) \<or> (97 \<le> c \<and> c \<le> 122)"

definition audit_label_try_from :: "byte list \<Rightarrow> (InvalidAuditLabel, AuditLabel) rs" where
  "audit_label_try_from s =
     (if length s > 128 \<or> \<not> list_all (\<lambda>c. is_ascii_alphanumeric c \<or> c = 45 \<or> c = 58) (utf8_chars s)
      then err InvalidAuditLabel
      else ok (AuditLabel s))"

subsection \<open>Events\<close>

datatype AuditEventKind =
    VaultUnlocked
  | VaultLocked
  | ItemAccessed AuditLabel
  | ItemCreated AuditLabel
  | ItemDeleted AuditLabel
  | DeviceAdded AuditLabel
  | DeviceRevoked AuditLabel
  | ExportPerformed
  | ImportPerformed

record AuditEvent =
  ae_kind :: AuditEventKind
  ae_timestamp_ms :: u64
  ae_device_id :: AuditLabel

primrec audit_event_debug :: "AuditEventKind \<Rightarrow> string" where
  "audit_event_debug VaultUnlocked = ''AuditEventKind::VaultUnlocked''"
| "audit_event_debug VaultLocked = ''AuditEventKind::VaultLocked''"
| "audit_event_debug (ItemAccessed item_id) = ''AuditEventKind::ItemAccessed([REDACTED])''"
| "audit_event_debug (ItemCreated item_id) = ''AuditEventKind::ItemCreated([REDACTED])''"
| "audit_event_debug (ItemDeleted item_id) = ''AuditEventKind::ItemDeleted([REDACTED])''"
| "audit_event_debug (DeviceAdded device_id) = ''AuditEventKind::DeviceAdded([REDACTED])''"
| "audit_event_debug (DeviceRevoked device_id) = ''AuditEventKind::DeviceRevoked([REDACTED])''"
| "audit_event_debug ExportPerformed = ''AuditEventKind::ExportPerformed''"
| "audit_event_debug ImportPerformed = ''AuditEventKind::ImportPerformed''"

definition emit :: "AuditEvent \<Rightarrow> unit" where
  "emit event = ()"

subsection \<open>What a label can be\<close>

definition label_bytes :: "byte list \<Rightarrow> bool" where
  "label_bytes s \<longleftrightarrow> list_all (\<lambda>b. is_ascii_alphanumeric (unat b) \<or> b = 45 \<or> b = 58) s"

lemma label_char_ascii: "is_ascii_alphanumeric c \<or> c = 45 \<or> c = 58 \<Longrightarrow> c < 128"
  by (auto simp: is_ascii_alphanumeric_def)

lemma label_byte_iff: "is_ascii_alphanumeric (unat b) \<or> b = 45 \<or> b = 58 \<longleftrightarrow>
    is_ascii_alphanumeric (unat b) \<or> unat b = 45 \<or> unat (b :: byte) = 58"
  by (auto simp: word_unat_eq_iff)

lemma label_bytes_ascii: "label_bytes s \<Longrightarrow> list_all (\<lambda>b. unat b < 128) s"
  by (auto simp: label_bytes_def list_all_iff is_ascii_alphanumeric_def)

text \<open>A label holds single-byte characters only, so characters and bytes agree on it.\<close>

lemma label_chars:
  assumes "utf8_valid s"
  shows "list_all (\<lambda>c. is_ascii_alphanumeric c \<or> c = 45 \<or> c = 58) (utf8_chars s) \<longleftrightarrow> label_bytes s"
proof
  assume l: "list_all (\<lambda>c. is_ascii_alphanumeric c \<or> c = 45 \<or> c = 58) (utf8_chars s)"
  then have a: "\<forall>c \<in> set (utf8_chars s). c < 128" using label_char_ascii unfolding list_all_iff by blast
  then have e: "map utf8_encode (utf8_chars s) = map (\<lambda>c. [of_nat c]) (utf8_chars s)"
    by (simp add: utf8_encode_def)
  have "concat (map (\<lambda>c. [of_nat c]) (utf8_chars s)) = s"
    unfolding e [symmetric] by (rule utf8_encode_chars [OF assms])
  moreover have "concat (map (\<lambda>c. [f c]) cs) = map f cs" for f :: "nat \<Rightarrow> byte" and cs by (induction cs) simp_all
  ultimately have s: "set s = of_nat ` set (utf8_chars s)" by (metis set_map)
  have "is_ascii_alphanumeric (unat b) \<or> b = 45 \<or> b = 58" if "b \<in> set s" for b
  proof -
    from that have "b \<in> of_nat ` set (utf8_chars s)" by (simp only: s)
    then obtain c where c: "c \<in> set (utf8_chars s)" "b = of_nat c" by (rule imageE)
    moreover have "c < 128" using a c(1) by blast
    ultimately have "unat b = c" by (simp add: unat_of_nat)
    then show ?thesis unfolding label_byte_iff using l c(1) by (auto simp: list_all_iff)
  qed
  then show "label_bytes s" by (simp add: label_bytes_def list_all_iff)
next
  assume l: "label_bytes s"
  then show "list_all (\<lambda>c. is_ascii_alphanumeric c \<or> c = 45 \<or> c = 58) (utf8_chars s)"
    unfolding utf8_chars_single [OF label_bytes_ascii [OF l]] label_bytes_def
    by (simp add: list_all_iff label_byte_iff)
qed

lemma digit_alphanumeric: "digit_val b = Some n \<Longrightarrow> is_ascii_alphanumeric (unat b)"
  by (auto simp: digit_val_def in_rng_def is_ascii_alphanumeric_def split: if_splits)

lemma label_bytes_hex: "label_bytes (hex_encode i)"
proof (induction i)
  case (Cons b i)
  have "unat b div 16 < 16" "unat b mod 16 < 16" using unat_byte_lt [of b] by auto
  note d = this [THEN hex_digit_lower, THEN digit_alphanumeric]
  show ?case using Cons d by (simp add: hex_encode_Cons hex_byte_def bytes_of_def label_bytes_def)
qed (simp add: label_bytes_def)

subsection \<open>Properties\<close>



end
